(* ===== verification/Prelude.thy ===== *)
theory Prelude
  imports Main "HOL-Library.Multiset"
begin

text \<open>
  What the components share: the JSON values that travel as \<open>json.RawMessage\<close>, byte strings
  read as UTF-8 the way Go ranges over runes, decimal rendering (\<open>strconv.FormatInt\<close>), and
  the loops over slices the code repeats (replace every match, replace the first match, keep
  all but one key).  Go's \<open>string\<close> is a list of bytes here; \<open>int\<close> and
  \<open>int64\<close> are \<open>int\<close>: the code only compares them, or adds one to sequence and
  revision numbers.
\<close>

named_theorems wf_intro \<open>an operation keeps a component's invariant\<close>
named_theorems frame \<open>fields an operation leaves alone\<close>

section \<open>JSON values\<close>

text \<open>
  A JSON document.  Object members keep their order and may repeat, as in the text.  A
  \<open>json.RawMessage\<close> is \<open>None\<close> when it is empty (\<open>len == 0\<close>).
\<close>

datatype json =
    JNull
  | JBool bool
  | JNum int
  | JStr string
  | JArr "json list"
  | JObj "(string \<times> json) list"

type_synonym raw_message = "json option"

abbreviation raw_present :: "raw_message \<Rightarrow> bool" where
  "raw_present r \<equiv> r \<noteq> None"

text \<open>The ASCII part of the case folding that \<open>encoding/json\<close> matches member names by.\<close>

definition lower_byte :: "char \<Rightarrow> char" where
  "lower_byte c = (let n = of_char c :: nat in if 65 \<le> n \<and> n \<le> 90 then char_of (n + 32) else c)"

definition upper_byte :: "char \<Rightarrow> char" where
  "upper_byte c = (let n = of_char c :: nat in if 97 \<le> n \<and> n \<le> 122 then char_of (n - 32) else c)"

definition equal_fold :: "string \<Rightarrow> string \<Rightarrow> bool" where
  "equal_fold a b \<longleftrightarrow> map lower_byte a = map lower_byte b"

section \<open>UTF-8\<close>

text \<open>
  \<open>rune_width s\<close> is how many bytes the first rune of \<open>s\<close> takes: the accepted ranges
  are those of \<open>unicode/utf8\<close>, and a byte that starts no valid encoding is a rune of its own.
\<close>

definition in_range :: "nat \<Rightarrow> nat \<Rightarrow> char \<Rightarrow> bool" where
  "in_range lo hi c \<longleftrightarrow> lo \<le> (of_char c :: nat) \<and> (of_char c :: nat) \<le> hi"

definition second_byte :: "char \<Rightarrow> (nat \<times> nat) option" where
  "second_byte b =
     (if in_range 0xC2 0xDF b then Some (0x80, 0xBF)
      else if in_range 0xE0 0xE0 b then Some (0xA0, 0xBF)
      else if in_range 0xED 0xED b then Some (0x80, 0x9F)
      else if in_range 0xE1 0xEF b then Some (0x80, 0xBF)
      else if in_range 0xF0 0xF0 b then Some (0x90, 0xBF)
      else if in_range 0xF1 0xF3 b then Some (0x80, 0xBF)
      else if in_range 0xF4 0xF4 b then Some (0x80, 0x8F)
      else None)"

definition encoded_len :: "char \<Rightarrow> nat" where
  "encoded_len b = (if in_range 0xF0 0xF4 b then 4 else if in_range 0xE0 0xEF b then 3 else 2)"

definition valid_head :: "string \<Rightarrow> bool" where
  "valid_head s =
     (case s of [] \<Rightarrow> False
      | b # r \<Rightarrow>
        (if in_range 0 0x7F b then True
         else (case second_byte b of None \<Rightarrow> False
               | Some (lo, hi) \<Rightarrow>
                   length r \<ge> encoded_len b - 1
                   \<and> (case r of [] \<Rightarrow> False
                      | c # r' \<Rightarrow> in_range lo hi c
                          \<and> list_all (in_range 0x80 0xBF) (take (encoded_len b - 2) r')))))"

definition rune_width :: "string \<Rightarrow> nat" where
  "rune_width s =
     (case s of [] \<Rightarrow> 0
      | b # r \<Rightarrow> if in_range 0 0x7F b \<or> \<not> valid_head s then 1 else encoded_len b)"

fun runes :: "string \<Rightarrow> string list" where
  "runes [] = []"
| "runes (b # r) =
     (let w = rune_width (b # r) in take w (b # r) # runes (drop (w - 1) r))"

declare runes.simps(2) [simp del]

lemma rune_width_pos: "0 < rune_width (b # r)"
  by (simp add: rune_width_def encoded_len_def)

lemma concat_runes: "concat (runes s) = s"
proof (induction s rule: runes.induct)
  case (2 b r)
  obtain w where w: "rune_width (b # r) = Suc w"
    using rune_width_pos [of b r] by (cases "rune_width (b # r)") auto
  then show ?case
    using 2 by (simp add: runes.simps(2) Let_def)
qed simp

lemma runes_nonempty: "c \<in> set (runes s) \<Longrightarrow> c \<noteq> []"
proof (induction s rule: runes.induct)
  case (2 b r)
  then show ?case
    using rune_width_pos [of b r] by (auto simp: runes.simps(2) Let_def)
qed simp

lemma length_runes_le: "length (runes s) \<le> length s"
proof (induction s rule: runes.induct)
  case (2 b r)
  then have "length (runes (drop (rune_width (b # r) - 1) r)) \<le> length r"
    by (simp add: Let_def)
  then show ?case by (simp add: runes.simps(2) Let_def)
qed simp

lemma runes_eq_Nil [simp]: "runes s = [] \<longleftrightarrow> s = []"
  by (cases s) (simp_all add: runes.simps(2) Let_def)

text \<open>U+FFFD, what a rune that is no valid encoding becomes when it is written back.\<close>

definition replacement_char :: string where
  "replacement_char = map char_of [0xEF, 0xBF, 0xBD :: nat]"

definition rune_bytes :: "string \<Rightarrow> string" where
  "rune_bytes c = (if valid_head c then c else replacement_char)"

definition ellipsis :: string where
  "ellipsis = map char_of [0xE2, 0x80, 0xA6 :: nat]"

definition em_dash :: string where
  "em_dash = [CHR 0xE2, CHR 0x80, CHR 0x94]"

text \<open>The runes \<open>unicode.IsSpace\<close> accepts, and \<open>strings.TrimSpace\<close>.\<close>

definition is_space_rune :: "string \<Rightarrow> bool" where
  "is_space_rune c \<longleftrightarrow>
     map (of_char :: char \<Rightarrow> nat) c \<in>
       {[9], [10], [11], [12], [13], [32], [0xC2, 0x85], [0xC2, 0xA0], [0xE1, 0x9A, 0x80],
        [0xE2, 0x80, 0x80], [0xE2, 0x80, 0x81], [0xE2, 0x80, 0x82], [0xE2, 0x80, 0x83],
        [0xE2, 0x80, 0x84], [0xE2, 0x80, 0x85], [0xE2, 0x80, 0x86], [0xE2, 0x80, 0x87],
        [0xE2, 0x80, 0x88], [0xE2, 0x80, 0x89], [0xE2, 0x80, 0x8A], [0xE2, 0x80, 0xA8],
        [0xE2, 0x80, 0xA9], [0xE2, 0x80, 0xAF], [0xE2, 0x81, 0x9F], [0xE3, 0x80, 0x80]}"

definition trim_space :: "string \<Rightarrow> string" where
  "trim_space s =
     concat (rev (dropWhile is_space_rune (rev (dropWhile is_space_rune (runes s)))))"

section \<open>Decimal numbers\<close>

fun dec_digits :: "nat \<Rightarrow> string" where
  "dec_digits n =
     (if n < 10 then [char_of (48 + n)] else dec_digits (n div 10) @ [char_of (48 + n mod 10)])"

declare dec_digits.simps [simp del]

text \<open>\<open>strconv.FormatInt(i, 10)\<close>.\<close>

definition format_int :: "int \<Rightarrow> string" where
  "format_int i = (if i < 0 then CHR ''-'' # dec_digits (nat (- i)) else dec_digits (nat i))"

definition digit_char :: "nat \<Rightarrow> char" where
  "digit_char k = char_of (48 + k)"

lemma of_char_digit: "k < 10 \<Longrightarrow> (of_char (digit_char k) :: nat) = 48 + k"
  by (simp add: digit_char_def)

lemma digit_inj: "a < 10 \<Longrightarrow> b < 10 \<Longrightarrow> digit_char a = digit_char b \<Longrightarrow> a = b"
  by (metis of_char_digit add_left_cancel)

lemma dec_digits_step:
  "dec_digits n =
     (if n < 10 then [digit_char n] else dec_digits (n div 10) @ [digit_char (n mod 10)])"
  by (subst dec_digits.simps) (simp add: digit_char_def)

lemma dec_digits_small: "n < 10 \<Longrightarrow> dec_digits n = [digit_char n]"
  by (subst dec_digits_step) simp

lemma dec_digits_large: "\<not> n < 10 \<Longrightarrow> dec_digits n = dec_digits (n div 10) @ [digit_char (n mod 10)]"
  by (subst dec_digits_step) simp

lemma dec_digits_not_Nil [simp]: "dec_digits n \<noteq> []" "[] \<noteq> dec_digits n"
  by (cases "n < 10"; simp add: dec_digits_small dec_digits_large)+

lemma dec_digits_inj: "dec_digits m = dec_digits n \<Longrightarrow> m = n"
proof (induction m arbitrary: n rule: less_induct)
  case (less m)
  show ?case
  proof (cases "m < 10 \<or> n < 10")
    case True
    then show ?thesis
      using less.prems
      by (cases "m < 10"; cases "n < 10") (auto simp: dec_digits_small dec_digits_large dest: digit_inj)
  next
    case False
    then have "dec_digits (m div 10) = dec_digits (n div 10)"
      and "digit_char (m mod 10) = digit_char (n mod 10)"
      using less.prems by (simp_all add: dec_digits_large)
    then have "m div 10 = n div 10" and "m mod 10 = n mod 10"
      using False less.IH [of "m div 10"] digit_inj [of "m mod 10" "n mod 10"] by simp_all
    then show ?thesis by (metis div_mult_mod_eq)
  qed
qed

lemma dec_digits_chars: "c \<in> set (dec_digits n) \<Longrightarrow> 48 \<le> (of_char c :: nat)"
proof (induction n rule: less_induct)
  case (less n)
  then show ?case
    using less.IH [of "n div 10"]
    by (cases "n < 10") (auto simp: dec_digits_small dec_digits_large of_char_digit)
qed

lemma dec_digits_no_minus: "dec_digits n \<noteq> CHR ''-'' # xs"
  using dec_digits_chars [of "CHR ''-''" n] by fastforce

lemma format_int_inj: "format_int a = format_int b \<Longrightarrow> a = b"
  using dec_digits_no_minus [of "nat a"] dec_digits_no_minus [of "nat b"]
  by (auto simp: format_int_def split: if_splits dest!: dec_digits_inj) metis+

section \<open>Loops over slices\<close>

text \<open>
  \<open>for i := range xs { if P(xs[i]) { xs[i] = f(xs[i]) } }\<close>
\<close>

definition update_where :: "('a \<Rightarrow> bool) \<Rightarrow> ('a \<Rightarrow> 'a) \<Rightarrow> 'a list \<Rightarrow> 'a list" where
  "update_where P f xs = map (\<lambda>x. if P x then f x else x) xs"

text \<open>The same loop with a \<open>break\<close> after the first match.\<close>

fun update_first :: "('a \<Rightarrow> bool) \<Rightarrow> ('a \<Rightarrow> 'a) \<Rightarrow> 'a list \<Rightarrow> 'a list" where
  "update_first P f [] = []"
| "update_first P f (x # xs) = (if P x then f x # xs else x # update_first P f xs)"

text \<open>The last element that satisfies \<open>P\<close>: a loop that keeps overwriting its answer.\<close>

definition last_match :: "('a \<Rightarrow> bool) \<Rightarrow> 'a list \<Rightarrow> 'a option" where
  "last_match P xs = List.find P (rev xs)"

lemma length_update_where [simp]: "length (update_where P f xs) = length xs"
  by (simp add: update_where_def)

lemma length_update_first [simp]: "length (update_first P f xs) = length xs"
  by (induction xs) auto

lemma update_where_Nil [simp]: "update_where P f [] = []"
  by (simp add: update_where_def)

lemma update_where_Cons [simp]:
  "update_where P f (x # xs) = (if P x then f x else x) # update_where P f xs"
  by (simp add: update_where_def)

lemma update_where_append [simp]:
  "update_where P f (xs @ ys) = update_where P f xs @ update_where P f ys"
  by (simp add: update_where_def)

lemma map_update_where: "(\<And>x. P x \<Longrightarrow> g (f x) = g x) \<Longrightarrow> map g (update_where P f xs) = map g xs"
  by (auto simp: update_where_def)

lemma map_update_first: "(\<And>x. P x \<Longrightarrow> g (f x) = g x) \<Longrightarrow> map g (update_first P f xs) = map g xs"
  by (induction xs) auto

lemma update_first_none: "(\<forall>x\<in>set xs. \<not> P x) \<Longrightarrow> update_first P f xs = xs"
  by (induction xs) auto

lemma update_where_none: "(\<forall>x\<in>set xs. \<not> P x) \<Longrightarrow> update_where P f xs = xs"
  by (induction xs) auto

lemma update_first_eq_where:
  assumes "distinct (map key xs)"
  shows "update_first (\<lambda>x. key x = k) f xs = update_where (\<lambda>x. key x = k) f xs"
  using assms
proof (induction xs)
  case (Cons x xs)
  show ?case
  proof (cases "key x = k")
    case True
    with Cons.prems have "\<forall>y\<in>set xs. key y \<noteq> k" by (auto simp: image_iff)
    then show ?thesis using True by (simp add: update_where_none)
  next
    case False
    with Cons show ?thesis by simp
  qed
qed simp

lemma find_None_iff_key: "List.find P xs = None \<longleftrightarrow> (\<forall>x\<in>set xs. \<not> P x)"
  by (induction xs) auto

lemma find_SomeD: "List.find P xs = Some x \<Longrightarrow> x \<in> set xs \<and> P x"
  by (induction xs) (auto split: if_splits)

lemma find_append:
  "List.find P (xs @ ys) = (case List.find P xs of None \<Rightarrow> List.find P ys | Some x \<Rightarrow> Some x)"
  by (induction xs) auto

lemma last_match_None: "last_match P xs = None \<longleftrightarrow> (\<forall>x\<in>set xs. \<not> P x)"
  by (simp add: last_match_def find_None_iff_key)

lemma last_match_SomeD: "last_match P xs = Some x \<Longrightarrow> x \<in> set xs \<and> P x"
  unfolding last_match_def by (drule find_SomeD) simp

lemma last_match_snoc: "last_match P (xs @ [x]) = (if P x then Some x else last_match P xs)"
  by (simp add: last_match_def)

text \<open>
  Replace the element with this key, or append a new one: what a keyed table does on an
  upsert, and what the code's first-match loops with a \<open>found\<close> flag do.
\<close>

definition put_keyed :: "('a \<Rightarrow> 'k) \<Rightarrow> 'a \<Rightarrow> 'a list \<Rightarrow> 'a list" where
  "put_keyed key a xs =
     (if \<exists>x\<in>set xs. key x = key a then update_first (\<lambda>x. key x = key a) (\<lambda>_. a) xs
      else xs @ [a])"

lemma put_keyed_code [code]:
  "put_keyed key a xs =
     (if list_ex (\<lambda>x. key x = key a) xs then update_first (\<lambda>x. key x = key a) (\<lambda>_. a) xs
      else xs @ [a])"
  by (simp add: put_keyed_def list_ex_iff)

lemma map_key_update_first: "map key (update_first (\<lambda>x. key x = key a) (\<lambda>_. a) xs) = map key xs"
  by (induction xs) auto

lemma map_key_put_keyed:
  "map key (put_keyed key a xs) =
     (if key a \<in> key ` set xs then map key xs else map key xs @ [key a])"
  unfolding put_keyed_def by (simp add: map_key_update_first image_iff) metis

lemma distinct_put_keyed [wf_intro]:
  "distinct (map key xs) \<Longrightarrow> distinct (map key (put_keyed key a xs))"
  by (auto simp: map_key_put_keyed)

lemma find_update_first_same:
  "List.find (\<lambda>x. key x = key a) (update_first (\<lambda>x. key x = key a) (\<lambda>_. a) xs) =
     (if key a \<in> key ` set xs then Some a else None)"
  by (induction xs) auto

lemma find_update_first_other:
  "k \<noteq> key a \<Longrightarrow>
   List.find (\<lambda>x. key x = k) (update_first (\<lambda>x. key x = key a) (\<lambda>_. a) xs) =
     List.find (\<lambda>x. key x = k) xs"
  by (induction xs) auto

lemma find_put_keyed:
  "List.find (\<lambda>x. key x = k) (put_keyed key a xs) =
     (if k = key a then Some a else List.find (\<lambda>x. key x = k) xs)"
proof (cases "key a \<in> key ` set xs")
  case True
  then have "\<exists>x\<in>set xs. key x = key a" by (auto simp: image_iff)
  then show ?thesis
    using True by (simp add: put_keyed_def find_update_first_same find_update_first_other)
next
  case False
  then have no: "\<not> (\<exists>x\<in>set xs. key x = key a)" by (auto simp: image_iff)
  then have "List.find (\<lambda>x. key x = key a) xs = None"
    by (simp add: find_None_iff_key)
  with no show ?thesis
    by (auto simp: put_keyed_def find_append split: option.split)
qed

end
