(* ===== verification/Proto.thy ===== *)
theory Proto
  imports Prelude Complex_Main
begin

text \<open>
  The canonical event vocabulary (internal/proto/event.go): the constants, the payload of each
  event type, and the pure functions beside them.  An event's payload is a constructor of
  \<open>event_body\<close>, one per event type, holding the payload struct as \<open>encoding/json\<close> hands
  it to the reader; \<open>stored_body\<close> is what writing a payload out and reading it back does to it.
\<close>

section \<open>Constants\<close>

text \<open>Stop reasons of turn.finished.\<close>

abbreviation StopEndTurn :: string where "StopEndTurn \<equiv> ''end_turn''"
abbreviation StopMaxTokens :: string where "StopMaxTokens \<equiv> ''max_tokens''"
abbreviation StopRefusal :: string where "StopRefusal \<equiv> ''refusal''"
abbreviation StopCancelled :: string where "StopCancelled \<equiv> ''cancelled''"
abbreviation StopError :: string where "StopError \<equiv> ''error''"

text \<open>Tool call statuses.\<close>

abbreviation StatusPending :: string where "StatusPending \<equiv> ''pending''"
abbreviation StatusInProgress :: string where "StatusInProgress \<equiv> ''in_progress''"
abbreviation StatusCompleted :: string where "StatusCompleted \<equiv> ''completed''"
abbreviation StatusFailed :: string where "StatusFailed \<equiv> ''failed''"
abbreviation StatusCancelled :: string where "StatusCancelled \<equiv> ''cancelled''"

text \<open>Kinds of tool call.\<close>

abbreviation KindRead :: string where "KindRead \<equiv> ''read''"
abbreviation KindEdit :: string where "KindEdit \<equiv> ''edit''"
abbreviation KindDelete :: string where "KindDelete \<equiv> ''delete''"
abbreviation KindMove :: string where "KindMove \<equiv> ''move''"
abbreviation KindSearch :: string where "KindSearch \<equiv> ''search''"
abbreviation KindExecute :: string where "KindExecute \<equiv> ''execute''"
abbreviation KindThink :: string where "KindThink \<equiv> ''think''"
abbreviation KindAgent :: string where "KindAgent \<equiv> ''agent''"
abbreviation KindFetch :: string where "KindFetch \<equiv> ''fetch''"
abbreviation KindOther :: string where "KindOther \<equiv> ''other''"

text \<open>Job kinds and statuses.\<close>

abbreviation JobAgent :: string where "JobAgent \<equiv> ''agent''"
abbreviation JobShell :: string where "JobShell \<equiv> ''shell''"
abbreviation JobMonitor :: string where "JobMonitor \<equiv> ''monitor''"
abbreviation JobInert :: string where "JobInert \<equiv> ''inert''"

abbreviation JobRunning :: string where "JobRunning \<equiv> ''running''"
abbreviation JobPaused :: string where "JobPaused \<equiv> ''paused''"
abbreviation JobCompleted :: string where "JobCompleted \<equiv> ''completed''"
abbreviation JobFailed :: string where "JobFailed \<equiv> ''failed''"
abbreviation JobStopped :: string where "JobStopped \<equiv> ''stopped''"
abbreviation JobInterrupted :: string where "JobInterrupted \<equiv> ''interrupted''"

text \<open>\<open>ClassifyJob\<close> reads three denylists; anything unknown is an agent.\<close>

definition shellTaskTypes :: "string list" where
  "shellTaskTypes = [''local_bash'', ''shell'']"

definition monitorTaskTypes :: "string list" where
  "monitorTaskTypes = [''monitor'', ''monitor_mcp'']"

definition inertTaskTypes :: "string list" where
  "inertTaskTypes = [''plan'', ''dream'']"

definition ClassifyJob :: "string \<Rightarrow> string" where
  "ClassifyJob taskType =
     (if List.member shellTaskTypes taskType then JobShell
      else if List.member monitorTaskTypes taskType then JobMonitor
      else if List.member inertTaskTypes taskType then JobInert
      else JobAgent)"

definition JobDone :: "string \<Rightarrow> bool" where
  "JobDone status \<longleftrightarrow>
     status = JobCompleted \<or> status = JobFailed \<or> status = JobStopped \<or> status = JobInterrupted"

text \<open>Permission outcomes.\<close>

abbreviation OutcomeAllowOnce :: string where "OutcomeAllowOnce \<equiv> ''allow_once''"
abbreviation OutcomeAllowAlways :: string where "OutcomeAllowAlways \<equiv> ''allow_always''"
abbreviation OutcomeRejectOnce :: string where "OutcomeRejectOnce \<equiv> ''reject_once''"
abbreviation OutcomeCancelled :: string where "OutcomeCancelled \<equiv> ''cancelled''"

section \<open>Payloads\<close>

record thread_created_payload =
  tc_cwd :: string
  tc_harness :: string
  tc_model :: string
  tc_mode :: string
  tc_effort :: string
  tc_title :: string

record workspace_requested_payload =
  wr_projectID :: string
  wr_projectRoot :: string
  wr_mode :: string
  wr_branch :: string
  wr_baseRef :: string

record workspace_hook_started_payload =
  hs_runID :: string
  hs_hook :: string
  hs_command :: string

record workspace_hook_output_payload =
  ho_runID :: string
  ho_hook :: string
  ho_stream :: string
  ho_chunk :: string

record workspace_hook_finished_payload =
  hf_runID :: string
  hf_hook :: string
  hf_exitCode :: int
  hf_durationMs :: int

record workspace_ready_payload =
  wy_cwd :: string
  wy_branch :: string
  wy_resources :: "(string \<times> json) list"

record workspace_failed_payload =
  wf_hook :: string
  wf_error :: string
  wf_exitCode :: int

text \<open>\<open>Effort\<close> is a pointer: the empty effort is a choice, not an absence.\<close>

record thread_config_changed_payload =
  cc_replaceSettings :: bool
  cc_model :: string
  cc_mode :: string
  cc_effort :: "string option"
  cc_title :: string
  cc_harnessSessionID :: string

record thread_account_changed_payload =
  ac_from :: string
  ac_to :: string
  ac_fromName :: string
  ac_toName :: string

record artefact_shown_payload =
  as_artefactID :: string
  as_path :: string
  as_name :: string
  as_dir :: bool
  as_mediaType :: string
  as_size :: int
  as_entry :: string
  as_files :: int
  as_modifiedAt :: int
  as_source :: string
  as_note :: string
  as_turnID :: string

abbreviation ArtefactFromAgent :: string where "ArtefactFromAgent \<equiv> ''agent''"
abbreviation ArtefactFromUpload :: string where "ArtefactFromUpload \<equiv> ''upload''"

text \<open>\<open>Path\<close> is not serialised (\<open>json:"-"\<close>).\<close>

record prompt_image =
  im_id :: string
  im_mediaType :: string
  im_path :: string

definition AttachmentTitle :: "prompt_image list \<Rightarrow> string" where
  "AttachmentTitle attachments =
     (let pdfs = length (filter (\<lambda>a. im_mediaType a = ''application/pdf'') attachments);
          n = length attachments;
          noun = (if pdfs = 0 then ''image'' else if pdfs = n then ''PDF'' else ''attachment'')
      in if n = 1 then ''1 '' @ noun
         else format_int (int n) @ '' '' @ noun @ ''s'')"

record prompt_queued_payload =
  pq_queueID :: string
  pq_prompt :: string
  pq_images :: "prompt_image list"
  pq_sent :: bool

record prompt_injected_payload =
  pi_queueID :: string
  pi_turnID :: string

record prompt_dequeued_payload =
  pd_queueID :: string
  pd_reason :: string

abbreviation DequeueRemoved :: string where "DequeueRemoved \<equiv> ''removed''"
abbreviation DequeueCancelled :: string where "DequeueCancelled \<equiv> ''cancelled''"

record turn_recovery =
  tr_resumeOf :: string
  tr_attempt :: int
  tr_cause :: string

abbreviation RecoveryRestart :: string where "RecoveryRestart \<equiv> ''restart''"
abbreviation RecoveryContinue :: string where "RecoveryContinue \<equiv> ''continue''"

record turn_started_payload =
  ts_turnID :: string
  ts_prompt :: string
  ts_images :: "prompt_image list"
  ts_recovery :: "turn_recovery option"
  ts_queueID :: string

record changed_file =
  cf_path :: string
  cf_oldPath :: string
  cf_status :: string
  cf_additions :: int
  cf_deletions :: int
  cf_binary :: bool
  cf_untracked :: bool

record turn_diff_payload =
  td_turnID :: string
  td_files :: "changed_file list"
  td_additions :: int
  td_deletions :: int
  td_truncated :: bool
  td_error :: string

record turn_finished_payload =
  tf_turnID :: string
  tf_stopReason :: string
  tf_error :: string
  tf_failure :: string

abbreviation FailureAuth :: string where "FailureAuth \<equiv> ''auth''"
abbreviation FailureRestart :: string where "FailureRestart \<equiv> ''restart''"
abbreviation FailureLimit :: string where "FailureLimit \<equiv> ''limit''"

record message_chunk_payload =
  mc_turnID :: string
  mc_role :: string
  mc_kind :: string
  mc_blockID :: string
  mc_delta :: string
  mc_parentToolCallID :: string

record tool_content =
  tn_type :: string
  tn_text :: string
  tn_path :: string
  tn_old :: string
  tn_new :: string

record tool_call_started_payload =
  cs_turnID :: string
  cs_toolCallID :: string
  cs_kind :: string
  cs_title :: string
  cs_status :: string
  cs_rawInput :: raw_message
  cs_parentToolCallID :: string

record tool_call_updated_payload =
  cu_toolCallID :: string
  cu_status :: string
  cu_title :: string
  cu_content :: "tool_content list"
  cu_rawInput :: raw_message
  cu_parentToolCallID :: string

record plan_entry =
  pe_content :: string
  pe_status :: string
  pe_priority :: string

record context_category =
  ct_name :: string
  ct_tokens :: int

text \<open>Costs and percentages are finite \<open>float64\<close> values; nothing here computes with them.\<close>

record usage_updated_payload =
  us_input :: int
  us_output :: int
  us_cacheRead :: int
  us_cacheWrite :: int
  us_cost :: rat
  us_contextPct :: rat
  us_contextUsed :: int
  us_contextWindow :: int
  us_contextLimit :: int
  us_autoCompact :: bool
  us_autoCompactThreshold :: int
  us_contextCategories :: "context_category list"

record context_compacted_payload =
  cp_trigger :: string
  cp_preTokens :: int
  cp_postTokens :: int

record job_usage =
  ju_totalTokens :: int
  ju_toolUses :: int
  ju_durationMs :: int
  ju_cost :: rat

record job_payload =
  jp_jobID :: string
  jp_toolCallID :: string
  jp_parentJobID :: string
  jp_kind :: string
  jp_taskType :: string
  jp_name :: string
  jp_role :: string
  jp_workflowName :: string
  jp_status :: string
  jp_activity :: string
  jp_usage :: "job_usage option"
  jp_error :: string
  jp_outputFile :: string
  jp_backgrounded :: "bool option"
  jp_hidden :: bool

record permission_option =
  po_optionID :: string
  po_name :: string
  po_kind :: string

record permission_requested_payload =
  pr_requestID :: string
  pr_turnID :: string
  pr_toolCallID :: string
  pr_toolName :: string
  pr_title :: string
  pr_rawInput :: raw_message
  pr_options :: "permission_option list"

record permission_resolved_payload =
  ps_requestID :: string
  ps_outcome :: string
  ps_optionID :: string

record elicitation_requested_payload =
  er_requestID :: string
  er_turnID :: string
  er_prompt :: string
  er_schema :: raw_message
  er_card :: raw_message

record elicitation_resolved_payload =
  es_requestID :: string
  es_action :: string
  es_value :: raw_message

definition DefaultPermissionOptions :: "permission_option list" where
  "DefaultPermissionOptions =
     [\<lparr>po_optionID = ''allow_once'', po_name = ''Allow once'', po_kind = OutcomeAllowOnce\<rparr>,
      \<lparr>po_optionID = ''allow_always'', po_name = ''Always allow this tool'',
        po_kind = OutcomeAllowAlways\<rparr>,
      \<lparr>po_optionID = ''reject_once'', po_name = ''Reject'', po_kind = OutcomeRejectOnce\<rparr>]"

record scheduled_prompt =
  sp_id :: string
  sp_revision :: int
  sp_prompt :: string
  sp_images :: "prompt_image list"
  sp_dueAt :: int
  sp_timeZone :: string
  sp_model :: string
  sp_mode :: string
  sp_effort :: string
  sp_status :: string
  sp_error :: string
  sp_turnID :: string

section \<open>Events\<close>

text \<open>
  One constructor per event type, with its payload; \<open>OtherEvent\<close> is any type string the
  vocabulary does not name.
\<close>

datatype event_body =
    PromptScheduled scheduled_prompt
  | ThreadCreated thread_created_payload
  | ThreadConfigChanged thread_config_changed_payload
  | ThreadClosed string
  | ThreadAccountChanged thread_account_changed_payload
  | TurnStarted turn_started_payload
  | TurnFinished turn_finished_payload
  | PromptQueued prompt_queued_payload
  | PromptDequeued prompt_dequeued_payload
  | PromptInjected prompt_injected_payload
  | TurnDiff turn_diff_payload
  | MessageChunk message_chunk_payload
  | ToolCallStarted tool_call_started_payload
  | ToolCallUpdated tool_call_updated_payload
  | PlanUpdated "plan_entry list"
  | UsageUpdated usage_updated_payload
  | ContextCompacted context_compacted_payload
  | JobStarted job_payload
  | JobUpdated job_payload
  | JobFinished job_payload
  | PermissionRequested permission_requested_payload
  | PermissionResolved permission_resolved_payload
  | ElicitationRequested elicitation_requested_payload
  | ElicitationResolved elicitation_resolved_payload
  | WorkspaceRequested workspace_requested_payload
  | WorkspaceHookStarted workspace_hook_started_payload
  | WorkspaceHookOutput workspace_hook_output_payload
  | WorkspaceHookFinished workspace_hook_finished_payload
  | WorkspaceReady workspace_ready_payload
  | WorkspaceFailed workspace_failed_payload
  | WorkspaceCleanupStarted bool bool
  | WorkspaceCleanupFinished
  | WorkspaceCleanupFailed workspace_failed_payload
  | WorkspaceReleased
  | ArtefactShown artefact_shown_payload
  | OtherEvent string

fun event_type :: "event_body \<Rightarrow> string" where
  "event_type (PromptScheduled _) = ''prompt.scheduled''"
| "event_type (ThreadCreated _) = ''thread.created''"
| "event_type (ThreadConfigChanged _) = ''thread.config_changed''"
| "event_type (ThreadClosed _) = ''thread.closed''"
| "event_type (ThreadAccountChanged _) = ''thread.account_changed''"
| "event_type (TurnStarted _) = ''turn.started''"
| "event_type (TurnFinished _) = ''turn.finished''"
| "event_type (PromptQueued _) = ''prompt.queued''"
| "event_type (PromptDequeued _) = ''prompt.dequeued''"
| "event_type (PromptInjected _) = ''prompt.injected''"
| "event_type (TurnDiff _) = ''turn.diff''"
| "event_type (MessageChunk _) = ''message.chunk''"
| "event_type (ToolCallStarted _) = ''tool_call.started''"
| "event_type (ToolCallUpdated _) = ''tool_call.updated''"
| "event_type (PlanUpdated _) = ''plan.updated''"
| "event_type (UsageUpdated _) = ''usage.updated''"
| "event_type (ContextCompacted _) = ''context.compacted''"
| "event_type (JobStarted _) = ''job.started''"
| "event_type (JobUpdated _) = ''job.updated''"
| "event_type (JobFinished _) = ''job.finished''"
| "event_type (PermissionRequested _) = ''permission.requested''"
| "event_type (PermissionResolved _) = ''permission.resolved''"
| "event_type (ElicitationRequested _) = ''elicitation.requested''"
| "event_type (ElicitationResolved _) = ''elicitation.resolved''"
| "event_type (WorkspaceRequested _) = ''workspace.requested''"
| "event_type (WorkspaceHookStarted _) = ''workspace.hook_started''"
| "event_type (WorkspaceHookOutput _) = ''workspace.hook_output''"
| "event_type (WorkspaceHookFinished _) = ''workspace.hook_finished''"
| "event_type (WorkspaceReady _) = ''workspace.ready''"
| "event_type (WorkspaceFailed _) = ''workspace.failed''"
| "event_type (WorkspaceCleanupStarted _ _) = ''workspace.cleanup_started''"
| "event_type WorkspaceCleanupFinished = ''workspace.cleanup_finished''"
| "event_type (WorkspaceCleanupFailed _) = ''workspace.cleanup_failed''"
| "event_type WorkspaceReleased = ''workspace.released''"
| "event_type (ArtefactShown _) = ''artefact.shown''"
| "event_type (OtherEvent t) = t"

text \<open>
  A durable fact about a thread.  An emission is a body before it is sequenced: the store
  stamps \<open>ev_seq\<close> and \<open>ev_timestamp\<close> at append.
\<close>

record event =
  ev_threadID :: string
  ev_seq :: int
  ev_timestamp :: int
  ev_body :: event_body

text \<open>
  What \<open>json.Marshal\<close> and \<open>json.Unmarshal\<close> do to a payload on its way through the log:
  an image loses its host path, and an absent \<open>Schema\<close>, which has no \<open>omitempty\<close>, is
  written as \<open>null\<close>.  Every other field comes back as it went in.
\<close>

definition stored_image :: "prompt_image \<Rightarrow> prompt_image" where
  "stored_image im = im\<lparr>im_path := []\<rparr>"

definition stored_raw :: "raw_message \<Rightarrow> raw_message" where
  "stored_raw r = (case r of None \<Rightarrow> Some JNull | Some j \<Rightarrow> Some j)"

fun stored_body :: "event_body \<Rightarrow> event_body" where
  "stored_body (PromptScheduled p) = PromptScheduled (p\<lparr>sp_images := map stored_image (sp_images p)\<rparr>)"
| "stored_body (TurnStarted p) = TurnStarted (p\<lparr>ts_images := map stored_image (ts_images p)\<rparr>)"
| "stored_body (PromptQueued p) = PromptQueued (p\<lparr>pq_images := map stored_image (pq_images p)\<rparr>)"
| "stored_body (ElicitationRequested p) = ElicitationRequested (p\<lparr>er_schema := stored_raw (er_schema p)\<rparr>)"
| "stored_body b = b"

lemma stored_image_idem [simp]: "stored_image (stored_image im) = stored_image im"
  by (simp add: stored_image_def)

lemma im_path_stored_image [simp]: "im_path (stored_image im) = []"
  by (simp add: stored_image_def)

lemma stored_image_id: "im_path im = [] \<Longrightarrow> stored_image im = im"
  by (simp add: stored_image_def)

lemma map_stored_image_id: "\<forall>im\<in>set ims. im_path im = [] \<Longrightarrow> map stored_image ims = ims"
  by (simp add: stored_image_id map_idI)

lemma stored_raw_idem [simp]: "stored_raw (stored_raw r) = stored_raw r"
  by (cases r) (simp_all add: stored_raw_def)

lemma stored_body_idem: "stored_body (stored_body b) = stored_body b"
  by (cases b) (simp_all add: comp_def)

lemma event_type_stored [simp]: "event_type (stored_body b) = event_type b"
  by (cases b) simp_all

lemma JobDone_ClassifyJob_disjoint: "\<not> JobDone (ClassifyJob t)"
  by (simp add: JobDone_def ClassifyJob_def)

lemma ClassifyJob_range: "ClassifyJob t \<in> {JobAgent, JobShell, JobMonitor, JobInert}"
  by (simp add: ClassifyJob_def)

end
