(* ===== verification/Projection.thy ===== *)
theory Projection
  imports Proto
begin

text \<open>
  The projection (internal/projection/state.go): the state a presenter renders, and
  \<open>Apply\<close>, which folds one event into it.  Every payload has its own definition, in the
  order of the cases of \<open>Apply\<close>; \<open>apply_body\<close> is the switch and \<open>Apply\<close> the guard on
  the sequence number around it.
\<close>

section \<open>The projected state\<close>

text \<open>One timeline entry; \<open>zero_item\<close> is the zero struct \<open>upsert\<close> starts a new one from.\<close>

record item =
  it_id :: string
  it_kind :: string
  it_turnID :: string
  it_parentID :: string
  it_receivedAt :: int
  it_role :: string
  it_contentKind :: string
  it_text :: string
  it_images :: "prompt_image list"
  it_toolKind :: string
  it_title :: string
  it_status :: string
  it_input :: raw_message
  it_content :: "tool_content list"
  it_noticeKind :: string
  it_trigger :: string
  it_preTokens :: int
  it_postTokens :: int
  it_artefactID :: string
  it_mediaType :: string
  it_size :: int
  it_card :: raw_message
  it_outcome :: raw_message

abbreviation ItemMessage :: string where "ItemMessage \<equiv> ''message''"
abbreviation ItemTool :: string where "ItemTool \<equiv> ''tool''"
abbreviation ItemNotice :: string where "ItemNotice \<equiv> ''notice''"
abbreviation ItemArtefact :: string where "ItemArtefact \<equiv> ''artefact''"
abbreviation ItemCard :: string where "ItemCard \<equiv> ''card''"

definition zero_item :: "string \<Rightarrow> item" where
  "zero_item i =
     \<lparr>it_id = i, it_kind = [], it_turnID = [], it_parentID = [], it_receivedAt = 0, it_role = [],
      it_contentKind = [], it_text = [], it_images = [], it_toolKind = [], it_title = [],
      it_status = [], it_input = None, it_content = [], it_noticeKind = [], it_trigger = [],
      it_preTokens = 0, it_postTokens = 0, it_artefactID = [], it_mediaType = [], it_size = 0,
      it_card = None, it_outcome = None\<rparr>"

record artefact =
  af_id :: string
  af_name :: string
  af_path :: string
  af_dir :: bool
  af_mediaType :: string
  af_size :: int
  af_entry :: string
  af_files :: int
  af_modifiedAt :: int
  af_source :: string
  af_note :: string
  af_turnID :: string
  af_shownAt :: int

record job =
  jb_id :: string
  jb_toolCallID :: string
  jb_parentJobID :: string
  jb_depth :: int
  jb_kind :: string
  jb_taskType :: string
  jb_name :: string
  jb_role :: string
  jb_workflowName :: string
  jb_status :: string
  jb_activity :: string
  jb_usage :: job_usage
  jb_error :: string
  jb_outputFile :: string
  jb_backgrounded :: bool
  jb_hidden :: bool
  jb_turnID :: string
  jb_startedAt :: int
  jb_finishedAt :: int

definition new_job :: "string \<Rightarrow> int \<Rightarrow> job" where
  "new_job i ts =
     \<lparr>jb_id = i, jb_toolCallID = [], jb_parentJobID = [], jb_depth = 0, jb_kind = [],
      jb_taskType = [], jb_name = [], jb_role = [], jb_workflowName = [], jb_status = JobRunning,
      jb_activity = [],
      jb_usage = \<lparr>ju_totalTokens = 0, ju_toolUses = 0, ju_durationMs = 0, ju_cost = 0\<rparr>,
      jb_error = [], jb_outputFile = [], jb_backgrounded = False, jb_hidden = False,
      jb_turnID = [], jb_startedAt = ts, jb_finishedAt = 0\<rparr>"

record turn =
  tu_id :: string
  tu_prompt :: string
  tu_images :: "prompt_image list"
  tu_stopReason :: string
  tu_error :: string
  tu_failure :: string
  tu_done :: bool
  tu_recovery :: "turn_recovery option"
  tu_diff :: "turn_diff_payload option"
  tu_startedAt :: int
  tu_finishedAt :: int

record queued_prompt =
  qp_queueID :: string
  qp_prompt :: string
  qp_images :: "prompt_image list"
  qp_queuedAt :: int
  qp_sent :: bool

record pending_permission =
  pp_requestID :: string
  pp_toolCallID :: string
  pp_toolName :: string
  pp_title :: string
  pp_input :: raw_message
  pp_options :: "permission_option list"

record pending_elicitation =
  el_requestID :: string
  el_prompt :: string
  el_schema :: raw_message
  el_card :: raw_message

definition IsCard :: "pending_elicitation \<Rightarrow> bool" where
  "IsCard p \<longleftrightarrow> raw_present (el_card p)"

definition CardID :: "string \<Rightarrow> string" where
  "CardID requestID = ''card:'' @ requestID"

record workspace_state =
  ws_phase :: string
  ws_projectID :: string
  ws_projectRoot :: string
  ws_mode :: string
  ws_branch :: string
  ws_baseRef :: string
  ws_hook :: string
  ws_command :: string
  ws_output :: string
  ws_error :: string
  ws_exitCode :: int
  ws_startedAt :: int
  ws_durationMs :: int
  ws_resources :: "(string \<times> json) list"
  ws_deleteAfterCleanup :: bool

definition zero_workspace :: workspace_state where
  "zero_workspace =
     \<lparr>ws_phase = [], ws_projectID = [], ws_projectRoot = [], ws_mode = [], ws_branch = [],
      ws_baseRef = [], ws_hook = [], ws_command = [], ws_output = [], ws_error = [],
      ws_exitCode = 0, ws_startedAt = 0, ws_durationMs = 0, ws_resources = [],
      ws_deleteAfterCleanup = False\<rparr>"

definition zero_usage :: usage_updated_payload where
  "zero_usage =
     \<lparr>us_input = 0, us_output = 0, us_cacheRead = 0, us_cacheWrite = 0, us_cost = 0,
      us_contextPct = 0, us_contextUsed = 0, us_contextWindow = 0, us_contextLimit = 0,
      us_autoCompact = False, us_autoCompactThreshold = 0, us_contextCategories = []\<rparr>"

text \<open>
  \<open>st_index\<close> is the id-to-position map; \<open>None\<close> is Go's nil map, which reads as empty and
  is rebuilt before it is written.
\<close>

record state =
  st_scheduled :: "scheduled_prompt list"
  st_threadID :: string
  st_seq :: int
  st_cwd :: string
  st_harness :: string
  st_model :: string
  st_mode :: string
  st_effort :: string
  st_title :: string
  st_harnessSessionID :: string
  st_phase :: string
  st_closed :: bool
  st_workspace :: workspace_state
  st_items :: "item list"
  st_itemsBefore :: int
  st_turns :: "turn list"
  st_jobs :: "job list"
  st_plan :: "plan_entry list"
  st_usage :: usage_updated_payload
  st_pending :: "pending_permission list"
  st_elicitations :: "pending_elicitation list"
  st_queued :: "queued_prompt list"
  st_artefacts :: "artefact list"
  st_index :: "(string \<rightharpoonup> nat) option"

definition New :: "string \<Rightarrow> state" where
  "New threadID =
     \<lparr>st_scheduled = [], st_threadID = threadID, st_seq = 0, st_cwd = [], st_harness = [],
      st_model = [], st_mode = [], st_effort = [], st_title = [], st_harnessSessionID = [],
      st_phase = ''idle'', st_closed = False, st_workspace = zero_workspace, st_items = [],
      st_itemsBefore = 0, st_turns = [], st_jobs = [], st_plan = [], st_usage = zero_usage,
      st_pending = [], st_elicitations = [], st_queued = [], st_artefacts = [],
      st_index = Some Map.empty\<rparr>"

section \<open>Attention and live work\<close>

record job_counts =
  jc_agents :: int
  jc_shells :: int
  jc_monitors :: int

definition AnyLive :: "job_counts \<Rightarrow> bool" where
  "AnyLive c \<longleftrightarrow> jc_agents c + jc_shells c + jc_monitors c > 0"

definition Working :: "job_counts \<Rightarrow> bool" where
  "Working c \<longleftrightarrow> jc_agents c + jc_monitors c > 0"

fun count_live :: "job list \<Rightarrow> job_counts \<Rightarrow> job_counts" where
  "count_live [] c = c"
| "count_live (j # js) c =
     (if JobDone (jb_status j) then count_live js c
      else if jb_kind j = JobAgent then count_live js (c\<lparr>jc_agents := jc_agents c + 1\<rparr>)
      else if jb_kind j = JobShell then count_live js (c\<lparr>jc_shells := jc_shells c + 1\<rparr>)
      else if jb_kind j = JobMonitor then count_live js (c\<lparr>jc_monitors := jc_monitors c + 1\<rparr>)
      else count_live js c)"

definition LiveJobs :: "state \<Rightarrow> job_counts" where
  "LiveJobs s = count_live (st_jobs s) \<lparr>jc_agents = 0, jc_shells = 0, jc_monitors = 0\<rparr>"

abbreviation AttentionWorking :: string where "AttentionWorking \<equiv> ''working''"
abbreviation AttentionNeedsPermission :: string where "AttentionNeedsPermission \<equiv> ''needs_permission''"
abbreviation AttentionNeedsAnswer :: string where "AttentionNeedsAnswer \<equiv> ''needs_answer''"
abbreviation AttentionBackground :: string where "AttentionBackground \<equiv> ''background''"
abbreviation AttentionNeedsPrompt :: string where "AttentionNeedsPrompt \<equiv> ''needs_prompt''"
abbreviation AttentionFailed :: string where "AttentionFailed \<equiv> ''failed''"
abbreviation AttentionClosed :: string where "AttentionClosed \<equiv> ''closed''"

definition Attention :: "state \<Rightarrow> string" where
  "Attention s =
     (if st_closed s \<or> st_phase s = ''closed'' then AttentionClosed
      else if st_phase s = ''provision_failed'' \<or> st_phase s = ''cleanup_failed'' then AttentionFailed
      else if st_pending s \<noteq> [] then AttentionNeedsPermission
      else if st_elicitations s \<noteq> [] then AttentionNeedsAnswer
      else if st_phase s = ''turn'' \<or> st_phase s = ''provisioning'' \<or> st_phase s = ''cleaning''
        then AttentionWorking
      else if Working (LiveJobs s) then AttentionBackground
      else AttentionNeedsPrompt)"

definition AttentionForPhase :: "string \<Rightarrow> string" where
  "AttentionForPhase phase =
     (if phase = ''closed'' then AttentionClosed
      else if phase = ''provision_failed'' \<or> phase = ''cleanup_failed'' then AttentionFailed
      else if phase = ''turn'' \<or> phase = ''creating'' \<or> phase = ''provisioning''
        \<or> phase = ''cleaning'' then AttentionWorking
      else AttentionNeedsPrompt)"

definition Questions :: "state \<Rightarrow> nat" where
  "Questions s = length (filter (\<lambda>p. \<not> IsCard p) (st_elicitations s))"

section \<open>The item index\<close>

text \<open>\<open>reindex\<close> walks the items in order, so the last of two equal ids would win.\<close>

definition index_of :: "item list \<Rightarrow> (string \<rightharpoonup> nat)" where
  "index_of its = map_of (rev (zip (map it_id its) [0..<length its]))"

definition reindex :: "state \<Rightarrow> state" where
  "reindex s = s\<lparr>st_index := Some (index_of (st_items s))\<rparr>"

definition ensure_index :: "state \<Rightarrow> state" where
  "ensure_index s = (case st_index s of None \<Rightarrow> reindex s | Some _ \<Rightarrow> s)"

definition index_get :: "state \<Rightarrow> string \<Rightarrow> nat option" where
  "index_get s i = (case st_index s of None \<Rightarrow> None | Some m \<Rightarrow> m i)"

text \<open>
  \<open>ItemByID\<close> rebuilds a missing index on the way, so it returns the state too.  The index
  read is in range in every state the code builds (\<open>wf_items\<close>, in the theory of invariants);
  out of range the code would panic.
\<close>

definition ItemByID :: "state \<Rightarrow> string \<Rightarrow> state \<times> item option" where
  "ItemByID s i =
     (let s' = ensure_index s
      in (s', map_option (\<lambda>n. st_items s' ! n) (index_get s' i)))"

definition upsert :: "string \<Rightarrow> (item \<Rightarrow> item) \<Rightarrow> state \<Rightarrow> state" where
  "upsert i f s0 =
     (let s = ensure_index s0
      in case index_get s i of
           Some n \<Rightarrow> s\<lparr>st_items := (st_items s)[n := f (st_items s ! n)]\<rparr>
         | None \<Rightarrow>
             s\<lparr>st_items := st_items s @ [f (zero_item i)],
               st_index := map_option (\<lambda>m. m(i \<mapsto> length (st_items s))) (st_index s)\<rparr>)"

definition receive :: "int \<Rightarrow> item \<Rightarrow> item" where
  "receive ts it = (if it_receivedAt it = 0 then it\<lparr>it_receivedAt := ts\<rparr> else it)"

section \<open>Jobs\<close>

definition find_job :: "job list \<Rightarrow> string \<Rightarrow> job option" where
  "find_job js i = List.find (\<lambda>j. jb_id j = i) js"

definition keep :: "string \<Rightarrow> string \<Rightarrow> string" where
  "keep new old = (if new \<noteq> [] then new else old)"

definition merge_usage :: "job_usage \<Rightarrow> job_usage \<Rightarrow> job_usage" where
  "merge_usage p u =
     u\<lparr>ju_totalTokens := (if ju_totalTokens p > 0 then ju_totalTokens p else ju_totalTokens u),
       ju_toolUses := (if ju_toolUses p > 0 then ju_toolUses p else ju_toolUses u),
       ju_durationMs := (if ju_durationMs p > 0 then ju_durationMs p else ju_durationMs u),
       ju_cost := (if ju_cost p > 0 then ju_cost p else ju_cost u)\<rparr>"

text \<open>\<open>merge_job js p j\<close>: the fields of the row \<open>p\<close> laid over the job \<open>j\<close> of \<open>js\<close>.\<close>

definition merge_job :: "job list \<Rightarrow> job_payload \<Rightarrow> job \<Rightarrow> job" where
  "merge_job js p j =
     (let kind1 = keep (jp_kind p) (jb_kind j);
          kind2 = (if kind1 = [] then ClassifyJob (jp_taskType p) else kind1);
          depth1 = (if jp_parentJobID p = [] then jb_depth j
                    else case find_job js (jp_parentJobID p) of
                           None \<Rightarrow> jb_depth j
                         | Some parent \<Rightarrow> jb_depth parent + 1)
      in j\<lparr>jb_toolCallID := keep (jp_toolCallID p) (jb_toolCallID j),
           jb_parentJobID := keep (jp_parentJobID p) (jb_parentJobID j),
           jb_depth := depth1,
           jb_kind := kind2,
           jb_taskType := keep (jp_taskType p) (jb_taskType j),
           jb_name := keep (jp_name p) (jb_name j),
           jb_role := keep (jp_role p) (jb_role j),
           jb_workflowName := keep (jp_workflowName p) (jb_workflowName j),
           jb_activity := keep (jp_activity p) (jb_activity j),
           jb_usage := (case jp_usage p of None \<Rightarrow> jb_usage j | Some u \<Rightarrow> merge_usage u (jb_usage j)),
           jb_error := keep (jp_error p) (jb_error j),
           jb_outputFile := keep (jp_outputFile p) (jb_outputFile j),
           jb_backgrounded := (case jp_backgrounded p of None \<Rightarrow> jb_backgrounded j | Some b \<Rightarrow> b),
           jb_hidden := (jp_hidden p \<or> jb_hidden j),
           jb_status := keep (jp_status p) (jb_status j)\<rparr>)"

definition finish_job :: "bool \<Rightarrow> int \<Rightarrow> job \<Rightarrow> job" where
  "finish_job finished ts j =
     (let stamp = (\<lambda>k. if jb_finishedAt k = 0 then k\<lparr>jb_finishedAt := ts\<rparr> else k)
      in if finished then
           stamp (if JobDone (jb_status j) then j else j\<lparr>jb_status := JobCompleted\<rparr>)
         else if JobDone (jb_status j) then stamp j
         else j)"

definition in_flight :: "item \<Rightarrow> bool" where
  "in_flight it \<longleftrightarrow> it_status it = StatusInProgress \<or> it_status it = StatusPending"

definition settle_item :: "string \<Rightarrow> item \<Rightarrow> item" where
  "settle_item job_status it =
     (if in_flight it then
        it\<lparr>it_status :=
          (if job_status = JobFailed then StatusFailed
           else if job_status = JobCompleted then StatusCompleted
           else StatusCancelled)\<rparr>
      else it)"

text \<open>
  The last turn that is not done, or the empty id: what the loops over \<open>s.Turns\<close> that keep
  overwriting their answer find.
\<close>

definition open_turn :: "state \<Rightarrow> string" where
  "open_turn s = (case last_match (\<lambda>t. \<not> tu_done t) (st_turns s) of None \<Rightarrow> [] | Some t \<Rightarrow> tu_id t)"

text \<open>
  The row a job event starts from (a new one, pinned to the open turn, when the job is unknown),
  the list it is looked up in, and the row it leaves.
\<close>

definition job_before :: "event \<Rightarrow> job_payload \<Rightarrow> state \<Rightarrow> job" where
  "job_before ev p s =
     (case find_job (st_jobs s) (jp_jobID p) of
        None \<Rightarrow> (new_job (jp_jobID p) (ev_timestamp ev))\<lparr>jb_turnID := open_turn s\<rparr>
      | Some j \<Rightarrow> j)"

definition jobs_with :: "event \<Rightarrow> job_payload \<Rightarrow> state \<Rightarrow> job list" where
  "jobs_with ev p s =
     (case find_job (st_jobs s) (jp_jobID p) of
        None \<Rightarrow> st_jobs s @ [job_before ev p s] | Some _ \<Rightarrow> st_jobs s)"

definition job_after :: "event \<Rightarrow> bool \<Rightarrow> job_payload \<Rightarrow> state \<Rightarrow> job" where
  "job_after ev finished p s =
     finish_job finished (ev_timestamp ev) (merge_job (jobs_with ev p s) p (job_before ev p s))"

definition applyJob :: "event \<Rightarrow> bool \<Rightarrow> job_payload \<Rightarrow> state \<Rightarrow> state" where
  "applyJob ev finished p s =
     (if jp_jobID p = [] then s
      else
        let j = job_after ev finished p s;
            s1 = s\<lparr>st_jobs := update_first (\<lambda>k. jb_id k = jp_jobID p) (\<lambda>_. j) (jobs_with ev p s)\<rparr>
        in if finished \<and> jb_toolCallID j \<noteq> [] then
             (case index_get s1 (jb_toolCallID j) of
                None \<Rightarrow> s1
              | Some n \<Rightarrow>
                  s1\<lparr>st_items := (st_items s1)[n := settle_item (jb_status j) (st_items s1 ! n)]\<rparr>)
           else s1)"

section \<open>Small helpers of Apply\<close>

definition truncate :: "string \<Rightarrow> nat \<Rightarrow> string" where
  "truncate s n =
     (let r = runes s
      in if length r \<le> n then s else concat (map rune_bytes (take n r)) @ ellipsis)"

definition queued :: "state \<Rightarrow> string \<Rightarrow> queued_prompt option" where
  "queued s queueID = List.find (\<lambda>q. qp_queueID q = queueID) (st_queued s)"

definition removeQueued :: "string \<Rightarrow> state \<Rightarrow> state" where
  "removeQueued queueID s =
     s\<lparr>st_queued := filter (\<lambda>q. qp_queueID q \<noteq> queueID) (st_queued s)\<rparr>"

abbreviation CardPending :: string where "CardPending \<equiv> ''pending''"
abbreviation CardSaved :: string where "CardSaved \<equiv> ''saved''"
abbreviation CardDeclined :: string where "CardDeclined \<equiv> ''declined''"
abbreviation CardCancelled :: string where "CardCancelled \<equiv> ''cancelled''"

text \<open>
  Decoding a value into \<open>struct{Result string}\<close>: \<open>None\<close> where \<open>json.Unmarshal\<close> reports an
  error.  Member names match without regard to case and the last one wins; \<open>null\<close> leaves the
  field alone.
\<close>

fun decode_result :: "json \<Rightarrow> string option" where
  "decode_result (JObj ms) =
     foldl (\<lambda>acc (k, v).
        case acc of
          None \<Rightarrow> None
        | Some r \<Rightarrow>
            if equal_fold k ''result'' then
              (case v of JStr x \<Rightarrow> Some x | JNull \<Rightarrow> Some r | _ \<Rightarrow> None)
            else Some r) (Some []) ms"
| "decode_result JNull = Some []"
| "decode_result _ = None"

definition cardResult :: "elicitation_resolved_payload \<Rightarrow> string" where
  "cardResult p =
     (let r = (case es_value p of None \<Rightarrow> None | Some v \<Rightarrow> decode_result v)
      in if r \<noteq> None \<and> the r \<noteq> [] then the r
         else if es_action p = ''accept'' then CardSaved
         else if es_action p = ''decline'' then CardDeclined
         else CardCancelled)"

text \<open>The user message a prompt becomes in the timeline.\<close>

definition user_message :: "int \<Rightarrow> string \<Rightarrow> prompt_image list \<Rightarrow> string \<Rightarrow> item \<Rightarrow> item" where
  "user_message ts prompt images turnID it =
     (receive ts (it\<lparr>it_kind := ItemMessage\<rparr>))
       \<lparr>it_role := ''user'', it_contentKind := ''text'', it_text := prompt, it_images := images,
        it_turnID := turnID\<rparr>"

section \<open>Apply, case by case\<close>

definition apply_thread_created :: "thread_created_payload \<Rightarrow> state \<Rightarrow> state" where
  "apply_thread_created p s =
     s\<lparr>st_cwd := tc_cwd p, st_harness := tc_harness p, st_model := tc_model p,
       st_mode := tc_mode p, st_effort := tc_effort p, st_title := tc_title p\<rparr>"

definition apply_config_changed :: "thread_config_changed_payload \<Rightarrow> state \<Rightarrow> state" where
  "apply_config_changed p s =
     s\<lparr>st_model := (if cc_replaceSettings p \<or> cc_model p \<noteq> [] then cc_model p else st_model s),
       st_mode := (if cc_replaceSettings p \<or> cc_mode p \<noteq> [] then cc_mode p else st_mode s),
       st_effort := (case cc_effort p of None \<Rightarrow> st_effort s | Some e \<Rightarrow> e),
       st_title := (if cc_title p \<noteq> [] then cc_title p else st_title s),
       st_harnessSessionID :=
         (if cc_harnessSessionID p \<noteq> [] then cc_harnessSessionID p else st_harnessSessionID s)\<rparr>"

definition apply_thread_closed :: "state \<Rightarrow> state" where
  "apply_thread_closed s = s\<lparr>st_closed := True, st_phase := ''closed''\<rparr>"

definition apply_workspace_requested :: "event \<Rightarrow> workspace_requested_payload \<Rightarrow> state \<Rightarrow> state" where
  "apply_workspace_requested ev p s =
     s\<lparr>st_phase := ''provisioning'',
       st_workspace :=
         zero_workspace\<lparr>ws_phase := ''provisioning'', ws_projectID := wr_projectID p,
           ws_projectRoot := wr_projectRoot p, ws_mode := wr_mode p, ws_branch := wr_branch p,
           ws_baseRef := wr_baseRef p, ws_startedAt := ev_timestamp ev\<rparr>\<rparr>"

definition apply_hook_started :: "workspace_hook_started_payload \<Rightarrow> state \<Rightarrow> state" where
  "apply_hook_started p s =
     (let w = (st_workspace s)\<lparr>ws_hook := hs_hook p, ws_command := hs_command p\<rparr>
      in if hs_hook p = ''deprovision'' then
           s\<lparr>st_workspace := w\<lparr>ws_phase := ''cleaning''\<rparr>, st_phase := ''cleaning''\<rparr>
         else s\<lparr>st_workspace := w\<rparr>)"

definition apply_hook_output :: "workspace_hook_output_payload \<Rightarrow> state \<Rightarrow> state" where
  "apply_hook_output p s =
     s\<lparr>st_workspace := (st_workspace s)\<lparr>ws_output :=
         ws_output (st_workspace s)
           @ (if ho_stream p = ''stderr'' then ''[stderr] '' else []) @ ho_chunk p\<rparr>\<rparr>"

definition apply_hook_finished :: "workspace_hook_finished_payload \<Rightarrow> state \<Rightarrow> state" where
  "apply_hook_finished p s =
     s\<lparr>st_workspace := (st_workspace s)\<lparr>ws_exitCode := hf_exitCode p,
         ws_durationMs := hf_durationMs p\<rparr>\<rparr>"

definition apply_workspace_ready :: "workspace_ready_payload \<Rightarrow> state \<Rightarrow> state" where
  "apply_workspace_ready p s =
     s\<lparr>st_cwd := wy_cwd p,
       st_workspace := (st_workspace s)\<lparr>ws_branch := wy_branch p, ws_resources := wy_resources p,
         ws_phase := ''ready'', ws_error := []\<rparr>,
       st_phase := ''idle''\<rparr>"

definition apply_workspace_failed :: "string \<Rightarrow> workspace_failed_payload \<Rightarrow> state \<Rightarrow> state" where
  "apply_workspace_failed phase p s =
     s\<lparr>st_phase := phase,
       st_workspace := (st_workspace s)\<lparr>ws_phase := phase, ws_error := wf_error p,
         ws_exitCode := wf_exitCode p\<rparr>\<rparr>"

definition apply_cleanup_started :: "bool \<Rightarrow> state \<Rightarrow> state" where
  "apply_cleanup_started purge s =
     s\<lparr>st_phase := ''cleaning'',
       st_workspace := (st_workspace s)\<lparr>ws_phase := ''cleaning'', ws_deleteAfterCleanup := purge\<rparr>\<rparr>"

definition apply_workspace_released :: "state \<Rightarrow> state" where
  "apply_workspace_released s = s\<lparr>st_workspace := (st_workspace s)\<lparr>ws_phase := ''released''\<rparr>\<rparr>"

text \<open>
  \<open>resolve_queue\<close> fills in what a turn started from a queue entry does not carry, before the
  entry leaves the queue; \<open>mark_sent\<close> settles the schedule the turn came from.
\<close>

definition resolve_queue :: "state \<Rightarrow> turn_started_payload \<Rightarrow> turn_started_payload" where
  "resolve_queue s p =
     (if ts_queueID p = [] then p
      else case queued s (ts_queueID p) of
             None \<Rightarrow> p
           | Some q \<Rightarrow>
               p\<lparr>ts_prompt := (if ts_prompt p = [] then qp_prompt q else ts_prompt p),
                 ts_images := (if ts_images p = [] then qp_images q else ts_images p)\<rparr>)"

definition mark_sent :: "string \<Rightarrow> scheduled_prompt \<Rightarrow> scheduled_prompt" where
  "mark_sent turnID sp =
     sp\<lparr>sp_status := ''sent'', sp_turnID := turnID, sp_revision := sp_revision sp + 1\<rparr>"

definition leave_queue :: "turn_started_payload \<Rightarrow> state \<Rightarrow> state" where
  "leave_queue p s =
     (if ts_queueID p = [] then s
      else (removeQueued (ts_queueID p) s)
             \<lparr>st_scheduled := update_where (\<lambda>sp. sp_id sp = ts_queueID p)
                 (mark_sent (ts_turnID p)) (st_scheduled s)\<rparr>)"

definition first_title :: "turn_started_payload \<Rightarrow> string \<Rightarrow> string" where
  "first_title p title =
     (if title \<noteq> [] then title
      else let t = truncate (ts_prompt p) 60
           in if t = [] \<and> ts_images p \<noteq> [] then AttachmentTitle (ts_images p) else t)"

definition new_turn :: "event \<Rightarrow> turn_started_payload \<Rightarrow> turn" where
  "new_turn ev p =
     \<lparr>tu_id = ts_turnID p, tu_prompt = ts_prompt p, tu_images = ts_images p, tu_stopReason = [],
      tu_error = [], tu_failure = [], tu_done = False, tu_recovery = ts_recovery p,
      tu_diff = None, tu_startedAt = ev_timestamp ev, tu_finishedAt = 0\<rparr>"

definition apply_turn_started :: "event \<Rightarrow> turn_started_payload \<Rightarrow> state \<Rightarrow> state" where
  "apply_turn_started ev p0 s0 =
     (let p = resolve_queue s0 p0;
          s1 = leave_queue p (s0\<lparr>st_phase := ''turn''\<rparr>);
          s2 = s1\<lparr>st_turns := st_turns s1 @ [new_turn ev p],
                  st_title := first_title p (st_title s1)\<rparr>
      in if ts_prompt p \<noteq> [] \<or> ts_images p \<noteq> [] then
           upsert (''prompt:'' @ ts_turnID p)
             (user_message (ev_timestamp ev) (ts_prompt p) (ts_images p) (ts_turnID p)) s2
         else s2)"

definition apply_prompt_scheduled :: "scheduled_prompt \<Rightarrow> state \<Rightarrow> state" where
  "apply_prompt_scheduled p s = s\<lparr>st_scheduled := put_keyed sp_id p (st_scheduled s)\<rparr>"

definition apply_prompt_queued :: "event \<Rightarrow> prompt_queued_payload \<Rightarrow> state \<Rightarrow> state" where
  "apply_prompt_queued ev p s =
     s\<lparr>st_queued := st_queued s @
         [\<lparr>qp_queueID = pq_queueID p, qp_prompt = pq_prompt p, qp_images = pq_images p,
           qp_queuedAt = ev_timestamp ev, qp_sent = pq_sent p\<rparr>]\<rparr>"

definition apply_prompt_injected :: "event \<Rightarrow> prompt_injected_payload \<Rightarrow> state \<Rightarrow> state" where
  "apply_prompt_injected ev p s =
     (case queued s (pi_queueID p) of
        None \<Rightarrow> s
      | Some q \<Rightarrow>
          upsert (''prompt:'' @ pi_queueID p)
            (user_message (ev_timestamp ev) (qp_prompt q) (qp_images q) (pi_turnID p))
            (removeQueued (pi_queueID p) s))"

definition apply_turn_diff :: "turn_diff_payload \<Rightarrow> state \<Rightarrow> state" where
  "apply_turn_diff p s =
     s\<lparr>st_turns := update_where (\<lambda>t. tu_id t = td_turnID p) (\<lambda>t. t\<lparr>tu_diff := Some p\<rparr>) (st_turns s)\<rparr>"

text \<open>The finish of a turn: failed schedules, the open-turn guard, interrupted tools.\<close>

definition fail_scheduled :: "turn_finished_payload \<Rightarrow> scheduled_prompt list \<Rightarrow> scheduled_prompt list" where
  "fail_scheduled p sps =
     (if tf_stopReason p = StopError then
        update_where (\<lambda>sp. sp_turnID sp = tf_turnID p)
          (\<lambda>sp. sp\<lparr>sp_status := ''failed'', sp_error := tf_error p, sp_revision := sp_revision sp + 1\<rparr>) sps
      else sps)"

definition finish_turn :: "event \<Rightarrow> turn_finished_payload \<Rightarrow> turn \<Rightarrow> turn" where
  "finish_turn ev p t =
     t\<lparr>tu_stopReason := tf_stopReason p, tu_error := tf_error p, tu_failure := tf_failure p,
       tu_done := True, tu_finishedAt := ev_timestamp ev\<rparr>"

definition live_tools :: "job list \<Rightarrow> string list" where
  "live_tools js =
     map jb_toolCallID (filter (\<lambda>j. \<not> JobDone (jb_status j) \<and> jb_toolCallID j \<noteq> []) js)"

definition interrupted_tool :: "turn_finished_payload \<Rightarrow> job list \<Rightarrow> item \<Rightarrow> bool" where
  "interrupted_tool p js it \<longleftrightarrow>
     it_kind it = ItemTool \<and> in_flight it \<and> (it_turnID it = tf_turnID p \<or> it_turnID it = [])
     \<and> it_id it \<notin> set (live_tools js)"

definition apply_turn_finished :: "event \<Rightarrow> turn_finished_payload \<Rightarrow> state \<Rightarrow> state" where
  "apply_turn_finished ev p s =
     (let match = (open_turn s = [] \<or> tf_turnID p = open_turn s);
          s1 = s\<lparr>st_scheduled := fail_scheduled p (st_scheduled s),
                 st_turns := update_where (\<lambda>t. tu_id t = tf_turnID p) (finish_turn ev p) (st_turns s)\<rparr>
      in if match then
           s1\<lparr>st_phase := ''idle'',
              st_items := update_where (interrupted_tool p (st_jobs s))
                (\<lambda>it. it\<lparr>it_status := StatusCancelled\<rparr>) (st_items s)\<rparr>
         else s1)"

definition wake :: "state \<Rightarrow> state" where
  "wake s = (if st_phase s = ''idle'' then s\<lparr>st_phase := ''turn''\<rparr> else s)"

definition message_item :: "event \<Rightarrow> message_chunk_payload \<Rightarrow> item \<Rightarrow> item" where
  "message_item ev p it =
     (receive (ev_timestamp ev) (it\<lparr>it_kind := ItemMessage\<rparr>))
       \<lparr>it_role := mc_role p, it_contentKind := mc_kind p, it_turnID := mc_turnID p,
        it_parentID := keep (mc_parentToolCallID p) (it_parentID it),
        it_text := it_text it @ mc_delta p\<rparr>"

definition apply_message_chunk :: "event \<Rightarrow> message_chunk_payload \<Rightarrow> state \<Rightarrow> state" where
  "apply_message_chunk ev p s = upsert (mc_blockID p) (message_item ev p) (wake s)"

definition tool_started_item :: "event \<Rightarrow> tool_call_started_payload \<Rightarrow> item \<Rightarrow> item" where
  "tool_started_item ev p it =
     (receive (ev_timestamp ev) (it\<lparr>it_kind := ItemTool\<rparr>))
       \<lparr>it_turnID := cs_turnID p, it_toolKind := cs_kind p, it_title := cs_title p,
        it_status := cs_status p, it_input := cs_rawInput p,
        it_parentID := keep (cs_parentToolCallID p) (it_parentID it)\<rparr>"

definition apply_tool_started :: "event \<Rightarrow> tool_call_started_payload \<Rightarrow> state \<Rightarrow> state" where
  "apply_tool_started ev p s = upsert (cs_toolCallID p) (tool_started_item ev p) (wake s)"

definition tool_updated_item :: "event \<Rightarrow> tool_call_updated_payload \<Rightarrow> item \<Rightarrow> item" where
  "tool_updated_item ev p it =
     (receive (ev_timestamp ev) (it\<lparr>it_kind := ItemTool\<rparr>))
       \<lparr>it_status := keep (cu_status p) (it_status it),
        it_title := keep (cu_title p) (it_title it),
        it_parentID := keep (cu_parentToolCallID p) (it_parentID it),
        it_input := (if raw_present (cu_rawInput p) then cu_rawInput p else it_input it),
        it_content := it_content it @ cu_content p\<rparr>"

definition apply_tool_updated :: "event \<Rightarrow> tool_call_updated_payload \<Rightarrow> state \<Rightarrow> state" where
  "apply_tool_updated ev p s =
     upsert (cu_toolCallID p) (tool_updated_item ev p)
       (if cu_status p = StatusInProgress then wake s else s)"

definition notice_item :: "event \<Rightarrow> string \<Rightarrow> item \<Rightarrow> item" where
  "notice_item ev kind it =
     (receive (ev_timestamp ev) (it\<lparr>it_kind := ItemNotice\<rparr>))\<lparr>it_noticeKind := kind\<rparr>"

definition apply_context_compacted :: "event \<Rightarrow> context_compacted_payload \<Rightarrow> state \<Rightarrow> state" where
  "apply_context_compacted ev p s =
     upsert (''compact:'' @ format_int (ev_seq ev))
       (\<lambda>it. (notice_item ev ''compaction'' it)
          \<lparr>it_trigger := cp_trigger p, it_preTokens := cp_preTokens p, it_postTokens := cp_postTokens p\<rparr>) s"

definition apply_account_changed :: "event \<Rightarrow> thread_account_changed_payload \<Rightarrow> state \<Rightarrow> state" where
  "apply_account_changed ev p s =
     upsert (''account:'' @ format_int (ev_seq ev))
       (\<lambda>it. (notice_item ev ''account'' it)\<lparr>it_title := keep (ac_toName p) (ac_to p)\<rparr>) s"

definition ArtefactByID :: "state \<Rightarrow> string \<Rightarrow> artefact option" where
  "ArtefactByID s i = List.find (\<lambda>a. af_id a = i) (st_artefacts s)"

definition ArtefactByPath :: "state \<Rightarrow> string \<Rightarrow> artefact option" where
  "ArtefactByPath s p = List.find (\<lambda>a. af_path a = p) (st_artefacts s)"

definition shown_artefact :: "event \<Rightarrow> artefact_shown_payload \<Rightarrow> artefact" where
  "shown_artefact ev p =
     \<lparr>af_id = as_artefactID p, af_name = as_name p, af_path = as_path p, af_dir = as_dir p,
      af_mediaType = as_mediaType p, af_size = as_size p, af_entry = as_entry p,
      af_files = as_files p, af_modifiedAt = as_modifiedAt p, af_source = as_source p,
      af_note = as_note p, af_turnID = as_turnID p, af_shownAt = ev_timestamp ev\<rparr>"

definition artefact_item :: "event \<Rightarrow> artefact_shown_payload \<Rightarrow> item \<Rightarrow> item" where
  "artefact_item ev p it =
     (receive (ev_timestamp ev) (it\<lparr>it_kind := ItemArtefact, it_turnID := as_turnID p\<rparr>))
       \<lparr>it_title := as_name p, it_artefactID := as_artefactID p, it_mediaType := as_mediaType p,
        it_size := as_size p\<rparr>"

definition applyArtefact :: "event \<Rightarrow> artefact_shown_payload \<Rightarrow> state \<Rightarrow> state" where
  "applyArtefact ev p s =
     (let s1 = s\<lparr>st_artefacts := put_keyed af_id (shown_artefact ev p) (st_artefacts s)\<rparr>
      in if as_source p = ArtefactFromUpload then s1
         else upsert (''artefact:'' @ as_artefactID p @ ''@'' @ format_int (ev_seq ev))
                (artefact_item ev p) s1)"

definition apply_permission_requested :: "permission_requested_payload \<Rightarrow> state \<Rightarrow> state" where
  "apply_permission_requested p s =
     s\<lparr>st_pending := st_pending s @
         [\<lparr>pp_requestID = pr_requestID p, pp_toolCallID = pr_toolCallID p,
           pp_toolName = pr_toolName p, pp_title = pr_title p, pp_input = pr_rawInput p,
           pp_options = pr_options p\<rparr>]\<rparr>"

definition apply_permission_resolved :: "permission_resolved_payload \<Rightarrow> state \<Rightarrow> state" where
  "apply_permission_resolved p s =
     s\<lparr>st_pending := filter (\<lambda>q. pp_requestID q \<noteq> ps_requestID p) (st_pending s)\<rparr>"

definition card_item :: "event \<Rightarrow> elicitation_requested_payload \<Rightarrow> item \<Rightarrow> item" where
  "card_item ev p it =
     (receive (ev_timestamp ev) (it\<lparr>it_kind := ItemCard\<rparr>))
       \<lparr>it_turnID := er_turnID p, it_card := er_card p, it_status := CardPending\<rparr>"

definition apply_elicitation_requested :: "event \<Rightarrow> elicitation_requested_payload \<Rightarrow> state \<Rightarrow> state" where
  "apply_elicitation_requested ev p s =
     (let s1 = s\<lparr>st_elicitations := st_elicitations s @
                 [\<lparr>el_requestID = er_requestID p, el_prompt = er_prompt p,
                   el_schema = er_schema p, el_card = er_card p\<rparr>]\<rparr>
      in if raw_present (er_card p) then upsert (CardID (er_requestID p)) (card_item ev p) s1
         else s1)"

definition answer_card :: "elicitation_resolved_payload \<Rightarrow> item \<Rightarrow> item" where
  "answer_card p it =
     it\<lparr>it_status := cardResult p,
        it_outcome := (if raw_present (es_value p) then es_value p else it_outcome it)\<rparr>"

definition apply_elicitation_resolved :: "elicitation_resolved_payload \<Rightarrow> state \<Rightarrow> state" where
  "apply_elicitation_resolved p s =
     (let s1 = ensure_index
                 (s\<lparr>st_elicitations :=
                     filter (\<lambda>q. el_requestID q \<noteq> es_requestID p) (st_elicitations s)\<rparr>)
      in case index_get s1 (CardID (es_requestID p)) of
           None \<Rightarrow> s1
         | Some n \<Rightarrow>
             if it_kind (st_items s1 ! n) = ItemCard then
               s1\<lparr>st_items := (st_items s1)[n := answer_card p (st_items s1 ! n)]\<rparr>
             else s1)"

fun apply_body :: "event \<Rightarrow> event_body \<Rightarrow> state \<Rightarrow> state" where
  "apply_body ev (ThreadCreated p) s = apply_thread_created p s"
| "apply_body ev (ThreadConfigChanged p) s = apply_config_changed p s"
| "apply_body ev (ThreadClosed _) s = apply_thread_closed s"
| "apply_body ev (WorkspaceRequested p) s = apply_workspace_requested ev p s"
| "apply_body ev (WorkspaceHookStarted p) s = apply_hook_started p s"
| "apply_body ev (WorkspaceHookOutput p) s = apply_hook_output p s"
| "apply_body ev (WorkspaceHookFinished p) s = apply_hook_finished p s"
| "apply_body ev (WorkspaceReady p) s = apply_workspace_ready p s"
| "apply_body ev (WorkspaceFailed p) s = apply_workspace_failed ''provision_failed'' p s"
| "apply_body ev (WorkspaceCleanupStarted purge _) s = apply_cleanup_started purge s"
| "apply_body ev (WorkspaceCleanupFailed p) s = apply_workspace_failed ''cleanup_failed'' p s"
| "apply_body ev WorkspaceCleanupFinished s = apply_workspace_released s"
| "apply_body ev WorkspaceReleased s = apply_workspace_released s"
| "apply_body ev (TurnStarted p) s = apply_turn_started ev p s"
| "apply_body ev (PromptScheduled p) s = apply_prompt_scheduled p s"
| "apply_body ev (PromptQueued p) s = apply_prompt_queued ev p s"
| "apply_body ev (PromptInjected p) s = apply_prompt_injected ev p s"
| "apply_body ev (PromptDequeued p) s = removeQueued (pd_queueID p) s"
| "apply_body ev (TurnDiff p) s = apply_turn_diff p s"
| "apply_body ev (TurnFinished p) s = apply_turn_finished ev p s"
| "apply_body ev (MessageChunk p) s = apply_message_chunk ev p s"
| "apply_body ev (ToolCallStarted p) s = apply_tool_started ev p s"
| "apply_body ev (ToolCallUpdated p) s = apply_tool_updated ev p s"
| "apply_body ev (JobStarted p) s = applyJob ev False p s"
| "apply_body ev (JobUpdated p) s = applyJob ev False p s"
| "apply_body ev (JobFinished p) s = applyJob ev True p s"
| "apply_body ev (PlanUpdated es) s = s\<lparr>st_plan := es\<rparr>"
| "apply_body ev (UsageUpdated p) s = s\<lparr>st_usage := p\<rparr>"
| "apply_body ev (ContextCompacted p) s = apply_context_compacted ev p s"
| "apply_body ev (ArtefactShown p) s = applyArtefact ev p s"
| "apply_body ev (ThreadAccountChanged p) s = apply_account_changed ev p s"
| "apply_body ev (PermissionRequested p) s = apply_permission_requested p s"
| "apply_body ev (PermissionResolved p) s = apply_permission_resolved p s"
| "apply_body ev (ElicitationRequested p) s = apply_elicitation_requested ev p s"
| "apply_body ev (ElicitationResolved p) s = apply_elicitation_resolved p s"
| "apply_body ev (OtherEvent _) s = s"

definition Apply :: "state \<Rightarrow> event \<Rightarrow> state" where
  "Apply s ev =
     (if ev_seq ev \<le> st_seq s then s
      else apply_body ev (ev_body ev) (s\<lparr>st_seq := ev_seq ev\<rparr>))"

section \<open>Copies and snapshots\<close>

text \<open>
  \<open>Clone\<close> copies the value and drops the index; slices shared with the original are not
  visible in a value model.  \<open>snapshot_blob\<close> is what \<open>json.Marshal\<close> keeps of a state, and
  \<open>FromSnapshot\<close> decodes it back.
\<close>

definition Clone :: "state \<Rightarrow> state" where
  "Clone s = s\<lparr>st_index := None\<rparr>"

definition snapshot_blob :: "state \<Rightarrow> state" where
  "snapshot_blob s =
     s\<lparr>st_index := None,
       st_scheduled := map (\<lambda>p. p\<lparr>sp_images := map stored_image (sp_images p)\<rparr>) (st_scheduled s),
       st_items := map (\<lambda>it. it\<lparr>it_images := map stored_image (it_images it)\<rparr>) (st_items s),
       st_turns := map (\<lambda>t. t\<lparr>tu_images := map stored_image (tu_images t)\<rparr>) (st_turns s),
       st_queued := map (\<lambda>q. q\<lparr>qp_images := map stored_image (qp_images q)\<rparr>) (st_queued s),
       st_elicitations := map (\<lambda>e. e\<lparr>el_schema := stored_raw (el_schema e)\<rparr>) (st_elicitations s)\<rparr>"

definition FromSnapshot :: "state \<Rightarrow> state" where
  "FromSnapshot blob = reindex blob"

end
