(* ===== verification/Database.thy ===== *)
theory Database
  imports Projection
begin

text \<open>
  The SQLite database behind the store (internal/store): its tables as lists of rows in rowid
  order, and the errors a statement or a check can end in.  A transaction that fails leaves the
  tables as they were; a failing disk or a cancelled context is outside the model.  SQL text
  compares bytewise; \<open>REAL\<close> columns are rationals.
\<close>

section \<open>Errors\<close>

text \<open>
  \<open>NotFound\<close>, \<open>CommandInProgress\<close>, \<open>FolderTaken\<close>, \<open>FolderInUse\<close> and
  \<open>ProjectInUse\<close> are the package's error values (the last two with their message);
  \<open>NoRows\<close> is a wrapped \<open>sql.ErrNoRows\<close>, \<open>ConstraintFailed\<close> a refused insert.
\<close>

datatype store_error =
    NotFound
  | NoRows
  | ConstraintFailed
  | CommandInProgress
  | CommandOfAnotherThread
  | FolderTaken string
  | FolderInUse string
  | ProjectInUse string

type_synonym 'a result = "store_error + 'a"

section \<open>Rows\<close>

record thread_meta =
  tm_scheduledCount :: int
  tm_id :: string
  tm_cwd :: string
  tm_harness :: string
  tm_providerInstance :: string
  tm_title :: string
  tm_createdAt :: int
  tm_updatedAt :: int
  tm_headSeq :: int
  tm_phase :: string
  tm_attention :: string
  tm_projectID :: string
  tm_folderID :: string
  tm_branch :: string
  tm_model :: string
  tm_mode :: string
  tm_effort :: string
  tm_workspaceMode :: string
  tm_baseRef :: string
  tm_pinned :: bool
  tm_lastViewedSeq :: int
  tm_position :: rat
  tm_provisionScript :: string
  tm_deprovisionScript :: string
  tm_provisionResult :: raw_message

record snapshot_row =
  sn_thread :: string
  sn_seq :: int
  sn_state :: state

record command_row =
  cm_id :: string
  cm_thread :: string
  cm_result :: "json option"
  cm_createdAt :: int

record schedule_row =
  sc_thread :: string
  sc_id :: string
  sc_dueAt :: int
  sc_status :: string

text \<open>Projects and folders (internal/project): the defaults are the stored JSON's fields.\<close>

record harness_defaults =
  hd_model :: string
  hd_effort :: string
  hd_mode :: string

record defaults =
  de_harness :: string
  de_harnesses :: "(string \<times> harness_defaults) list option"
  de_workspace :: string
  de_voice :: string

record folder =
  fo_id :: string
  fo_path :: string
  fo_git :: bool
  fo_baseBranch :: string
  fo_copiesDir :: string
  fo_provision :: string
  fo_deprovision :: string
  fo_provisionTimeout :: int
  fo_deprovisionTimeout :: int

record project =
  pj_id :: string
  pj_name :: string
  pj_home :: string
  pj_defaults :: defaults
  pj_folders :: "folder list"
  pj_createdAt :: int
  pj_updatedAt :: int

record project_row =
  pw_id :: string
  pw_name :: string
  pw_home :: string
  pw_defaults :: defaults
  pw_createdAt :: int
  pw_updatedAt :: int

record folder_row =
  fw_project :: string
  fw_folder :: folder
  fw_position :: int
  fw_createdAt :: int

record device =
  dv_id :: string
  dv_label :: string
  dv_createdAt :: int
  dv_lastSeen :: int

record device_row =
  dw_device :: device
  dw_tokenHash :: string

record pairing_row =
  pa_codeHash :: string
  pa_createdAt :: int
  pa_expiresAt :: int
  pa_usedAt :: "int option"

record push_row =
  pu_id :: string
  pu_endpoint :: string
  pu_p256dh :: string
  pu_auth :: string
  pu_label :: string
  pu_device :: string
  pu_createdAt :: int

text \<open>The tables.  An event row is the event itself, its payload as it was marshalled.\<close>

record db =
  db_threads :: "thread_meta list"
  db_events :: "event list"
  db_snapshots :: "snapshot_row list"
  db_commands :: "command_row list"
  db_scheduled :: "schedule_row list"
  db_projects :: "project_row list"
  db_folders :: "folder_row list"
  db_devices :: "device_row list"
  db_pairings :: "pairing_row list"
  db_push :: "push_row list"

definition empty_db :: db where
  "empty_db =
     \<lparr>db_threads = [], db_events = [], db_snapshots = [], db_commands = [], db_scheduled = [],
      db_projects = [], db_folders = [], db_devices = [], db_pairings = [], db_push = []\<rparr>"

section \<open>Statements\<close>

text \<open>\<open>UPDATE ... WHERE\<close> followed by the \<open>RowsAffected\<close> check: no row is \<open>ErrNotFound\<close>.\<close>

definition update_found :: "('r \<Rightarrow> bool) \<Rightarrow> ('r \<Rightarrow> 'r) \<Rightarrow> 'r list \<Rightarrow> 'r list result" where
  "update_found P f rows =
     (if list_ex P rows then Inr (update_where P f rows) else Inl NotFound)"

text \<open>The thread row with this id, and an update of it.\<close>

definition thread_row :: "db \<Rightarrow> string \<Rightarrow> thread_meta option" where
  "thread_row d t = List.find (\<lambda>m. tm_id m = t) (db_threads d)"

definition update_thread :: "string \<Rightarrow> (thread_meta \<Rightarrow> thread_meta) \<Rightarrow> db \<Rightarrow> db" where
  "update_thread t f d = d\<lparr>db_threads := update_where (\<lambda>m. tm_id m = t) f (db_threads d)\<rparr>"

definition update_thread_found :: "string \<Rightarrow> (thread_meta \<Rightarrow> thread_meta) \<Rightarrow> db \<Rightarrow> db result" where
  "update_thread_found t f d =
     map_sum id (\<lambda>rows. d\<lparr>db_threads := rows\<rparr>) (update_found (\<lambda>m. tm_id m = t) f (db_threads d))"

lemma update_thread_found_Inr:
  "update_thread_found t f d = Inr d' \<longleftrightarrow>
     d' = update_thread t f d \<and> t \<in> tm_id ` set (db_threads d)"
  by (auto simp: update_thread_found_def update_found_def update_thread_def list_ex_iff image_iff)

lemma update_thread_tables [simp]:
  "db_events (update_thread t f d) = db_events d"
  "db_snapshots (update_thread t f d) = db_snapshots d"
  "db_commands (update_thread t f d) = db_commands d"
  "db_scheduled (update_thread t f d) = db_scheduled d"
  "db_projects (update_thread t f d) = db_projects d"
  "db_folders (update_thread t f d) = db_folders d"
  "db_devices (update_thread t f d) = db_devices d"
  "db_pairings (update_thread t f d) = db_pairings d"
  by (simp_all add: update_thread_def)

lemma thread_row_Some:
  "thread_row d t = Some m \<Longrightarrow> m \<in> set (db_threads d) \<and> tm_id m = t"
  by (auto simp: thread_row_def dest: find_SomeD)

lemma thread_row_None: "thread_row d t = None \<longleftrightarrow> t \<notin> tm_id ` set (db_threads d)"
  by (auto simp: thread_row_def find_None_iff_key)

lemma find_update_where_row:
  assumes "\<And>m. key (f m) = key m"
  shows "List.find (\<lambda>m. key m = k) (update_where (\<lambda>m. key m = t) f rows) =
    (if k = t then map_option f (List.find (\<lambda>m. key m = t) rows)
     else List.find (\<lambda>m. key m = k) rows)"
  using assms by (induction rows) auto

lemma thread_row_update:
  "(\<And>m. tm_id (f m) = tm_id m) \<Longrightarrow>
   thread_row (update_thread t f d) k =
     (if k = t then map_option f (thread_row d t) else thread_row d k)"
  by (simp add: thread_row_def update_thread_def find_update_where_row)

lemma thread_ids_update:
  "(\<And>m. tm_id (f m) = tm_id m) \<Longrightarrow>
   map tm_id (db_threads (update_thread t f d)) = map tm_id (db_threads d)"
  by (simp add: update_thread_def map_update_where)

end
