(* ===== verification/EventStore.thy ===== *)
theory EventStore
  imports Database "HOL-Library.List_Lexorder"
begin

text \<open>
  The event store (internal/store/store.go, internal/store/schedules.go): the append-only log
  with its head per thread, the thread rows beside it, snapshots, command ids and the index of
  scheduled prompts.  Every write holds the store's mutex for its whole transaction, so an
  operation is one function from the tables to the tables; the time it reads
  (\<open>proto.NowMillis\<close>) is its first argument.
\<close>

section \<open>Threads\<close>

definition min_position :: "thread_meta list \<Rightarrow> rat" where
  "min_position ts = (case map tm_position ts of [] \<Rightarrow> 1 | p # ps \<Rightarrow> foldl min p ps)"

text \<open>The columns the insert does not list take their defaults.\<close>

definition inserted_thread :: "thread_meta \<Rightarrow> thread_meta list \<Rightarrow> thread_meta" where
  "inserted_thread m ts =
     m\<lparr>tm_scheduledCount := 0, tm_attention := [], tm_headSeq := 0, tm_lastViewedSeq := 0,
       tm_provisionResult := None, tm_position := min_position ts - 1\<rparr>"

definition CreateThread :: "thread_meta \<Rightarrow> db \<Rightarrow> db result" where
  "CreateThread m d =
     (if tm_projectID m \<noteq> [] \<and> \<not> list_ex (\<lambda>p. pw_id p = tm_projectID m) (db_projects d)
      then Inl NotFound
      else if list_ex (\<lambda>r. tm_id r = tm_id m) (db_threads d) then Inl ConstraintFailed
      else Inr (d\<lparr>db_threads := db_threads d @ [inserted_thread m (db_threads d)]\<rparr>))"

definition SetPhase :: "int \<Rightarrow> string \<Rightarrow> string \<Rightarrow> db \<Rightarrow> db" where
  "SetPhase now t phase d = update_thread t (\<lambda>m. m\<lparr>tm_phase := phase, tm_updatedAt := now\<rparr>) d"

definition SetProviderInstance :: "int \<Rightarrow> string \<Rightarrow> string \<Rightarrow> db \<Rightarrow> db" where
  "SetProviderInstance now t inst d =
     update_thread t (\<lambda>m. m\<lparr>tm_providerInstance := inst, tm_updatedAt := now\<rparr>) d"

definition SetTitle :: "string \<Rightarrow> string \<Rightarrow> db \<Rightarrow> db" where
  "SetTitle t title d =
     update_thread t (\<lambda>m. if tm_title m = [] then m\<lparr>tm_title := title\<rparr> else m) d"

definition RenameThread :: "string \<Rightarrow> string \<Rightarrow> db \<Rightarrow> db result" where
  "RenameThread t title d = update_thread_found t (\<lambda>m. m\<lparr>tm_title := title\<rparr>) d"

definition Thread :: "string \<Rightarrow> db \<Rightarrow> thread_meta result" where
  "Thread t d =
     (case thread_row d t of
        None \<Rightarrow> Inl NotFound
      | Some m \<Rightarrow> Inr (m\<lparr>tm_scheduledCount := 0, tm_attention := []\<rparr>))"

text \<open>\<open>ORDER BY position ASC, created_at DESC, id DESC\<close>, as three stable sorts.\<close>

definition listed :: "thread_meta \<Rightarrow> thread_meta" where
  "listed m =
     m\<lparr>tm_scheduledCount := 0, tm_attention := [], tm_provisionScript := [],
       tm_deprovisionScript := [], tm_provisionResult := None\<rparr>"

definition byte_key :: "string \<Rightarrow> nat list" where
  "byte_key s = map of_char s"

definition ListThreads :: "db \<Rightarrow> thread_meta list" where
  "ListThreads d =
     map listed
       (sort_key tm_position
         (sort_key (\<lambda>m. - tm_createdAt m)
           (rev (sort_key (\<lambda>m. byte_key (tm_id m)) (db_threads d)))))"

definition UpdateWorkspace ::
  "int \<Rightarrow> string \<Rightarrow> string \<Rightarrow> string \<Rightarrow> string \<Rightarrow> raw_message \<Rightarrow> db \<Rightarrow> db" where
  "UpdateWorkspace now t cwd branch phase result d =
     update_thread t
       (\<lambda>m. m\<lparr>tm_cwd := cwd, tm_branch := branch, tm_phase := phase, tm_provisionResult := result,
              tm_updatedAt := now\<rparr>) d"

definition DeleteThread :: "string \<Rightarrow> db \<Rightarrow> db" where
  "DeleteThread t d =
     d\<lparr>db_scheduled := filter (\<lambda>r. sc_thread r \<noteq> t) (db_scheduled d),
       db_events := filter (\<lambda>e. ev_threadID e \<noteq> t) (db_events d),
       db_snapshots := filter (\<lambda>r. sn_thread r \<noteq> t) (db_snapshots d),
       db_commands := filter (\<lambda>r. cm_thread r \<noteq> t) (db_commands d),
       db_threads := filter (\<lambda>m. tm_id m \<noteq> t) (db_threads d)\<rparr>"

definition SetThreadPinned :: "string \<Rightarrow> bool \<Rightarrow> db \<Rightarrow> db result" where
  "SetThreadPinned t b d = update_thread_found t (\<lambda>m. m\<lparr>tm_pinned := b\<rparr>) d"

definition SetThreadPosition :: "string \<Rightarrow> rat \<Rightarrow> db \<Rightarrow> db result" where
  "SetThreadPosition t p d = update_thread_found t (\<lambda>m. m\<lparr>tm_position := p\<rparr>) d"

definition MarkThreadViewed :: "string \<Rightarrow> int \<Rightarrow> db \<Rightarrow> db result" where
  "MarkThreadViewed t seq d =
     update_thread_found t
       (\<lambda>m. m\<lparr>tm_lastViewedSeq := max (tm_lastViewedSeq m) (min seq (tm_headSeq m))\<rparr>) d"

definition MarkThreadUnread :: "string \<Rightarrow> db \<Rightarrow> db result" where
  "MarkThreadUnread t d = update_thread_found t (\<lambda>m. m\<lparr>tm_lastViewedSeq := 0\<rparr>) d"

section \<open>The log\<close>

text \<open>The due-time index, written in the transaction of its source event.\<close>

definition schedule_key :: "schedule_row \<Rightarrow> string \<times> string" where
  "schedule_key r = (sc_thread r, sc_id r)"

fun updateScheduleIndex :: "string \<Rightarrow> event_body \<Rightarrow> schedule_row list \<Rightarrow> schedule_row list" where
  "updateScheduleIndex t (PromptScheduled p) rows =
     put_keyed schedule_key
       \<lparr>sc_thread = t, sc_id = sp_id p, sc_dueAt = sp_dueAt p, sc_status = sp_status p\<rparr> rows"
| "updateScheduleIndex t (TurnStarted p) rows =
     update_where (\<lambda>r. sc_thread r = t \<and> sc_id r = ts_queueID p)
       (\<lambda>r. r\<lparr>sc_status := ''sent''\<rparr>) rows"
| "updateScheduleIndex t (ThreadClosed _) rows = filter (\<lambda>r. sc_thread r \<noteq> t) rows"
| "updateScheduleIndex t _ rows = rows"

definition Append :: "int \<Rightarrow> string \<Rightarrow> event_body \<Rightarrow> db \<Rightarrow> (event \<times> db) result" where
  "Append now t em d =
     (let payload = stored_body em
      in case thread_row d t of
           None \<Rightarrow> Inl NoRows
         | Some m \<Rightarrow>
             let seq = tm_headSeq m + 1;
                 ev = \<lparr>ev_threadID = t, ev_seq = seq, ev_timestamp = now, ev_body = payload\<rparr>
             in if list_ex (\<lambda>e. ev_threadID e = t \<and> ev_seq e = seq) (db_events d)
                then Inl ConstraintFailed
                else Inr (ev,
                  (update_thread t (\<lambda>m. m\<lparr>tm_headSeq := seq, tm_updatedAt := now\<rparr>) d)
                    \<lparr>db_events := db_events d @ [ev],
                     db_scheduled := updateScheduleIndex t payload (db_scheduled d)\<rparr>))"

text \<open>\<open>LIMIT\<close> with a negative number is no limit.\<close>

definition sql_limit :: "int \<Rightarrow> 'a list \<Rightarrow> 'a list" where
  "sql_limit n xs = (if n < 0 then xs else take (nat n) xs)"

definition ReadEvents :: "string \<Rightarrow> int \<Rightarrow> int \<Rightarrow> db \<Rightarrow> event list" where
  "ReadEvents t afterSeq limit d =
     sql_limit limit
       (sort_key ev_seq (filter (\<lambda>e. ev_threadID e = t \<and> ev_seq e > afterSeq) (db_events d)))"

section \<open>Snapshots\<close>

definition snapshot_key :: "snapshot_row \<Rightarrow> string \<times> int" where
  "snapshot_key r = (sn_thread r, sn_seq r)"

text \<open>\<open>INSERT OR REPLACE\<close> deletes the row it conflicts with and inserts the new one.\<close>

definition PutSnapshot :: "string \<Rightarrow> int \<Rightarrow> state \<Rightarrow> db \<Rightarrow> db" where
  "PutSnapshot t seq s d =
     (let new = \<lparr>sn_thread = t, sn_seq = seq, sn_state = snapshot_blob s\<rparr>;
          rows = filter (\<lambda>r. snapshot_key r \<noteq> (t, seq)) (db_snapshots d) @ [new]
      in d\<lparr>db_snapshots := filter (\<lambda>r. \<not> (sn_thread r = t \<and> sn_seq r < seq)) rows\<rparr>)"

definition LatestSnapshot :: "string \<Rightarrow> db \<Rightarrow> (int \<times> state) option" where
  "LatestSnapshot t d =
     (case rev (sort_key sn_seq (filter (\<lambda>r. sn_thread r = t) (db_snapshots d))) of
        [] \<Rightarrow> None | r # _ \<Rightarrow> Some (sn_seq r, sn_state r))"

section \<open>Command ids\<close>

text \<open>The answer of a claim: the stored result and whether the command had completed before.\<close>

definition ClaimCommand :: "int \<Rightarrow> string \<Rightarrow> string \<Rightarrow> db \<Rightarrow> (json option \<times> bool \<times> db) result" where
  "ClaimCommand now c t d =
     (case List.find (\<lambda>r. cm_id r = c) (db_commands d) of
        Some r \<Rightarrow>
          (if cm_thread r \<noteq> t then Inl CommandOfAnotherThread
           else case cm_result r of
                  None \<Rightarrow> Inl CommandInProgress
                | Some j \<Rightarrow> Inr (Some j, True, d))
      | None \<Rightarrow>
          Inr (None, False,
            d\<lparr>db_commands := db_commands d @
                [\<lparr>cm_id = c, cm_thread = t, cm_result = None, cm_createdAt = now\<rparr>]\<rparr>))"

definition ReleaseCommand :: "string \<Rightarrow> db \<Rightarrow> db" where
  "ReleaseCommand c d =
     d\<lparr>db_commands := filter (\<lambda>r. \<not> (cm_id r = c \<and> cm_result r = None)) (db_commands d)\<rparr>"

definition CompleteCommand :: "string \<Rightarrow> json \<Rightarrow> db \<Rightarrow> db" where
  "CompleteCommand c j d =
     d\<lparr>db_commands := update_where (\<lambda>r. cm_id r = c) (\<lambda>r. r\<lparr>cm_result := Some j\<rparr>) (db_commands d)\<rparr>"

section \<open>Due schedules\<close>

definition pending_status :: "string \<Rightarrow> bool" where
  "pending_status s \<longleftrightarrow> s = ''pending'' \<or> s = ''ready''"

text \<open>The query has no \<open>ORDER BY\<close>: the order of the ids is the model's.\<close>

definition DueScheduleThreads :: "int \<Rightarrow> db \<Rightarrow> string list" where
  "DueScheduleThreads now d =
     remdups (map sc_thread (filter (\<lambda>r. pending_status (sc_status r) \<and> sc_dueAt r \<le> now
       \<and> list_ex (\<lambda>m. tm_id m = sc_thread r \<and> (tm_phase m = ''idle'' \<or> tm_phase m = ''turn''))
           (db_threads d)) (db_scheduled d)))"

definition ScheduleCounts :: "db \<Rightarrow> string \<Rightarrow> nat option" where
  "ScheduleCounts d t =
     (let n = length (filter (\<lambda>r. sc_thread r = t \<and> pending_status (sc_status r)) (db_scheduled d))
      in if n = 0 then None else Some n)"

section \<open>The log of a thread\<close>

definition log_of :: "string \<Rightarrow> db \<Rightarrow> event list" where
  "log_of t d = filter (\<lambda>e. ev_threadID e = t) (db_events d)"

end
