(* ===== verification/EventLog.thy ===== *)
theory EventLog
  imports Proto
begin

text \<open>
  What a thread's actor, its presenters and the history endpoint rely on from the store: each
  thread has a log whose numbers are its positions from one, appending extends one log by one
  event, and a read is a page of what lies after a number.
\<close>

locale event_log =
  fixes inv :: "'d \<Rightarrow> bool"
    and has :: "'d \<Rightarrow> string \<Rightarrow> bool"
    and log :: "'d \<Rightarrow> string \<Rightarrow> event list"
    and read :: "'d \<Rightarrow> string \<Rightarrow> int \<Rightarrow> nat \<Rightarrow> event list"
    and append :: "'d \<Rightarrow> int \<Rightarrow> string \<Rightarrow> event_body \<Rightarrow> (event \<times> 'd) option"
  assumes numbered: "inv d \<Longrightarrow> map ev_seq (log d t) = map int [1..<Suc (length (log d t))]"
    and read_page: "inv d \<Longrightarrow> read d t a n = take n (filter (\<lambda>e. a < ev_seq e) (log d t))"
    and append_total: "inv d \<Longrightarrow> has d t \<Longrightarrow> append d now t b \<noteq> None"
    and append_log: "inv d \<Longrightarrow> append d now t b = Some (ev, d') \<Longrightarrow>
      log d' t' = (if t' = t then log d t @ [ev] else log d t')"
    and append_event: "inv d \<Longrightarrow> append d now t b = Some (ev, d') \<Longrightarrow>
      ev_body ev = stored_body b \<and> ev_threadID ev = t \<and> ev_timestamp ev = now"
    and append_inv: "inv d \<Longrightarrow> append d now t b = Some (ev, d') \<Longrightarrow> inv d'"
    and append_has: "inv d \<Longrightarrow> append d now t b = Some (ev, d') \<Longrightarrow> has d' t' = has d t'"
begin

lemma nth_seq: "inv d \<Longrightarrow> i < length (log d t) \<Longrightarrow> ev_seq (log d t ! i) = int i + 1"
proof -
  assume d: "inv d" and i: "i < length (log d t)"
  then have "map ev_seq (log d t) ! i = map int [1..<Suc (length (log d t))] ! i"
    using numbered [OF d] by simp
  with i show ?thesis by (simp del: upt_Suc)
qed

lemma append_seq:
  assumes "inv d" and "append d now t b = Some (ev, d')"
  shows "ev_seq ev = int (length (log d t)) + 1"
  using nth_seq [OF append_inv [OF assms], of "length (log d t)" t] append_log [OF assms, of t]
  by simp

lemma after_drop:
  assumes "inv d"
  shows "filter (\<lambda>e. a < ev_seq e) (log d t) = drop (nat a) (log d t)"
proof -
  let ?k = "min (nat a) (length (log d t))"
  have low: "filter (\<lambda>e. a < ev_seq e) (take ?k (log d t)) = []"
    by (auto simp: filter_empty_conv in_set_conv_nth nth_seq [OF assms])
  have high: "filter (\<lambda>e. a < ev_seq e) (drop ?k (log d t)) = drop ?k (log d t)"
    by (rule filter_True) (auto simp: in_set_conv_nth nth_seq [OF assms])
  have "filter (\<lambda>e. a < ev_seq e) (log d t) =
      filter (\<lambda>e. a < ev_seq e) (take ?k (log d t)) @ filter (\<lambda>e. a < ev_seq e) (drop ?k (log d t))"
    by (metis append_take_drop_id filter_append)
  also have "\<dots> = drop ?k (log d t)" by (simp only: low high append_Nil)
  also have "\<dots> = drop (nat a) (log d t)" by (simp add: min_def)
  finally show ?thesis .
qed

lemma read_slice: "inv d \<Longrightarrow> read d t a n = take n (drop (nat a) (log d t))"
  by (simp add: read_page after_drop)

lemma read_empty: "inv d \<Longrightarrow> 0 < n \<Longrightarrow> read d t a n = [] \<longleftrightarrow> int (length (log d t)) \<le> a \<or> log d t = []"
  by (cases "log d t") (auto simp: read_slice)

lemma log_strictly_increasing: "inv d \<Longrightarrow> sorted_wrt (<) (0 # map ev_seq (log d t))"
proof -
  assume d: "inv d"
  have "sorted_wrt (<) (map int [1..<Suc n])" for n
    by (induction n) (auto simp: sorted_wrt_append)
  then show ?thesis
    using numbered [OF d, of t] by (auto simp: nth_seq [OF d] in_set_conv_nth)
qed

text \<open>A page ends at a number, and what lies after that number is the rest.\<close>

lemma last_page:
  assumes "inv d" and "read d t a n \<noteq> []"
  shows "ev_seq (last (read d t a n)) = int (nat a + length (read d t a n))"
proof -
  let ?L = "drop (nat a) (log d t)" and ?p = "read d t a n"
  have p: "?p = take n ?L" by (rule read_slice [OF assms(1)])
  have len: "0 < length ?p" using assms(2) by simp
  then have i: "nat a + (length ?p - 1) < length (log d t)" by (simp add: p) linarith
  have "length ?p \<le> n" by (simp add: p)
  have "last ?p = take n ?L ! (length ?p - 1)"
    using len p by (simp add: last_conv_nth)
  also have "\<dots> = ?L ! (length ?p - 1)" using len \<open>length ?p \<le> n\<close> by (intro nth_take) linarith
  also have "\<dots> = log d t ! (nat a + (length ?p - 1))" using i by simp
  finally show ?thesis using nth_seq [OF assms(1) i] len by simp
qed

lemma read_split:
  assumes "inv d" and "read d t a n \<noteq> []"
  shows "filter (\<lambda>e. a < ev_seq e) (log d t) =
    read d t a n @ filter (\<lambda>e. ev_seq (last (read d t a n)) < ev_seq e) (log d t)"
proof -
  let ?L = "drop (nat a) (log d t)" and ?p = "read d t a n"
  have p: "?p = take n ?L" by (rule read_slice [OF assms(1)])
  have "filter (\<lambda>e. ev_seq (last ?p) < ev_seq e) (log d t) = drop (nat a + length ?p) (log d t)"
    by (simp only: after_drop [OF assms(1)] last_page [OF assms] nat_int)
  also have "\<dots> = drop (length ?p) ?L" by (simp add: add.commute)
  also have "\<dots> = drop n ?L" by (simp add: p min_def)
  finally have "filter (\<lambda>e. ev_seq (last ?p) < ev_seq e) (log d t) = drop n ?L" .
  moreover have "?L = take n ?L @ drop n ?L" by (rule append_take_drop_id [symmetric])
  ultimately show ?thesis
    by (simp only: after_drop [OF assms(1), of a] p)
qed

lemma page_increasing: "inv d \<Longrightarrow> sorted_wrt (<) (map ev_seq (read d t a n))"
proof -
  assume d: "inv d"
  have "sorted_wrt (<) (map ev_seq (log d t))" using log_strictly_increasing [OF d] by simp
  then have "sorted_wrt (<) (drop (nat a) (map ev_seq (log d t)))"
    by (metis append_take_drop_id sorted_wrt_append)
  then have "sorted_wrt (<) (take n (drop (nat a) (map ev_seq (log d t))))"
    by (metis append_take_drop_id sorted_wrt_append)
  then show ?thesis by (simp add: read_slice [OF d] take_map drop_map)
qed

end

end
