(* ===== verification/ProjectStore.thy ===== *)
theory ProjectStore
  imports Database
begin

text \<open>
  Projects and the folders they point at (internal/project/project.go,
  internal/store/projects.go), and the devices, pairing codes and revocation that live beside
  them in the database (internal/store/store.go).  Whether a path is inside a git working tree is asked of the file
  system, so \<open>isGit\<close> is an argument.
\<close>

section \<open>Normal forms\<close>

definition NormalizeFolder :: "folder \<Rightarrow> folder" where
  "NormalizeFolder f =
     f\<lparr>fo_copiesDir := (if trim_space (fo_copiesDir f) = [] then ''.worktrees'' else fo_copiesDir f),
       fo_provisionTimeout := (if fo_provisionTimeout f \<le> 0 then 1800 else fo_provisionTimeout f),
       fo_deprovisionTimeout := (if fo_deprovisionTimeout f \<le> 0 then 600 else fo_deprovisionTimeout f)\<rparr>"

definition NewFolder :: "string \<Rightarrow> string \<Rightarrow> folder" where
  "NewFolder i path =
     NormalizeFolder
       \<lparr>fo_id = i, fo_path = path, fo_git = False, fo_baseBranch = [], fo_copiesDir = [],
        fo_provision = [], fo_deprovision = [], fo_provisionTimeout = 0, fo_deprovisionTimeout = 0\<rparr>"

definition NormalizeDefaults :: "defaults \<Rightarrow> defaults" where
  "NormalizeDefaults d =
     d\<lparr>de_workspace := (if de_workspace d = [] then ''local'' else de_workspace d),
       de_harnesses := (case de_harnesses d of None \<Rightarrow> Some [] | Some m \<Rightarrow> Some m),
       de_voice := trim_space (de_voice d)\<rparr>"

text \<open>An empty harness map is left out of the stored JSON (\<open>omitempty\<close>).\<close>

definition stored_defaults :: "defaults \<Rightarrow> defaults" where
  "stored_defaults d = (if de_harnesses d = Some [] then d\<lparr>de_harnesses := None\<rparr> else d)"

definition project_folder :: "project \<Rightarrow> string \<Rightarrow> folder option" where
  "project_folder p i = List.find (\<lambda>f. fo_id f = i) (pj_folders p)"

section \<open>Projects and folders\<close>

text \<open>
  Both keys of the folders table answer with a message that names UNIQUE: the id and the pair
  of project and path.
\<close>

definition insertFolder :: "string \<Rightarrow> folder \<Rightarrow> int \<Rightarrow> int \<Rightarrow> db \<Rightarrow> db result" where
  "insertFolder projectID f0 position created d =
     (let f = NormalizeFolder f0
      in if list_ex (\<lambda>r. fo_id (fw_folder r) = fo_id f
                       \<or> (fw_project r = projectID \<and> fo_path (fw_folder r) = fo_path f)) (db_folders d)
         then Inl (FolderTaken (fo_path f))
         else Inr (d\<lparr>db_folders := db_folders d @
                [\<lparr>fw_project = projectID, fw_folder = f\<lparr>fo_git := False\<rparr>, fw_position = position,
                  fw_createdAt = created\<rparr>]\<rparr>))"

fun insert_folders :: "string \<Rightarrow> folder list \<Rightarrow> int \<Rightarrow> int \<Rightarrow> db \<Rightarrow> db result" where
  "insert_folders pid [] i created d = Inr d"
| "insert_folders pid (f # fs) i created d =
     (case insertFolder pid f i created d of
        Inl e \<Rightarrow> Inl e
      | Inr d' \<Rightarrow> insert_folders pid fs (i + 1) created d')"

definition CreateProject :: "project \<Rightarrow> db \<Rightarrow> db result" where
  "CreateProject p d =
     (if list_ex (\<lambda>r. pw_id r = pj_id p) (db_projects d) then Inl ConstraintFailed
      else insert_folders (pj_id p) (pj_folders p) 0 (pj_createdAt p)
             (d\<lparr>db_projects := db_projects d @
                [\<lparr>pw_id = pj_id p, pw_name = pj_name p, pw_home = pj_home p,
                  pw_defaults = stored_defaults (NormalizeDefaults (pj_defaults p)),
                  pw_createdAt = pj_createdAt p, pw_updatedAt = pj_updatedAt p\<rparr>]\<rparr>))"

definition update_project_found :: "string \<Rightarrow> (project_row \<Rightarrow> project_row) \<Rightarrow> db \<Rightarrow> db result" where
  "update_project_found i f d =
     map_sum id (\<lambda>rows. d\<lparr>db_projects := rows\<rparr>) (update_found (\<lambda>r. pw_id r = i) f (db_projects d))"

definition UpdateProject :: "int \<Rightarrow> project \<Rightarrow> db \<Rightarrow> db result" where
  "UpdateProject now p d =
     update_project_found (pj_id p)
       (\<lambda>r. r\<lparr>pw_name := pj_name p, pw_defaults := stored_defaults (NormalizeDefaults (pj_defaults p)),
              pw_updatedAt := now\<rparr>) d"

definition SetProjectHome :: "string \<Rightarrow> string \<Rightarrow> db \<Rightarrow> db result" where
  "SetProjectHome i home d = update_project_found i (\<lambda>r. r\<lparr>pw_home := home\<rparr>) d"

definition next_position :: "string \<Rightarrow> db \<Rightarrow> int" where
  "next_position pid d =
     (case map fw_position (filter (\<lambda>r. fw_project r = pid) (db_folders d)) of
        [] \<Rightarrow> 0 | p # ps \<Rightarrow> foldl max p ps + 1)"

definition AddFolder :: "int \<Rightarrow> string \<Rightarrow> folder \<Rightarrow> db \<Rightarrow> db result" where
  "AddFolder now pid f d =
     (if \<not> list_ex (\<lambda>r. pw_id r = pid) (db_projects d) then Inl NotFound
      else case insertFolder pid f (next_position pid d) now d of
             Inl e \<Rightarrow> Inl e
           | Inr d' \<Rightarrow>
               Inr (d'\<lparr>db_projects := update_where (\<lambda>r. pw_id r = pid)
                     (\<lambda>r. r\<lparr>pw_updatedAt := now\<rparr>) (db_projects d')\<rparr>))"

definition UpdateFolder :: "string \<Rightarrow> folder \<Rightarrow> db \<Rightarrow> db result" where
  "UpdateFolder pid f0 d =
     (let f = NormalizeFolder f0
      in map_sum id (\<lambda>rows. d\<lparr>db_folders := rows\<rparr>)
           (update_found (\<lambda>r. fo_id (fw_folder r) = fo_id f \<and> fw_project r = pid)
             (\<lambda>r. r\<lparr>fw_folder := (fw_folder r)\<lparr>fo_baseBranch := fo_baseBranch f,
                fo_copiesDir := fo_copiesDir f, fo_provision := fo_provision f,
                fo_deprovision := fo_deprovision f, fo_provisionTimeout := fo_provisionTimeout f,
                fo_deprovisionTimeout := fo_deprovisionTimeout f\<rparr>\<rparr>) (db_folders d)))"

definition plural :: "nat \<Rightarrow> string \<Rightarrow> string" where
  "plural n noun =
     (if n = 1 then ''1 '' @ noun else format_int (int n) @ '' '' @ noun @ ''s'')"

definition RemoveFolder :: "string \<Rightarrow> string \<Rightarrow> db \<Rightarrow> db result" where
  "RemoveFolder pid fid d =
     (let threads = length (filter (\<lambda>m. tm_folderID m = fid) (db_threads d))
      in if threads > 0 then Inl (FolderInUse (''delete its '' @ plural threads ''thread'' @ '' first''))
         else if \<not> list_ex (\<lambda>r. fo_id (fw_folder r) = fid \<and> fw_project r = pid) (db_folders d)
         then Inl NotFound
         else Inr (d\<lparr>db_folders :=
                filter (\<lambda>r. \<not> (fo_id (fw_folder r) = fid \<and> fw_project r = pid)) (db_folders d)\<rparr>))"

text \<open>\<open>ORDER BY position, created_at\<close> and \<open>ORDER BY updated_at DESC\<close>; ties keep the rows' order.\<close>

definition folders_of :: "(string \<Rightarrow> bool) \<Rightarrow> string \<Rightarrow> db \<Rightarrow> folder list" where
  "folders_of isGit pid d =
     map (\<lambda>r. (fw_folder r)\<lparr>fo_git := isGit (fo_path (fw_folder r))\<rparr>)
       (filter (\<lambda>r. fw_project r = pid)
         (sort_key fw_position (sort_key fw_createdAt (db_folders d))))"

definition projects :: "(string \<Rightarrow> bool) \<Rightarrow> (project_row \<Rightarrow> bool) \<Rightarrow> db \<Rightarrow> project list" where
  "projects isGit wh d =
     map (\<lambda>r. \<lparr>pj_id = pw_id r, pj_name = pw_name r, pj_home = pw_home r,
                pj_defaults = NormalizeDefaults (pw_defaults r),
                pj_folders = folders_of isGit (pw_id r) d,
                pj_createdAt = pw_createdAt r, pj_updatedAt = pw_updatedAt r\<rparr>)
       (sort_key (\<lambda>r. - pw_updatedAt r) (filter wh (db_projects d)))"

definition Project :: "(string \<Rightarrow> bool) \<Rightarrow> string \<Rightarrow> db \<Rightarrow> project result" where
  "Project isGit i d =
     (case projects isGit (\<lambda>r. pw_id r = i) d of [] \<Rightarrow> Inl NotFound | p # _ \<Rightarrow> Inr p)"

definition ListProjects :: "(string \<Rightarrow> bool) \<Rightarrow> db \<Rightarrow> project list" where
  "ListProjects isGit d = projects isGit (\<lambda>_. True) d"

definition DeleteProject :: "string \<Rightarrow> db \<Rightarrow> db result" where
  "DeleteProject i d =
     (let threads = length (filter (\<lambda>m. tm_projectID m = i) (db_threads d))
      in if threads > 0 then Inl (ProjectInUse (''delete its '' @ plural threads ''thread'' @ '' first''))
         else if \<not> list_ex (\<lambda>r. pw_id r = i) (db_projects d) then Inl NotFound
         else Inr (d\<lparr>db_projects := filter (\<lambda>r. pw_id r \<noteq> i) (db_projects d),
                     db_folders := filter (\<lambda>r. fw_project r \<noteq> i) (db_folders d)\<rparr>))"

section \<open>Devices and pairing codes\<close>

definition CreateDevice :: "int \<Rightarrow> string \<Rightarrow> string \<Rightarrow> string \<Rightarrow> db \<Rightarrow> db result" where
  "CreateDevice now i tokenHash label d =
     (if list_ex (\<lambda>r. dv_id (dw_device r) = i \<or> dw_tokenHash r = tokenHash) (db_devices d)
      then Inl ConstraintFailed
      else Inr (d\<lparr>db_devices := db_devices d @
             [\<lparr>dw_device = \<lparr>dv_id = i, dv_label = label, dv_createdAt = now, dv_lastSeen = now\<rparr>,
               dw_tokenHash = tokenHash\<rparr>]\<rparr>))"

text \<open>\<open>last_seen\<close> is written at most once a minute; the answer carries the old stamp.\<close>

definition DeviceByToken :: "int \<Rightarrow> string \<Rightarrow> db \<Rightarrow> (device \<times> db) result" where
  "DeviceByToken now tokenHash d =
     (case List.find (\<lambda>r. dw_tokenHash r = tokenHash) (db_devices d) of
        None \<Rightarrow> Inl NotFound
      | Some r \<Rightarrow>
          let dev = dw_device r
          in if now - dv_lastSeen dev > 60000 then
               Inr (dev, d\<lparr>db_devices := update_where (\<lambda>r. dv_id (dw_device r) = dv_id dev)
                     (\<lambda>r. r\<lparr>dw_device := (dw_device r)\<lparr>dv_lastSeen := now\<rparr>\<rparr>) (db_devices d)\<rparr>)
             else Inr (dev, d))"

definition ListDevices :: "db \<Rightarrow> device list" where
  "ListDevices d = sort_key (\<lambda>v. - dv_lastSeen v) (map dw_device (db_devices d))"

definition RevokeDevice :: "string \<Rightarrow> db \<Rightarrow> db" where
  "RevokeDevice i d =
     d\<lparr>db_devices := filter (\<lambda>r. dv_id (dw_device r) \<noteq> i) (db_devices d),
       db_push := filter (\<lambda>r. pu_device r \<noteq> i) (db_push d)\<rparr>"

definition CreatePairing :: "int \<Rightarrow> string \<Rightarrow> int \<Rightarrow> db \<Rightarrow> db" where
  "CreatePairing now codeHash expires d =
     d\<lparr>db_pairings := filter (\<lambda>r. pa_codeHash r \<noteq> codeHash) (db_pairings d) @
         [\<lparr>pa_codeHash = codeHash, pa_createdAt = now, pa_expiresAt = expires, pa_usedAt = None\<rparr>]\<rparr>"

definition redeemable :: "int \<Rightarrow> string \<Rightarrow> pairing_row \<Rightarrow> bool" where
  "redeemable now codeHash r \<longleftrightarrow>
     pa_codeHash r = codeHash \<and> pa_usedAt r = None \<and> pa_expiresAt r > now"

definition RedeemPairing :: "int \<Rightarrow> string \<Rightarrow> db \<Rightarrow> db result" where
  "RedeemPairing now codeHash d =
     map_sum id (\<lambda>rows. d\<lparr>db_pairings := rows\<rparr>)
       (update_found (redeemable now codeHash) (\<lambda>r. r\<lparr>pa_usedAt := Some now\<rparr>) (db_pairings d))"

definition RedeemPairingForDevice ::
  "int \<Rightarrow> string \<Rightarrow> string \<Rightarrow> string \<Rightarrow> string \<Rightarrow> db \<Rightarrow> db result" where
  "RedeemPairingForDevice now codeHash i tokenHash label d =
     (case RedeemPairing now codeHash d of
        Inl e \<Rightarrow> Inl e
      | Inr d' \<Rightarrow> CreateDevice now i tokenHash label d')"

definition PurgePairings :: "int \<Rightarrow> db \<Rightarrow> db" where
  "PurgePairings now d =
     d\<lparr>db_pairings := filter (\<lambda>r. \<not> (pa_expiresAt r < now \<or> pa_usedAt r \<noteq> None)) (db_pairings d)\<rparr>"

section \<open>Push subscriptions\<close>

text \<open>
  An upsert by endpoint (internal/store/push.go): the new id and creation time are kept only
  by a new row, and the id answered is the row's.
\<close>

definition SavePushSubscription :: "string \<Rightarrow> int \<Rightarrow> push_row \<Rightarrow> db \<Rightarrow> (string \<times> db) result" where
  "SavePushSubscription uuid now p d =
     (case List.find (\<lambda>r. pu_endpoint r = pu_endpoint p) (db_push d) of
        Some r \<Rightarrow>
          Inr (pu_id r, d\<lparr>db_push := update_where (\<lambda>r. pu_endpoint r = pu_endpoint p)
            (\<lambda>r. r\<lparr>pu_p256dh := pu_p256dh p, pu_auth := pu_auth p, pu_label := pu_label p,
                   pu_device := pu_device p\<rparr>) (db_push d)\<rparr>)
      | None \<Rightarrow>
          if list_ex (\<lambda>r. pu_id r = uuid) (db_push d) then Inl ConstraintFailed
          else Inr (uuid, d\<lparr>db_push := db_push d @ [p\<lparr>pu_id := uuid, pu_createdAt := now\<rparr>]\<rparr>))"

text \<open>\<open>ORDER BY created_at DESC, rowid DESC\<close>: among equals the later row first.\<close>

definition ListPushSubscriptions :: "db \<Rightarrow> push_row list" where
  "ListPushSubscriptions d = sort_key (\<lambda>r. - pu_createdAt r) (rev (db_push d))"

definition DeletePushSubscription :: "string \<Rightarrow> db \<Rightarrow> db result" where
  "DeletePushSubscription i d =
     (if \<not> list_ex (\<lambda>r. pu_id r = i) (db_push d) then Inl NotFound
      else Inr (d\<lparr>db_push := filter (\<lambda>r. pu_id r \<noteq> i) (db_push d)\<rparr>))"

end
