(* ===== verification/StoreInv.thy ===== *)
theory StoreInv
  imports EventStore EventLog ProjectStore
begin

text \<open>
  The store as a step relation: every write operation is a step, and the databases the code can
  produce are those reachable from the empty one.  \<open>store_ok\<close> is what holds of all of them:
  each log is numbered without gaps up to its thread's head, every row belongs to a thread,
  keys are unique, and no thread or folder points at a project that is gone.
\<close>

section \<open>Steps\<close>

inductive store_step :: "db \<Rightarrow> db \<Rightarrow> bool" where
  create_thread: "CreateThread m d = Inr d' \<Longrightarrow> store_step d d'"
| append: "Append now t b d = Inr (ev, d') \<Longrightarrow> store_step d d'"
| set_phase: "store_step d (SetPhase now t phase d)"
| set_instance: "store_step d (SetProviderInstance now t inst d)"
| set_title: "store_step d (SetTitle t title d)"
| rename: "RenameThread t title d = Inr d' \<Longrightarrow> store_step d d'"
| update_workspace: "store_step d (UpdateWorkspace now t cwd branch phase res d)"
| delete_thread: "store_step d (DeleteThread t d)"
| set_pinned: "SetThreadPinned t b d = Inr d' \<Longrightarrow> store_step d d'"
| set_position: "SetThreadPosition t p d = Inr d' \<Longrightarrow> store_step d d'"
| viewed: "MarkThreadViewed t seq d = Inr d' \<Longrightarrow> store_step d d'"
| unread: "MarkThreadUnread t d = Inr d' \<Longrightarrow> store_step d d'"
| put_snapshot: "store_step d (PutSnapshot t seq s d)"
| claim: "ClaimCommand now c t d = Inr (j, replay, d') \<Longrightarrow> store_step d d'"
| release: "store_step d (ReleaseCommand c d)"
| complete: "store_step d (CompleteCommand c j d)"
| create_project: "CreateProject p d = Inr d' \<Longrightarrow> store_step d d'"
| update_project: "UpdateProject now p d = Inr d' \<Longrightarrow> store_step d d'"
| set_home: "SetProjectHome i home d = Inr d' \<Longrightarrow> store_step d d'"
| add_folder: "AddFolder now pid f d = Inr d' \<Longrightarrow> store_step d d'"
| update_folder: "UpdateFolder pid f d = Inr d' \<Longrightarrow> store_step d d'"
| remove_folder: "RemoveFolder pid fid d = Inr d' \<Longrightarrow> store_step d d'"
| delete_project: "DeleteProject i d = Inr d' \<Longrightarrow> store_step d d'"
| create_device: "CreateDevice now i tok label d = Inr d' \<Longrightarrow> store_step d d'"
| see_device: "DeviceByToken now tok d = Inr (dev, d') \<Longrightarrow> store_step d d'"
| revoke_device: "store_step d (RevokeDevice i d)"
| create_pairing: "store_step d (CreatePairing now code expires d)"
| redeem: "RedeemPairing now code d = Inr d' \<Longrightarrow> store_step d d'"
| redeem_device: "RedeemPairingForDevice now code i tok label d = Inr d' \<Longrightarrow> store_step d d'"
| purge: "store_step d (PurgePairings now d)"
| save_push: "SavePushSubscription uuid now p d = Inr (i, d') \<Longrightarrow> store_step d d'"
| delete_push: "DeletePushSubscription i d = Inr d' \<Longrightarrow> store_step d d'"

inductive store_reachable :: "db \<Rightarrow> bool" where
  empty: "store_reachable empty_db"
| step: "store_reachable d \<Longrightarrow> store_step d d' \<Longrightarrow> store_reachable d'"

section \<open>The invariant\<close>

definition thread_ok :: "event list \<Rightarrow> thread_meta \<Rightarrow> bool" where
  "thread_ok evs m \<longleftrightarrow>
     (let l = filter (\<lambda>e. ev_threadID e = tm_id m) evs
      in map ev_seq l = map int [1..<Suc (length l)] \<and> tm_headSeq m = int (length l)
         \<and> 0 \<le> tm_lastViewedSeq m \<and> tm_lastViewedSeq m \<le> tm_headSeq m)"

definition threads_ok :: "db \<Rightarrow> bool" where
  "threads_ok d \<longleftrightarrow>
     distinct (map tm_id (db_threads d))
     \<and> (\<forall>m\<in>set (db_threads d). thread_ok (db_events d) m)
     \<and> (\<forall>e\<in>set (db_events d). ev_threadID e \<in> tm_id ` set (db_threads d) \<and> stored_body (ev_body e) = ev_body e)"

definition keys_ok :: "db \<Rightarrow> bool" where
  "keys_ok d \<longleftrightarrow>
     distinct (map schedule_key (db_scheduled d))
     \<and> distinct (map snapshot_key (db_snapshots d))
     \<and> distinct (map cm_id (db_commands d))
     \<and> distinct (map pw_id (db_projects d))
     \<and> distinct (map (\<lambda>r. fo_id (fw_folder r)) (db_folders d))
     \<and> distinct (map (\<lambda>r. (fw_project r, fo_path (fw_folder r))) (db_folders d))
     \<and> distinct (map (\<lambda>r. dv_id (dw_device r)) (db_devices d))
     \<and> distinct (map dw_tokenHash (db_devices d))
     \<and> distinct (map pa_codeHash (db_pairings d))
     \<and> distinct (map pu_id (db_push d)) \<and> distinct (map pu_endpoint (db_push d))"

definition refs_ok :: "db \<Rightarrow> bool" where
  "refs_ok d \<longleftrightarrow>
     (\<forall>m\<in>set (db_threads d). tm_projectID m \<noteq> [] \<longrightarrow> tm_projectID m \<in> pw_id ` set (db_projects d))
     \<and> (\<forall>r\<in>set (db_folders d). fw_project r \<in> pw_id ` set (db_projects d))"

section \<open>Threads and logs\<close>

lemma threads_ok_cong:
  "db_threads d' = db_threads d \<Longrightarrow> db_events d' = db_events d \<Longrightarrow> threads_ok d' = threads_ok d"
  by (simp add: threads_ok_def)

lemma set_update_where: "set (update_where P f xs) = (\<lambda>x. if P x then f x else x) ` set xs"
  by (simp add: update_where_def)

lemma thread_ok_frame:
  "filter (\<lambda>e. ev_threadID e = tm_id m) es' = filter (\<lambda>e. ev_threadID e = tm_id m) es \<Longrightarrow>
   thread_ok es' m = thread_ok es m"
  by (simp add: thread_ok_def Let_def)

lemma threads_ok_update:
  assumes "threads_ok d" and "\<And>m. tm_id (f m) = tm_id m"
    and "\<And>m. thread_ok (db_events d) m \<Longrightarrow> thread_ok (db_events d) (f m)"
  shows "threads_ok (update_thread t f d)"
proof -
  have "tm_id ` set (db_threads (update_thread t f d)) = tm_id ` set (db_threads d)"
    using thread_ids_update [of f t d] assms(2) by (metis list.set_map)
  moreover have "distinct (map tm_id (db_threads (update_thread t f d)))"
    using assms by (simp add: thread_ids_update threads_ok_def)
  moreover have "\<forall>m\<in>set (db_threads (update_thread t f d)). thread_ok (db_events d) m"
    using assms by (auto simp: update_thread_def set_update_where threads_ok_def)
  ultimately show ?thesis
    using assms(1) by (simp add: threads_ok_def)
qed

lemma thread_ok_fields:
  assumes "tm_id m' = tm_id m" and "tm_headSeq m' = tm_headSeq m"
    and "tm_lastViewedSeq m' = tm_lastViewedSeq m"
  shows "thread_ok evs m' = thread_ok evs m"
  using assms by (simp add: thread_ok_def)

lemma threads_ok_CreateThread:
  assumes "threads_ok d" and "CreateThread m d = Inr d'"
  shows "threads_ok d'"
proof -
  have d': "d' = d\<lparr>db_threads := db_threads d @ [inserted_thread m (db_threads d)]\<rparr>"
    and new: "tm_id m \<notin> tm_id ` set (db_threads d)"
    using assms(2) by (auto simp: CreateThread_def list_ex_iff split: if_splits)
  have "\<forall>e\<in>set (db_events d). ev_threadID e \<noteq> tm_id m"
    using assms(1) new unfolding threads_ok_def by metis
  then have "filter (\<lambda>e. ev_threadID e = tm_id m) (db_events d) = []"
    by (simp add: filter_empty_conv)
  then have "thread_ok (db_events d) (inserted_thread m (db_threads d))"
    by (simp add: thread_ok_def inserted_thread_def)
  with assms(1) new show ?thesis
    by (auto simp: threads_ok_def d' inserted_thread_def)
qed

lemma Append_Inr:
  "Append now t b d = Inr (ev, d') \<longleftrightarrow>
     (\<exists>m. thread_row d t = Some m \<and> \<not> list_ex (\<lambda>e. ev_threadID e = t \<and> ev_seq e = tm_headSeq m + 1) (db_events d)
        \<and> ev = \<lparr>ev_threadID = t, ev_seq = tm_headSeq m + 1, ev_timestamp = now, ev_body = stored_body b\<rparr>
        \<and> d' = (update_thread t (\<lambda>m'. m'\<lparr>tm_headSeq := tm_headSeq m + 1, tm_updatedAt := now\<rparr>) d)
             \<lparr>db_events := db_events d @ [ev],
              db_scheduled := updateScheduleIndex t (stored_body b) (db_scheduled d)\<rparr>)"
  by (auto simp: Append_def Let_def split: option.splits if_splits)

lemma threads_ok_Append:
  assumes ok: "threads_ok d" and app: "Append now t b d = Inr (ev, d')"
  shows "threads_ok d'"
proof -
  obtain m where m: "thread_row d t = Some m"
    and ev: "ev = \<lparr>ev_threadID = t, ev_seq = tm_headSeq m + 1, ev_timestamp = now, ev_body = stored_body b\<rparr>"
    and d': "d' = (update_thread t (\<lambda>m'. m'\<lparr>tm_headSeq := tm_headSeq m + 1, tm_updatedAt := now\<rparr>) d)
             \<lparr>db_events := db_events d @ [ev],
              db_scheduled := updateScheduleIndex t (stored_body b) (db_scheduled d)\<rparr>"
    using app unfolding Append_Inr by blast
  let ?f = "\<lambda>m'. m'\<lparr>tm_headSeq := tm_headSeq m + 1, tm_updatedAt := now\<rparr>"
  have mt: "m \<in> set (db_threads d)" "tm_id m = t" using thread_row_Some [OF m] by auto
  have mids: "map tm_id (db_threads d') = map tm_id (db_threads d)"
    using thread_ids_update [of ?f t d] by (simp add: d')
  then have ids: "tm_id ` set (db_threads d') = tm_id ` set (db_threads d)"
    by (metis list.set_map)
  have same: "m' = m" if "m' \<in> set (db_threads d)" "tm_id m' = t" for m'
    using ok that mt by (metis (no_types, lifting) distinct_map inj_onD threads_ok_def)
  have "thread_ok (db_events d @ [ev]) m'" if mem: "m' \<in> set (db_threads d')" for m'
  proof -
    have "db_threads d' = update_where (\<lambda>m'. tm_id m' = t) ?f (db_threads d)"
      by (simp add: d' update_thread_def)
    then obtain n where n: "n \<in> set (db_threads d)" "m' = (if tm_id n = t then ?f n else n)"
      using mem by (simp only: set_update_where image_iff) blast
    then have okn: "thread_ok (db_events d) n" using ok by (simp add: threads_ok_def)
    show ?thesis
    proof (cases "tm_id n = t")
      case True
      with same n have "n = m" by simp
      with n okn True show ?thesis by (auto simp: thread_ok_def Let_def ev mt)
    next
      case False
      with n okn show ?thesis by (simp add: thread_ok_def Let_def ev)
    qed
  qed
  moreover have "distinct (map tm_id (db_threads d'))"
    using ok mids by (simp add: threads_ok_def)
  ultimately show ?thesis
    using ok mt ids by (auto simp: threads_ok_def d' ev stored_body_idem)
qed

lemma threads_ok_DeleteThread:
  assumes "threads_ok d"
  shows "threads_ok (DeleteThread t d)"
proof -
  have "thread_ok (filter (\<lambda>e. ev_threadID e \<noteq> t) es) m = thread_ok es m" if "tm_id m \<noteq> t" for m es
    using that by (intro thread_ok_frame) (auto simp: filter_filter intro!: filter_cong)
  then show ?thesis
    using assms by (auto simp: threads_ok_def DeleteThread_def distinct_map_filter)
qed

lemma threads_ok_update_fields:
  assumes "threads_ok d" and "\<And>m. tm_id (f m) = tm_id m" and "\<And>m. tm_headSeq (f m) = tm_headSeq m"
    and "\<And>m. tm_lastViewedSeq (f m) = tm_lastViewedSeq m"
  shows "threads_ok (update_thread t f d)"
proof (rule threads_ok_update [OF assms(1,2)])
  show "thread_ok (db_events d) (f m)" if "thread_ok (db_events d) m" for m
    using that thread_ok_fields [OF assms(2,3,4)] by simp
qed

lemma threads_ok_MarkThreadViewed:
  "threads_ok d \<Longrightarrow> MarkThreadViewed t seq d = Inr d' \<Longrightarrow> threads_ok d'"
  unfolding MarkThreadViewed_def update_thread_found_Inr
  by (elim conjE, hypsubst, rule threads_ok_update)
    (auto simp: thread_ok_def Let_def simp del: upt_Suc)

lemma threads_ok_MarkThreadUnread:
  "threads_ok d \<Longrightarrow> MarkThreadUnread t d = Inr d' \<Longrightarrow> threads_ok d'"
  unfolding MarkThreadUnread_def update_thread_found_Inr
  by (elim conjE, hypsubst, rule threads_ok_update)
    (auto simp: thread_ok_def Let_def simp del: upt_Suc)

section \<open>Which tables an operation leaves alone\<close>

lemma insertFolder_frame:
  "insertFolder pid f i c d = Inr d' \<Longrightarrow>
   d' = d\<lparr>db_folders := db_folders d'\<rparr>"
  by (auto simp: insertFolder_def Let_def split: if_splits)

lemma insert_folders_frame:
  "insert_folders pid fs i c d = Inr d' \<Longrightarrow> d' = d\<lparr>db_folders := db_folders d'\<rparr>"
proof (induction fs arbitrary: i d)
  case (Cons f fs)
  then obtain d1 where d1: "insertFolder pid f i c d = Inr d1"
    and "insert_folders pid fs (i + 1) c d1 = Inr d'"
    by (auto split: sum.splits)
  then have "d' = d1\<lparr>db_folders := db_folders d'\<rparr>" using Cons.IH by blast
  then show ?case using insertFolder_frame [OF d1]
    by (cases d; cases d1; cases d') simp
qed (cases d, simp)

definition same_log :: "db \<Rightarrow> db \<Rightarrow> bool" where
  "same_log d d' \<longleftrightarrow> db_threads d' = db_threads d \<and> db_events d' = db_events d"

lemma same_log_ok: "same_log d d' \<Longrightarrow> threads_ok d \<Longrightarrow> threads_ok d'"
  by (simp add: same_log_def threads_ok_def)

lemma same_log_insert_folders: "insert_folders pid fs i c d = Inr d' \<Longrightarrow> same_log d d'"
  by (drule insert_folders_frame) (cases d; cases d'; simp add: same_log_def)

lemma update_found_Inr: "update_found P f rows = Inr rows' \<longleftrightarrow> rows' = update_where P f rows \<and> (\<exists>r\<in>set rows. P r)"
  by (auto simp: update_found_def list_ex_iff)

lemma map_sum_Inr: "map_sum f g x = Inr y \<longleftrightarrow> (\<exists>z. x = Inr z \<and> y = g z)"
  by (cases x) auto

lemma same_log_projects:
  "CreateProject p d = Inr d' \<Longrightarrow> same_log d d'"
  "UpdateProject now p d = Inr d' \<Longrightarrow> same_log d d'"
  "SetProjectHome i home d = Inr d' \<Longrightarrow> same_log d d'"
  "AddFolder now pid f d = Inr d' \<Longrightarrow> same_log d d'"
  "UpdateFolder pid f d = Inr d' \<Longrightarrow> same_log d d'"
  "RemoveFolder pid fid d = Inr d' \<Longrightarrow> same_log d d'"
  "DeleteProject i d = Inr d' \<Longrightarrow> same_log d d'"
        apply (auto simp: CreateProject_def same_log_def dest!: same_log_insert_folders split: if_splits)[1]
       apply (auto simp: UpdateProject_def update_project_found_def map_sum_Inr same_log_def)[1]
      apply (auto simp: SetProjectHome_def update_project_found_def map_sum_Inr same_log_def)[1]
     apply (auto simp: AddFolder_def insertFolder_def Let_def same_log_def split: if_splits sum.splits)[1]
    apply (auto simp: UpdateFolder_def Let_def map_sum_Inr same_log_def)[1]
   apply (auto simp: RemoveFolder_def Let_def same_log_def split: if_splits)[1]
  apply (auto simp: DeleteProject_def Let_def same_log_def split: if_splits)[1]
  done

lemma same_log_devices:
  "CreateDevice now i tok label d = Inr d' \<Longrightarrow> same_log d d'"
  "DeviceByToken now tok d = Inr (dev, d') \<Longrightarrow> same_log d d'"
  "same_log d (RevokeDevice i d)"
  "same_log d (CreatePairing now code expires d)"
  "RedeemPairing now code d = Inr d' \<Longrightarrow> same_log d d'"
  "RedeemPairingForDevice now code i tok label d = Inr d' \<Longrightarrow> same_log d d'"
  "same_log d (PurgePairings now d)"
  "SavePushSubscription uuid now pr d = Inr (i, d') \<Longrightarrow> same_log d d'"
  "DeletePushSubscription i d = Inr d' \<Longrightarrow> same_log d d'"
          apply (auto simp: CreateDevice_def same_log_def split: if_splits)[1]
         apply (auto simp: DeviceByToken_def Let_def same_log_def split: if_splits option.splits)[1]
        apply (simp add: RevokeDevice_def same_log_def)
       apply (simp add: CreatePairing_def same_log_def)
      apply (auto simp: RedeemPairing_def map_sum_Inr same_log_def)[1]
     apply (auto simp: RedeemPairingForDevice_def RedeemPairing_def CreateDevice_def map_sum_Inr
        same_log_def split: if_splits sum.splits)[1]
    apply (simp add: PurgePairings_def same_log_def)
   apply (auto simp: SavePushSubscription_def same_log_def split: if_splits option.splits)[1]
  apply (auto simp: DeletePushSubscription_def same_log_def split: if_splits)[1]
  done

lemma same_log_rest:
  "same_log d (PutSnapshot t seq s d)"
  "ClaimCommand now c t d = Inr (j, replay, d') \<Longrightarrow> same_log d d'"
  "same_log d (ReleaseCommand c d)" "same_log d (CompleteCommand c r d)"
  by (auto simp: PutSnapshot_def Let_def ClaimCommand_def ReleaseCommand_def CompleteCommand_def
      same_log_def split: if_splits option.splits)

lemmas same_log_steps = same_log_projects same_log_devices same_log_rest

lemma threads_ok_step: "store_step d d' \<Longrightarrow> threads_ok d \<Longrightarrow> threads_ok d'"
proof (induction rule: store_step.induct)
  case (create_thread m d d')
  then show ?case by (blast intro: threads_ok_CreateThread)
next
  case (append now t b d ev d')
  then show ?case by (blast intro: threads_ok_Append)
next
  case (viewed t seq d d')
  then show ?case by (blast intro: threads_ok_MarkThreadViewed)
next
  case (unread t d d')
  then show ?case by (blast intro: threads_ok_MarkThreadUnread)
next
  case (delete_thread d t)
  then show ?case by (rule threads_ok_DeleteThread)
qed (auto simp: SetPhase_def SetProviderInstance_def SetTitle_def RenameThread_def
    UpdateWorkspace_def SetThreadPinned_def SetThreadPosition_def update_thread_found_Inr
    intro!: threads_ok_update_fields intro: same_log_ok same_log_steps)

section \<open>Keys\<close>

lemma distinct_map_update_where:
  "(\<And>x. P x \<Longrightarrow> g (f x) = g x) \<Longrightarrow> distinct (map g xs) \<Longrightarrow> distinct (map g (update_where P f xs))"
  by (simp add: map_update_where)

lemma distinct_map_snoc: "distinct (map g (xs @ [x])) \<longleftrightarrow> distinct (map g xs) \<and> g x \<notin> g ` set xs"
  by auto

definition same_keys :: "db \<Rightarrow> db \<Rightarrow> bool" where
  "same_keys d d' \<longleftrightarrow>
     db_scheduled d' = db_scheduled d \<and> db_snapshots d' = db_snapshots d
     \<and> db_commands d' = db_commands d \<and> db_projects d' = db_projects d
     \<and> db_folders d' = db_folders d \<and> db_devices d' = db_devices d
     \<and> db_pairings d' = db_pairings d \<and> db_push d' = db_push d"

lemma same_keys_ok: "same_keys d d' \<Longrightarrow> keys_ok d \<Longrightarrow> keys_ok d'"
  by (simp add: same_keys_def keys_ok_def)

lemma same_keys_update_thread: "same_keys d (update_thread t f d)"
  by (simp add: same_keys_def update_thread_def)

lemma keys_updateScheduleIndex:
  "distinct (map schedule_key rows) \<Longrightarrow> distinct (map schedule_key (updateScheduleIndex t b rows))"
  by (cases b) (simp_all add: distinct_put_keyed distinct_map_update_where distinct_map_filter
      schedule_key_def)

lemma keys_Append: "keys_ok d \<Longrightarrow> Append now t b d = Inr (ev, d') \<Longrightarrow> keys_ok d'"
  unfolding Append_Inr by (auto simp: keys_ok_def keys_updateScheduleIndex update_thread_def)

lemma keys_DeleteThread: "keys_ok d \<Longrightarrow> keys_ok (DeleteThread t d)"
  by (simp add: keys_ok_def DeleteThread_def distinct_map_filter)

lemma keys_PutSnapshot: "keys_ok d \<Longrightarrow> keys_ok (PutSnapshot t seq s d)"
  by (auto simp: keys_ok_def PutSnapshot_def Let_def distinct_map_filter snapshot_key_def)

lemma keys_commands:
  "keys_ok d \<Longrightarrow> ClaimCommand now c t d = Inr (j, replay, d') \<Longrightarrow> keys_ok d'"
  "keys_ok d \<Longrightarrow> keys_ok (ReleaseCommand c d)"
  "keys_ok d \<Longrightarrow> keys_ok (CompleteCommand c r d)"
proof -
  show "keys_ok d'" if "keys_ok d" "ClaimCommand now c t d = Inr (j, replay, d')"
    using that by (auto simp: keys_ok_def ClaimCommand_def find_None_iff_key split: option.splits if_splits)
qed (simp_all add: keys_ok_def ReleaseCommand_def CompleteCommand_def distinct_map_filter
      distinct_map_update_where)

lemma keys_insertFolder:
  "keys_ok d \<Longrightarrow> insertFolder pid f i c d = Inr d' \<Longrightarrow> keys_ok d'"
proof -
  assume ok: "keys_ok d" and ins: "insertFolder pid f i c d = Inr d'"
  let ?f = "NormalizeFolder f"
  have "fo_id ?f \<notin> (\<lambda>r. fo_id (fw_folder r)) ` set (db_folders d)"
    and "(pid, fo_path ?f) \<notin> (\<lambda>r. (fw_project r, fo_path (fw_folder r))) ` set (db_folders d)"
    and "d' = d\<lparr>db_folders := db_folders d @
      [\<lparr>fw_project = pid, fw_folder = ?f\<lparr>fo_git := False\<rparr>, fw_position = i, fw_createdAt = c\<rparr>]\<rparr>"
    using ins by (auto simp: insertFolder_def Let_def list_ex_iff split: if_splits)
  with ok show "keys_ok d'" by (simp add: keys_ok_def)
qed

lemma keys_insert_folders:
  "keys_ok d \<Longrightarrow> insert_folders pid fs i c d = Inr d' \<Longrightarrow> keys_ok d'"
proof (induction fs arbitrary: i d)
  case (Cons f fs)
  then show ?case by (auto split: sum.splits dest: keys_insertFolder)
qed simp

lemma keys_projects_update:
  "keys_ok d \<Longrightarrow> (\<And>r. pw_id (f r) = pw_id r) \<Longrightarrow>
   keys_ok (d\<lparr>db_projects := update_where P f (db_projects d)\<rparr>)"
  by (simp add: keys_ok_def distinct_map_update_where)

lemma keys_CreateProject: "keys_ok d \<Longrightarrow> CreateProject p d = Inr d' \<Longrightarrow> keys_ok d'"
proof -
  assume ok: "keys_ok d" and c: "CreateProject p d = Inr d'"
  then have "\<forall>r\<in>set (db_projects d). pw_id r \<noteq> pj_id p"
    by (auto simp: CreateProject_def list_ex_iff split: if_splits)
  then have "keys_ok (d\<lparr>db_projects := db_projects d @ [r]\<rparr>)" if "pw_id r = pj_id p" for r
    using ok that by (auto simp: keys_ok_def)
  with c show "keys_ok d'"
    by (auto simp: CreateProject_def split: if_splits elim!: keys_insert_folders [rotated])
qed

lemma keys_AddFolder: "keys_ok d \<Longrightarrow> AddFolder now pid f d = Inr d' \<Longrightarrow> keys_ok d'"
  by (auto simp: AddFolder_def split: if_splits sum.splits intro: keys_projects_update keys_insertFolder)

lemma keys_projects:
  "keys_ok d \<Longrightarrow> UpdateProject now p d = Inr d' \<Longrightarrow> keys_ok d'"
  "keys_ok d \<Longrightarrow> SetProjectHome i home d = Inr d' \<Longrightarrow> keys_ok d'"
  "keys_ok d \<Longrightarrow> UpdateFolder pid f d = Inr d' \<Longrightarrow> keys_ok d'"
  "keys_ok d \<Longrightarrow> RemoveFolder pid fid d = Inr d' \<Longrightarrow> keys_ok d'"
  "keys_ok d \<Longrightarrow> DeleteProject i d = Inr d' \<Longrightarrow> keys_ok d'"
      apply (auto simp: UpdateProject_def update_project_found_def map_sum_Inr update_found_Inr
      intro: keys_projects_update)[1]
     apply (auto simp: SetProjectHome_def update_project_found_def map_sum_Inr update_found_Inr
      intro: keys_projects_update)[1]
    apply (auto simp: UpdateFolder_def Let_def map_sum_Inr update_found_Inr keys_ok_def
      distinct_map_update_where)[1]
   apply (auto simp: RemoveFolder_def Let_def keys_ok_def distinct_map_filter split: if_splits)[1]
  apply (auto simp: DeleteProject_def Let_def keys_ok_def distinct_map_filter split: if_splits)[1]
  done

lemma keys_CreateDevice: "keys_ok d \<Longrightarrow> CreateDevice now i tok label d = Inr d' \<Longrightarrow> keys_ok d'"
  by (auto simp: CreateDevice_def keys_ok_def list_ex_iff split: if_splits)

lemma keys_RedeemPairing: "keys_ok d \<Longrightarrow> RedeemPairing now code d = Inr d' \<Longrightarrow> keys_ok d'"
  by (auto simp: RedeemPairing_def map_sum_Inr update_found_Inr keys_ok_def distinct_map_update_where)

lemma keys_DeviceByToken: "keys_ok d \<Longrightarrow> DeviceByToken now tok d = Inr (dev, d') \<Longrightarrow> keys_ok d'"
  by (auto simp: DeviceByToken_def Let_def keys_ok_def distinct_map_update_where
      split: if_splits option.splits)

lemma keys_CreatePairing: "keys_ok d \<Longrightarrow> keys_ok (CreatePairing now code expires d)"
  by (auto simp: CreatePairing_def keys_ok_def distinct_map_filter)

lemma keys_RedeemPairingForDevice:
  "keys_ok d \<Longrightarrow> RedeemPairingForDevice now code i tok label d = Inr d' \<Longrightarrow> keys_ok d'"
  by (auto simp: RedeemPairingForDevice_def split: sum.splits
      intro: keys_CreateDevice keys_RedeemPairing)

lemma keys_SavePushSubscription:
  "keys_ok d \<Longrightarrow> SavePushSubscription uuid now pr d = Inr (i, d') \<Longrightarrow> keys_ok d'"
proof (cases "List.find (\<lambda>r. pu_endpoint r = pu_endpoint pr) (db_push d)")
  case None
  then have "pu_endpoint pr \<notin> pu_endpoint ` set (db_push d)"
    by (auto simp: find_None_iff_key image_iff)
  moreover assume "keys_ok d" "SavePushSubscription uuid now pr d = Inr (i, d')"
  ultimately show "keys_ok d'"
    using None by (auto simp: SavePushSubscription_def keys_ok_def list_ex_iff split: if_splits)
next
  case (Some r)
  assume "keys_ok d" "SavePushSubscription uuid now pr d = Inr (i, d')"
  with Some show "keys_ok d'"
    by (auto simp: SavePushSubscription_def keys_ok_def distinct_map_update_where)
qed

lemma keys_deletions:
  "keys_ok d \<Longrightarrow> keys_ok (RevokeDevice i d)"
  "keys_ok d \<Longrightarrow> keys_ok (PurgePairings now d)"
  "keys_ok d \<Longrightarrow> DeletePushSubscription i d = Inr d' \<Longrightarrow> keys_ok d'"
  by (auto simp: RevokeDevice_def PurgePairings_def DeletePushSubscription_def keys_ok_def
      distinct_map_filter split: if_splits)

lemmas keys_devices =
  keys_DeviceByToken keys_CreatePairing keys_RedeemPairingForDevice keys_SavePushSubscription
  keys_deletions

lemma same_keys_CreateThread: "CreateThread m d = Inr d' \<Longrightarrow> same_keys d d'"
  by (auto simp: CreateThread_def same_keys_def split: if_splits)

lemma keys_ok_step: "store_step d d' \<Longrightarrow> keys_ok d \<Longrightarrow> keys_ok d'"
  by (induction rule: store_step.induct)
    (auto simp: SetPhase_def SetProviderInstance_def SetTitle_def RenameThread_def
      UpdateWorkspace_def SetThreadPinned_def SetThreadPosition_def MarkThreadViewed_def
      MarkThreadUnread_def update_thread_found_Inr
      intro: same_keys_ok same_keys_update_thread same_keys_CreateThread keys_Append
        keys_DeleteThread keys_PutSnapshot keys_commands keys_CreateProject keys_AddFolder
        keys_projects keys_CreateDevice keys_RedeemPairing keys_devices)

section \<open>References\<close>

definition same_refs :: "db \<Rightarrow> db \<Rightarrow> bool" where
  "same_refs d d' \<longleftrightarrow>
     map tm_projectID (db_threads d') = map tm_projectID (db_threads d)
     \<and> map pw_id (db_projects d') = map pw_id (db_projects d)
     \<and> map fw_project (db_folders d') = map fw_project (db_folders d)"

lemma refs_ok_alt:
  "refs_ok d \<longleftrightarrow>
     (\<forall>i\<in>set (map tm_projectID (db_threads d)). i \<noteq> [] \<longrightarrow> i \<in> set (map pw_id (db_projects d)))
     \<and> (\<forall>i\<in>set (map fw_project (db_folders d)). i \<in> set (map pw_id (db_projects d)))"
  by (auto simp: refs_ok_def)

lemma same_refs_ok: "same_refs d d' \<Longrightarrow> refs_ok d \<Longrightarrow> refs_ok d'"
  unfolding refs_ok_alt same_refs_def by simp

lemma same_refs_update_thread:
  "(\<And>m. tm_projectID (f m) = tm_projectID m) \<Longrightarrow> same_refs d (update_thread t f d)"
  by (simp add: same_refs_def update_thread_def map_update_where)

lemma same_refs_Append: "Append now t b d = Inr (ev, d') \<Longrightarrow> same_refs d d'"
  unfolding Append_Inr by (auto simp: same_refs_def update_thread_def map_update_where)

lemma refs_CreateThread: "refs_ok d \<Longrightarrow> CreateThread m d = Inr d' \<Longrightarrow> refs_ok d'"
proof -
  assume ok: "refs_ok d" and c: "CreateThread m d = Inr d'"
  have "tm_projectID m \<in> pw_id ` set (db_projects d)" if ne: "tm_projectID m \<noteq> []"
  proof -
    obtain p where "p \<in> set (db_projects d)" "pw_id p = tm_projectID m"
      using c ne by (auto simp: CreateThread_def list_ex_iff split: if_splits)
    then show ?thesis by (metis imageI)
  qed
  with ok c show "refs_ok d'"
    by (auto simp: CreateThread_def refs_ok_def inserted_thread_def split: if_splits)
qed

lemma refs_DeleteThread: "refs_ok d \<Longrightarrow> refs_ok (DeleteThread t d)"
  by (auto simp: refs_ok_def DeleteThread_def)

lemma refs_insertFolder:
  "refs_ok d \<Longrightarrow> pid \<in> pw_id ` set (db_projects d) \<Longrightarrow> insertFolder pid f i c d = Inr d' \<Longrightarrow>
   refs_ok d' \<and> db_projects d' = db_projects d"
  by (auto simp: insertFolder_def Let_def refs_ok_def split: if_splits)

lemma refs_insert_folders:
  "refs_ok d \<Longrightarrow> pid \<in> pw_id ` set (db_projects d) \<Longrightarrow> insert_folders pid fs i c d = Inr d' \<Longrightarrow>
   refs_ok d'"
proof (induction fs arbitrary: i d)
  case (Cons f fs)
  then obtain d1 where d1: "insertFolder pid f i c d = Inr d1"
    and "insert_folders pid fs (i + 1) c d1 = Inr d'"
    by (auto split: sum.splits)
  with Cons.IH [of d1] refs_insertFolder [OF Cons.prems(1,2) d1] Cons.prems(2) show ?case by simp
qed simp

lemma refs_CreateProject: "refs_ok d \<Longrightarrow> CreateProject p d = Inr d' \<Longrightarrow> refs_ok d'"
proof -
  assume ok: "refs_ok d" and c: "CreateProject p d = Inr d'"
  have "refs_ok (d\<lparr>db_projects := db_projects d @ [r]\<rparr>)" for r
    using ok by (auto simp: refs_ok_def)
  with c show "refs_ok d'"
    by (auto simp: CreateProject_def split: if_splits elim!: refs_insert_folders [rotated 2])
qed

lemma same_refs_projects_update:
  "(\<And>r. pw_id (f r) = pw_id r) \<Longrightarrow> same_refs d (d\<lparr>db_projects := update_where P f (db_projects d)\<rparr>)"
  by (simp add: same_refs_def map_update_where)

lemma refs_AddFolder: "refs_ok d \<Longrightarrow> AddFolder now pid f d = Inr d' \<Longrightarrow> refs_ok d'"
proof -
  assume ok: "refs_ok d" and a: "AddFolder now pid f d = Inr d'"
  then obtain d1 where "insertFolder pid f (next_position pid d) now d = Inr d1"
    and pid: "pid \<in> pw_id ` set (db_projects d)"
    and d': "d' = d1\<lparr>db_projects := update_where (\<lambda>r. pw_id r = pid)
      (\<lambda>r. r\<lparr>pw_updatedAt := now\<rparr>) (db_projects d1)\<rparr>"
    by (auto simp: AddFolder_def list_ex_iff split: if_splits sum.splits)
  then have "refs_ok d1" using refs_insertFolder [OF ok] by blast
  then show "refs_ok d'"
    unfolding d' by (rule same_refs_ok [rotated]) (simp add: same_refs_projects_update)
qed

lemma same_refs_projects:
  "UpdateProject now p d = Inr d' \<Longrightarrow> same_refs d d'"
  "SetProjectHome i home d = Inr d' \<Longrightarrow> same_refs d d'"
  "UpdateFolder pid f d = Inr d' \<Longrightarrow> same_refs d d'"
  by (auto simp: UpdateProject_def SetProjectHome_def UpdateFolder_def Let_def
      update_project_found_def map_sum_Inr update_found_Inr same_refs_def map_update_where)

lemma refs_RemoveFolder: "refs_ok d \<Longrightarrow> RemoveFolder pid fid d = Inr d' \<Longrightarrow> refs_ok d'"
  by (auto simp: RemoveFolder_def Let_def refs_ok_def split: if_splits)

lemma image_other_key: "i \<in> g ` {x \<in> A. g x \<noteq> k} \<longleftrightarrow> i \<in> g ` A \<and> i \<noteq> k"
  by auto

lemma refs_DeleteProject: "refs_ok d \<Longrightarrow> DeleteProject i d = Inr d' \<Longrightarrow> refs_ok d'"
  by (auto simp: DeleteProject_def Let_def refs_ok_def filter_empty_conv image_other_key
      split: if_splits)

lemma same_refs_rest:
  "CreateDevice now i tok label d = Inr d' \<Longrightarrow> same_refs d d'"
  "DeviceByToken now tok d = Inr (dev, d') \<Longrightarrow> same_refs d d'"
  "same_refs d (RevokeDevice i d)" "same_refs d (CreatePairing now code expires d)"
  "RedeemPairing now code d = Inr d' \<Longrightarrow> same_refs d d'"
  "same_refs d (PurgePairings now d)"
  "SavePushSubscription uuid now pr d = Inr (i, d') \<Longrightarrow> same_refs d d'"
  "DeletePushSubscription i d = Inr d' \<Longrightarrow> same_refs d d'"
  "same_refs d (PutSnapshot t seq s d)"
  "ClaimCommand now c t d = Inr (j, replay, d') \<Longrightarrow> same_refs d d'"
  "same_refs d (ReleaseCommand c d)" "same_refs d (CompleteCommand c r d)"
  by (auto simp: CreateDevice_def DeviceByToken_def RevokeDevice_def CreatePairing_def
      RedeemPairing_def PurgePairings_def SavePushSubscription_def DeletePushSubscription_def
      PutSnapshot_def ClaimCommand_def ReleaseCommand_def CompleteCommand_def Let_def map_sum_Inr
      same_refs_def split: if_splits option.splits)

lemma same_refs_RedeemPairingForDevice:
  "RedeemPairingForDevice now code i tok label d = Inr d' \<Longrightarrow> same_refs d d'"
  by (auto simp: RedeemPairingForDevice_def RedeemPairing_def CreateDevice_def map_sum_Inr
      same_refs_def split: if_splits sum.splits)

lemma same_refs_threads:
  "same_refs d (SetPhase now t phase d)" "same_refs d (SetProviderInstance now t inst d)"
  "same_refs d (SetTitle t title d)" "same_refs d (UpdateWorkspace now t cwd branch phase res d)"
  "RenameThread t title d = Inr d' \<Longrightarrow> same_refs d d'"
  "SetThreadPinned t b d = Inr d' \<Longrightarrow> same_refs d d'"
  "SetThreadPosition t pos d = Inr d' \<Longrightarrow> same_refs d d'"
  "MarkThreadViewed t seq d = Inr d' \<Longrightarrow> same_refs d d'"
  "MarkThreadUnread t d = Inr d' \<Longrightarrow> same_refs d d'"
  by (auto simp: SetPhase_def SetProviderInstance_def SetTitle_def RenameThread_def
      UpdateWorkspace_def SetThreadPinned_def SetThreadPosition_def MarkThreadViewed_def
      MarkThreadUnread_def update_thread_found_Inr intro!: same_refs_update_thread)

lemmas refs_steps =
  same_refs_threads [THEN same_refs_ok] same_refs_Append [THEN same_refs_ok]
  same_refs_projects [THEN same_refs_ok] same_refs_rest [THEN same_refs_ok]
  same_refs_RedeemPairingForDevice [THEN same_refs_ok]
  refs_CreateThread [rotated] refs_DeleteThread refs_CreateProject [rotated] refs_AddFolder [rotated]
  refs_RemoveFolder [rotated] refs_DeleteProject [rotated]

lemma refs_ok_step: "store_step d d' \<Longrightarrow> refs_ok d \<Longrightarrow> refs_ok d'"
  by (induction rule: store_step.induct) (blast intro: refs_steps)+

section \<open>Every reachable database\<close>

definition store_ok :: "db \<Rightarrow> bool" where
  "store_ok d \<longleftrightarrow> threads_ok d \<and> keys_ok d \<and> refs_ok d"

lemma store_ok_empty: "store_ok empty_db"
  by (simp add: store_ok_def threads_ok_def keys_ok_def refs_ok_def empty_db_def)

lemma store_ok_step [wf_intro]: "store_ok d \<Longrightarrow> store_step d d' \<Longrightarrow> store_ok d'"
  by (simp add: store_ok_def threads_ok_step keys_ok_step refs_ok_step)

lemma store_reachable_ok: "store_reachable d \<Longrightarrow> store_ok d"
  by (induction rule: store_reachable.induct) (simp_all add: store_ok_empty wf_intro)

inductive_cases store_stepE: "store_step d d'"

end
