(* ===== verification/Tables.thy ===== *)
theory Tables
  imports Prelude
begin

text \<open>
  The interface the code's keyed collections share: rows in insertion order, each with its own
  key, and an operation that rewrites the row of one key or appends it.  The timeline, the jobs,
  the artefacts, the schedules and the tables of the store all provide it; what follows for
  any sequence of operations is proved here once.
\<close>

locale keyed_table =
  fixes rows :: "'s \<Rightarrow> 'r list"
    and key :: "'r \<Rightarrow> 'k"
    and inv :: "'s \<Rightarrow> bool"
    and ok :: "'a \<Rightarrow> bool"
    and at :: "'a \<Rightarrow> 'k"
    and row :: "'a \<Rightarrow> 's \<Rightarrow> 'r"
    and put :: "'a \<Rightarrow> 's \<Rightarrow> 's"
  assumes keys_distinct: "inv s \<Longrightarrow> distinct (map key (rows s))"
    and put_keys: "inv s \<Longrightarrow> ok a \<Longrightarrow>
      map key (rows (put a s)) =
        (if at a \<in> set (map key (rows s)) then map key (rows s) else map key (rows s) @ [at a])"
    and put_find: "inv s \<Longrightarrow> ok a \<Longrightarrow>
      List.find (\<lambda>r. key r = k) (rows (put a s)) =
        (if k = at a then Some (row a s) else List.find (\<lambda>r. key r = k) (rows s))"
    and put_inv: "inv s \<Longrightarrow> ok a \<Longrightarrow> inv (put a s)"
begin

lemma fold_inv: "inv s \<Longrightarrow> \<forall>a\<in>set as. ok a \<Longrightarrow> inv (fold put as s)"
  by (induction as arbitrary: s) (auto intro: put_inv)

lemma put_keys_prefix:
  "inv s \<Longrightarrow> ok a \<Longrightarrow> \<exists>zs. map key (rows (put a s)) = map key (rows s) @ zs"
  by (simp add: put_keys)

lemma fold_keys_prefix:
  "inv s \<Longrightarrow> \<forall>a\<in>set as. ok a \<Longrightarrow> \<exists>zs. map key (rows (fold put as s)) = map key (rows s) @ zs"
proof (induction as arbitrary: s)
  case (Cons a as)
  then obtain zs where "map key (rows (fold put as (put a s))) = map key (rows (put a s)) @ zs"
    using put_inv by fastforce
  moreover obtain ys where "map key (rows (put a s)) = map key (rows s) @ ys"
    using put_keys_prefix Cons.prems by fastforce
  ultimately show ?case by simp
qed simp

lemma fold_key_set:
  "inv s \<Longrightarrow> \<forall>a\<in>set as. ok a \<Longrightarrow>
   set (map key (rows (fold put as s))) = set (map key (rows s)) \<union> at ` set as"
proof (induction as arbitrary: s)
  case (Cons a as)
  then have "set (map key (rows (fold put as (put a s)))) =
      set (map key (rows (put a s))) \<union> at ` set as"
    using put_inv by simp
  also have "set (map key (rows (put a s))) = insert (at a) (set (map key (rows s)))"
    using put_keys [of s a] Cons.prems by auto
  finally show ?case by simp
qed simp

lemma fold_find_other:
  "inv s \<Longrightarrow> \<forall>a\<in>set as. ok a \<Longrightarrow> k \<notin> at ` set as \<Longrightarrow>
   List.find (\<lambda>r. key r = k) (rows (fold put as s)) = List.find (\<lambda>r. key r = k) (rows s)"
  by (induction as arbitrary: s) (auto simp: put_find put_inv)

lemma find_last_put:
  "inv s \<Longrightarrow> \<forall>a\<in>set as. ok a \<Longrightarrow> ok b \<Longrightarrow>
   List.find (\<lambda>r. key r = at b) (rows (put b (fold put as s))) = Some (row b (fold put as s))"
  by (simp add: put_find fold_inv)

lemma length_rows_mono:
  assumes "inv s" and "ok a"
  shows "length (rows s) \<le> length (rows (put a s))"
proof -
  have "length (map key (rows s)) \<le> length (map key (rows (put a s)))"
    using assms by (simp only: put_keys) auto
  then show ?thesis by simp
qed

end

text \<open>The plainest provider: \<open>put_keyed\<close> on a list of rows.\<close>

interpretation keyed_list: keyed_table
  "\<lambda>xs. xs" key "\<lambda>xs. distinct (map key xs)" "\<lambda>_. True" key "\<lambda>a _. a" "put_keyed key"
  for key :: "'r \<Rightarrow> 'k"
proof
  show "map key (put_keyed key a s) =
      (if key a \<in> set (map key s) then map key s else map key s @ [key a])" for s a
    by (simp add: map_key_put_keyed)
  show "List.find (\<lambda>r. key r = k) (put_keyed key a s) =
      (if k = key a then Some a else List.find (\<lambda>r. key r = k) s)" for s a k
    by (rule find_put_keyed)
qed (simp_all add: distinct_put_keyed)

end
