(* ===== verification/ProjectionInv.thy ===== *)
theory ProjectionInv
  imports Projection Tables
begin

text \<open>
  The projection's representation invariant \<open>wf_state\<close> (the item index is exactly the
  positions of the ids, and every keyed list has one row per key), its preservation by every
  case of \<open>Apply\<close>, and \<open>upsert\<close> as a refinement of an upsert on the bare list of items.
\<close>

section \<open>The index\<close>

lemma index_of_Nil [simp]: "index_of [] = Map.empty"
  by (simp add: index_of_def)

lemma index_of_cong: "map it_id xs = map it_id ys \<Longrightarrow> index_of xs = index_of ys"
  unfolding index_of_def by (metis length_map)

lemma index_of_snoc: "index_of (xs @ [x]) = (index_of xs)(it_id x \<mapsto> length xs)"
  by (simp add: index_of_def)

lemma index_of_SomeD: "index_of xs i = Some n \<Longrightarrow> n < length xs \<and> it_id (xs ! n) = i"
proof (induction xs arbitrary: n rule: rev_induct)
  case (snoc x xs)
  then show ?case
    by (auto simp: index_of_snoc nth_append split: if_splits)
qed simp

lemma index_of_None: "index_of xs i = None \<longleftrightarrow> i \<notin> it_id ` set xs"
  by (induction xs rule: rev_induct) (auto simp: index_of_snoc)

lemma index_of_iff:
  assumes "distinct (map it_id xs)"
  shows "index_of xs i = Some n \<longleftrightarrow> n < length xs \<and> it_id (xs ! n) = i"
proof
  assume n: "n < length xs \<and> it_id (xs ! n) = i"
  then have "i \<in> it_id ` set xs" by force
  then obtain m where m: "index_of xs i = Some m"
    by (metis index_of_None option.exhaust)
  then have "m < length xs \<and> it_id (xs ! m) = i" by (rule index_of_SomeD)
  with n assms have "m = n" by (metis distinct_conv_nth length_map nth_map)
  with m show "index_of xs i = Some n" by simp
qed (rule index_of_SomeD)

section \<open>The invariant\<close>

definition wf_items :: "state \<Rightarrow> bool" where
  "wf_items s \<longleftrightarrow>
     distinct (map it_id (st_items s)) \<and> (\<forall>m. st_index s = Some m \<longrightarrow> m = index_of (st_items s))"

definition wf_state :: "state \<Rightarrow> bool" where
  "wf_state s \<longleftrightarrow>
     wf_items s
     \<and> distinct (map jb_id (st_jobs s))
     \<and> (\<forall>j\<in>set (st_jobs s). jb_id j \<noteq> [] \<and> jb_kind j \<noteq> [])
     \<and> distinct (map af_id (st_artefacts s))
     \<and> distinct (map sp_id (st_scheduled s))"

lemma wf_stateI:
  assumes "wf_items s" and "distinct (map jb_id (st_jobs s))"
    and "\<forall>j\<in>set (st_jobs s). jb_id j \<noteq> [] \<and> jb_kind j \<noteq> []"
    and "distinct (map af_id (st_artefacts s))" and "distinct (map sp_id (st_scheduled s))"
  shows "wf_state s"
  using assms by (simp add: wf_state_def)

lemma wf_items_New: "wf_items (New t)"
  by (simp add: wf_items_def New_def)

lemma wf_state_New [wf_intro]: "wf_state (New t)"
  by (simp add: wf_state_def wf_items_New) (simp add: New_def)

lemma wf_items_cong:
  "st_items s = st_items t \<Longrightarrow> st_index s = st_index t \<Longrightarrow> wf_items s = wf_items t"
  by (simp add: wf_items_def)

lemma ensure_index_frame [simp]:
  "st_items (ensure_index s) = st_items s" "st_jobs (ensure_index s) = st_jobs s"
  "st_artefacts (ensure_index s) = st_artefacts s" "st_scheduled (ensure_index s) = st_scheduled s"
  "st_seq (ensure_index s) = st_seq s" "st_turns (ensure_index s) = st_turns s"
  "st_phase (ensure_index s) = st_phase s" "st_queued (ensure_index s) = st_queued s"
  "st_pending (ensure_index s) = st_pending s" "st_closed (ensure_index s) = st_closed s"
  "st_elicitations (ensure_index s) = st_elicitations s" "st_title (ensure_index s) = st_title s"
  "st_threadID (ensure_index s) = st_threadID s" "st_model (ensure_index s) = st_model s"
  "st_mode (ensure_index s) = st_mode s" "st_effort (ensure_index s) = st_effort s"
  by (simp_all add: ensure_index_def reindex_def split: option.split)

lemma wf_items_ensure [wf_intro]: "wf_items s \<Longrightarrow> wf_items (ensure_index s)"
  by (auto simp: wf_items_def ensure_index_def reindex_def split: option.split)

lemma index_get_ensure:
  "wf_items s \<Longrightarrow> index_get (ensure_index s) i = index_of (st_items s) i"
  by (auto simp: wf_items_def ensure_index_def reindex_def index_get_def split: option.split)

lemma st_index_ensure: "wf_items s \<Longrightarrow> st_index (ensure_index s) = Some (index_of (st_items s))"
  by (auto simp: wf_items_def ensure_index_def reindex_def split: option.split)

section \<open>upsert on the bare list\<close>

definition upsert_items :: "string \<Rightarrow> (item \<Rightarrow> item) \<Rightarrow> item list \<Rightarrow> item list" where
  "upsert_items i f its =
     (if i \<in> it_id ` set its then update_where (\<lambda>it. it_id it = i) f its
      else its @ [f (zero_item i)])"

lemma list_update_eq_where:
  assumes "distinct (map it_id its)" and "n < length its"
  shows "its[n := f (its ! n)] = update_where (\<lambda>it. it_id it = it_id (its ! n)) f its"
proof (rule nth_equalityI)
  fix m assume m: "m < length (its[n := f (its ! n)])"
  show "its[n := f (its ! n)] ! m = update_where (\<lambda>it. it_id it = it_id (its ! n)) f its ! m"
    using assms m by (cases "m = n") (auto simp: update_where_def distinct_conv_nth)
qed simp

lemma upsert_refines:
  assumes "wf_items s"
  shows "st_items (upsert i f s) = upsert_items i f (st_items s)"
proof (cases "index_of (st_items s) i")
  case None
  then have "i \<notin> it_id ` set (st_items s)" by (simp add: index_of_None)
  with None show ?thesis
    using assms by (simp add: upsert_def Let_def index_get_ensure upsert_items_def)
next
  case (Some n)
  then have n: "n < length (st_items s)" "it_id (st_items s ! n) = i"
    by (auto dest: index_of_SomeD)
  then have "i \<in> it_id ` set (st_items s)" by force
  then show ?thesis
    using assms Some n list_update_eq_where [of "st_items s" n f]
    by (simp add: upsert_def Let_def index_get_ensure upsert_items_def wf_items_def)
qed

lemma zero_item_id [simp]: "it_id (zero_item i) = i"
  by (simp add: zero_item_def)

lemma ids_upsert_items:
  assumes "\<And>it. it_id (f it) = it_id it"
  shows "map it_id (upsert_items i f its) =
    (if i \<in> it_id ` set its then map it_id its else map it_id its @ [i])"
  using assms by (simp add: upsert_items_def map_update_where)

lemma upsert_index:
  assumes "wf_items s" and "\<And>it. it_id (f it) = it_id it"
  shows "st_index (upsert i f s) = Some (index_of (upsert_items i f (st_items s)))"
proof (cases "index_of (st_items s) i")
  case None
  then have "i \<notin> it_id ` set (st_items s)" by (simp add: index_of_None)
  then show ?thesis
    using assms None
    by (simp add: upsert_def Let_def index_get_ensure st_index_ensure upsert_items_def index_of_snoc)
next
  case (Some n)
  then have "i \<in> it_id ` set (st_items s)" by (metis index_of_None option.distinct(1))
  then have "map it_id (upsert_items i f (st_items s)) = map it_id (st_items s)"
    using ids_upsert_items [of f i "st_items s"] assms(2) by simp
  then have "index_of (upsert_items i f (st_items s)) = index_of (st_items s)"
    by (rule index_of_cong)
  then show ?thesis
    using assms Some by (simp add: upsert_def Let_def index_get_ensure st_index_ensure)
qed

lemma wf_items_upsert [wf_intro]:
  assumes "wf_items s" and "\<And>it. it_id (f it) = it_id it"
  shows "wf_items (upsert i f s)"
proof -
  have "distinct (map it_id (upsert_items i f (st_items s)))"
    using assms ids_upsert_items [of f i "st_items s"] by (auto simp: wf_items_def)
  then show ?thesis
    by (simp add: wf_items_def upsert_refines [OF assms(1)] upsert_index [OF assms])
qed

lemma upsert_frame [simp]:
  "st_jobs (upsert i f s) = st_jobs s" "st_artefacts (upsert i f s) = st_artefacts s"
  "st_scheduled (upsert i f s) = st_scheduled s" "st_seq (upsert i f s) = st_seq s"
  "st_turns (upsert i f s) = st_turns s" "st_phase (upsert i f s) = st_phase s"
  "st_queued (upsert i f s) = st_queued s" "st_pending (upsert i f s) = st_pending s"
  "st_elicitations (upsert i f s) = st_elicitations s" "st_closed (upsert i f s) = st_closed s"
  "st_title (upsert i f s) = st_title s" "st_threadID (upsert i f s) = st_threadID s"
  "st_model (upsert i f s) = st_model s" "st_mode (upsert i f s) = st_mode s"
  "st_effort (upsert i f s) = st_effort s"
  by (simp_all add: upsert_def Let_def split: option.split)

section \<open>Ids are never rewritten\<close>

lemma item_ids [simp]:
  "it_id (receive ts it) = it_id it"
  "it_id (user_message ts pr ims t it) = it_id it"
  "it_id (message_item ev mp it) = it_id it"
  "it_id (tool_started_item ev sp it) = it_id it"
  "it_id (tool_updated_item ev up it) = it_id it"
  "it_id (notice_item ev k it) = it_id it"
  "it_id (artefact_item ev ap it) = it_id it"
  "it_id (card_item ev ep it) = it_id it"
  "it_id (answer_card rp it) = it_id it"
  "it_id (settle_item st it) = it_id it"
  by (simp_all add: receive_def user_message_def message_item_def tool_started_item_def
      tool_updated_item_def notice_item_def artefact_item_def card_item_def answer_card_def
      settle_item_def)

lemma ids_list_update: "(\<And>it. it_id (f it) = it_id it) \<Longrightarrow>
    map it_id (its[n := f (its ! n)]) = map it_id its"
  by (cases "n < length its") (simp_all add: map_update list_update_beyond list_update_same_conv)

lemma wf_items_same_ids:
  assumes "wf_items s" and "map it_id (st_items t) = map it_id (st_items s)"
    and "st_index t = st_index s"
  shows "wf_items t"
  using assms index_of_cong [OF assms(2)] by (simp add: wf_items_def)

section \<open>Jobs\<close>

lemma merge_job_ids [simp]: "jb_id (merge_job js p j) = jb_id j" "jb_id (finish_job b ts j) = jb_id j"
  by (simp_all add: merge_job_def finish_job_def Let_def)

lemma keep_simps [simp]: "keep [] x = x" "x \<noteq> [] \<Longrightarrow> keep x y = x"
  by (simp_all add: keep_def)

lemma ClassifyJob_nonempty [simp]: "ClassifyJob t \<noteq> []"
  by (simp add: ClassifyJob_def)

lemma merge_job_kind: "jb_kind (finish_job b ts (merge_job js p j)) \<noteq> []"
  by (simp add: merge_job_def finish_job_def Let_def)

lemma job_before_id [simp]: "jb_id (job_before ev p s) = jp_jobID p"
  by (auto simp: job_before_def find_job_def new_job_def split: option.split dest: find_SomeD)

lemma job_after_id [simp]: "jb_id (job_after ev b p s) = jp_jobID p"
  by (simp add: job_after_def)

lemma update_first_snoc:
  "\<forall>x\<in>set xs. key x \<noteq> i \<Longrightarrow> key y = i \<Longrightarrow>
   update_first (\<lambda>k. key k = i) g (xs @ [y]) = xs @ [g y]"
  by (induction xs) auto

lemma st_jobs_applyJob_raw:
  "jp_jobID p \<noteq> [] \<Longrightarrow>
   st_jobs (applyJob ev b p s) =
     update_first (\<lambda>k. jb_id k = jp_jobID p) (\<lambda>_. job_after ev b p s) (jobs_with ev p s)"
  by (simp add: applyJob_def Let_def split: option.split)

lemma applyJob_jobs:
  assumes "jp_jobID p \<noteq> []"
  shows "st_jobs (applyJob ev b p s) = put_keyed jb_id (job_after ev b p s) (st_jobs s)"
proof (cases "find_job (st_jobs s) (jp_jobID p)")
  case None
  then have none: "\<forall>j\<in>set (st_jobs s). jb_id j \<noteq> jp_jobID p"
    by (simp add: find_job_def find_None_iff_key)
  with None show ?thesis
    using assms update_first_snoc [OF none, of "job_before ev p s"]
    by (simp add: st_jobs_applyJob_raw jobs_with_def put_keyed_def)
next
  case (Some j)
  then have "\<exists>k\<in>set (st_jobs s). jb_id k = jp_jobID p"
    by (auto simp: find_job_def dest: find_SomeD)
  with Some show ?thesis
    using assms by (simp add: st_jobs_applyJob_raw jobs_with_def put_keyed_def)
qed

text \<open>A finished job settles the call that spawned it, through the index.\<close>

definition settle_items :: "job \<Rightarrow> item list \<Rightarrow> item list" where
  "settle_items j its =
     (if jb_toolCallID j = [] then its
      else update_where (\<lambda>it. it_id it = jb_toolCallID j) (settle_item (jb_status j)) its)"

lemma applyJob_frame [simp]:
  "st_index (applyJob ev b p s) = st_index s" "st_seq (applyJob ev b p s) = st_seq s"
  "st_artefacts (applyJob ev b p s) = st_artefacts s"
  "st_scheduled (applyJob ev b p s) = st_scheduled s" "st_turns (applyJob ev b p s) = st_turns s"
  "st_phase (applyJob ev b p s) = st_phase s" "st_queued (applyJob ev b p s) = st_queued s"
  "st_pending (applyJob ev b p s) = st_pending s" "st_closed (applyJob ev b p s) = st_closed s"
  "st_elicitations (applyJob ev b p s) = st_elicitations s"
  "st_title (applyJob ev b p s) = st_title s" "st_threadID (applyJob ev b p s) = st_threadID s"
  "st_model (applyJob ev b p s) = st_model s" "st_mode (applyJob ev b p s) = st_mode s"
  "st_effort (applyJob ev b p s) = st_effort s"
  by (simp_all add: applyJob_def Let_def split: option.split)

lemma applyJob_ids [simp]: "map it_id (st_items (applyJob ev b p s)) = map it_id (st_items s)"
  by (auto simp: applyJob_def Let_def ids_list_update split: option.split)

section \<open>Every case of Apply keeps the invariant\<close>

lemma wf_items_updates [simp]:
  "wf_items (s\<lparr>st_scheduled := a\<rparr>) = wf_items s" "wf_items (s\<lparr>st_seq := b\<rparr>) = wf_items s"
  "wf_items (s\<lparr>st_cwd := c\<rparr>) = wf_items s" "wf_items (s\<lparr>st_harness := c\<rparr>) = wf_items s"
  "wf_items (s\<lparr>st_model := c\<rparr>) = wf_items s" "wf_items (s\<lparr>st_mode := c\<rparr>) = wf_items s"
  "wf_items (s\<lparr>st_effort := c\<rparr>) = wf_items s" "wf_items (s\<lparr>st_title := c\<rparr>) = wf_items s"
  "wf_items (s\<lparr>st_harnessSessionID := c\<rparr>) = wf_items s"
  "wf_items (s\<lparr>st_phase := c\<rparr>) = wf_items s" "wf_items (s\<lparr>st_closed := d\<rparr>) = wf_items s"
  "wf_items (s\<lparr>st_workspace := e\<rparr>) = wf_items s" "wf_items (s\<lparr>st_turns := g\<rparr>) = wf_items s"
  "wf_items (s\<lparr>st_jobs := h\<rparr>) = wf_items s" "wf_items (s\<lparr>st_plan := i\<rparr>) = wf_items s"
  "wf_items (s\<lparr>st_usage := j\<rparr>) = wf_items s" "wf_items (s\<lparr>st_pending := k\<rparr>) = wf_items s"
  "wf_items (s\<lparr>st_elicitations := l\<rparr>) = wf_items s" "wf_items (s\<lparr>st_queued := m\<rparr>) = wf_items s"
  "wf_items (s\<lparr>st_artefacts := n\<rparr>) = wf_items s"
  by (simp_all add: wf_items_def)

lemma removeQueued_frame [simp]:
  "st_items (removeQueued q s) = st_items s" "st_index (removeQueued q s) = st_index s"
  "st_jobs (removeQueued q s) = st_jobs s" "st_artefacts (removeQueued q s) = st_artefacts s"
  "st_scheduled (removeQueued q s) = st_scheduled s" "st_seq (removeQueued q s) = st_seq s"
  "st_turns (removeQueued q s) = st_turns s" "st_phase (removeQueued q s) = st_phase s"
  "st_pending (removeQueued q s) = st_pending s" "st_closed (removeQueued q s) = st_closed s"
  "st_elicitations (removeQueued q s) = st_elicitations s"
  "st_title (removeQueued q s) = st_title s" "wf_items (removeQueued q s) = wf_items s"
  by (simp_all add: removeQueued_def)

lemma leave_queue_frame [simp]:
  "st_items (leave_queue p s) = st_items s" "st_index (leave_queue p s) = st_index s"
  "st_jobs (leave_queue p s) = st_jobs s" "st_artefacts (leave_queue p s) = st_artefacts s"
  "st_seq (leave_queue p s) = st_seq s" "st_turns (leave_queue p s) = st_turns s"
  "st_phase (leave_queue p s) = st_phase s" "st_pending (leave_queue p s) = st_pending s"
  "st_elicitations (leave_queue p s) = st_elicitations s" "st_closed (leave_queue p s) = st_closed s"
  "st_title (leave_queue p s) = st_title s" "wf_items (leave_queue p s) = wf_items s"
  by (simp_all add: leave_queue_def)

lemma wake_frame [simp]:
  "st_items (wake s) = st_items s" "st_index (wake s) = st_index s"
  "st_jobs (wake s) = st_jobs s" "st_artefacts (wake s) = st_artefacts s"
  "st_scheduled (wake s) = st_scheduled s" "st_seq (wake s) = st_seq s"
  "st_turns (wake s) = st_turns s" "st_pending (wake s) = st_pending s"
  "st_elicitations (wake s) = st_elicitations s" "st_closed (wake s) = st_closed s"
  "st_queued (wake s) = st_queued s" "st_title (wake s) = st_title s"
  "wf_items (wake s) = wf_items s"
  by (simp_all add: wake_def)

lemmas apply_defs =
  apply_thread_created_def apply_config_changed_def apply_thread_closed_def
  apply_workspace_requested_def apply_hook_started_def apply_hook_output_def
  apply_hook_finished_def apply_workspace_ready_def apply_workspace_failed_def
  apply_cleanup_started_def apply_workspace_released_def apply_turn_started_def
  apply_prompt_scheduled_def apply_prompt_queued_def apply_prompt_injected_def
  apply_turn_diff_def apply_turn_finished_def apply_message_chunk_def apply_tool_started_def
  apply_tool_updated_def apply_context_compacted_def apply_account_changed_def
  applyArtefact_def apply_permission_requested_def apply_permission_resolved_def
  apply_elicitation_requested_def apply_elicitation_resolved_def

lemma wf_items_applyJob [wf_intro]: "wf_items s \<Longrightarrow> wf_items (applyJob ev b p s)"
  by (rule wf_items_same_ids) simp_all

lemma wf_items_turn_finished [wf_intro]:
  "wf_items s \<Longrightarrow> wf_items (apply_turn_finished ev p s)"
  by (rule wf_items_same_ids [of s]) (simp_all add: apply_turn_finished_def Let_def map_update_where)

lemma wf_items_elicitation_resolved [wf_intro]:
  assumes "wf_items s"
  shows "wf_items (apply_elicitation_resolved p s)"
proof -
  let ?t = "ensure_index (s\<lparr>st_elicitations :=
    filter (\<lambda>q. el_requestID q \<noteq> es_requestID p) (st_elicitations s)\<rparr>)"
  have "wf_items ?t" using assms by (simp add: wf_intro)
  then show ?thesis
    unfolding apply_elicitation_resolved_def Let_def
    by (auto split: option.split intro: wf_items_same_ids [of ?t] simp: ids_list_update)
qed

lemma wf_items_apply_body [wf_intro]: "wf_items s \<Longrightarrow> wf_items (apply_body ev b s)"
  by (cases b)
    (auto intro: wf_intro simp: apply_thread_created_def apply_config_changed_def
      apply_thread_closed_def apply_workspace_requested_def apply_hook_started_def
      apply_hook_output_def apply_hook_finished_def apply_workspace_ready_def
      apply_workspace_failed_def apply_cleanup_started_def apply_workspace_released_def
      apply_turn_started_def apply_prompt_scheduled_def apply_prompt_queued_def
      apply_prompt_injected_def apply_turn_diff_def apply_message_chunk_def
      apply_tool_started_def apply_tool_updated_def apply_context_compacted_def
      apply_account_changed_def applyArtefact_def apply_permission_requested_def
      apply_permission_resolved_def apply_elicitation_requested_def Let_def split: option.split)

lemma elicitation_resolved_frame [simp]:
  "st_jobs (apply_elicitation_resolved p s) = st_jobs s"
  "st_artefacts (apply_elicitation_resolved p s) = st_artefacts s"
  "st_scheduled (apply_elicitation_resolved p s) = st_scheduled s"
  "st_seq (apply_elicitation_resolved p s) = st_seq s"
  "st_turns (apply_elicitation_resolved p s) = st_turns s"
  "st_phase (apply_elicitation_resolved p s) = st_phase s"
  "st_pending (apply_elicitation_resolved p s) = st_pending s"
  "st_closed (apply_elicitation_resolved p s) = st_closed s"
  "st_title (apply_elicitation_resolved p s) = st_title s"
  "st_elicitations (apply_elicitation_resolved p s) =
     filter (\<lambda>q. el_requestID q \<noteq> es_requestID p) (st_elicitations s)"
  by (simp_all add: apply_elicitation_resolved_def Let_def split: option.split)

definition jobs_ok :: "job list \<Rightarrow> bool" where
  "jobs_ok js \<longleftrightarrow> distinct (map jb_id js) \<and> (\<forall>j\<in>set js. jb_id j \<noteq> [] \<and> jb_kind j \<noteq> [])"

lemma set_put_keyed: "set (put_keyed key a xs) \<subseteq> insert a (set xs)"
proof -
  have "set (update_first P (\<lambda>_. a) xs) \<subseteq> insert a (set xs)" for P
    by (induction xs) auto
  then show ?thesis by (auto simp: put_keyed_def)
qed

lemma jobs_ok_applyJob:
  assumes "jobs_ok (st_jobs s)"
  shows "jobs_ok (st_jobs (applyJob ev b p s))"
proof (cases "jp_jobID p = []")
  case True
  then show ?thesis using assms by (simp add: applyJob_def)
next
  case False
  have "jb_kind (job_after ev b p s) \<noteq> []"
    by (simp add: job_after_def merge_job_kind)
  with False show ?thesis
    using assms set_put_keyed [of jb_id "job_after ev b p s" "st_jobs s"]
    by (auto simp: applyJob_jobs jobs_ok_def distinct_put_keyed)
qed

lemma jobs_apply_body: "jobs_ok (st_jobs s) \<Longrightarrow> jobs_ok (st_jobs (apply_body ev b s))"
  by (cases b) (simp_all add: apply_defs Let_def jobs_ok_applyJob split: option.split)

lemma artefacts_apply_body:
  "distinct (map af_id (st_artefacts s)) \<Longrightarrow> distinct (map af_id (st_artefacts (apply_body ev b s)))"
  by (cases b) (simp_all add: apply_defs Let_def distinct_put_keyed split: option.split)

lemma scheduled_ids [simp]:
  "map sp_id (fail_scheduled p sps) = map sp_id sps"
  "map sp_id (st_scheduled (leave_queue tp s)) = map sp_id (st_scheduled s)"
  by (simp_all add: fail_scheduled_def leave_queue_def mark_sent_def map_update_where)

lemma scheduled_apply_body:
  "distinct (map sp_id (st_scheduled s)) \<Longrightarrow> distinct (map sp_id (st_scheduled (apply_body ev b s)))"
  by (cases b) (simp_all add: apply_defs Let_def distinct_put_keyed split: option.split)

lemma wf_state_apply_body [wf_intro]: "wf_state s \<Longrightarrow> wf_state (apply_body ev b s)"
  using jobs_apply_body [of s ev b] artefacts_apply_body [of s ev b]
    scheduled_apply_body [of s ev b] wf_items_apply_body [of s ev b]
  by (simp add: wf_state_def jobs_ok_def)

lemma wf_state_seq [simp]: "wf_state (s\<lparr>st_seq := n\<rparr>) = wf_state s"
  by (simp add: wf_state_def)

lemma wf_state_Apply [wf_intro]: "wf_state s \<Longrightarrow> wf_state (Apply s ev)"
  by (simp add: Apply_def wf_intro)

lemma wf_state_foldl: "wf_state s \<Longrightarrow> wf_state (foldl Apply s evs)"
  by (induction evs arbitrary: s) (simp_all add: wf_intro)

section \<open>Sequence numbers\<close>

lemma seq_apply_body [simp]: "st_seq (apply_body ev b s) = st_seq s"
  by (cases b) (simp_all add: apply_defs Let_def split: option.split)

lemma seq_Apply: "st_seq (Apply s ev) = max (st_seq s) (ev_seq ev)"
  by (simp add: Apply_def)

lemma Apply_stale: "ev_seq ev \<le> st_seq s \<Longrightarrow> Apply s ev = s"
  by (simp add: Apply_def)

lemma foldl_Apply_stale: "\<forall>ev\<in>set evs. ev_seq ev \<le> st_seq s \<Longrightarrow> foldl Apply s evs = s"
  by (induction evs) (simp_all add: Apply_stale)

lemma seq_foldl_Apply: "st_seq (foldl Apply s evs) = foldl max (st_seq s) (map ev_seq evs)"
  by (induction evs arbitrary: s) (simp_all add: seq_Apply)

lemma seq_foldl_ge: "st_seq s \<le> st_seq (foldl Apply s evs)"
proof (induction evs arbitrary: s)
  case (Cons e evs)
  have "st_seq s \<le> st_seq (Apply s e)" by (simp add: seq_Apply)
  also have "\<dots> \<le> st_seq (foldl Apply (Apply s e) evs)" by (rule Cons.IH)
  finally show ?case by simp
qed simp

lemma seq_foldl_ge_event: "ev \<in> set evs \<Longrightarrow> ev_seq ev \<le> st_seq (foldl Apply s evs)"
proof (induction evs arbitrary: s)
  case (Cons e evs)
  show ?case
  proof (cases "ev = e")
    case True
    have "ev_seq e \<le> st_seq (Apply s e)" by (simp add: seq_Apply)
    also have "\<dots> \<le> st_seq (foldl Apply (Apply s e) evs)" by (rule seq_foldl_ge)
    finally show ?thesis using True by simp
  next
    case False
    then show ?thesis using Cons by simp
  qed
qed simp

lemma thread_apply_body [simp]: "st_threadID (apply_body ev b s) = st_threadID s"
  by (cases b) (simp_all add: apply_defs Let_def removeQueued_def leave_queue_def wake_def
      apply_elicitation_resolved_def split: option.split)

section \<open>The timeline and the job list as keyed tables\<close>

text \<open>\<open>upsert\<close> with an item update that leaves the id alone provides the shared interface.\<close>

lemma find_update_where_key:
  assumes "\<And>it. it_id (f it) = it_id it"
  shows "List.find (\<lambda>r. it_id r = k) (update_where (\<lambda>it. it_id it = i) f its) =
    (if k = i then map_option f (List.find (\<lambda>r. it_id r = i) its)
     else List.find (\<lambda>r. it_id r = k) its)"
  using assms by (induction its) auto

definition item_before :: "string \<Rightarrow> state \<Rightarrow> item" where
  "item_before i s =
     (case List.find (\<lambda>r. it_id r = i) (st_items s) of None \<Rightarrow> zero_item i | Some it \<Rightarrow> it)"

lemma find_upsert_items:
  assumes f: "\<forall>it. it_id (f it) = it_id it"
  shows "List.find (\<lambda>r. it_id r = k) (upsert_items i f (st_items s)) =
    (if k = i then Some (f (item_before i s)) else List.find (\<lambda>r. it_id r = k) (st_items s))"
proof (cases "i \<in> it_id ` set (st_items s)")
  case True
  then obtain it where "List.find (\<lambda>r. it_id r = i) (st_items s) = Some it"
    by (metis (mono_tags, lifting) find_None_iff_key image_iff option.exhaust)
  with True show ?thesis
    using f by (simp add: upsert_items_def find_update_where_key item_before_def)
next
  case False
  then have "List.find (\<lambda>r. it_id r = i) (st_items s) = None"
    by (auto simp: find_None_iff_key)
  with False show ?thesis
    using f by (auto simp: upsert_items_def find_append item_before_def split: option.split)
qed

lemma find_upsert:
  "wf_items s \<Longrightarrow> (\<And>it. it_id (f it) = it_id it) \<Longrightarrow>
   List.find (\<lambda>r. it_id r = k) (st_items (upsert i f s)) =
    (if k = i then Some (f (item_before i s)) else List.find (\<lambda>r. it_id r = k) (st_items s))"
  by (simp add: upsert_refines find_upsert_items)

interpretation timeline: keyed_table
  st_items it_id wf_items "\<lambda>(i, f). \<forall>it. it_id (f it) = it_id it" fst
  "\<lambda>(i, f) s. f (item_before i s)" "\<lambda>(i, f) s. upsert i f s"
  by unfold_locales
    (auto simp: upsert_refines ids_upsert_items find_upsert_items wf_items_upsert wf_items_def [THEN iffD1])

interpretation jobs: keyed_table
  st_jobs jb_id "\<lambda>s. distinct (map jb_id (st_jobs s))" "\<lambda>(ev, b, p). jp_jobID p \<noteq> []"
  "\<lambda>(ev, b, p). jp_jobID p" "\<lambda>(ev, b, p) s. job_after ev b p s" "\<lambda>(ev, b, p) s. applyJob ev b p s"
  by unfold_locales
    (auto simp: applyJob_jobs map_key_put_keyed find_put_keyed distinct_put_keyed)

text \<open>Ids of the timeline after any one event: the old ones, in place, and at most one new one.\<close>

lemma upsert_ids_prefix:
  "wf_items s \<Longrightarrow> (\<And>it. it_id (f it) = it_id it) \<Longrightarrow>
   \<exists>zs. map it_id (st_items (upsert i f s)) = map it_id (st_items s) @ zs"
  using timeline.put_keys_prefix [of s "(i, f)"] by simp

lemma upsert_ids_prefix_eq:
  "st_items t = st_items s \<Longrightarrow> wf_items t \<Longrightarrow> (\<And>it. it_id (f it) = it_id it) \<Longrightarrow>
   \<exists>zs. map it_id (st_items (upsert i f t)) = map it_id (st_items s) @ zs"
  using upsert_ids_prefix [of t f i] by simp

lemma ids_turn_finished: "map it_id (st_items (apply_turn_finished ev p s)) = map it_id (st_items s)"
  by (simp add: apply_turn_finished_def Let_def map_update_where)

lemma ids_elicitation_resolved:
  "map it_id (st_items (apply_elicitation_resolved p s)) = map it_id (st_items s)"
  by (simp add: apply_elicitation_resolved_def Let_def ids_list_update split: option.split)

lemma ids_apply_body:
  "wf_items s \<Longrightarrow> \<exists>zs. map it_id (st_items (apply_body ev b s)) = map it_id (st_items s) @ zs"
  by (cases b)
    (auto simp: ids_turn_finished ids_elicitation_resolved apply_thread_created_def
      apply_config_changed_def apply_thread_closed_def apply_workspace_requested_def
      apply_hook_started_def apply_hook_output_def apply_hook_finished_def
      apply_workspace_ready_def apply_workspace_failed_def apply_cleanup_started_def
      apply_workspace_released_def apply_turn_started_def apply_prompt_scheduled_def
      apply_prompt_queued_def apply_prompt_injected_def apply_turn_diff_def
      apply_message_chunk_def apply_tool_started_def apply_tool_updated_def
      apply_context_compacted_def apply_account_changed_def applyArtefact_def
      apply_permission_requested_def apply_permission_resolved_def
      apply_elicitation_requested_def Let_def intro!: upsert_ids_prefix_eq split: option.split)

lemma ids_Apply: "wf_items s \<Longrightarrow> \<exists>zs. map it_id (st_items (Apply s ev)) = map it_id (st_items s) @ zs"
  using ids_apply_body [of "s\<lparr>st_seq := ev_seq ev\<rparr>" ev "ev_body ev"] by (auto simp: Apply_def)

end
