(* ===== verification/Window.thy ===== *)
theory Window
  imports Projection
begin

text \<open>
  Windowing the timeline for the wire (internal/projection/window.go).  \<open>windowStart\<close> is two
  loops: \<open>walk_top\<close> counts top-level items backwards from the end of the page,
  \<open>walk_turn\<close> keeps walking to the start of the turn the page landed in, hopping over
  turnless runs with \<open>skip_turnless\<close>.  Go's \<open>int\<close> positions are \<open>nat\<close> here except for
  the client's cursor, which may be out of range on either side.
\<close>

text \<open>\<open>for start > 0\<close>: the position where \<open>maxTop\<close> top-level items have been passed.\<close>

fun walk_top :: "item list \<Rightarrow> int \<Rightarrow> nat \<Rightarrow> int \<Rightarrow> nat" where
  "walk_top its maxTop 0 n = 0"
| "walk_top its maxTop (Suc start) n =
     (if it_parentID (its ! start) = [] then
        (if n = maxTop then Suc start else walk_top its maxTop start (n + 1))
      else walk_top its maxTop start n)"

text \<open>
  \<open>for j >= 0 && items[j].TurnID == ""\<close>, counting from \<open>j + 1\<close> so that falling off the
  front is \<open>0\<close>.
\<close>

fun skip_turnless :: "item list \<Rightarrow> nat \<Rightarrow> nat" where
  "skip_turnless its 0 = 0"
| "skip_turnless its (Suc j) = (if it_turnID (its ! j) = [] then skip_turnless its j else Suc j)"

lemma skip_turnless_le: "skip_turnless its j \<le> j"
  by (induction j) (auto simp: le_Suc_eq)

function walk_turn :: "item list \<Rightarrow> string \<Rightarrow> nat \<Rightarrow> nat" where
  "walk_turn its t start =
     (if start > 0 \<and> t \<noteq> [] then
        (let j = skip_turnless its start
         in if j = 0 \<or> it_turnID (its ! (j - 1)) \<noteq> t then start
            else walk_turn its t (j - 1))
      else start)"
  by pat_completeness auto
termination
proof (relation "measure (\<lambda>(its, t, start). start)")
  fix its :: "item list" and t :: string and start j
  assume "start > 0 \<and> t \<noteq> []" and "j = skip_turnless its start"
    and "\<not> (j = 0 \<or> it_turnID (its ! (j - 1)) \<noteq> t)"
  then show "((its, t, j - 1), its, t, start) \<in> measure (\<lambda>(its, t, start). start)"
    using skip_turnless_le [of its start] by auto
qed simp

declare walk_turn.simps [simp del]

definition windowStart :: "item list \<Rightarrow> nat \<Rightarrow> int \<Rightarrow> nat" where
  "windowStart its end0 maxTop =
     (let end' = min end0 (length its);
          start = walk_top its maxTop end' 0
      in if start = 0 \<or> start \<ge> length its then start
         else walk_turn its (it_turnID (its ! start)) start)"

text \<open>\<open>Window\<close> trims a copy headed for a client and counts what it cut.\<close>

definition Window :: "int \<Rightarrow> state \<Rightarrow> state" where
  "Window maxTop s =
     (let start = windowStart (st_items s) (length (st_items s)) maxTop
      in if start = 0 then s
         else s\<lparr>st_itemsBefore := st_itemsBefore s + int start,
                st_items := drop start (st_items s), st_index := None\<rparr>)"

text \<open>\<open>WindowBefore\<close>: the page that ends before the client's cursor, and the next cursor.\<close>

definition clamp_cursor :: "item list \<Rightarrow> int \<Rightarrow> nat" where
  "clamp_cursor its before = nat (max 0 (min before (int (length its))))"

definition WindowBefore :: "item list \<Rightarrow> int \<Rightarrow> int \<Rightarrow> item list \<times> nat" where
  "WindowBefore its before maxTop =
     (let b = clamp_cursor its before; start = windowStart its b maxTop
      in (drop start (take b its), start))"

section \<open>The two walks\<close>

definition top_level :: "item \<Rightarrow> bool" where
  "top_level it \<longleftrightarrow> it_parentID it = []"

abbreviation tops_between :: "item list \<Rightarrow> nat \<Rightarrow> nat \<Rightarrow> nat" where
  "tops_between its a b \<equiv> length (filter top_level (drop a (take b its)))"

lemma walk_top_le: "walk_top its m s k \<le> s"
  by (induction s arbitrary: k) (auto simp: le_Suc_eq)

lemma walk_turn_le: "walk_turn its t s \<le> s"
proof (induction its t s rule: walk_turn.induct)
  case (1 its t s)
  then show ?case
    using skip_turnless_le [of its s]
    by (subst walk_turn.simps) (auto simp: Let_def intro: order.trans)
qed

lemma windowStart_le: "windowStart its e m \<le> min e (length its)"
proof -
  let ?s = "walk_top its m (min e (length its)) 0"
  have "walk_turn its t ?s \<le> min e (length its)" for t
    by (rule order.trans [OF walk_turn_le walk_top_le])
  moreover have "?s \<le> min e (length its)" by (rule walk_top_le)
  ultimately show ?thesis by (auto simp only: windowStart_def Let_def split: if_split)
qed

text \<open>The walk passes exactly \<open>maxTop\<close> top-level items, or all there are.\<close>

lemma drop_take_Suc:
  "a \<le> s \<Longrightarrow> s < length its \<Longrightarrow> drop a (take (Suc s) its) = drop a (take s its) @ [its ! s]"
  by (simp add: take_Suc_conv_app_nth)

lemma walk_top_tops:
  "s \<le> length its \<Longrightarrow> 0 \<le> k \<Longrightarrow> k \<le> m \<Longrightarrow>
   int (tops_between its (walk_top its m s k) s) + k \<le> m \<and>
   (walk_top its m s k > 0 \<longrightarrow> int (tops_between its (walk_top its m s k) s) + k = m)"
proof (induction s arbitrary: k)
  case (Suc s)
  then have s: "s < length its" by simp
  have le: "walk_top its m s j \<le> s" for j by (rule walk_top_le)
  show ?case
  proof (cases "it_parentID (its ! s) = []")
    case True
    show ?thesis
    proof (cases "k = m")
      case True
      then show ?thesis using \<open>it_parentID (its ! s) = []\<close> by simp
    next
      case False
      with Suc.prems have "0 \<le> k + 1" "k + 1 \<le> m" by auto
      with Suc.IH [of "k + 1"] s have
        "int (tops_between its (walk_top its m s (k + 1)) s) + (k + 1) \<le> m \<and>
         (walk_top its m s (k + 1) > 0 \<longrightarrow>
          int (tops_between its (walk_top its m s (k + 1)) s) + (k + 1) = m)"
        by simp
      moreover have "top_level (its ! s)" using \<open>it_parentID (its ! s) = []\<close> by (simp add: top_level_def)
      ultimately show ?thesis using \<open>it_parentID (its ! s) = []\<close> False
        by (simp add: drop_take_Suc [OF le s] algebra_simps)
    qed
  next
    case False
    with Suc.IH [of k] Suc.prems s show ?thesis
      by (simp add: drop_take_Suc [OF le s] top_level_def)
  qed
qed simp

text \<open>Where the turn walk stops, the nearest item before it with a turn has another turn.\<close>

lemma walk_turn_stops:
  assumes "t \<noteq> []"
  shows "let r = walk_turn its t s; j = skip_turnless its r
         in r = 0 \<or> j = 0 \<or> it_turnID (its ! (j - 1)) \<noteq> t"
  using assms
proof (induction its t s rule: walk_turn.induct)
  case (1 its t s)
  show ?case
  proof (cases "s > 0 \<and> t \<noteq> [] \<and> \<not> (skip_turnless its s = 0 \<or> it_turnID (its ! (skip_turnless its s - 1)) \<noteq> t)")
    case True
    then have "walk_turn its t s = walk_turn its t (skip_turnless its s - 1)"
      by (subst walk_turn.simps) (simp add: Let_def)
    with True 1 show ?thesis by (simp add: Let_def)
  next
    case False
    then have "walk_turn its t s = s"
      by (subst walk_turn.simps) (auto simp: Let_def)
    with False show ?thesis
      using 1(2) by (auto simp: Let_def)
  qed
qed

lemma skip_turnless_0: "skip_turnless its r = 0 \<longleftrightarrow> (\<forall>i<r. it_turnID (its ! i) = [])"
  by (induction r) (auto simp: less_Suc_eq)

lemma skip_turnless_pos:
  "skip_turnless its r = Suc j \<Longrightarrow>
   j < r \<and> it_turnID (its ! j) \<noteq> [] \<and> (\<forall>i. j < i \<and> i < r \<longrightarrow> it_turnID (its ! i) = [])"
  by (induction r) (auto simp: less_Suc_eq split: if_splits)

text \<open>Every position the turn walk reaches carries the turn it follows.\<close>

lemma walk_turn_on_turn:
  "it_turnID (its ! s) = t \<Longrightarrow> it_turnID (its ! walk_turn its t s) = t"
proof (induction its t s rule: walk_turn.induct)
  case (1 its t s)
  then show ?case by (subst walk_turn.simps) (auto simp: Let_def)
qed

text \<open>A page makes progress whenever there is something before the cursor.\<close>

lemma walk_top_less:
  assumes "0 < s" and "k \<noteq> m"
  shows "walk_top its m s k < s"
proof (cases s)
  case (Suc n)
  with assms(2) show ?thesis
    using walk_top_le [of its m n] by (auto simp: less_Suc_eq_le)
qed (use assms in simp)

lemma windowStart_progress:
  assumes "0 < e" and "e \<le> length its" and "m \<noteq> 0"
  shows "windowStart its e m < e"
proof -
  have "walk_top its m e 0 < e" using assms walk_top_less [of e 0 m its] by simp
  then show ?thesis
    using assms(2) walk_turn_le [of its _ "walk_top its m e 0"]
    by (auto simp: windowStart_def Let_def min_def intro: order.strict_trans1)
qed

section \<open>Paging back\<close>

text \<open>
  A client that starts from \<open>Window\<close>'s page and asks for the page before its cursor until the
  cursor is at the front: what it has collected, with at most \<open>n\<close> requests.
\<close>

fun scroll_back :: "nat \<Rightarrow> item list \<Rightarrow> int \<Rightarrow> nat \<Rightarrow> item list \<Rightarrow> item list" where
  "scroll_back 0 its m cursor acc = acc"
| "scroll_back (Suc n) its m cursor acc =
     (if cursor = 0 then acc
      else let (page, cursor') = WindowBefore its (int cursor) m
           in scroll_back n its m cursor' (page @ acc))"

lemma clamp_cursor_in: "b \<le> length its \<Longrightarrow> clamp_cursor its (int b) = b"
  by (simp add: clamp_cursor_def)

lemma page_join:
  "a \<le> b \<Longrightarrow> take a its @ drop a (take b its) = take b its"
  by (metis append_take_drop_id min.absorb1 take_take)

lemma scroll_back_all:
  "cursor \<le> n \<Longrightarrow> cursor \<le> length its \<Longrightarrow> m \<noteq> 0 \<Longrightarrow>
   scroll_back n its m cursor acc = take cursor its @ acc"
proof (induction n arbitrary: cursor acc)
  case (Suc n)
  show ?case
  proof (cases "cursor = 0")
    case False
    let ?c = "windowStart its cursor m"
    have "?c < cursor" using Suc.prems False by (intro windowStart_progress) auto
    then have "scroll_back n its m ?c (drop ?c (take cursor its) @ acc) =
        take ?c its @ drop ?c (take cursor its) @ acc"
      using Suc.prems by (intro Suc.IH) auto
    moreover have "take ?c its @ drop ?c (take cursor its) = take cursor its"
      using \<open>?c < cursor\<close> by (intro page_join) simp
    ultimately show ?thesis
      using False Suc.prems by (simp add: WindowBefore_def Let_def clamp_cursor_in)
  qed simp
qed simp

lemma windowStart_stops:
  assumes "windowStart its e m = r" and "0 < r" and "r < length its"
    and "it_turnID (its ! r) \<noteq> []"
  shows "let j = skip_turnless its r in j = 0 \<or> it_turnID (its ! (j - 1)) \<noteq> it_turnID (its ! r)"
proof -
  let ?s = "walk_top its m (min e (length its)) 0"
  let ?t = "it_turnID (its ! ?s)"
  have s: "?s < length its"
    using assms by (auto simp: windowStart_def Let_def split: if_splits)
  then have r: "r = walk_turn its ?t ?s"
    using assms by (auto simp: windowStart_def Let_def split: if_splits)
  then have t: "it_turnID (its ! r) = ?t"
    using walk_turn_on_turn [of its ?s ?t] by simp
  then show ?thesis
    using walk_turn_stops [of ?t its ?s] assms r by (simp add: Let_def)
qed

lemma tops_mono: "a \<le> b \<Longrightarrow> tops_between its b e \<le> tops_between its a e"
proof -
  assume "a \<le> b"
  then obtain k where "drop b (take e its) = drop k (drop a (take e its))"
    by (metis drop_drop le_Suc_ex add.commute)
  then show ?thesis
    by (metis append_take_drop_id filter_append le_add2 length_append)
qed

section \<open>Properties\<close>

text \<open>
  C40: paging back loses nothing and repeats nothing: from the last page, asking for the page
  before the cursor reaches the front within as many requests as there are items, and the pages
  joined are the whole timeline.
\<close>

theorem pages_partition_timeline:
  assumes "0 < m"
  shows "let w = Window m s in
    scroll_back (length (st_items s)) (st_items s) m
      (length (st_items s) - length (st_items w)) (st_items w) = st_items s"
proof -
  let ?its = "st_items s"
  let ?c = "windowStart ?its (length ?its) m"
  have "?c \<le> length ?its" using windowStart_le [of ?its "length ?its" m] by simp
  then have "st_items (Window m s) = drop ?c ?its"
    and "length ?its - length (drop ?c ?its) = ?c"
    by (simp_all add: Window_def Let_def)
  then show ?thesis
    using scroll_back_all [of ?c "length ?its" ?its m "drop ?c ?its"] assms \<open>?c \<le> length ?its\<close>
    by (simp add: Let_def)
qed

definition sample_item :: "string \<Rightarrow> string \<Rightarrow> string \<Rightarrow> item" where
  "sample_item i turn parent = (zero_item i)\<lparr>it_turnID := turn, it_parentID := parent\<rparr>"

definition sample_items :: "item list" where
  "sample_items =
     [sample_item ''a'' ''u1'' [], sample_item ''b'' [] [], sample_item ''c'' ''u2'' [],
      sample_item ''d'' ''u2'' ''c'', sample_item ''e'' [] [], sample_item ''f'' ''u2'' []]"

theorem pages_partition_timeline_witness:
  "let s = (New ''t1'')\<lparr>st_items := sample_items\<rparr>; w = Window 1 s in
    scroll_back (length (st_items s)) (st_items s) 1
      (length (st_items s) - length (st_items w)) (st_items w) = sample_items
    \<and> map it_id (st_items w) = [''c'', ''d'', ''e'', ''f'']"
proof -
  have "map it_id (st_items (Window 1 ((New ''t1'')\<lparr>st_items := sample_items\<rparr>))) =
      [''c'', ''d'', ''e'', ''f'']"
    by code_simp
  then show ?thesis
    using pages_partition_timeline [of 1 "(New ''t1'')\<lparr>st_items := sample_items\<rparr>"]
    by (simp add: Let_def)
qed

text \<open>
  A page is bounded from below and never cuts a turn: when something is left before it, it
  holds at least \<open>maxTop\<close> top-level items, and if its first item belongs to a turn, the nearest
  earlier item that belongs to any turn belongs to another one.
\<close>

theorem page_is_turn_aligned:
  assumes "WindowBefore its (int b) m = (page, r)" and "b \<le> length its" and "0 < m" and "0 < r"
  shows "m \<le> int (length (filter top_level page))
    \<and> (it_turnID (its ! r) \<noteq> [] \<longrightarrow>
        (\<forall>i<r. it_turnID (its ! i) = it_turnID (its ! r) \<longrightarrow>
          (\<exists>k. i < k \<and> k < r \<and> it_turnID (its ! k) \<notin> {[], it_turnID (its ! r)})))"
proof -
  let ?s = "walk_top its m b 0"
  have r: "r = windowStart its b m" and page: "page = drop r (take b its)"
    using assms(1,2) by (auto simp: WindowBefore_def Let_def clamp_cursor_in)
  have "0 < b" using assms(4) windowStart_le [of its b m] r by (cases b) auto
  then have rb: "r < b" using windowStart_progress [of b its m] assms r by simp
  have "0 < ?s" "r \<le> ?s"
    using r assms(2,4) walk_turn_le [of its _ ?s]
    by (auto simp: windowStart_def Let_def min_def split: if_splits)
  then have "int (tops_between its ?s b) = m" "tops_between its ?s b \<le> tops_between its r b"
    using walk_top_tops [of b its 0 m] assms(2,3) tops_mono [of r ?s b its] by auto
  then have "m \<le> int (length (filter top_level page))" by (simp add: page)
  moreover have "\<exists>k. i < k \<and> k < r \<and> it_turnID (its ! k) \<notin> {[], it_turnID (its ! r)}"
    if t: "it_turnID (its ! r) \<noteq> []" and i: "i < r" "it_turnID (its ! i) = it_turnID (its ! r)" for i
  proof -
    have stop: "skip_turnless its r = 0 \<or> it_turnID (its ! (skip_turnless its r - 1)) \<noteq> it_turnID (its ! r)"
      using windowStart_stops [of its b m r] r assms(4) rb assms(2) t by (simp add: Let_def)
    have "skip_turnless its r \<noteq> 0" using i t by (auto simp: skip_turnless_0)
    then obtain j where j: "skip_turnless its r = Suc j" by (cases "skip_turnless its r") auto
    with skip_turnless_pos [OF j] stop i t have "i < j"
      by (metis diff_Suc_1 linorder_neqE_nat nat.distinct(1))
    with skip_turnless_pos [OF j] stop j show ?thesis by auto
  qed
  ultimately show ?thesis by blast
qed

theorem page_is_turn_aligned_witness:
  "1 \<le> int (length (filter top_level (drop 2 (take 6 sample_items))))"
proof -
  have "WindowBefore sample_items (int 6) 1 = (drop 2 (take 6 sample_items), 2)"
    by code_simp
  moreover have "length sample_items = 6" by (simp add: sample_items_def)
  ultimately show ?thesis
    using page_is_turn_aligned [of sample_items 6 1 "drop 2 (take 6 sample_items)" 2] by simp
qed

end
