(* ===== verification/ProjectionProps.thy ===== *)
theory ProjectionProps
  imports ProjectionInv Window
begin

text \<open>
  What a presenter may rely on: a snapshot and the tail of the log give the state the whole log
  gives, lookups are exact, the timeline only grows, and the queue, the jobs and the end of a
  turn behave as their plain descriptions say.
\<close>

section \<open>States that survive a snapshot\<close>

definition plain_images :: "prompt_image list \<Rightarrow> bool" where
  "plain_images ims \<longleftrightarrow> list_all (\<lambda>im. im_path im = []) ims"

definition stored_state :: "state \<Rightarrow> bool" where
  "stored_state s \<longleftrightarrow>
     list_all (\<lambda>p. plain_images (sp_images p)) (st_scheduled s)
     \<and> list_all (\<lambda>it. plain_images (it_images it)) (st_items s)
     \<and> list_all (\<lambda>t. plain_images (tu_images t)) (st_turns s)
     \<and> list_all (\<lambda>q. plain_images (qp_images q)) (st_queued s)
     \<and> list_all (\<lambda>e. el_schema e \<noteq> None) (st_elicitations s)"

definition stored_event :: "event \<Rightarrow> bool" where
  "stored_event ev \<longleftrightarrow> stored_body (ev_body ev) = ev_body ev"

lemma plain_images_stored: "plain_images (map stored_image ims)"
  by (simp add: plain_images_def list_all_iff)

lemma plain_images_Nil [simp]: "plain_images []"
  by (simp add: plain_images_def)

lemma map_stored_plain: "plain_images ims \<Longrightarrow> map stored_image ims = ims"
  by (simp add: plain_images_def list_all_iff map_stored_image_id)

lemma stored_plain: "map stored_image ims = ims \<Longrightarrow> plain_images ims"
  by (metis plain_images_stored)

lemma stored_rows_id:
  "list_all (\<lambda>x. plain_images (g x)) xs \<Longrightarrow> (\<And>x. h x (g x) = x) \<Longrightarrow>
   map (\<lambda>x. h x (map stored_image (g x))) xs = xs"
  by (induction xs) (simp_all add: map_stored_plain)

lemma snapshot_blob_stored:
  assumes "stored_state s"
  shows "snapshot_blob s = s\<lparr>st_index := None\<rparr>"
proof -
  have "map (\<lambda>p. p\<lparr>sp_images := map stored_image (sp_images p)\<rparr>) (st_scheduled s) = st_scheduled s"
    "map (\<lambda>it. it\<lparr>it_images := map stored_image (it_images it)\<rparr>) (st_items s) = st_items s"
    "map (\<lambda>t. t\<lparr>tu_images := map stored_image (tu_images t)\<rparr>) (st_turns s) = st_turns s"
    "map (\<lambda>q. q\<lparr>qp_images := map stored_image (qp_images q)\<rparr>) (st_queued s) = st_queued s"
    "map (\<lambda>e. e\<lparr>el_schema := stored_raw (el_schema e)\<rparr>) (st_elicitations s) = st_elicitations s"
    using assms
    by (auto simp: stored_state_def list_all_iff map_stored_plain stored_raw_def intro!: map_idI)
  then show ?thesis by (simp add: snapshot_blob_def)
qed

lemma FromSnapshot_stored:
  assumes "stored_state s" and "wf_items s" and "st_index s \<noteq> None"
  shows "FromSnapshot (snapshot_blob s) = s"
proof -
  have "st_index s = Some (index_of (st_items s))"
    using assms(2, 3) by (auto simp: wf_items_def)
  then show ?thesis
    by (simp add: FromSnapshot_def reindex_def snapshot_blob_stored [OF assms(1)])
qed

lemma list_all_update_where:
  "list_all P xs \<Longrightarrow> (\<And>x. P x \<Longrightarrow> P (f x)) \<Longrightarrow> list_all P (update_where Q f xs)"
  by (induction xs) auto

lemma list_all_list_update: "list_all P xs \<Longrightarrow> P y \<Longrightarrow> list_all P (xs[n := y])"
  by (auto simp: list_all_iff dest: set_update_subset_insert [THEN subsetD])

lemma list_all_put_keyed: "list_all P xs \<Longrightarrow> P a \<Longrightarrow> list_all P (put_keyed key a xs)"
  using set_put_keyed [of key a xs] by (auto simp: list_all_iff)

lemma list_all_filter: "list_all P xs \<Longrightarrow> list_all P (filter Q xs)"
  by (auto simp: list_all_iff)

lemma list_all_upsert:
  assumes "list_all P (st_items s)" and "P (f (zero_item i))" and "\<And>it. P it \<Longrightarrow> P (f it)"
  shows "list_all P (st_items (upsert i f s))"
proof -
  have nth: "list_all P xs \<Longrightarrow> list_all P (xs[n := f (xs ! n)])" for xs n
    using assms(3) by (cases "n < length xs") (auto simp: list_all_length nth_list_update)
  show ?thesis
    using assms nth by (auto simp: upsert_def Let_def split: option.split)
qed

lemma item_images [simp]:
  "it_images (zero_item i) = []"
  "it_images (receive ts it) = it_images it"
  "it_images (user_message ts pr ims t it) = ims"
  "it_images (message_item ev mp it) = it_images it"
  "it_images (tool_started_item ev sp it) = it_images it"
  "it_images (tool_updated_item ev up it) = it_images it"
  "it_images (notice_item ev k it) = it_images it"
  "it_images (artefact_item ev ap it) = it_images it"
  "it_images (card_item ev ep it) = it_images it"
  "it_images (answer_card rp it) = it_images it"
  "it_images (settle_item st it) = it_images it"
  by (simp_all add: zero_item_def receive_def user_message_def message_item_def
      tool_started_item_def tool_updated_item_def notice_item_def artefact_item_def card_item_def
      answer_card_def settle_item_def)

lemma queued_plain: "stored_state s \<Longrightarrow> queued s i = Some q \<Longrightarrow> plain_images (qp_images q)"
  by (auto simp: stored_state_def queued_def list_all_iff dest: find_SomeD)

lemma resolve_queue_plain:
  "stored_state s \<Longrightarrow> plain_images (ts_images p) \<Longrightarrow> plain_images (ts_images (resolve_queue s p))"
  by (auto simp: resolve_queue_def queued_plain split: option.split)

text \<open>What a body read back from the log looks like.\<close>

fun plain_body :: "event_body \<Rightarrow> bool" where
  "plain_body (PromptScheduled p) = plain_images (sp_images p)"
| "plain_body (TurnStarted p) = plain_images (ts_images p)"
| "plain_body (PromptQueued p) = plain_images (pq_images p)"
| "plain_body (ElicitationRequested p) = (er_schema p \<noteq> None)"
| "plain_body _ = True"

lemma plain_body_stored: "plain_body (stored_body b)"
  by (cases b) (simp_all add: plain_images_stored stored_raw_def split: option.split)

lemma stored_event_plain: "stored_event ev \<Longrightarrow> plain_body (ev_body ev)"
  using plain_body_stored [of "ev_body ev"] by (simp add: stored_event_def)

lemma items_plain_upsert:
  assumes "list_all (\<lambda>it. plain_images (it_images it)) (st_items s)"
    and "\<And>it. plain_images (it_images it) \<Longrightarrow> plain_images (it_images (f it))"
  shows "list_all (\<lambda>it. plain_images (it_images it)) (st_items (upsert i f s))"
  using assms by (intro list_all_upsert) simp_all

lemma items_plain_apply_body:
  assumes "stored_state s" and "plain_body b"
  shows "list_all (\<lambda>it. plain_images (it_images it)) (st_items (apply_body ev b s))"
proof -
  have items: "list_all (\<lambda>it. plain_images (it_images it)) (st_items s)"
    using assms(1) by (simp add: stored_state_def)
  have nth: "list_all (\<lambda>it. plain_images (it_images it)) xs \<Longrightarrow>
      (\<And>it. it_images (f it) = it_images it) \<Longrightarrow>
      list_all (\<lambda>it. plain_images (it_images it)) (xs[n := f (xs ! n)])" for xs f n
    by (cases "n < length xs") (auto simp: list_all_length nth_list_update)
  show ?thesis
    using items assms
    by (cases b)
      (simp_all add: apply_defs applyJob_def Let_def nth list_all_update_where
        items_plain_upsert resolve_queue_plain queued_plain split: option.split)
qed

lemma scheduled_plain_apply_body:
  assumes "stored_state s" and "plain_body b"
  shows "list_all (\<lambda>p. plain_images (sp_images p)) (st_scheduled (apply_body ev b s))"
proof -
  have "list_all (\<lambda>p. plain_images (sp_images p)) (st_scheduled s)"
    using assms(1) by (simp add: stored_state_def)
  then show ?thesis
    using assms(2)
    by (cases b)
      (auto simp: apply_defs Let_def list_all_put_keyed leave_queue_def mark_sent_def
        fail_scheduled_def split: option.split intro!: list_all_update_where)
qed

lemma turns_plain_apply_body:
  assumes "stored_state s" and "plain_body b"
  shows "list_all (\<lambda>t. plain_images (tu_images t)) (st_turns (apply_body ev b s))"
proof -
  have "list_all (\<lambda>t. plain_images (tu_images t)) (st_turns s)"
    using assms(1) by (simp add: stored_state_def)
  then show ?thesis
    using assms
    by (cases b)
      (auto simp: apply_defs Let_def new_turn_def finish_turn_def resolve_queue_plain
        split: option.split intro!: list_all_update_where)
qed

lemma queued_plain_apply_body:
  assumes "stored_state s" and "plain_body b"
  shows "list_all (\<lambda>q. plain_images (qp_images q)) (st_queued (apply_body ev b s))"
proof -
  have "list_all (\<lambda>q. plain_images (qp_images q)) (st_queued s)"
    using assms(1) by (simp add: stored_state_def)
  then show ?thesis
    using assms
    by (cases b)
      (auto simp: apply_defs Let_def leave_queue_def removeQueued_def wake_def list_all_filter
        apply_elicitation_resolved_def split: option.split)
qed

lemma schemas_apply_body:
  assumes "stored_state s" and "plain_body b"
  shows "list_all (\<lambda>e. el_schema e \<noteq> None) (st_elicitations (apply_body ev b s))"
proof -
  have "list_all (\<lambda>e. el_schema e \<noteq> None) (st_elicitations s)"
    using assms(1) by (simp add: stored_state_def)
  then show ?thesis
    using assms
    by (cases b) (auto simp: apply_defs Let_def list_all_filter split: option.split)
qed

lemma stored_state_Apply [wf_intro]:
  assumes "stored_state s" and "stored_event ev"
  shows "stored_state (Apply s ev)"
proof (cases "ev_seq ev \<le> st_seq s")
  case False
  have s: "stored_state (s\<lparr>st_seq := ev_seq ev\<rparr>)" using assms(1) by (simp add: stored_state_def)
  have b: "plain_body (ev_body ev)" using assms(2) by (rule stored_event_plain)
  show ?thesis
    using False items_plain_apply_body [OF s b] scheduled_plain_apply_body [OF s b]
      turns_plain_apply_body [OF s b] queued_plain_apply_body [OF s b] schemas_apply_body [OF s b]
    by (simp add: Apply_def stored_state_def)
qed (use assms in \<open>simp add: Apply_stale\<close>)

lemma stored_state_New [wf_intro]: "stored_state (New t)"
  by (simp add: stored_state_def New_def)

lemma stored_state_foldl:
  "stored_state s \<Longrightarrow> \<forall>ev\<in>set evs. stored_event ev \<Longrightarrow> stored_state (foldl Apply s evs)"
  by (induction evs arbitrary: s) (simp_all add: wf_intro)

section \<open>The index stays built\<close>

definition indexed :: "state \<Rightarrow> bool" where
  "indexed s \<longleftrightarrow> (case st_index s of None \<Rightarrow> False | Some _ \<Rightarrow> True)"

lemma indexed_iff: "indexed s \<longleftrightarrow> st_index s \<noteq> None"
  by (simp add: indexed_def split: option.split)

lemma indexed_cong: "st_index t = st_index s \<Longrightarrow> indexed t = indexed s"
  by (simp add: indexed_def)

lemma indexed_upsert [simp]: "indexed (upsert i f s)"
  by (auto simp: upsert_def Let_def ensure_index_def reindex_def indexed_def split: option.split)

lemma indexed_updates [simp]:
  "indexed (s\<lparr>st_scheduled := a\<rparr>) = indexed s" "indexed (s\<lparr>st_seq := b\<rparr>) = indexed s"
  "indexed (s\<lparr>st_cwd := c\<rparr>) = indexed s" "indexed (s\<lparr>st_harness := c\<rparr>) = indexed s"
  "indexed (s\<lparr>st_model := c\<rparr>) = indexed s" "indexed (s\<lparr>st_mode := c\<rparr>) = indexed s"
  "indexed (s\<lparr>st_effort := c\<rparr>) = indexed s" "indexed (s\<lparr>st_title := c\<rparr>) = indexed s"
  "indexed (s\<lparr>st_harnessSessionID := c\<rparr>) = indexed s"
  "indexed (s\<lparr>st_phase := c\<rparr>) = indexed s" "indexed (s\<lparr>st_closed := d\<rparr>) = indexed s"
  "indexed (s\<lparr>st_workspace := e\<rparr>) = indexed s" "indexed (s\<lparr>st_items := f\<rparr>) = indexed s"
  "indexed (s\<lparr>st_turns := g\<rparr>) = indexed s"
  "indexed (s\<lparr>st_jobs := h\<rparr>) = indexed s" "indexed (s\<lparr>st_plan := i\<rparr>) = indexed s"
  "indexed (s\<lparr>st_usage := j\<rparr>) = indexed s" "indexed (s\<lparr>st_pending := k\<rparr>) = indexed s"
  "indexed (s\<lparr>st_elicitations := l\<rparr>) = indexed s" "indexed (s\<lparr>st_queued := m\<rparr>) = indexed s"
  "indexed (s\<lparr>st_artefacts := n\<rparr>) = indexed s"
  "indexed (removeQueued q s) = indexed s" "indexed (leave_queue tp s) = indexed s"
  "indexed (applyJob ev x jp s) = indexed s" "indexed (ensure_index s)"
  by (simp_all add: indexed_def) (simp add: ensure_index_def reindex_def split: option.split)

lemma indexed_apply_body: "indexed s \<Longrightarrow> indexed (apply_body ev b s)"
  by (cases b) (simp_all add: apply_defs Let_def split: option.split)

lemma indexed_Apply: "indexed s \<Longrightarrow> indexed (Apply s ev)"
  using indexed_apply_body [of "s\<lparr>st_seq := ev_seq ev\<rparr>" ev "ev_body ev"]
  by (simp add: Apply_def indexed_def)

lemma indexed_foldl: "indexed s \<Longrightarrow> indexed (foldl Apply s evs)"
  by (induction evs arbitrary: s) (simp_all add: indexed_Apply)

lemma indexed_New: "indexed (New t)"
  by (simp add: New_def indexed_def)

lemma wf_items_fold: "wf_items (foldl Apply (New t) evs)"
  using wf_state_foldl [OF wf_state_New] by (simp add: wf_state_def)

section \<open>Prefixes\<close>

lemma map_prefix_apply:
  assumes step: "\<And>s ev. Q s \<Longrightarrow> Q (Apply s ev) \<and> (\<exists>zs. g (Apply s ev) = g s @ zs)" and "Q s"
  shows "\<exists>zs. g (foldl Apply s evs) = g s @ zs"
  using assms(2)
proof (induction evs arbitrary: s)
  case (Cons e evs)
  then obtain zs where "g (Apply s e) = g s @ zs" "Q (Apply s e)" using step by blast
  then show ?case using Cons.IH [of "Apply s e"] by auto
qed simp

lemma turns_apply_body: "\<exists>zs. map tu_id (st_turns (apply_body ev b s)) = map tu_id (st_turns s) @ zs"
  by (cases b)
    (auto simp: apply_defs Let_def map_update_where finish_turn_def split: option.split)

lemma jobs_ids_apply_body:
  "wf_state s \<Longrightarrow> \<exists>zs. map jb_id (st_jobs (apply_body ev b s)) = map jb_id (st_jobs s) @ zs"
proof -
  have job: "\<exists>zs. map jb_id (st_jobs (applyJob ev x p s)) = map jb_id (st_jobs s) @ zs" for x p
  proof (cases "jp_jobID p = []")
    case True
    then show ?thesis by (simp add: applyJob_def)
  next
    case False
    then show ?thesis by (simp add: applyJob_jobs map_key_put_keyed)
  qed
  show ?thesis
    by (cases b) (auto simp: apply_defs Let_def job split: option.split)
qed

lemma wf_state_items: "wf_state s \<Longrightarrow> wf_items s"
  by (simp add: wf_state_def)

lemma turn_ids_Apply: "\<exists>zs. map tu_id (st_turns (Apply s ev)) = map tu_id (st_turns s) @ zs"
  using turns_apply_body [of ev "ev_body ev" "s\<lparr>st_seq := ev_seq ev\<rparr>"] by (simp add: Apply_def)

lemma job_ids_Apply:
  "wf_state s \<Longrightarrow> \<exists>zs. map jb_id (st_jobs (Apply s ev)) = map jb_id (st_jobs s) @ zs"
  using jobs_ids_apply_body [of "s\<lparr>st_seq := ev_seq ev\<rparr>" ev "ev_body ev"] by (simp add: Apply_def)

section \<open>Lookups\<close>

lemma find_index_of:
  assumes "distinct (map it_id its)"
  shows "map_option (\<lambda>n. its ! n) (index_of its i) = List.find (\<lambda>it. it_id it = i) its"
proof (cases "index_of its i")
  case None
  then have "List.find (\<lambda>it. it_id it = i) its = None"
    by (auto simp: index_of_None find_None_iff_key)
  with None show ?thesis by simp
next
  case (Some n)
  then have n: "n < length its" "it_id (its ! n) = i" by (auto dest: index_of_SomeD)
  then have "List.find (\<lambda>it. it_id it = i) its \<noteq> None" by (auto simp: find_None_iff_key)
  then obtain it where it: "List.find (\<lambda>it. it_id it = i) its = Some it" by auto
  then have "it \<in> set its" "it_id it = i" by (auto dest: find_SomeD)
  then have "it = its ! n" using n assms by (metis distinct_map inj_onD nth_mem)
  with it Some show ?thesis by simp
qed

lemma ItemByID_find:
  "wf_items s \<Longrightarrow> snd (ItemByID s i) = List.find (\<lambda>it. it_id it = i) (st_items s)"
  by (simp add: ItemByID_def Let_def index_get_ensure find_index_of wf_items_def)

lemma wf_items_Clone: "wf_items s \<Longrightarrow> wf_items (Clone s)"
  by (simp add: wf_items_def Clone_def)

lemma ensure_index_Clone: "wf_items s \<Longrightarrow> indexed s \<Longrightarrow> ensure_index (Clone s) = s"
  by (auto simp: ensure_index_def Clone_def reindex_def wf_items_def indexed_iff)

section \<open>Abstract descriptions\<close>

text \<open>The queue as a bare list of ids: joined at the back, left by id.\<close>

fun queue_step :: "event_body \<Rightarrow> string list \<Rightarrow> string list" where
  "queue_step (PromptQueued p) q = q @ [pq_queueID p]"
| "queue_step (PromptDequeued p) q = filter (\<lambda>i. i \<noteq> pd_queueID p) q"
| "queue_step (PromptInjected p) q = filter (\<lambda>i. i \<noteq> pi_queueID p) q"
| "queue_step (TurnStarted p) q =
     (if ts_queueID p = [] then q else filter (\<lambda>i. i \<noteq> ts_queueID p) q)"
| "queue_step _ q = q"

text \<open>Open permission requests and open questions, the same way.\<close>

fun permission_step :: "event_body \<Rightarrow> string list \<Rightarrow> string list" where
  "permission_step (PermissionRequested p) q = q @ [pr_requestID p]"
| "permission_step (PermissionResolved p) q = filter (\<lambda>i. i \<noteq> ps_requestID p) q"
| "permission_step _ q = q"

fun question_step :: "event_body \<Rightarrow> string list \<Rightarrow> string list" where
  "question_step (ElicitationRequested p) q = q @ [er_requestID p]"
| "question_step (ElicitationResolved p) q = filter (\<lambda>i. i \<noteq> es_requestID p) q"
| "question_step _ q = q"

text \<open>An event is new to the state it is applied to when its number is above every earlier one.\<close>

definition fresh_log :: "int \<Rightarrow> event list \<Rightarrow> bool" where
  "fresh_log n evs \<longleftrightarrow> sorted_wrt (<) (n # map ev_seq evs)"

lemma fresh_log_Cons: "fresh_log n (e # evs) \<longleftrightarrow> n < ev_seq e \<and> fresh_log (ev_seq e) evs"
  by (auto simp: fresh_log_def)

lemma abstract_fold:
  assumes step: "\<And>ev s. g (apply_body ev (ev_body ev) (s\<lparr>st_seq := ev_seq ev\<rparr>)) = f (ev_body ev) (g s)"
  shows "fresh_log (st_seq s) evs \<Longrightarrow> g (foldl Apply s evs) = foldl (\<lambda>q ev. f (ev_body ev) q) (g s) evs"
proof (induction evs arbitrary: s)
  case (Cons e evs)
  then have "st_seq s < ev_seq e" "st_seq (Apply s e) = ev_seq e" "fresh_log (ev_seq e) evs"
    by (auto simp: fresh_log_Cons seq_Apply)
  with Cons.IH [of "Apply s e"] show ?case by (simp add: Apply_def step)
qed simp

lemma map_filter_key: "map g (filter (\<lambda>x. g x \<noteq> k) xs) = filter (\<lambda>i. i \<noteq> k) (map g xs)"
  by (induction xs) auto

lemma queued_None_filter:
  "queued s i = None \<Longrightarrow> filter (\<lambda>k. k \<noteq> i) (map qp_queueID (st_queued s)) = map qp_queueID (st_queued s)"
  by (auto simp: queued_def find_None_iff_key intro!: filter_True)

lemma queued_seq [simp]: "queued (s\<lparr>st_seq := n\<rparr>) i = queued s i"
  by (simp add: queued_def)

lemma resolve_queue_ids [simp]:
  "ts_queueID (resolve_queue s p) = ts_queueID p" "ts_turnID (resolve_queue s p) = ts_turnID p"
  by (simp_all add: resolve_queue_def split: option.split)

lemma queue_step_sound:
  "map qp_queueID (st_queued (apply_body ev b (s\<lparr>st_seq := n\<rparr>))) = queue_step b (map qp_queueID (st_queued s))"
  by (cases b)
    (simp_all add: apply_defs Let_def removeQueued_def leave_queue_def wake_def map_filter_key
      queued_None_filter apply_elicitation_resolved_def split: option.split)

lemma permission_step_sound:
  "map pp_requestID (st_pending (apply_body ev b (s\<lparr>st_seq := n\<rparr>))) =
   permission_step b (map pp_requestID (st_pending s))"
  by (cases b) (simp_all add: apply_defs Let_def map_filter_key split: option.split)

lemma question_step_sound:
  "map el_requestID (st_elicitations (apply_body ev b (s\<lparr>st_seq := n\<rparr>))) =
   question_step b (map el_requestID (st_elicitations s))"
  by (cases b) (simp_all add: apply_defs Let_def map_filter_key split: option.split)

section \<open>Streamed text\<close>

fun chunk_of :: "string \<Rightarrow> event_body \<Rightarrow> string" where
  "chunk_of blk (MessageChunk p) = (if mc_blockID p = blk then mc_delta p else [])"
| "chunk_of blk _ = []"

fun is_chunk :: "event_body \<Rightarrow> bool" where
  "is_chunk (MessageChunk _) = True"
| "is_chunk _ = False"

definition text_of :: "string \<Rightarrow> state \<Rightarrow> string" where
  "text_of blk s =
     (case List.find (\<lambda>it. it_id it = blk) (st_items s) of None \<Rightarrow> [] | Some it \<Rightarrow> it_text it)"

lemma text_message_item [simp]: "it_text (message_item ev p it) = it_text it @ mc_delta p"
  by (simp add: message_item_def)

lemma text_of_item_before: "it_text (item_before blk s) = text_of blk s"
  by (simp add: item_before_def text_of_def zero_item_def split: option.split)

lemma text_of_chunk:
  assumes "wf_items s"
  shows "text_of blk (apply_message_chunk ev p s) =
    text_of blk s @ (if mc_blockID p = blk then mc_delta p else [])"
proof -
  have "text_of blk (wake s) = text_of blk s" by (simp add: text_of_def)
  moreover have "text_of blk (apply_message_chunk ev p s) =
      (if blk = mc_blockID p then it_text (item_before blk (wake s)) @ mc_delta p
       else text_of blk (wake s))"
    using assms find_upsert [of "wake s" "message_item ev p" blk "mc_blockID p"]
    by (simp add: apply_message_chunk_def text_of_def)
  ultimately show ?thesis by (auto simp: text_of_item_before)
qed

lemma text_of_fold:
  "wf_items s \<Longrightarrow> fresh_log (st_seq s) evs \<Longrightarrow> list_all (is_chunk \<circ> ev_body) evs \<Longrightarrow>
   text_of blk (foldl Apply s evs) = text_of blk s @ concat (map (chunk_of blk \<circ> ev_body) evs)"
proof (induction evs arbitrary: s)
  case (Cons e evs)
  obtain p where p: "ev_body e = MessageChunk p"
    using Cons.prems by (cases "ev_body e") auto
  have new: "st_seq s < ev_seq e" "st_seq (Apply s e) = ev_seq e" "fresh_log (ev_seq e) evs"
    using Cons.prems by (auto simp: fresh_log_Cons seq_Apply)
  have wf: "wf_items (Apply s e)"
    using Cons.prems by (simp add: Apply_def wf_intro)
  have "text_of blk (s\<lparr>st_seq := ev_seq e\<rparr>) = text_of blk s"
    by (simp add: text_of_def)
  then have "text_of blk (Apply s e) = text_of blk s @ chunk_of blk (ev_body e)"
    using new Cons.prems by (simp add: Apply_def p text_of_chunk)
  then show ?case
    using Cons.IH [OF wf] new Cons.prems by simp
qed simp

section \<open>The end of a job and of a turn\<close>

lemma finish_job_done: "JobDone (jb_status (finish_job True ts j))"
  by (simp add: finish_job_def Let_def JobDone_def)

lemma finish_job_stamp: "ts \<noteq> 0 \<Longrightarrow> jb_finishedAt (finish_job True ts j) \<noteq> 0"
  by (simp add: finish_job_def Let_def)

lemma index_get_eq: "wf_items s \<Longrightarrow> indexed s \<Longrightarrow> index_get s i = index_of (st_items s) i"
  by (auto simp: index_get_def indexed_iff wf_items_def)

lemma settle_item_settled: "\<not> in_flight (settle_item st it)"
  by (simp add: settle_item_def in_flight_def)

lemma items_applyJob_finished:
  assumes "wf_items s" and "indexed s" and "jp_jobID p \<noteq> []"
  shows "st_items (applyJob ev True p s) = settle_items (job_after ev True p s) (st_items s)"
proof (cases "index_of (st_items s) (jb_toolCallID (job_after ev True p s))")
  case None
  then have "\<forall>it\<in>set (st_items s). it_id it \<noteq> jb_toolCallID (job_after ev True p s)"
    by (metis index_of_None imageI)
  then have "settle_items (job_after ev True p s) (st_items s) = st_items s"
    by (simp add: settle_items_def update_where_none)
  moreover have "index_get (s\<lparr>st_jobs := js\<rparr>) i = index_get s i" for js i
    by (simp add: index_get_def)
  ultimately show ?thesis
    using None assms by (simp add: applyJob_def Let_def index_get_eq)
next
  case (Some n)
  then have n: "n < length (st_items s)" "it_id (st_items s ! n) = jb_toolCallID (job_after ev True p s)"
    by (auto dest: index_of_SomeD)
  have "index_get (s\<lparr>st_jobs := js\<rparr>) i = index_get s i" for js i
    by (simp add: index_get_def)
  then show ?thesis
    using Some n assms list_update_eq_where [of "st_items s" n]
    by (simp add: applyJob_def Let_def index_get_eq settle_items_def wf_items_def)
qed

lemma settle_items_settled:
  "jb_toolCallID j \<noteq> [] \<Longrightarrow> it \<in> set (settle_items j its) \<Longrightarrow> it_id it = jb_toolCallID j \<Longrightarrow>
   \<not> in_flight it"
  by (auto simp: settle_items_def update_where_def settle_item_settled split: if_splits)

text \<open>Settling twice is settling once, and the finish of a turn settles what it should.\<close>

lemma interrupted_settled:
  "it \<in> set (update_where (interrupted_tool p js) (\<lambda>it. it\<lparr>it_status := StatusCancelled\<rparr>) its) \<Longrightarrow>
   \<not> interrupted_tool p js it"
  by (auto simp: update_where_def interrupted_tool_def in_flight_def)

text \<open>
  The state after one event that is new to the log, in terms of its body: what the properties
  below start from.
\<close>

definition project :: "string \<Rightarrow> event list \<Rightarrow> state" where
  "project t evs = foldl Apply (New t) evs"

lemma project_snoc:
  "st_seq (project t evs) < ev_seq ev \<Longrightarrow>
   project t (evs @ [ev]) = apply_body ev (ev_body ev) ((project t evs)\<lparr>st_seq := ev_seq ev\<rparr>)"
  by (simp add: project_def Apply_def)

lemma project_append: "project t (xs @ ys) = foldl Apply (project t xs) ys"
  by (simp add: project_def)

lemma project_wf [wf_intro]: "wf_items (project t evs)" "indexed (project t evs)"
  by (simp_all add: project_def wf_items_fold indexed_foldl indexed_New)

section \<open>A sample log\<close>

text \<open>A thread's first turn, with a tool call, a background job, a queued prompt and a snapshot's worth of rest.\<close>

definition sample_event :: "int \<Rightarrow> event_body \<Rightarrow> event" where
  "sample_event n b = \<lparr>ev_threadID = ''t1'', ev_seq = n, ev_timestamp = 1000 + n, ev_body = b\<rparr>"

definition sample_chunk :: "string \<Rightarrow> string \<Rightarrow> event_body" where
  "sample_chunk blk d =
     MessageChunk \<lparr>mc_turnID = ''u1'', mc_role = ''assistant'', mc_kind = ''text'', mc_blockID = blk,
       mc_delta = d, mc_parentToolCallID = []\<rparr>"

definition sample_turn :: "string \<Rightarrow> string \<Rightarrow> event_body" where
  "sample_turn i q =
     TurnStarted \<lparr>ts_turnID = i, ts_prompt = ''fix it'', ts_images = [], ts_recovery = None,
       ts_queueID = q\<rparr>"

definition sample_finish :: "string \<Rightarrow> event_body" where
  "sample_finish i =
     TurnFinished \<lparr>tf_turnID = i, tf_stopReason = StopEndTurn, tf_error = [], tf_failure = []\<rparr>"

definition sample_tool :: "string \<Rightarrow> event_body" where
  "sample_tool i =
     ToolCallStarted \<lparr>cs_turnID = ''u1'', cs_toolCallID = i, cs_kind = ''execute'', cs_title = ''ls'',
       cs_status = StatusInProgress, cs_rawInput = None, cs_parentToolCallID = []\<rparr>"

definition sample_job :: "string \<Rightarrow> string \<Rightarrow> job_payload" where
  "sample_job i call =
     \<lparr>jp_jobID = i, jp_toolCallID = call, jp_parentJobID = [], jp_kind = [], jp_taskType = ''shell'',
      jp_name = ''ls'', jp_role = [], jp_workflowName = [], jp_status = [], jp_activity = [],
      jp_usage = None, jp_error = [], jp_outputFile = [], jp_backgrounded = None, jp_hidden = False\<rparr>"

definition sample_queued :: "string \<Rightarrow> event_body" where
  "sample_queued q =
     PromptQueued \<lparr>pq_queueID = q, pq_prompt = ''next'', pq_images = [], pq_sent = False\<rparr>"

definition sample_log :: "event list" where
  "sample_log =
     [sample_event 1 (sample_turn ''u1'' []), sample_event 2 (sample_chunk ''b1'' ''Let ''),
      sample_event 3 (sample_chunk ''b1'' ''us''), sample_event 4 (sample_tool ''c1''),
      sample_event 5 (JobStarted (sample_job ''j1'' ''c1'')), sample_event 6 (sample_queued ''q1''),
      sample_event 7 (sample_queued ''q2'')]"

lemmas sample_defs =
  sample_log_def sample_event_def sample_chunk_def sample_turn_def sample_finish_def
  sample_tool_def sample_job_def sample_queued_def

lemma sample_seq: "st_seq (foldl Apply (New t) sample_log) = 7"
  by (subst seq_foldl_Apply) (simp add: sample_defs New_def)

section \<open>Properties\<close>

text \<open>
  C15: a state decoded from a snapshot and brought forward by the rest of the log is the state
  the whole log gives, whatever part of the snapshot's own prefix is replayed in between.
\<close>

theorem snapshot_and_tail:
  assumes "\<forall>ev\<in>set pre. stored_event ev" and "set overlap \<subseteq> set pre"
  shows "foldl Apply (FromSnapshot (snapshot_blob (foldl Apply (New t) pre))) (overlap @ rest) =
    foldl Apply (New t) (pre @ rest)"
proof -
  let ?s = "foldl Apply (New t) pre"
  have "stored_state ?s" by (rule stored_state_foldl [OF stored_state_New assms(1)])
  then have "FromSnapshot (snapshot_blob ?s) = ?s"
    using wf_items_fold [of t pre] indexed_foldl [OF indexed_New, of t pre]
    by (intro FromSnapshot_stored) (simp_all add: indexed_iff)
  moreover have "foldl Apply ?s overlap = ?s"
    using assms(2) by (intro foldl_Apply_stale) (auto intro: seq_foldl_ge_event)
  ultimately show ?thesis by simp
qed

theorem snapshot_and_tail_witness:
  "foldl Apply (FromSnapshot (snapshot_blob (foldl Apply (New ''t1'') sample_log)))
     ([sample_event 3 (sample_chunk ''b1'' ''us'')] @ [sample_event 8 (sample_chunk ''b1'' ''!'')]) =
   foldl Apply (New ''t1'') (sample_log @ [sample_event 8 (sample_chunk ''b1'' ''!'')])"
  by (rule snapshot_and_tail) (simp_all add: sample_defs stored_event_def)

text \<open>
  C16: whatever the log holds, the projected state is well-formed: timeline ids are unique and
  the index is exactly their positions, and jobs, artefacts and schedules have one row per id.
\<close>

theorem projection_well_formed: "wf_state (foldl Apply (New t) evs)"
  by (rule wf_state_foldl [OF wf_state_New])

text \<open>
  Looking an item up by id finds exactly the timeline entry with that id; a clone, which
  has no index, answers the same and rebuilds the index on the way.
\<close>

theorem item_lookup_exact:
  "let s = foldl Apply (New t) evs
   in ItemByID s i = (s, List.find (\<lambda>it. it_id it = i) (st_items s))
      \<and> ItemByID (Clone s) i = (s, List.find (\<lambda>it. it_id it = i) (st_items s))"
proof -
  let ?s = "foldl Apply (New t) evs"
  have wf: "wf_items ?s" and ix: "indexed ?s"
    by (simp_all add: wf_items_fold indexed_foldl indexed_New)
  have "fst (ItemByID ?s i) = ?s"
    using ix by (auto simp: ItemByID_def Let_def ensure_index_def indexed_iff)
  moreover have "fst (ItemByID (Clone ?s) i) = ?s"
    by (simp add: ItemByID_def Let_def ensure_index_Clone [OF wf ix])
  moreover have "st_items (Clone ?s) = st_items ?s" by (simp add: Clone_def)
  ultimately show ?thesis
    using ItemByID_find [OF wf, of i] ItemByID_find [OF wf_items_Clone [OF wf], of i]
    by (simp add: Let_def prod_eq_iff)
qed

text \<open>
  The timeline, the turns and the jobs only grow: however the log goes on, the ids a reader
  has already seen stay where they were.
\<close>

theorem history_only_grows:
  "let s = foldl Apply (New t) evs; s' = foldl Apply s later
   in (\<exists>zs. map it_id (st_items s') = map it_id (st_items s) @ zs)
      \<and> (\<exists>zs. map tu_id (st_turns s') = map tu_id (st_turns s) @ zs)
      \<and> (\<exists>zs. map jb_id (st_jobs s') = map jb_id (st_jobs s) @ zs)"
proof -
  let ?s = "foldl Apply (New t) evs"
  have wf: "wf_state ?s" by (rule wf_state_foldl [OF wf_state_New])
  have "\<exists>zs. map it_id (st_items (foldl Apply ?s later)) = map it_id (st_items ?s) @ zs"
    by (rule map_prefix_apply [where Q = wf_state]) (simp_all add: wf wf_intro ids_Apply wf_state_items)
  moreover have "\<exists>zs. map tu_id (st_turns (foldl Apply ?s later)) = map tu_id (st_turns ?s) @ zs"
    by (rule map_prefix_apply [where Q = wf_state]) (simp_all add: wf wf_intro turn_ids_Apply)
  moreover have "\<exists>zs. map jb_id (st_jobs (foldl Apply ?s later)) = map jb_id (st_jobs ?s) @ zs"
    by (rule map_prefix_apply [where Q = wf_state]) (simp_all add: wf wf_intro job_ids_Apply)
  ultimately show ?thesis by (simp add: Let_def)
qed

text \<open>
  C25: the prompt queue is the log's queue: a queued prompt joins at the back, and a dequeue, an
  injection or a turn started from it takes it out; nothing else moves an entry.
\<close>

theorem queue_is_fifo:
  assumes "fresh_log 0 evs"
  shows "map qp_queueID (st_queued (foldl Apply (New t) evs)) =
    foldl (\<lambda>q ev. queue_step (ev_body ev) q) [] evs"
  using abstract_fold [of "map qp_queueID \<circ> st_queued" queue_step "New t" evs] assms
  by (simp add: queue_step_sound New_def)

theorem queue_is_fifo_witness:
  "map qp_queueID (st_queued (foldl Apply (New ''t1'') (sample_log @ [sample_event 8 (sample_turn ''u2'' ''q1'')])))
   = [''q2'']"
  by (subst queue_is_fifo) (simp_all add: sample_defs fresh_log_def)

text \<open>
  C30: the open permission requests and the open questions are exactly those the log asked and
  has not resolved, in the order they were asked.
\<close>

theorem open_requests_exact:
  assumes "fresh_log 0 evs"
  shows "map pp_requestID (st_pending (foldl Apply (New t) evs)) =
      foldl (\<lambda>q ev. permission_step (ev_body ev) q) [] evs
    \<and> map el_requestID (st_elicitations (foldl Apply (New t) evs)) =
      foldl (\<lambda>q ev. question_step (ev_body ev) q) [] evs"
  using abstract_fold [of "map pp_requestID \<circ> st_pending" permission_step "New t" evs]
    abstract_fold [of "map el_requestID \<circ> st_elicitations" question_step "New t" evs] assms
  by (simp add: permission_step_sound question_step_sound New_def)

definition sample_permission :: "string \<Rightarrow> event_body" where
  "sample_permission i =
     PermissionRequested \<lparr>pr_requestID = i, pr_turnID = ''u1'', pr_toolCallID = ''c1'',
       pr_toolName = ''Bash'', pr_title = ''ls'', pr_rawInput = None,
       pr_options = DefaultPermissionOptions\<rparr>"

theorem open_requests_exact_witness:
  "map pp_requestID (st_pending (foldl Apply (New ''t1'')
     [sample_event 1 (sample_permission ''p1''), sample_event 2 (sample_permission ''p2''),
      sample_event 3 (PermissionResolved \<lparr>ps_requestID = ''p1'', ps_outcome = OutcomeAllowOnce,
        ps_optionID = OutcomeAllowOnce\<rparr>)])) = [''p2'']"
  using open_requests_exact [of
     "[sample_event 1 (sample_permission ''p1''), sample_event 2 (sample_permission ''p2''),
      sample_event 3 (PermissionResolved \<lparr>ps_requestID = ''p1'', ps_outcome = OutcomeAllowOnce,
        ps_optionID = OutcomeAllowOnce\<rparr>)]" "''t1''"]
  by (simp add: sample_event_def sample_permission_def fresh_log_def)

text \<open>
  Streamed text arrives whole and in order: over any run of message chunks, the text of a
  block is what it was followed by its own deltas in log order, other blocks untouched.
\<close>

theorem streamed_text_in_order:
  assumes "fresh_log (st_seq (foldl Apply (New t) evs)) chunks"
    and "list_all (is_chunk \<circ> ev_body) chunks"
  shows "text_of blk (foldl Apply (New t) (evs @ chunks)) =
    text_of blk (foldl Apply (New t) evs) @ concat (map (chunk_of blk \<circ> ev_body) chunks)"
  using text_of_fold [OF wf_items_fold assms] by simp

theorem streamed_text_in_order_witness:
  "text_of ''b1'' (foldl Apply (New ''t1'')
     ([] @ [sample_event 1 (sample_chunk ''b1'' ''Let ''), sample_event 2 (sample_chunk ''b2'' ''x''),
            sample_event 3 (sample_chunk ''b1'' ''us'')])) = ''Let us''"
  by (subst streamed_text_in_order)
    (simp_all add: sample_defs fresh_log_def text_of_def New_def)

text \<open>
  A finished job is terminal: its row has a terminal status, a finish time whenever the
  event carries one, and the tool call it came from is no longer shown as in flight.
\<close>

theorem finished_job_settles:
  assumes "ev_body ev = JobFinished p" and "jp_jobID p \<noteq> []"
    and "st_seq (foldl Apply (New t) evs) < ev_seq ev"
  shows "\<exists>j. find_job (st_jobs (foldl Apply (New t) (evs @ [ev]))) (jp_jobID p) = Some j
    \<and> JobDone (jb_status j)
    \<and> (ev_timestamp ev \<noteq> 0 \<longrightarrow> jb_finishedAt j \<noteq> 0)
    \<and> (\<forall>it\<in>set (st_items (foldl Apply (New t) (evs @ [ev]))).
          jb_toolCallID j \<noteq> [] \<and> it_id it = jb_toolCallID j \<longrightarrow> \<not> in_flight it)"
proof -
  let ?s = "(project t evs)\<lparr>st_seq := ev_seq ev\<rparr>" and ?s' = "project t (evs @ [ev])"
  let ?j = "job_after ev True p ?s"
  have s': "?s' = applyJob ev True p ?s"
    using project_snoc [of t evs ev] assms by (simp add: project_def)
  have "find_job (st_jobs ?s') (jp_jobID p) = Some ?j"
    using assms(2) by (simp add: s' applyJob_jobs find_job_def find_put_keyed)
  moreover have "st_items ?s' = settle_items ?j (st_items ?s)"
    using assms(2) by (simp add: s' items_applyJob_finished project_wf)
  ultimately show ?thesis
    unfolding project_def [symmetric]
    by (auto simp: job_after_def finish_job_done finish_job_stamp dest: settle_items_settled
        intro!: exI [of _ ?j])
qed

theorem finished_job_settles_witness:
  "\<exists>j. find_job (st_jobs (foldl Apply (New ''t1'')
     (sample_log @ [sample_event 8 (JobFinished (sample_job ''j1'' []))]))) ''j1'' = Some j
   \<and> JobDone (jb_status j)"
  using finished_job_settles [of "sample_event 8 (JobFinished (sample_job ''j1'' []))"
      "sample_job ''j1'' []" "''t1''" sample_log]
  unfolding sample_seq by (auto simp: sample_event_def sample_job_def)

text \<open>
  A turn's end closes it and nothing else.  When the finished turn is the open one (or none
  is open) the thread goes idle and no tool call the turn could have left in flight stays so,
  except those a live job still owns; when another turn is open, the phase and the timeline are
  untouched.  Either way every turn of that id is marked done with the event's stop reason.
\<close>

theorem turn_finish_closes_its_turn:
  assumes "ev_body ev = TurnFinished p" and "st_seq (foldl Apply (New t) evs) < ev_seq ev"
  shows "let s = foldl Apply (New t) evs; s' = foldl Apply (New t) (evs @ [ev])
    in (open_turn s = [] \<or> tf_turnID p = open_turn s \<longrightarrow>
          st_phase s' = ''idle'' \<and> (\<forall>it\<in>set (st_items s'). \<not> interrupted_tool p (st_jobs s') it))
       \<and> (open_turn s \<noteq> [] \<and> tf_turnID p \<noteq> open_turn s \<longrightarrow>
          st_phase s' = st_phase s \<and> st_items s' = st_items s)
       \<and> (\<forall>tu\<in>set (st_turns s'). tu_id tu = tf_turnID p \<longrightarrow>
          tu_done tu \<and> tu_stopReason tu = tf_stopReason p)"
proof -
  let ?s = "project t evs" and ?s' = "project t (evs @ [ev])"
  have s': "?s' = apply_turn_finished ev p (?s\<lparr>st_seq := ev_seq ev\<rparr>)"
    using project_snoc [of t evs ev] assms by (simp add: project_def)
  have o: "open_turn (?s\<lparr>st_seq := ev_seq ev\<rparr>) = open_turn ?s"
    by (simp add: open_turn_def)
  have "\<forall>tu\<in>set (st_turns ?s'). tu_id tu = tf_turnID p \<longrightarrow>
      tu_done tu \<and> tu_stopReason tu = tf_stopReason p"
    by (auto simp: s' apply_turn_finished_def Let_def update_where_def finish_turn_def)
  moreover have "st_jobs ?s' = st_jobs ?s"
    by (simp add: s' apply_turn_finished_def Let_def)
  ultimately show ?thesis
    unfolding Let_def project_def [symmetric]
    by (auto simp: s' apply_turn_finished_def Let_def o dest: interrupted_settled)
qed

theorem turn_finish_closes_its_turn_witness:
  "st_phase (foldl Apply (New ''t1'') (sample_log @ [sample_event 8 (sample_finish ''u1'')])) = ''idle''"
proof -
  have "open_turn (foldl Apply (New ''t1'') sample_log) = ''u1''"
    by code_simp
  then show ?thesis
    using turn_finish_closes_its_turn [of "sample_event 8 (sample_finish ''u1'')"
        "\<lparr>tf_turnID = ''u1'', tf_stopReason = StopEndTurn, tf_error = [], tf_failure = []\<rparr>"
        "''t1''" sample_log]
    unfolding sample_seq by (simp add: sample_event_def sample_finish_def Let_def)
qed

text \<open>
  For a thread whose actor is not running, the attention derived from the phase alone is the
  one the projection would give, as long as no request is pending, no job is live, and the
  thread is past its creation.
\<close>

theorem attention_from_phase_agrees:
  assumes "st_pending s = []" and "st_elicitations s = []" and "\<not> Working (LiveJobs s)"
    and "st_closed s \<longrightarrow> st_phase s = ''closed''" and "st_phase s \<noteq> ''creating''"
  shows "Attention s = AttentionForPhase (st_phase s)"
  using assms by (auto simp: Attention_def AttentionForPhase_def)

theorem attention_from_phase_agrees_witness:
  "Attention ((New ''t1'')\<lparr>st_phase := ''turn''\<rparr>) = AttentionForPhase ''turn''"
  using attention_from_phase_agrees [of "(New ''t1'')\<lparr>st_phase := ''turn''\<rparr>"]
  by (simp add: New_def Working_def LiveJobs_def)

end
