(* ===== verification/LogStore.thy ===== *)
theory LogStore
  imports StoreInv ProjectionProps
begin

text \<open>
  The store as the event log its readers rely on (an interpretation of \<open>event_log\<close> on
  \<open>Append\<close> and \<open>ReadEvents\<close>), and \<open>loadState\<close> (internal/thread/actor.go), which
  rebuilds a thread's state from a snapshot and the pages after it.
\<close>

section \<open>The store provides the log\<close>

definition append_opt :: "db \<Rightarrow> int \<Rightarrow> string \<Rightarrow> event_body \<Rightarrow> (event \<times> db) option" where
  "append_opt d now t b = (case Append now t b d of Inl _ \<Rightarrow> None | Inr r \<Rightarrow> Some r)"

lemma append_opt_Some: "append_opt d now t b = Some (ev, d') \<longleftrightarrow> Append now t b d = Inr (ev, d')"
  by (simp add: append_opt_def split: sum.split)

lemma log_of_unknown: "threads_ok d \<Longrightarrow> t \<notin> tm_id ` set (db_threads d) \<Longrightarrow> log_of t d = []"
  unfolding log_of_def threads_ok_def by (metis (mono_tags, lifting) filter_False)

lemma log_of_numbered:
  "threads_ok d \<Longrightarrow> map ev_seq (log_of t d) = map int [1..<Suc (length (log_of t d))]"
proof (cases "t \<in> tm_id ` set (db_threads d)")
  case True
  assume "threads_ok d"
  with True show ?thesis
    by (auto simp: threads_ok_def thread_ok_def Let_def log_of_def simp del: upt_Suc)
next
  case False
  assume "threads_ok d"
  with False show ?thesis by (simp add: log_of_unknown)
qed

lemma head_is_length:
  "threads_ok d \<Longrightarrow> thread_row d t = Some m \<Longrightarrow> tm_headSeq m = int (length (log_of t d))"
  by (auto simp: threads_ok_def thread_ok_def Let_def log_of_def dest!: thread_row_Some)

lemma sorted_map_int: "sorted (map int xs) = sorted xs"
  by (induction xs) auto

lemma sorted_log: "threads_ok d \<Longrightarrow> sorted (map ev_seq (log_of t d))"
  by (simp only: log_of_numbered sorted_map_int sorted_upt)

lemma ReadEvents_page:
  assumes "threads_ok d"
  shows "ReadEvents t a (int n) d = take n (filter (\<lambda>e. a < ev_seq e) (log_of t d))"
proof -
  have "filter (\<lambda>e. ev_threadID e = t \<and> a < ev_seq e) (db_events d) = filter (\<lambda>e. a < ev_seq e) (log_of t d)"
    by (simp add: log_of_def conj_commute)
  moreover have "sorted (map ev_seq (filter (\<lambda>e. a < ev_seq e) (log_of t d)))"
    using sorted_log [OF assms] by (metis sorted_filter)
  ultimately show ?thesis
    by (simp add: ReadEvents_def sql_limit_def sort_key_id_if_sorted)
qed

lemma Append_known:
  assumes "threads_ok d" and "t \<in> tm_id ` set (db_threads d)"
  shows "\<exists>ev d'. Append now t b d = Inr (ev, d')"
proof -
  obtain m where m: "thread_row d t = Some m"
    using assms(2) thread_row_None [of d t] by auto
  have "\<not> (ev_threadID e = t \<and> ev_seq e = tm_headSeq m + 1)" if "e \<in> set (db_events d)" for e
  proof
    assume e: "ev_threadID e = t \<and> ev_seq e = tm_headSeq m + 1"
    with that have "e \<in> set (log_of t d)" by (simp add: log_of_def)
    then have "ev_seq e \<in> set (map ev_seq (log_of t d))" by simp
    then have "ev_seq e \<le> int (length (log_of t d))"
      by (auto simp: log_of_numbered [OF assms(1)] simp del: upt_Suc)
    with e head_is_length [OF assms(1) m] show False by simp
  qed
  with m show ?thesis by (auto simp: Append_def Let_def list_ex_iff)
qed

lemma Append_log_of:
  assumes "Append now t b d = Inr (ev, d')"
  shows "log_of t' d' = (if t' = t then log_of t d @ [ev] else log_of t' d)"
  using assms unfolding Append_Inr by (auto simp: log_of_def)

interpretation event_store: event_log
  threads_ok "\<lambda>d t. t \<in> tm_id ` set (db_threads d)" "\<lambda>d t. log_of t d"
  "\<lambda>d t a n. ReadEvents t a (int n) d" append_opt
proof
  show "map ev_seq (log_of t d) = map int [1..<Suc (length (log_of t d))]" if "threads_ok d" for d t
    using that by (rule log_of_numbered)
  show "ReadEvents t a (int n) d = take n (filter (\<lambda>e. a < ev_seq e) (log_of t d))"
    if "threads_ok d" for d t a n
    using that by (rule ReadEvents_page)
  show "append_opt d now t b \<noteq> None"
    if "threads_ok d" "t \<in> tm_id ` set (db_threads d)" for d now t b
    using Append_known [OF that, of now b] by (auto simp: append_opt_def)
  show "log_of t' d' = (if t' = t then log_of t d @ [ev] else log_of t' d)"
    if "append_opt d now t b = Some (ev, d')" for d now t b ev d' t'
    using that by (simp only: append_opt_Some Append_log_of)
  show "ev_body ev = stored_body b \<and> ev_threadID ev = t \<and> ev_timestamp ev = now"
    if "append_opt d now t b = Some (ev, d')" for d now t b ev d'
    using that unfolding append_opt_Some Append_Inr by auto
  show "threads_ok d'" if "threads_ok d" "append_opt d now t b = Some (ev, d')" for d now t b ev d'
    using that by (auto simp: append_opt_Some intro: threads_ok_Append)
  show "(t' \<in> tm_id ` set (db_threads d')) = (t' \<in> tm_id ` set (db_threads d))"
    if "append_opt d now t b = Some (ev, d')" for d now t b ev d' t'
  proof -
    have "map tm_id (db_threads d') = map tm_id (db_threads d)"
      using that unfolding append_opt_Some Append_Inr by (auto simp: thread_ids_update)
    then show ?thesis by (metis list.set_map)
  qed
qed

section \<open>Rebuilding a state\<close>

text \<open>
  \<open>for { evs := ReadEvents(id, state.Seq, 1000); ... }\<close>: every batch moves the state's number
  past at least one event, so the loop ends.
\<close>

lemma ReadEvents_after: "e \<in> set (ReadEvents t a n d) \<Longrightarrow> a < ev_seq e \<and> e \<in> set (log_of t d)"
  by (auto simp: ReadEvents_def sql_limit_def log_of_def split: if_splits dest: in_set_takeD)

function load_loop :: "string \<Rightarrow> db \<Rightarrow> state \<Rightarrow> state" where
  "load_loop t d s =
     (let evs = ReadEvents t (st_seq s) 1000 d
      in if evs = [] then s else load_loop t d (foldl Apply s evs))"
  by pat_completeness auto
termination
proof (relation "measure (\<lambda>(t, d, s). length (filter (\<lambda>e. st_seq s < ev_seq e) (log_of t d)))")
  fix t d evs and s :: state
  assume evs: "evs = ReadEvents t (st_seq s) 1000 d" and "evs \<noteq> []"
  then obtain e where e: "e \<in> set evs" by (meson last_in_set)
  let ?s' = "foldl Apply s evs" and ?n = "\<lambda>s. filter (\<lambda>e. st_seq s < ev_seq e) (log_of t d)"
  have "st_seq s < ev_seq e" "e \<in> set (log_of t d)" using ReadEvents_after e evs by blast+
  moreover have "ev_seq e \<le> st_seq ?s'" by (rule seq_foldl_ge_event [OF e])
  moreover have "filter (\<lambda>e. st_seq ?s' < ev_seq e) (?n s) = ?n ?s'"
    using seq_foldl_ge [of s evs] by (auto simp: filter_filter intro!: filter_cong)
  ultimately have "length (?n ?s') < length (?n s)"
    by (metis (no_types, lifting) length_filter_less mem_Collect_eq not_less set_filter)
  then show "((t, d, foldl Apply s evs), t, d, s)
      \<in> measure (\<lambda>(t, d, s). length (filter (\<lambda>e. st_seq s < ev_seq e) (log_of t d)))"
    by simp
qed simp

declare load_loop.simps [simp del]

definition loadState :: "string \<Rightarrow> db \<Rightarrow> state" where
  "loadState t d =
     load_loop t d
       (case LatestSnapshot t d of
          None \<Rightarrow> New t
        | Some (seq, blob) \<Rightarrow> (FromSnapshot blob)\<lparr>st_seq := seq\<rparr>)"

lemma foldl_Apply_seq_last:
  "evs \<noteq> [] \<Longrightarrow> sorted_wrt (<) (map ev_seq evs) \<Longrightarrow> st_seq s < ev_seq (hd evs) \<Longrightarrow>
   st_seq (foldl Apply s evs) = ev_seq (last evs)"
proof (induction evs arbitrary: s)
  case (Cons e evs)
  then show ?case by (cases evs) (auto simp: seq_Apply)
qed simp

lemma load_loop_step:
  assumes "threads_ok d"
  shows "let p = ReadEvents t (st_seq s) 1000 d; rest = (\<lambda>n. filter (\<lambda>e. n < ev_seq e) (log_of t d))
    in if p = [] then rest (st_seq s) = []
       else rest (st_seq s) = p @ rest (st_seq (foldl Apply s p))"
proof -
  let ?p = "ReadEvents t (st_seq s) (int 1000) d"
  have page: "?p = take 1000 (filter (\<lambda>e. st_seq s < ev_seq e) (log_of t d))"
    by (rule ReadEvents_page [OF assms])
  show ?thesis
  proof (cases "?p = []")
    case True
    with page show ?thesis by simp
  next
    case False
    have "st_seq (foldl Apply s ?p) = ev_seq (last ?p)"
    proof (rule foldl_Apply_seq_last [OF False])
      show "sorted_wrt (<) (map ev_seq ?p)" using event_store.page_increasing [OF assms] .
      show "st_seq s < ev_seq (hd ?p)"
        using ReadEvents_after [of "hd ?p" t "st_seq s" "int 1000" d] False by simp
    qed
    with event_store.read_split [OF assms False] False show ?thesis by simp
  qed
qed

lemma load_loop_log:
  "threads_ok d \<Longrightarrow>
   load_loop t d s = foldl Apply s (filter (\<lambda>e. st_seq s < ev_seq e) (log_of t d))"
proof (induction t d s rule: load_loop.induct)
  case (1 t d s)
  let ?p = "ReadEvents t (st_seq s) 1000 d"
  note step = load_loop_step [OF \<open>threads_ok d\<close>, of t s]
  show ?case
  proof (cases "?p = []")
    case True
    with step show ?thesis by (subst load_loop.simps) (simp add: Let_def)
  next
    case False
    with step have "filter (\<lambda>e. st_seq s < ev_seq e) (log_of t d) =
        ?p @ filter (\<lambda>e. st_seq (foldl Apply s ?p) < ev_seq e) (log_of t d)"
      by (simp add: Let_def)
    moreover have "load_loop t d s = load_loop t d (foldl Apply s ?p)"
      using False by (subst load_loop.simps) (simp add: Let_def)
    ultimately show ?thesis using 1 False by simp
  qed
qed

end
