(* ===== verification/StoreProps.thy ===== *)
theory StoreProps
  imports LogStore
begin

text \<open>
  What the rest of the program may rely on from the store: states rebuilt from snapshots are the
  log's, the schedule index is the projection's, command ids are answered once, pairing codes
  are spent once, and the thread list keeps the user's order.
\<close>

section \<open>Snapshots\<close>

text \<open>Every snapshot on disk is the fold of the log up to its number.\<close>

definition snapshot_ok :: "db \<Rightarrow> snapshot_row \<Rightarrow> bool" where
  "snapshot_ok d r \<longleftrightarrow>
     0 \<le> sn_seq r \<and> sn_seq r \<le> int (length (log_of (sn_thread r) d))
     \<and> sn_state r = snapshot_blob
         (foldl Apply (New (sn_thread r)) (take (nat (sn_seq r)) (log_of (sn_thread r) d)))"

definition snapshots_ok :: "db \<Rightarrow> bool" where
  "snapshots_ok d \<longleftrightarrow> (\<forall>r\<in>set (db_snapshots d). snapshot_ok d r)"

lemma log_events_stored:
  "threads_ok d \<Longrightarrow> e \<in> set (log_of t d) \<Longrightarrow> stored_event e"
  by (auto simp: threads_ok_def stored_event_def log_of_def)

lemma seq_foldl_log:
  assumes "threads_ok d" and "n \<le> length (log_of t d)"
  shows "st_seq (foldl Apply (New t) (take n (log_of t d))) = int n"
proof (cases "take n (log_of t d) = []")
  case True
  with assms(2) show ?thesis by (auto simp: New_def)
next
  case False
  let ?l = "log_of t d"
  have inc: "sorted_wrt (<) (0 # map ev_seq ?l)"
    by (rule event_store.log_strictly_increasing [OF assms(1)])
  have n: "0 < n" "n - 1 < length ?l" using False assms(2) by auto
  have "sorted_wrt (<) (map ev_seq (take n ?l))"
    using inc by (metis append_take_drop_id map_append sorted_wrt.simps(2) sorted_wrt_append)
  moreover have "0 < ev_seq (hd (take n ?l))"
    using inc False by (cases ?l) auto
  ultimately have "st_seq (foldl Apply (New t) (take n ?l)) = ev_seq (last (take n ?l))"
    using False by (intro foldl_Apply_seq_last) (simp_all add: New_def)
  also have "last (take n ?l) = ?l ! (n - 1)"
    using False assms(2) n by (simp add: last_conv_nth min_def)
  finally show ?thesis using event_store.nth_seq [OF assms(1) n(2)] n by simp
qed

lemma FromSnapshot_log:
  assumes "threads_ok d"
  shows "FromSnapshot (snapshot_blob (foldl Apply (New t) (take n (log_of t d)))) =
    foldl Apply (New t) (take n (log_of t d))"
proof (rule FromSnapshot_stored)
  show "stored_state (foldl Apply (New t) (take n (log_of t d)))"
    by (rule stored_state_foldl [OF stored_state_New])
      (auto dest: in_set_takeD intro: log_events_stored [OF assms])
  show "wf_items (foldl Apply (New t) (take n (log_of t d)))" by (rule wf_items_fold)
  show "st_index (foldl Apply (New t) (take n (log_of t d))) \<noteq> None"
    by (rule indexed_foldl [OF indexed_New, unfolded indexed_iff])
qed

lemma LatestSnapshot_row:
  "LatestSnapshot t d = Some (n, b) \<Longrightarrow>
   \<exists>r\<in>set (db_snapshots d). sn_thread r = t \<and> sn_seq r = n \<and> sn_state r = b"
proof -
  assume "LatestSnapshot t d = Some (n, b)"
  then obtain r rs where "rev (sort_key sn_seq (filter (\<lambda>r. sn_thread r = t) (db_snapshots d))) = r # rs"
    and r: "sn_seq r = n" "sn_state r = b"
    by (auto simp: LatestSnapshot_def split: list.splits)
  then have "r \<in> set (rev (sort_key sn_seq (filter (\<lambda>r. sn_thread r = t) (db_snapshots d))))" by simp
  with r show ?thesis by auto
qed

lemma snapshot_ok_Append:
  assumes "Append now t b d = Inr (ev, d')" and "snapshot_ok d r"
  shows "snapshot_ok d' r"
  using assms(2) Append_log_of [OF assms(1), of "sn_thread r"]
  by (auto simp: snapshot_ok_def nat_le_iff)

lemma snapshots_ok_Append: "snapshots_ok d \<Longrightarrow> Append now t b d = Inr (ev, d') \<Longrightarrow> snapshots_ok d'"
  using snapshot_ok_Append unfolding snapshots_ok_def Append_Inr by fastforce

lemma snapshots_ok_PutSnapshot:
  assumes "threads_ok d" and "snapshots_ok d" and "n \<le> length (log_of t d)"
    and "s = foldl Apply (New t) (take n (log_of t d))"
  shows "snapshots_ok (PutSnapshot t (st_seq s) s d)"
proof -
  have "log_of i (PutSnapshot t (st_seq s) s d) = log_of i d" for i
    by (simp add: PutSnapshot_def Let_def log_of_def)
  then have same: "snapshot_ok (PutSnapshot t (st_seq s) s d) r = snapshot_ok d r" for r
    by (simp add: snapshot_ok_def)
  have "snapshot_ok d \<lparr>sn_thread = t, sn_seq = st_seq s, sn_state = snapshot_blob s\<rparr>"
    using assms(3,4) seq_foldl_log [OF assms(1,3)] by (simp add: snapshot_ok_def)
  with assms(2) show ?thesis
    unfolding snapshots_ok_def same by (auto simp: PutSnapshot_def Let_def)
qed

lemma loadState_log:
  assumes ok: "threads_ok d" and snap: "snapshots_ok d"
  shows "loadState t d = foldl Apply (New t) (log_of t d)"
proof (cases "LatestSnapshot t d")
  case None
  have "filter (\<lambda>e. st_seq (New t) < ev_seq e) (log_of t d) = log_of t d"
    using event_store.after_drop [OF ok, of 0 t] by (simp add: New_def)
  with None show ?thesis by (simp add: loadState_def load_loop_log [OF ok])
next
  case (Some p)
  obtain n b where p: "p = (n, b)" by force
  then obtain r where "r \<in> set (db_snapshots d)" "sn_thread r = t" "sn_seq r = n" "sn_state r = b"
    using LatestSnapshot_row Some by blast
  then have n: "0 \<le> n" "nat n \<le> length (log_of t d)"
    and b: "b = snapshot_blob (foldl Apply (New t) (take (nat n) (log_of t d)))"
    using snap by (auto simp: snapshots_ok_def snapshot_ok_def)
  let ?s = "foldl Apply (New t) (take (nat n) (log_of t d))"
  have seq: "st_seq ?s = n" using seq_foldl_log [OF ok n(2)] n(1) by simp
  then have "(FromSnapshot b)\<lparr>st_seq := n\<rparr> = ?s"
    using FromSnapshot_log [OF ok, of t "nat n"] b by simp
  moreover have "filter (\<lambda>e. n < ev_seq e) (log_of t d) = drop (nat n) (log_of t d)"
    by (rule event_store.after_drop [OF ok])
  ultimately have "loadState t d = foldl Apply ?s (drop (nat n) (log_of t d))"
    by (simp add: loadState_def Some p load_loop_log [OF ok] seq)
  also have "\<dots> = foldl Apply (New t) (log_of t d)"
    by (metis append_take_drop_id foldl_append)
  finally show ?thesis .
qed

section \<open>The schedule index\<close>

text \<open>The rows of one thread are the index folded over that thread's log.\<close>

definition index_rows :: "string \<Rightarrow> db \<Rightarrow> schedule_row list" where
  "index_rows t d = filter (\<lambda>r. sc_thread r = t) (db_scheduled d)"

lemma filter_update_first:
  assumes "\<forall>x\<in>set xs. P x \<longrightarrow> Q x" and "Q a"
  shows "filter Q (update_first P (\<lambda>_. a) xs) = update_first P (\<lambda>_. a) (filter Q xs)"
  using assms by (induction xs) auto

lemma filter_update_first_other:
  assumes "\<forall>x\<in>set xs. P x \<longrightarrow> \<not> Q x" and "\<not> Q a"
  shows "filter Q (update_first P (\<lambda>_. a) xs) = filter Q xs"
  using assms by (induction xs) auto

lemma filter_put_keyed:
  assumes "\<And>x. key x = key a \<Longrightarrow> Q x = Q a"
  shows "filter Q (put_keyed key a xs) = (if Q a then put_keyed key a (filter Q xs) else filter Q xs)"
proof (cases "Q a")
  case True
  then have all: "\<forall>x\<in>set xs. key x = key a \<longrightarrow> Q x" using assms by blast
  then have "(\<exists>x\<in>set (filter Q xs). key x = key a) = (\<exists>x\<in>set xs. key x = key a)" by auto
  with True filter_update_first [OF all True] show ?thesis
    by (simp only: put_keyed_def filter_append filter.simps if_True split: if_split) simp
next
  case False
  then have all: "\<forall>x\<in>set xs. key x = key a \<longrightarrow> \<not> Q x" using assms by blast
  show ?thesis
    using False filter_update_first_other [OF all False] by (simp add: put_keyed_def)
qed

lemma index_rows_step:
  "filter (\<lambda>r. sc_thread r = i) (updateScheduleIndex t b rows) =
     (if i = t then updateScheduleIndex t b (filter (\<lambda>r. sc_thread r = i) rows)
      else filter (\<lambda>r. sc_thread r = i) rows)"
proof (cases b)
  case (PromptScheduled p)
  let ?r = "\<lparr>sc_thread = t, sc_id = sp_id p, sc_dueAt = sp_dueAt p, sc_status = sp_status p\<rparr>"
  show ?thesis
    using filter_put_keyed [of schedule_key ?r "\<lambda>r. sc_thread r = i" rows]
    by (auto simp: PromptScheduled schedule_key_def)
next
  case (TurnStarted p)
  have "filter (\<lambda>r. sc_thread r = i) (update_where (\<lambda>r. sc_thread r = t \<and> sc_id r = q)
      (\<lambda>r. r\<lparr>sc_status := ''sent''\<rparr>) rows) =
    (if i = t then update_where (\<lambda>r. sc_thread r = t \<and> sc_id r = q)
       (\<lambda>r. r\<lparr>sc_status := ''sent''\<rparr>) (filter (\<lambda>r. sc_thread r = i) rows)
     else filter (\<lambda>r. sc_thread r = i) rows)" for q
    by (induction rows) auto
  then show ?thesis by (simp add: TurnStarted)
next
  case (ThreadClosed x)
  have "filter (\<lambda>r. sc_thread r = i) (filter (\<lambda>r. sc_thread r \<noteq> t) rows) =
    (if i = t then [] else filter (\<lambda>r. sc_thread r = i) rows)"
    by (induction rows) auto
  moreover have "filter (\<lambda>r. sc_thread r \<noteq> t) (filter (\<lambda>r. sc_thread r = t) rows) = []"
    by (induction rows) auto
  ultimately show ?thesis by (simp add: ThreadClosed)
qed simp_all

definition index_fold :: "string \<Rightarrow> event list \<Rightarrow> schedule_row list" where
  "index_fold t evs = foldl (\<lambda>rows e. updateScheduleIndex t (ev_body e) rows) [] evs"

definition index_ok :: "db \<Rightarrow> bool" where
  "index_ok d \<longleftrightarrow> (\<forall>t. index_rows t d = index_fold t (log_of t d))"

lemma index_ok_Append:
  assumes "index_ok d" and "Append now t b d = Inr (ev, d')"
  shows "index_ok d'"
proof -
  have ev: "ev_body ev = stored_body b" and "db_scheduled d' = updateScheduleIndex t (stored_body b) (db_scheduled d)"
    using assms(2) unfolding Append_Inr by auto
  then show ?thesis
    using assms(1) Append_log_of [OF assms(2)]
    by (simp add: index_ok_def index_rows_def index_rows_step index_fold_def)
qed

lemma index_ok_same: "db_scheduled d' = db_scheduled d \<Longrightarrow> same_log d d' \<Longrightarrow> index_ok d \<Longrightarrow> index_ok d'"
  by (simp add: index_ok_def index_rows_def same_log_def log_of_def)

lemma index_ok_DeleteThread:
  assumes "index_ok d"
  shows "index_ok (DeleteThread t d)"
proof -
  have "filter (\<lambda>r. sc_thread r \<noteq> t \<and> sc_thread r = i) rows = (if i = t then [] else filter (\<lambda>r. sc_thread r = i) rows)"
    "filter (\<lambda>e. ev_threadID e \<noteq> t \<and> ev_threadID e = i) es = (if i = t then [] else filter (\<lambda>e. ev_threadID e = i) es)"
    for i and rows :: "schedule_row list" and es :: "event list"
    by (auto simp: filter_empty_conv intro!: filter_cong)
  with assms show ?thesis
    by (simp add: index_ok_def index_rows_def log_of_def DeleteThread_def index_fold_def)
qed

definition same_index :: "db \<Rightarrow> db \<Rightarrow> bool" where
  "same_index d d' \<longleftrightarrow> db_scheduled d' = db_scheduled d \<and> db_events d' = db_events d"

lemma same_index_ok: "same_index d d' \<Longrightarrow> index_ok d \<Longrightarrow> index_ok d'"
  by (simp add: same_index_def index_ok_def index_rows_def log_of_def)

lemma same_index_threads:
  "same_index d (SetPhase now t phase d)" "same_index d (SetProviderInstance now t inst d)"
  "same_index d (SetTitle t title d)" "same_index d (UpdateWorkspace now t cwd branch phase res d)"
  "RenameThread t title d = Inr d' \<Longrightarrow> same_index d d'"
  "SetThreadPinned t b d = Inr d' \<Longrightarrow> same_index d d'"
  "SetThreadPosition t pos d = Inr d' \<Longrightarrow> same_index d d'"
  "MarkThreadViewed t seq d = Inr d' \<Longrightarrow> same_index d d'"
  "MarkThreadUnread t d = Inr d' \<Longrightarrow> same_index d d'"
  "CreateThread m d = Inr d' \<Longrightarrow> same_index d d'"
  by (auto simp: SetPhase_def SetProviderInstance_def SetTitle_def RenameThread_def
      UpdateWorkspace_def SetThreadPinned_def SetThreadPosition_def MarkThreadViewed_def
      MarkThreadUnread_def update_thread_found_Inr same_index_def CreateThread_def split: if_splits)

lemma same_index_rest:
  "UpdateProject now p d = Inr d' \<Longrightarrow> same_index d d'"
  "SetProjectHome i home d = Inr d' \<Longrightarrow> same_index d d'"
  "UpdateFolder pid f d = Inr d' \<Longrightarrow> same_index d d'"
  "RemoveFolder pid fid d = Inr d' \<Longrightarrow> same_index d d'"
  "DeleteProject i d = Inr d' \<Longrightarrow> same_index d d'"
  "CreateDevice now i tok label d = Inr d' \<Longrightarrow> same_index d d'"
  "DeviceByToken now tok d = Inr (dev, d') \<Longrightarrow> same_index d d'"
  "same_index d (RevokeDevice i d)" "same_index d (CreatePairing now code expires d)"
  "RedeemPairing now code d = Inr d' \<Longrightarrow> same_index d d'"
  "same_index d (PurgePairings now d)"
  "SavePushSubscription uuid now pr d = Inr (i, d') \<Longrightarrow> same_index d d'"
  "DeletePushSubscription i d = Inr d' \<Longrightarrow> same_index d d'"
  "same_index d (PutSnapshot t seq s d)"
  "ClaimCommand now c t d = Inr (j, replay, d') \<Longrightarrow> same_index d d'"
  "same_index d (ReleaseCommand c d)" "same_index d (CompleteCommand c r d)"
  by (auto simp: UpdateProject_def SetProjectHome_def UpdateFolder_def RemoveFolder_def
      DeleteProject_def update_project_found_def CreateDevice_def DeviceByToken_def
      RevokeDevice_def CreatePairing_def RedeemPairing_def PurgePairings_def
      SavePushSubscription_def DeletePushSubscription_def PutSnapshot_def ClaimCommand_def
      ReleaseCommand_def CompleteCommand_def Let_def map_sum_Inr same_index_def
      split: if_splits option.splits)

lemma same_index_insert_folders: "insert_folders pid fs i c d = Inr d' \<Longrightarrow> same_index d d'"
  by (drule insert_folders_frame) (cases d; cases d'; simp add: same_index_def)

lemma same_index_compound:
  "CreateProject p d = Inr d' \<Longrightarrow> same_index d d'"
  "AddFolder now pid f d = Inr d' \<Longrightarrow> same_index d d'"
  "RedeemPairingForDevice now code i tok label d = Inr d' \<Longrightarrow> same_index d d'"
    apply (auto simp: CreateProject_def same_index_def dest!: same_index_insert_folders split: if_splits)[1]
   apply (auto simp: AddFolder_def insertFolder_def Let_def same_index_def split: if_splits sum.splits)[1]
  apply (auto simp: RedeemPairingForDevice_def RedeemPairing_def CreateDevice_def map_sum_Inr
      same_index_def split: if_splits sum.splits)[1]
  done

lemmas index_steps =
  index_ok_Append [rotated] index_ok_DeleteThread same_index_threads [THEN same_index_ok]
  same_index_rest [THEN same_index_ok] same_index_compound [THEN same_index_ok]

lemma index_ok_step: "store_step d d' \<Longrightarrow> index_ok d \<Longrightarrow> index_ok d'"
  by (induction rule: store_step.induct) (blast intro: index_steps)+

lemma index_reachable: "store_reachable d \<Longrightarrow> index_ok d"
proof (induction rule: store_reachable.induct)
  case empty
  then show ?case by (simp add: index_ok_def index_rows_def index_fold_def log_of_def empty_db_def)
qed (blast intro: index_ok_step)

text \<open>
  What the index and the projection agree on: id, due time, and whether the schedule is still
  waiting.  They agree as long as a waiting schedule carries no turn yet and a finish names its
  turn, and the thread is open (closing empties the index and leaves the projection alone).
\<close>

fun schedule_event_ok :: "event_body \<Rightarrow> bool" where
  "schedule_event_ok (PromptScheduled p) \<longleftrightarrow>
     sp_id p \<noteq> [] \<and> (pending_status (sp_status p) \<longrightarrow> sp_turnID p = [])"
| "schedule_event_ok (TurnFinished p) \<longleftrightarrow> tf_turnID p \<noteq> []"
| "schedule_event_ok (ThreadClosed _) \<longleftrightarrow> False"
| "schedule_event_ok _ \<longleftrightarrow> True"

definition index_view :: "schedule_row list \<Rightarrow> (string \<times> int \<times> bool) list" where
  "index_view rows = map (\<lambda>r. (sc_id r, sc_dueAt r, pending_status (sc_status r))) rows"

definition projection_view :: "scheduled_prompt list \<Rightarrow> (string \<times> int \<times> bool) list" where
  "projection_view sps = map (\<lambda>p. (sp_id p, sp_dueAt p, pending_status (sp_status p))) sps"

definition waiting_ok :: "scheduled_prompt list \<Rightarrow> bool" where
  "waiting_ok sps \<longleftrightarrow>
     list_all (\<lambda>p. sp_id p \<noteq> [] \<and> (pending_status (sp_status p) \<longrightarrow> sp_turnID p = [])) sps"

lemma pending_status_simps [simp]:
  "\<not> pending_status ''sent''" "\<not> pending_status ''failed''"
  by (simp_all add: pending_status_def)

lemma put_keyed_view:
  assumes "map (\<lambda>x. (k x, g x)) xs = map (\<lambda>y. (l y, h y)) ys" and "k a = l b" and "g a = h b"
  shows "map (\<lambda>x. (k x, g x)) (put_keyed k a xs) = map (\<lambda>y. (l y, h y)) (put_keyed l b ys)"
proof -
  have "map (\<lambda>x. (k x, g x)) (update_first (\<lambda>x. k x = k a) (\<lambda>_. a) xs) =
      map (\<lambda>y. (l y, h y)) (update_first (\<lambda>y. l y = l b) (\<lambda>_. b) ys)"
    using assms
  proof (induction xs arbitrary: ys)
    case (Cons x xs)
    then show ?case by (cases ys) auto
  qed simp
  moreover have "(\<exists>x\<in>set xs. k x = k a) = (\<exists>y\<in>set ys. l y = l b)"
  proof -
    have "map k xs = map l ys"
      using arg_cong [OF assms(1), of "map fst"] by (simp add: comp_def)
    then have "k ` set xs = l ` set ys" by (metis list.set_map)
    with assms(2) show ?thesis by (metis (no_types, lifting) image_iff)
  qed
  ultimately show ?thesis using assms by (auto simp: put_keyed_def)
qed

lemma update_where_view:
  assumes "map (\<lambda>x. (k x, g x)) xs = map (\<lambda>y. (l y, h y)) ys"
    and "\<And>x. (k (f x), g (f x)) = (k x, c (g x))" and "\<And>y. (l (f' y), h (f' y)) = (l y, c (h y))"
  shows "map (\<lambda>x. (k x, g x)) (update_where (\<lambda>x. k x = q) f xs) =
    map (\<lambda>y. (l y, h y)) (update_where (\<lambda>y. l y = q) f' ys)"
  using assms(1)
proof (induction xs arbitrary: ys)
  case (Cons x xs)
  then show ?case using assms(2,3) by (cases ys) auto
qed simp

lemma put_keyed_one_thread:
  assumes "\<forall>r\<in>set rows. sc_thread r = t" and "sc_thread a = t"
  shows "put_keyed schedule_key a rows = put_keyed sc_id a rows"
proof -
  have "update_first (\<lambda>r. schedule_key r = schedule_key a) (\<lambda>_. a) rows =
      update_first (\<lambda>r. sc_id r = sc_id a) (\<lambda>_. a) rows"
    using assms by (induction rows) (auto simp: schedule_key_def)
  with assms show ?thesis by (auto simp: put_keyed_def schedule_key_def)
qed

lemma update_where_one_thread:
  "\<forall>r\<in>set rows. sc_thread r = t \<Longrightarrow>
   update_where (\<lambda>r. sc_thread r = t \<and> sc_id r = q) f rows = update_where (\<lambda>r. sc_id r = q) f rows"
  by (induction rows) auto

lemma view_scheduled:
  assumes "index_view rows = projection_view sps" and "\<forall>r\<in>set rows. sc_thread r = t"
  shows "index_view (updateScheduleIndex t (PromptScheduled p) rows) =
    projection_view (put_keyed sp_id p sps)"
proof -
  let ?r = "\<lparr>sc_thread = t, sc_id = sp_id p, sc_dueAt = sp_dueAt p, sc_status = sp_status p\<rparr>"
  have "map (\<lambda>r. (sc_id r, (sc_dueAt r, pending_status (sc_status r)))) (put_keyed sc_id ?r rows) =
      map (\<lambda>q. (sp_id q, (sp_dueAt q, pending_status (sp_status q)))) (put_keyed sp_id p sps)"
    using assms(1) by (intro put_keyed_view) (simp_all add: index_view_def projection_view_def)
  then show ?thesis
    using assms(2) put_keyed_one_thread [of rows t ?r]
    by (simp add: index_view_def projection_view_def)
qed

lemma view_started:
  assumes "index_view rows = projection_view sps" and "\<forall>r\<in>set rows. sc_thread r = t"
  shows "index_view (updateScheduleIndex t (TurnStarted p) rows) =
    projection_view (update_where (\<lambda>sp. sp_id sp = ts_queueID p) (mark_sent u) sps)"
proof -
  have "map (\<lambda>r. (sc_id r, (sc_dueAt r, pending_status (sc_status r))))
      (update_where (\<lambda>r. sc_id r = ts_queueID p) (\<lambda>r. r\<lparr>sc_status := ''sent''\<rparr>) rows) =
    map (\<lambda>q. (sp_id q, (sp_dueAt q, pending_status (sp_status q))))
      (update_where (\<lambda>q. sp_id q = ts_queueID p) (mark_sent u) sps)"
    using assms(1)
    by (intro update_where_view [where c = "\<lambda>(a, b). (a, False)"])
      (simp_all add: index_view_def projection_view_def mark_sent_def)
  then show ?thesis
    using assms(2) by (simp add: update_where_one_thread index_view_def projection_view_def)
qed

lemma view_no_queue:
  "waiting_ok sps \<Longrightarrow> update_where (\<lambda>sp. sp_id sp = []) f sps = sps"
  by (rule update_where_none) (auto simp: waiting_ok_def list_all_iff)

lemma view_failed:
  assumes "waiting_ok sps" and "tf_turnID p \<noteq> []"
  shows "projection_view (fail_scheduled p sps) = projection_view sps"
  using assms by (auto simp: projection_view_def fail_scheduled_def update_where_def waiting_ok_def
      list_all_iff)

lemma waiting_ok_fail: "waiting_ok sps \<Longrightarrow> waiting_ok (fail_scheduled p sps)"
  by (auto simp: waiting_ok_def fail_scheduled_def intro!: list_all_update_where)

lemma waiting_ok_sent: "waiting_ok sps \<Longrightarrow> waiting_ok (update_where P (mark_sent u) sps)"
  by (auto simp: waiting_ok_def mark_sent_def intro!: list_all_update_where)

lemma one_thread_step:
  "\<forall>r\<in>set rows. sc_thread r = t \<Longrightarrow> \<forall>r\<in>set (updateScheduleIndex t b rows). sc_thread r = t"
proof (cases b)
  case (PromptScheduled p)
  assume "\<forall>r\<in>set rows. sc_thread r = t"
  then show ?thesis
    using set_put_keyed [of schedule_key
        "\<lparr>sc_thread = t, sc_id = sp_id p, sc_dueAt = sp_dueAt p, sc_status = sp_status p\<rparr>" rows]
    by (auto simp: PromptScheduled)
qed (auto simp: set_update_where)

lemma leave_queue_scheduled [simp]:
  "st_scheduled (leave_queue p s) =
     (if ts_queueID p = [] then st_scheduled s
      else update_where (\<lambda>sp. sp_id sp = ts_queueID p) (mark_sent (ts_turnID p)) (st_scheduled s))"
  by (simp add: leave_queue_def)

lemma view_step:
  assumes view: "index_view rows = projection_view (st_scheduled s)"
    and one: "\<forall>r\<in>set rows. sc_thread r = t"
    and ok: "waiting_ok (st_scheduled s)" and b: "schedule_event_ok b"
  shows "index_view (updateScheduleIndex t b rows) = projection_view (st_scheduled (apply_body ev b s))
    \<and> waiting_ok (st_scheduled (apply_body ev b s))"
proof (cases b)
  case (PromptScheduled p)
  have "waiting_ok (put_keyed sp_id p (st_scheduled s))"
    using ok b by (auto simp: PromptScheduled waiting_ok_def intro!: list_all_put_keyed)
  then show ?thesis
    using view_scheduled [OF view one, of p] by (simp add: PromptScheduled apply_prompt_scheduled_def)
next
  case (TurnStarted p)
  show ?thesis
  proof (cases "ts_queueID p = []")
    case True
    with view_started [OF view one, of p "ts_turnID p"] ok show ?thesis
      by (simp add: TurnStarted apply_turn_started_def Let_def view_no_queue)
  next
    case False
    with view_started [OF view one, of p "ts_turnID p"] ok show ?thesis
      by (simp add: TurnStarted apply_turn_started_def Let_def waiting_ok_sent)
  qed
next
  case (TurnFinished p)
  with view ok b show ?thesis
    by (simp add: apply_turn_finished_def Let_def view_failed waiting_ok_fail)
qed (use view ok b in \<open>simp_all add: apply_defs Let_def split: option.split\<close>)

lemma index_view_fold:
  assumes "fresh_log 0 evs" and "list_all (schedule_event_ok \<circ> ev_body) evs"
  shows "index_view (index_fold t evs) = projection_view (st_scheduled (foldl Apply (New t) evs))
    \<and> waiting_ok (st_scheduled (foldl Apply (New t) evs)) \<and> (\<forall>r\<in>set (index_fold t evs). sc_thread r = t)"
  using assms
proof (induction evs rule: rev_induct)
  case Nil
  then show ?case
    by (simp add: index_fold_def New_def index_view_def projection_view_def waiting_ok_def)
next
  case (snoc e evs)
  let ?s = "foldl Apply (New t) evs"
  have fresh: "fresh_log 0 evs" and e: "\<forall>x\<in>set evs. ev_seq x < ev_seq e" "0 < ev_seq e"
    using snoc.prems(1) by (auto simp: fresh_log_def sorted_wrt_append)
  have "st_seq ?s < ev_seq e"
  proof (cases "evs = []")
    case True
    with e show ?thesis by (simp add: New_def)
  next
    case False
    then have "st_seq ?s = ev_seq (last evs)"
      using fresh by (intro foldl_Apply_seq_last) (auto simp: fresh_log_def New_def)
    with False e show ?thesis by simp
  qed
  then have s': "foldl Apply (New t) (evs @ [e]) = apply_body e (ev_body e) (?s\<lparr>st_seq := ev_seq e\<rparr>)"
    by (simp add: Apply_def)
  have IH: "index_view (index_fold t evs) = projection_view (st_scheduled ?s)"
    "waiting_ok (st_scheduled ?s)" "\<forall>r\<in>set (index_fold t evs). sc_thread r = t"
    using snoc.IH fresh snoc.prems(2) by auto
  have "index_fold t (evs @ [e]) = updateScheduleIndex t (ev_body e) (index_fold t evs)"
    by (simp add: index_fold_def)
  then show ?case
    using view_step [of "index_fold t evs" "?s\<lparr>st_seq := ev_seq e\<rparr>" t "ev_body e" e] IH
      one_thread_step [OF IH(3), of "ev_body e"] snoc.prems(2)
    unfolding s' by simp
qed

lemma fresh_log_of: "threads_ok d \<Longrightarrow> fresh_log 0 (log_of t d)"
  unfolding fresh_log_def by (rule event_store.log_strictly_increasing)

section \<open>The order of the thread list\<close>

lemma foldl_min_le: "foldl min p ps \<le> p \<and> (\<forall>q\<in>set ps. foldl min p ps \<le> q)" for p :: rat
proof (induction ps arbitrary: p)
  case (Cons q ps)
  have "foldl min (min p q) ps \<le> min p q" using Cons.IH by blast
  then show ?case using Cons.IH [of "min p q"] by simp
qed simp

lemma min_position_le: "m \<in> set ts \<Longrightarrow> min_position ts \<le> tm_position m"
proof (cases ts)
  case (Cons a as)
  assume "m \<in> set ts"
  then have "m = a \<or> tm_position m \<in> set (map tm_position as)" using Cons by auto
  then show ?thesis
    using foldl_min_le [of "tm_position a" "map tm_position as"] by (auto simp: min_position_def Cons)
qed simp

text \<open>A stable sort puts a strictly smallest element first and keeps the rest as they were.\<close>

lemma sort_key_first:
  assumes x: "x \<in> set xs" and less: "\<forall>y\<in>set xs. y \<noteq> x \<longrightarrow> f x < f y" and d: "distinct xs"
  shows "sort_key f xs = x # sort_key f (filter (\<lambda>y. y \<noteq> x) xs)"
proof -
  let ?L = "sort_key f xs"
  have mem: "set ?L = set xs" and dist: "distinct ?L" using d by simp_all
  then obtain y ys where L: "?L = y # ys" using x by (metis list.exhaust empty_iff list.set(1))
  have "y = x"
  proof (rule ccontr)
    assume "y \<noteq> x"
    then have "x \<in> set ys" using x mem L by auto
    moreover have "sorted (map f ?L)" by simp
    ultimately have "f y \<le> f x" using L by auto
    moreover have "y \<in> set xs" using mem L by auto
    ultimately show False using less \<open>y \<noteq> x\<close> by fastforce
  qed
  have "filter (\<lambda>z. z \<noteq> x) ?L = ys" using L \<open>y = x\<close> dist by (auto intro: filter_True)
  then have "ys = sort_key f (filter (\<lambda>y. y \<noteq> x) xs)" by (simp add: filter_sort)
  with L \<open>y = x\<close> show ?thesis by simp
qed

section \<open>Pairing\<close>

definition spent :: "string \<Rightarrow> db \<Rightarrow> bool" where
  "spent code d \<longleftrightarrow> (\<forall>r\<in>set (db_pairings d). pa_codeHash r = code \<longrightarrow> pa_usedAt r \<noteq> None)"

lemma spent_refused: "spent code d \<Longrightarrow> RedeemPairing now code d = Inl NotFound"
  by (auto simp: spent_def RedeemPairing_def update_found_def redeemable_def list_ex_iff)

lemma RedeemPairing_Inr:
  "RedeemPairing now code d = Inr d' \<longleftrightarrow>
     (\<exists>r\<in>set (db_pairings d). redeemable now code r)
     \<and> d' = d\<lparr>db_pairings := update_where (redeemable now code) (\<lambda>r. r\<lparr>pa_usedAt := Some now\<rparr>) (db_pairings d)\<rparr>"
  by (auto simp: RedeemPairing_def map_sum_Inr update_found_Inr)

lemma redeem_spends:
  assumes "distinct (map pa_codeHash (db_pairings d))" and "RedeemPairing now code d = Inr d'"
  shows "spent code d'"
proof -
  obtain r where r: "r \<in> set (db_pairings d)" "redeemable now code r"
    and d': "d' = d\<lparr>db_pairings := update_where (redeemable now code) (\<lambda>r. r\<lparr>pa_usedAt := Some now\<rparr>) (db_pairings d)\<rparr>"
    using assms(2) unfolding RedeemPairing_Inr by blast
  have "q = r" if "q \<in> set (db_pairings d)" "pa_codeHash q = code" for q
    using that r assms(1) by (metis distinct_map inj_onD redeemable_def)
  with r show ?thesis
    by (auto simp: d' spent_def set_update_where)
qed

lemma spent_pairings: "db_pairings d' = db_pairings d \<Longrightarrow> spent code d \<Longrightarrow> spent code d'"
  by (simp add: spent_def)

lemma pairings_threads:
  "db_pairings (SetPhase now t phase d) = db_pairings d"
  "db_pairings (SetProviderInstance now t inst d) = db_pairings d"
  "db_pairings (SetTitle t title d) = db_pairings d"
  "db_pairings (UpdateWorkspace now t cwd branch phase res d) = db_pairings d"
  "db_pairings (DeleteThread t d) = db_pairings d"
  "db_pairings (PutSnapshot t seq s d) = db_pairings d"
  "db_pairings (ReleaseCommand c d) = db_pairings d"
  "db_pairings (CompleteCommand c r d) = db_pairings d"
  "db_pairings (RevokeDevice i d) = db_pairings d"
  "RenameThread t title d = Inr d' \<Longrightarrow> db_pairings d' = db_pairings d"
  "SetThreadPinned t b d = Inr d' \<Longrightarrow> db_pairings d' = db_pairings d"
  "SetThreadPosition t pos d = Inr d' \<Longrightarrow> db_pairings d' = db_pairings d"
  "MarkThreadViewed t seq d = Inr d' \<Longrightarrow> db_pairings d' = db_pairings d"
  "MarkThreadUnread t d = Inr d' \<Longrightarrow> db_pairings d' = db_pairings d"
  "CreateThread m d = Inr d' \<Longrightarrow> db_pairings d' = db_pairings d"
  "Append now t em d = Inr (ev, d') \<Longrightarrow> db_pairings d' = db_pairings d"
  by (auto simp: SetPhase_def SetProviderInstance_def SetTitle_def RenameThread_def
      UpdateWorkspace_def SetThreadPinned_def SetThreadPosition_def MarkThreadViewed_def
      MarkThreadUnread_def update_thread_found_Inr CreateThread_def DeleteThread_def
      PutSnapshot_def ReleaseCommand_def CompleteCommand_def RevokeDevice_def Append_Inr Let_def
      split: if_splits)

lemma pairings_rest:
  "UpdateProject now p d = Inr d' \<Longrightarrow> db_pairings d' = db_pairings d"
  "SetProjectHome i home d = Inr d' \<Longrightarrow> db_pairings d' = db_pairings d"
  "UpdateFolder pid f d = Inr d' \<Longrightarrow> db_pairings d' = db_pairings d"
  "RemoveFolder pid fid d = Inr d' \<Longrightarrow> db_pairings d' = db_pairings d"
  "DeleteProject i d = Inr d' \<Longrightarrow> db_pairings d' = db_pairings d"
  "CreateDevice now i tok label d = Inr d' \<Longrightarrow> db_pairings d' = db_pairings d"
  "DeviceByToken now tok d = Inr (dev, d') \<Longrightarrow> db_pairings d' = db_pairings d"
  "SavePushSubscription uuid now pr d = Inr (i, d') \<Longrightarrow> db_pairings d' = db_pairings d"
  "DeletePushSubscription i d = Inr d' \<Longrightarrow> db_pairings d' = db_pairings d"
  "ClaimCommand now c t d = Inr (j, replay, d') \<Longrightarrow> db_pairings d' = db_pairings d"
  "CreateProject p d = Inr d' \<Longrightarrow> db_pairings d' = db_pairings d"
  "AddFolder now pid f d = Inr d' \<Longrightarrow> db_pairings d' = db_pairings d"
           apply (auto simp: UpdateProject_def SetProjectHome_def UpdateFolder_def RemoveFolder_def
      DeleteProject_def update_project_found_def CreateDevice_def DeviceByToken_def
      SavePushSubscription_def DeletePushSubscription_def ClaimCommand_def Let_def map_sum_Inr
      split: if_splits option.splits)[10]
   apply (auto simp: CreateProject_def dest!: insert_folders_frame split: if_splits)[1]
    apply (metis db.select_convs(9) db.surjective db.update_convs(6,7))
  apply (auto simp: AddFolder_def insertFolder_def Let_def split: if_splits sum.splits)[1]
  done

lemma spent_redeem: "spent code d \<Longrightarrow> RedeemPairing now c d = Inr d' \<Longrightarrow> spent code d'"
  unfolding RedeemPairing_Inr by (auto simp: spent_def set_update_where)

lemma spent_redeem_device:
  "spent code d \<Longrightarrow> RedeemPairingForDevice now c i tok label d = Inr d' \<Longrightarrow> spent code d'"
  by (auto simp: RedeemPairingForDevice_def split: sum.splits
      intro: spent_redeem spent_pairings pairings_rest)

lemma spent_purge: "spent code d \<Longrightarrow> spent code (PurgePairings now d)"
  unfolding spent_def PurgePairings_def by auto

lemma spent_create: "spent code d \<Longrightarrow> c \<noteq> code \<Longrightarrow> spent code (CreatePairing now c expires d)"
  by (auto simp: spent_def CreatePairing_def)

text \<open>A step that does not mint this code again.\<close>

definition other_step :: "string \<Rightarrow> db \<Rightarrow> db \<Rightarrow> bool" where
  "other_step code d d' \<longleftrightarrow> store_step d d' \<and> (\<forall>now expires. d' \<noteq> CreatePairing now code expires d)"

lemmas spent_steps =
  spent_redeem spent_redeem_device spent_purge
  pairings_threads [THEN spent_pairings] pairings_rest [THEN spent_pairings]

lemma spent_store_step: "store_step d d' \<Longrightarrow> spent code d \<Longrightarrow>
   (\<forall>now expires. d' \<noteq> CreatePairing now code expires d) \<longrightarrow> spent code d'"
proof (induction rule: store_step.induct)
  case (create_pairing d now c expires)
  then show ?case using spent_create by metis
qed (blast intro: spent_steps)+

lemma spent_stays: "(other_step code)\<^sup>*\<^sup>* d d' \<Longrightarrow> spent code d \<Longrightarrow> spent code d'"
  by (induction rule: rtranclp_induct) (auto simp: other_step_def dest: spent_store_step)

section \<open>Properties\<close>

text \<open>A thread row with everything but its id empty, and a small database to run on.\<close>

definition sample_thread :: "string \<Rightarrow> thread_meta" where
  "sample_thread i =
     \<lparr>tm_scheduledCount = 0, tm_id = i, tm_cwd = ''/w'', tm_harness = ''pi'', tm_providerInstance = [],
      tm_title = [], tm_createdAt = 1, tm_updatedAt = 1, tm_headSeq = 0, tm_phase = ''idle'',
      tm_attention = [], tm_projectID = [], tm_folderID = [], tm_branch = [], tm_model = [],
      tm_mode = [], tm_effort = [], tm_workspaceMode = [], tm_baseRef = [], tm_pinned = False,
      tm_lastViewedSeq = 0, tm_position = 0, tm_provisionScript = [], tm_deprovisionScript = [],
      tm_provisionResult = None\<rparr>"

definition sample_db :: db where
  "sample_db = empty_db\<lparr>db_threads := [inserted_thread (sample_thread ''t1'') []]\<rparr>"

lemma sample_db_created: "CreateThread (sample_thread ''t1'') empty_db = Inr sample_db"
  by (simp add: CreateThread_def sample_thread_def sample_db_def empty_db_def)

lemma sample_db_reachable: "store_reachable sample_db"
  by (rule store_reachable.step [OF store_reachable.empty store_step.create_thread [OF sample_db_created]])

text \<open>A log written by a run of appends; one that is refused is skipped.\<close>

definition append_all :: "string \<Rightarrow> event_body list \<Rightarrow> db \<Rightarrow> db" where
  "append_all t bs d =
     foldl (\<lambda>d b. case Append 7 t b d of Inl _ \<Rightarrow> d | Inr (_, d') \<Rightarrow> d') d bs"

lemma append_all_reachable: "store_reachable d \<Longrightarrow> store_reachable (append_all t bs d)"
proof (induction bs arbitrary: d)
  case (Cons b bs)
  have "store_reachable (case Append 7 t b d of Inl _ \<Rightarrow> d | Inr (_, d') \<Rightarrow> d')"
    using Cons.prems by (auto split: sum.split intro: store_reachable.step store_step.append)
  then show ?case using Cons.IH by (simp add: append_all_def)
qed (simp add: append_all_def)

lemma append_all_snapshots: "db_snapshots (append_all t bs d) = db_snapshots d"
proof (induction bs arbitrary: d)
  case (Cons b bs)
  have "db_snapshots (case Append 7 t b d of Inl _ \<Rightarrow> d | Inr (_, d') \<Rightarrow> d') = db_snapshots d"
    by (auto split: sum.split simp: Append_Inr)
  then show ?case using Cons.IH by (simp add: append_all_def)
qed (simp add: append_all_def)

definition sample_schedule :: "string \<Rightarrow> string \<Rightarrow> event_body" where
  "sample_schedule i status =
     PromptScheduled \<lparr>sp_id = i, sp_revision = 0, sp_prompt = ''later'', sp_images = [],
       sp_dueAt = 100, sp_timeZone = ''UTC'', sp_model = [], sp_mode = [], sp_effort = [],
       sp_status = status, sp_error = [], sp_turnID = []\<rparr>"

definition sample_log_db :: db where
  "sample_log_db =
     append_all ''t1'' [sample_turn ''u1'' [], sample_chunk ''b1'' ''hi'', sample_finish ''u1'',
       sample_schedule ''s1'' ''pending'', sample_schedule ''s2'' ''pending'',
       sample_turn ''u2'' ''s1''] sample_db"

lemma sample_log_db_reachable: "store_reachable sample_log_db"
  unfolding sample_log_db_def by (rule append_all_reachable [OF sample_db_reachable])

lemma reachable_threads: "store_reachable d \<Longrightarrow> threads_ok d"
  using store_reachable_ok by (simp add: store_ok_def)

lemma store_invariant_pairings: "store_reachable d \<Longrightarrow> distinct (map pa_codeHash (db_pairings d))"
  using store_reachable_ok by (simp add: store_ok_def keys_ok_def)

text \<open>
  C21: whatever sequence of operations produced the database, every thread's log is numbered
  1, 2, ... up to its head, every event, thread and folder refers to rows that exist, keys are
  unique, and no viewed cursor is past its head.
\<close>

theorem store_invariant:
  assumes "store_reachable d"
  shows "threads_ok d \<and> keys_ok d \<and> refs_ok d"
  using store_reachable_ok [OF assms] by (simp add: store_ok_def)

theorem store_invariant_witness: "threads_ok sample_db \<and> keys_ok sample_db \<and> refs_ok sample_db"
  by (rule store_invariant [OF sample_db_reachable])

text \<open>
  An append to a known thread succeeds, answers the event exactly as it will be read back,
  with the next number, extends that thread's log by it, and touches no other log.
\<close>

theorem append_extends_one_log:
  assumes "store_reachable d" and "t \<in> tm_id ` set (db_threads d)"
  shows "\<exists>ev d'. Append now t b d = Inr (ev, d')
    \<and> ev_seq ev = int (length (log_of t d)) + 1 \<and> ev_body ev = stored_body b \<and> ev_timestamp ev = now
    \<and> ReadEvents t (ev_seq ev - 1) 1 d' = [ev]
    \<and> log_of t d' = log_of t d @ [ev]
    \<and> (\<forall>t'. t' \<noteq> t \<longrightarrow> log_of t' d' = log_of t' d)"
proof -
  have ok: "threads_ok d" by (rule reachable_threads [OF assms(1)])
  obtain ev d' where app: "Append now t b d = Inr (ev, d')"
    using Append_known [OF ok assms(2)] by blast
  then have opt: "append_opt d now t b = Some (ev, d')" by (simp add: append_opt_Some)
  have ok': "threads_ok d'" by (rule event_store.append_inv [OF ok opt])
  have log: "log_of i d' = (if i = t then log_of t d @ [ev] else log_of i d)" for i
    by (rule Append_log_of [OF app])
  have seq: "ev_seq ev = int (length (log_of t d)) + 1" by (rule event_store.append_seq [OF ok opt])
  have "ReadEvents t (ev_seq ev - 1) (int 1) d' = [ev]"
    using event_store.read_slice [OF ok', of t "ev_seq ev - 1" 1] seq log by simp
  then show ?thesis
    using app seq log event_store.append_event [OF ok opt] by auto
qed

theorem append_extends_one_log_witness:
  "\<exists>ev d'. Append 5 ''t1'' (sample_chunk ''b1'' ''hi'') sample_db = Inr (ev, d') \<and> ev_seq ev = 1
     \<and> log_of ''t1'' d' = [ev]"
proof -
  have "''t1'' \<in> tm_id ` set (db_threads sample_db)"
    by (simp add: sample_db_def inserted_thread_def sample_thread_def)
  moreover have "log_of ''t1'' sample_db = []"
    by (simp add: sample_db_def log_of_def empty_db_def)
  ultimately show ?thesis
    using append_extends_one_log [OF sample_db_reachable, of "''t1''" 5 "sample_chunk ''b1'' ''hi''"]
    by auto
qed

text \<open>
  C20: rebuilding a thread ends and gives the fold of its whole log, whichever snapshot it starts
  from and however the log divides into pages; and both ways the tables change under a running
  thread keep the snapshots honest: appending, and putting a snapshot of a state folded so far.
\<close>

theorem load_state_rebuilds:
  assumes "store_reachable d" and "snapshots_ok d"
  shows "loadState t d = foldl Apply (New t) (log_of t d)
    \<and> snapshots_ok (PutSnapshot t (st_seq (loadState t d)) (loadState t d) d)
    \<and> (\<forall>now b ev d'. Append now t b d = Inr (ev, d') \<longrightarrow> snapshots_ok d')"
proof -
  have ok: "threads_ok d" by (rule reachable_threads [OF assms(1)])
  have "loadState t d = foldl Apply (New t) (log_of t d)" by (rule loadState_log [OF ok assms(2)])
  moreover have "snapshots_ok (PutSnapshot t (st_seq (loadState t d)) (loadState t d) d)"
    using calculation by (intro snapshots_ok_PutSnapshot [OF ok assms(2) order.refl]) simp
  ultimately show ?thesis using snapshots_ok_Append [OF assms(2)] by blast
qed

theorem load_state_rebuilds_witness:
  "loadState ''t1'' sample_log_db = foldl Apply (New ''t1'') (log_of ''t1'' sample_log_db)"
  using load_state_rebuilds [OF sample_log_db_reachable, of "''t1''"]
  by (simp add: snapshots_ok_def sample_log_db_def append_all_snapshots sample_db_def empty_db_def)

text \<open>
  C28: the due-time index is the projection's view of the schedules: for an open thread the same
  ids in the same order, the same due times, and the same ones still waiting; so the count the
  thread list shows is the number of waiting schedules of the projection.
\<close>

theorem schedule_index_is_projection:
  assumes "store_reachable d" and "list_all (schedule_event_ok \<circ> ev_body) (log_of t d)"
  shows "let s = foldl Apply (New t) (log_of t d);
             n = length (filter (\<lambda>p. pending_status (sp_status p)) (st_scheduled s))
    in index_view (index_rows t d) = projection_view (st_scheduled s)
       \<and> ScheduleCounts d t = (if n = 0 then None else Some n)"
proof -
  let ?s = "foldl Apply (New t) (log_of t d)"
  have "index_rows t d = index_fold t (log_of t d)"
    using index_reachable [OF assms(1)] by (simp add: index_ok_def)
  then have view: "index_view (index_rows t d) = projection_view (st_scheduled ?s)"
    using index_view_fold [OF fresh_log_of assms(2)] reachable_threads [OF assms(1)] by simp
  have "length (filter (\<lambda>r. pending_status (sc_status r)) (index_rows t d)) =
      length (filter (\<lambda>(i, a, b). b) (index_view (index_rows t d)))"
    by (simp add: index_view_def filter_map comp_def)
  also have "\<dots> = length (filter (\<lambda>p. pending_status (sp_status p)) (st_scheduled ?s))"
    by (simp add: view projection_view_def filter_map comp_def)
  finally show ?thesis
    using view by (simp add: ScheduleCounts_def Let_def index_rows_def conj_commute)
qed

theorem schedule_index_is_projection_witness:
  "ScheduleCounts sample_log_db ''t1'' = Some 1"
proof -
  have "list_all (schedule_event_ok \<circ> ev_body) (log_of ''t1'' sample_log_db)"
    and "length (filter (\<lambda>p. pending_status (sp_status p))
      (st_scheduled (foldl Apply (New ''t1'') (log_of ''t1'' sample_log_db)))) = 1"
    by code_simp+
  then show ?thesis
    using schedule_index_is_projection [OF sample_log_db_reachable, of "''t1''"] by (auto simp: Let_def)
qed

text \<open>
  A command id is answered once.  After a fresh claim a retry is told the command is in
  progress and another thread is refused; once it completes every retry replays the stored
  result and nothing can release it; released before that, the id can be claimed again.
\<close>

theorem command_answered_once:
  assumes "ClaimCommand now c t d = Inr (None, False, d1)" and "store_reachable d"
  shows "ClaimCommand now' c t d1 = Inl CommandInProgress
    \<and> (\<forall>u. u \<noteq> t \<longrightarrow> ClaimCommand now' c u d1 = Inl CommandOfAnotherThread)
    \<and> ClaimCommand now' c t (CompleteCommand c j d1) = Inr (Some j, True, CompleteCommand c j d1)
    \<and> ReleaseCommand c (CompleteCommand c j d1) = CompleteCommand c j d1
    \<and> ReleaseCommand c d1 = d"
proof -
  let ?r = "\<lparr>cm_id = c, cm_thread = t, cm_result = None, cm_createdAt = now\<rparr>"
  have new: "\<forall>r\<in>set (db_commands d). cm_id r \<noteq> c"
    and d1: "d1 = d\<lparr>db_commands := db_commands d @ [?r]\<rparr>"
    using assms(1) by (auto simp: ClaimCommand_def find_None_iff_key split: option.splits if_splits)
  have none: "List.find (\<lambda>r. cm_id r = c) (db_commands d) = None"
    using new by (simp add: find_None_iff_key)
  have up: "update_where (\<lambda>r. cm_id r = c) f (db_commands d) = db_commands d" for f
    using new by (intro update_where_none) simp
  have "filter (\<lambda>r. cm_id r = c \<longrightarrow> cm_result r \<noteq> None) (db_commands d) = db_commands d"
    using new by (intro filter_True) simp
  then show ?thesis
    using none up
    by (simp add: d1 ClaimCommand_def CompleteCommand_def ReleaseCommand_def find_append)
qed

theorem command_answered_once_witness:
  "\<exists>d1. ClaimCommand 1 ''k1'' ''t1'' sample_db = Inr (None, False, d1)
     \<and> ClaimCommand 2 ''k1'' ''t1'' d1 = Inl CommandInProgress \<and> ReleaseCommand ''k1'' d1 = sample_db"
proof -
  obtain d1 where d1: "ClaimCommand 1 ''k1'' ''t1'' sample_db = Inr (None, False, d1)"
    by (simp add: ClaimCommand_def sample_db_def empty_db_def)
  then show ?thesis
    using command_answered_once [OF d1 sample_db_reachable, of 2 JNull] by blast
qed

lemma list_inner_ids:
  "mset (sort_key (\<lambda>m. - tm_createdAt m) (rev (sort_key (\<lambda>m. byte_key (tm_id m)) ts))) = mset ts"
  by simp

text \<open>
  A new thread is listed first and moves nothing: the list after a create is the new
  thread's row followed by the list before it, however the user has arranged the rest.
\<close>

theorem new_thread_lists_first:
  assumes "CreateThread m d = Inr d'" and "store_reachable d"
  shows "map tm_id (ListThreads d') = tm_id m # map tm_id (ListThreads d)"
proof -
  let ?n = "inserted_thread m (db_threads d)" and ?ts = "db_threads d"
  let ?inner = "\<lambda>ts. sort_key (\<lambda>m. - tm_createdAt m) (rev (sort_key (\<lambda>m. byte_key (tm_id m)) ts))"
  have d': "db_threads d' = ?ts @ [?n]" and new: "tm_id ?n \<notin> tm_id ` set ?ts"
    using assms(1) by (auto simp: CreateThread_def inserted_thread_def list_ex_iff split: if_splits)
  have "distinct ?ts"
    using reachable_threads [OF assms(2)] by (simp add: threads_ok_def distinct_map)
  then have dist: "distinct (?inner (?ts @ [?n]))" and notin: "?n \<notin> set ?ts"
    using new by auto
  have less: "tm_position ?n < tm_position y" if "y \<in> set ?ts" for y
    using min_position_le [OF that] by (simp add: inserted_thread_def)
  have "sort_key tm_position (?inner (?ts @ [?n])) =
      ?n # sort_key tm_position (filter (\<lambda>y. y \<noteq> ?n) (?inner (?ts @ [?n])))"
    by (rule sort_key_first) (use dist less in auto)
  also have "filter (\<lambda>y. y \<noteq> ?n) (?inner (?ts @ [?n])) = ?inner (filter (\<lambda>y. y \<noteq> ?n) (?ts @ [?n]))"
    by (simp only: filter_sort rev_filter [symmetric])
  also have "filter (\<lambda>y. y \<noteq> ?n) (?ts @ [?n]) = ?ts"
    using notin by (auto intro: filter_True)
  finally show ?thesis
    by (simp add: ListThreads_def d' listed_def comp_def) (simp add: inserted_thread_def)
qed

theorem new_thread_lists_first_witness:
  "\<exists>d'. CreateThread (sample_thread ''t0'') sample_db = Inr d' \<and> map tm_id (ListThreads d') = [''t0'', ''t1'']"
proof -
  have "map tm_id (ListThreads sample_db) = [''t1'']"
    by (simp add: ListThreads_def sample_db_def empty_db_def listed_def inserted_thread_def sample_thread_def)
  moreover obtain d' where "CreateThread (sample_thread ''t0'') sample_db = Inr d'"
    by (simp add: CreateThread_def sample_thread_def sample_db_def empty_db_def inserted_thread_def)
  ultimately show ?thesis
    using new_thread_lists_first [of "sample_thread ''t0''" sample_db] sample_db_reachable
    by (auto simp: sample_thread_def)
qed

text \<open>
  C29: a pairing code buys one device.  A redemption finds the code minted, unused and unexpired
  and creates the device its token will be known by; from then on, whatever else happens short
  of minting that code again, redeeming it is refused.
\<close>

theorem pairing_code_redeems_once:
  assumes "store_reachable d" and "RedeemPairingForDevice now code i tok label d = Inr d1"
    and "(other_step code)\<^sup>*\<^sup>* d1 d2"
  shows "(\<exists>r\<in>set (db_pairings d). pa_codeHash r = code \<and> pa_usedAt r = None \<and> now < pa_expiresAt r)
    \<and> (\<exists>dev d'. DeviceByToken now tok d1 = Inr (dev, d') \<and> dv_id dev = i)
    \<and> RedeemPairing later code d2 = Inl NotFound
    \<and> RedeemPairingForDevice later code i' tok' label' d2 = Inl NotFound"
proof -
  obtain d0 where r: "RedeemPairing now code d = Inr d0" and c: "CreateDevice now i tok label d0 = Inr d1"
    using assms(2) by (auto simp: RedeemPairingForDevice_def split: sum.splits)
  have "distinct (map pa_codeHash (db_pairings d))"
    using store_invariant_pairings [OF assms(1)] .
  then have "spent code d0" using redeem_spends r by blast
  then have "spent code d2"
    using spent_stays [OF assms(3)] spent_pairings pairings_rest(6) [OF c] by blast
  then have refused: "RedeemPairing later code d2 = Inl NotFound" by (rule spent_refused)
  have "\<exists>r\<in>set (db_pairings d). pa_codeHash r = code \<and> pa_usedAt r = None \<and> now < pa_expiresAt r"
    using r unfolding RedeemPairing_Inr redeemable_def by blast
  moreover have "\<exists>dev d'. DeviceByToken now tok d1 = Inr (dev, d') \<and> dv_id dev = i"
  proof -
    have "List.find (\<lambda>r. dw_tokenHash r = tok) (db_devices d0) = None"
      using c by (auto simp: CreateDevice_def list_ex_iff find_None_iff_key split: if_splits)
    then show ?thesis
      using c by (auto simp: CreateDevice_def DeviceByToken_def Let_def find_append split: if_splits)
  qed
  ultimately show ?thesis using refused by (simp add: RedeemPairingForDevice_def)
qed

definition sample_paired :: db where
  "sample_paired = CreatePairing 10 ''code'' 100 sample_db"

theorem pairing_code_redeems_once_witness:
  "\<exists>d1. RedeemPairingForDevice 20 ''code'' ''dev'' ''tok'' ''phone'' sample_paired = Inr d1
     \<and> RedeemPairing 30 ''code'' d1 = Inl NotFound"
proof -
  have "store_reachable sample_paired"
    unfolding sample_paired_def by (rule store_reachable.step [OF sample_db_reachable store_step.create_pairing])
  moreover obtain d1 where "RedeemPairingForDevice 20 ''code'' ''dev'' ''tok'' ''phone'' sample_paired = Inr d1"
    by (simp add: RedeemPairingForDevice_def RedeemPairing_def CreateDevice_def update_found_def
        redeemable_def sample_paired_def CreatePairing_def sample_db_def empty_db_def)
  ultimately show ?thesis
    using pairing_code_redeems_once [of sample_paired 20 "''code''" "''dev''" "''tok''" "''phone''" d1 d1 30]
    by blast
qed

text \<open>
  The refusal to remove a folder threads work in does not extend to threads being created:
  after a folder that no thread uses has been removed, a thread scoped to it is still accepted,
  and its row points at a folder that is gone, while the same order of operations on the
  project itself is refused.
\<close>

definition sample_project :: project where
  "sample_project =
     \<lparr>pj_id = ''p1'', pj_name = ''demo'', pj_home = [],
      pj_defaults = \<lparr>de_harness = [], de_harnesses = None, de_workspace = [], de_voice = []\<rparr>,
      pj_folders = [NewFolder ''f1'' ''/a'', NewFolder ''f2'' ''/b''], pj_createdAt = 1, pj_updatedAt = 1\<rparr>"

definition sample_scoped :: thread_meta where
  "sample_scoped = (sample_thread ''t1'')\<lparr>tm_projectID := ''p1'', tm_folderID := ''f2''\<rparr>"

theorem removed_folder_gains_thread:
  "\<exists>d d1 d2. CreateProject sample_project empty_db = Inr d
     \<and> RemoveFolder ''p1'' ''f2'' d = Inr d1 \<and> CreateThread sample_scoped d1 = Inr d2
     \<and> tm_folderID sample_scoped \<notin> (\<lambda>r. fo_id (fw_folder r)) ` set (db_folders d2)
     \<and> (\<exists>d1'. DeleteProject ''p1'' d = Inr d1' \<and> CreateThread sample_scoped d1' = Inl NotFound)"
proof -
  have ids: "fo_id (NormalizeFolder f) = fo_id f" "fo_path (NormalizeFolder f) = fo_path f" for f
    by (simp_all add: NormalizeFolder_def)
  show ?thesis
    by (simp add: CreateProject_def RemoveFolder_def CreateThread_def DeleteProject_def Let_def
        insertFolder_def ids sample_project_def NewFolder_def empty_db_def sample_scoped_def
        sample_thread_def inserted_thread_def)
qed

end
