(* ===== verification/Actor.thy ===== *)
theory Actor
  imports LogStore
begin

text \<open>
  One live thread (internal/thread/actor.go): a goroutine that takes commands from its inbox
  one at a time and is the only writer of the thread's state.  This theory has the actor's
  state, the world it talks to, and the operations every command is made of: \<open>append\<close>,
  \<open>fanout\<close>, \<open>startTurn\<close>, \<open>dispatchQueued\<close>, \<open>shutdown\<close>.

  The world is a parameter: the clock, fresh ids, what the harness process answers to a call,
  what a checkout snapshot says, and the hooks the manager installs.  Its answers are indexed by
  \<open>a_tick\<close>, which every question advances, so two questions may be answered differently.
  What the actor does to the outside (calls on the harness, answers to waiting adapter
  goroutines, notifications) is the trace \<open>a_out\<close>, latest last.
\<close>

section \<open>The harness and the world\<close>

text \<open>An error of the adapter: its message and what \<open>adapter.FailureOf\<close> says of it.\<close>

record harness_error =
  he_message :: string
  he_failure :: string

text \<open>
  A harness process: its identity, and which optional interfaces its adapter implements.
\<close>

record session =
  se_id :: nat
  se_steer :: bool
  se_modes :: bool
  se_models :: bool
  se_efforts :: bool
  se_jobs :: bool
  se_catalogue :: bool
  se_composer :: bool
  se_quota :: bool
  se_mcp :: bool

record create_options =
  co_threadID :: string
  co_cwd :: string
  co_model :: string
  co_mode :: string
  co_effort :: string
  co_env :: "(string \<times> string) list"
  co_resume :: bool
  co_harnessSessionID :: string

datatype harness_call =
    CallPrompt string string "prompt_image list"
  | CallSteer string string "prompt_image list"
  | CallCancel
  | CallClose
  | CallSetMode string
  | CallSetModel string
  | CallSetEffort string
  | CallStopJob string
  | CallComposerItems
  | CallComposer string string string
  | CallQuota
  | CallMCP

record permission_outcome =
  ou_outcome :: string
  ou_optionID :: string

record elicitation_result =
  er_action :: string
  er_value :: raw_message

record world =
  w_now :: "nat \<Rightarrow> int"
  w_uuid :: "nat \<Rightarrow> string"
  w_create :: "nat \<Rightarrow> create_options \<Rightarrow> harness_error + session"
  w_answer :: "nat \<Rightarrow> harness_call \<Rightarrow> harness_error option"
  w_value :: "nat \<Rightarrow> harness_call \<Rightarrow> json"
  w_cardLive :: "string \<Rightarrow> bool"
  w_imagePath :: "(string \<Rightarrow> string \<Rightarrow> string option) option"
  w_redact :: "(string \<Rightarrow> json \<Rightarrow> json) option"
  w_checkpointer :: "string \<Rightarrow> bool"
  w_baseline :: "nat \<Rightarrow> bool"
  w_timezone :: "string \<Rightarrow> bool"
  w_storeText :: "store_error \<Rightarrow> string"

text \<open>What leaves the actor.\<close>

datatype effect =
    ToHarness nat harness_call
  | AnswerPermission nat permission_outcome
  | AnswerElicitation nat elicitation_result
  | MeasureTurn string
  | DropCheckpoints
  | StopCheckpoints
  | Notify
  | Exit

section \<open>The actor\<close>

abbreviation MaxReplayGap :: int where "MaxReplayGap \<equiv> 1000"
abbreviation SubscriberQueue :: nat where "SubscriberQueue \<equiv> 256"
abbreviation SnapshotEvery :: int where "SnapshotEvery \<equiv> 200"

record subscriber =
  sb_id :: string
  sb_queue :: "event list"
  sb_resync :: bool
  sb_closed :: bool

text \<open>
  \<open>a_subs\<close> is the map of live subscribers, \<open>a_gone\<close> the ones dropped or closed, which still
  hold their channel.  The pending maps go from a request id to the channel an adapter goroutine
  waits on.  \<open>a_stopped\<close> is the closed \<open>quit\<close> channel.
\<close>

record actor =
  a_id :: string
  a_harness :: string
  a_cwd :: string
  a_store :: db
  a_adapter :: "string option"
  a_env :: "(string \<times> string) list"
  a_sess :: "session option"
  a_activationError :: "string option"
  a_preparing :: bool
  a_state :: state
  a_lastSnapAt :: int
  a_pendingPerm :: "(string \<times> nat) list"
  a_pendingElicit :: "(string \<times> nat) list"
  a_turnActive :: string
  a_sent :: "string list"
  a_subs :: "subscriber list"
  a_gone :: "subscriber list"
  a_head :: int
  a_attention :: string
  a_recovery :: "turn_recovery option"
  a_checkpoints :: bool
  a_measuring :: string
  a_scheduleReady :: "string list"
  a_stopped :: bool
  a_out :: "effect list"
  a_tick :: nat

definition emit :: "effect \<Rightarrow> actor \<Rightarrow> actor" where
  "emit e a = a\<lparr>a_out := a_out a @ [e]\<rparr>"

definition tick :: "actor \<Rightarrow> actor" where
  "tick a = a\<lparr>a_tick := Suc (a_tick a)\<rparr>"

text \<open>A call on the running harness process: its answer, and the actor after asking.\<close>

definition call_harness :: "world \<Rightarrow> session \<Rightarrow> harness_call \<Rightarrow> actor \<Rightarrow> harness_error option \<times> actor" where
  "call_harness w s c a = (w_answer w (a_tick a) c, tick (emit (ToHarness (se_id s) c) a))"

definition fresh :: "world \<Rightarrow> actor \<Rightarrow> string \<times> actor" where
  "fresh w a = (w_uuid w (a_tick a), tick a)"

section \<open>fanout\<close>

text \<open>A full queue drops its subscriber and tells it to resync; nobody waits.\<close>

definition deliver :: "event \<Rightarrow> subscriber \<Rightarrow> subscriber" where
  "deliver ev s =
     (if length (sb_queue s) < SubscriberQueue then s\<lparr>sb_queue := sb_queue s @ [ev]\<rparr>
      else s\<lparr>sb_resync := True\<rparr>)"

definition fanout :: "event \<Rightarrow> actor \<Rightarrow> actor" where
  "fanout ev a =
     (let subs = map (deliver ev) (a_subs a)
      in a\<lparr>a_subs := filter (\<lambda>s. \<not> sb_resync s) subs,
           a_gone := a_gone a @ filter sb_resync subs\<rparr>)"

text \<open>\<open>Subscribe\<close>: on a stopped actor the channel is closed at once.\<close>

definition Subscribe :: "world \<Rightarrow> actor \<Rightarrow> actor" where
  "Subscribe w a =
     (let (i, a1) = fresh w a;
          sub = \<lparr>sb_id = i, sb_queue = [], sb_resync = False, sb_closed = a_stopped a\<rparr>
      in if a_stopped a then a1\<lparr>a_gone := a_gone a1 @ [sub]\<rparr>
         else a1\<lparr>a_subs := a_subs a1 @ [sub]\<rparr>)"

definition Unsubscribe :: "string \<Rightarrow> actor \<Rightarrow> actor" where
  "Unsubscribe i a = a\<lparr>a_subs := filter (\<lambda>s. sb_id s \<noteq> i) (a_subs a)\<rparr>"

section \<open>append\<close>

text \<open>
  \<open>redact\<close> (internal/thread/cards.go): the recorded input of a tool call passes through the
  server's redactor, under the name the call started with.
\<close>

fun redact :: "world \<Rightarrow> actor \<Rightarrow> event_body \<Rightarrow> event_body" where
  "redact w a (ToolCallStarted p) =
     (case (w_redact w, cs_rawInput p) of
        (Some r, Some j) \<Rightarrow> ToolCallStarted (p\<lparr>cs_rawInput := Some (r (cs_title p) j)\<rparr>)
      | _ \<Rightarrow> ToolCallStarted p)"
| "redact w a (ToolCallUpdated p) =
     (case (w_redact w, cu_rawInput p) of
        (Some r, Some j) \<Rightarrow>
          let name = (case snd (ItemByID (a_state a) (cu_toolCallID p)) of
                        None \<Rightarrow> cu_title p
                      | Some it \<Rightarrow> if it_title it \<noteq> [] then it_title it else cu_title p)
          in ToolCallUpdated (p\<lparr>cu_rawInput := Some (r name j)\<rparr>)
      | _ \<Rightarrow> ToolCallUpdated p)"
| "redact w a (PermissionRequested p) =
     (case (w_redact w, pr_rawInput p) of
        (Some r, Some j) \<Rightarrow>
          let name = (if pr_toolName p = [] then pr_title p else pr_toolName p)
          in PermissionRequested (p\<lparr>pr_rawInput := Some (r name j)\<rparr>)
      | _ \<Rightarrow> PermissionRequested p)"
| "redact w a b = b"

text \<open>The turn guard and the prompts in the harness's hands, after an event is folded.\<close>

definition unsend :: "string \<Rightarrow> actor \<Rightarrow> actor" where
  "unsend q a = a\<lparr>a_sent := filter (\<lambda>i. i \<noteq> q) (a_sent a)\<rparr>"

fun track :: "event_body \<Rightarrow> actor \<Rightarrow> actor" where
  "track (TurnStarted p) a =
     (let a1 = (if a_turnActive a = [] then a\<lparr>a_turnActive := ts_turnID p\<rparr> else a)
      in if ts_queueID p \<noteq> [] then unsend (ts_queueID p) a1 else a1)"
| "track (PromptInjected p) a = unsend (pi_queueID p) a"
| "track (PromptDequeued p) a = unsend (pd_queueID p) a"
| "track (TurnFinished p) a =
     (if a_turnActive a = [] \<or> tf_turnID p = a_turnActive a then
        (let a1 = (if a_measuring a \<noteq> [] \<and> a_measuring a = a_turnActive a
                   then emit (MeasureTurn (a_turnActive a)) a else a)
         in a1\<lparr>a_measuring := [], a_turnActive := []\<rparr>)
      else a)"
| "track _ a = a"

fun turn_shaped :: "event_body \<Rightarrow> bool" where
  "turn_shaped (TurnStarted _) = True"
| "turn_shaped (TurnFinished _) = True"
| "turn_shaped (MessageChunk _) = True"
| "turn_shaped (ToolCallStarted _) = True"
| "turn_shaped (ToolCallUpdated _) = True"
| "turn_shaped (ThreadClosed _) = True"
| "turn_shaped _ = False"

definition sync_phase :: "world \<Rightarrow> string \<Rightarrow> event_body \<Rightarrow> actor \<Rightarrow> actor" where
  "sync_phase w prev em a =
     (let phase = st_phase (a_state a)
      in if turn_shaped em \<and> phase \<noteq> prev \<and> (phase = ''turn'' \<or> phase = ''idle'' \<or> phase = ''closed'')
         then tick (a\<lparr>a_store := SetPhase (w_now w (a_tick a)) (a_id a) phase (a_store a)\<rparr>)
         else a)"

definition notify_attention :: "actor \<Rightarrow> actor" where
  "notify_attention a =
     (if Attention (a_state a) \<noteq> a_attention a
      then emit Notify (a\<lparr>a_attention := Attention (a_state a)\<rparr>) else a)"

fun notify_schedule :: "event_body \<Rightarrow> actor \<Rightarrow> actor" where
  "notify_schedule (PromptScheduled _) a = emit Notify a"
| "notify_schedule _ a = a"

fun is_turn_finished :: "event_body \<Rightarrow> bool" where
  "is_turn_finished (TurnFinished _) = True"
| "is_turn_finished _ = False"

definition snapshot :: "event_body \<Rightarrow> event \<Rightarrow> actor \<Rightarrow> actor" where
  "snapshot em ev a =
     (if ev_seq ev - a_lastSnapAt a \<ge> SnapshotEvery \<or> is_turn_finished em
      then a\<lparr>a_lastSnapAt := ev_seq ev,
             a_store := PutSnapshot (a_id a) (ev_seq ev) (a_state a) (a_store a)\<rparr>
      else a)"

definition append :: "world \<Rightarrow> event_body \<Rightarrow> actor \<Rightarrow> store_error option \<times> actor" where
  "append w em0 a =
     (let em = redact w a em0
      in case Append (w_now w (a_tick a)) (a_id a) em (a_store a) of
           Inl e \<Rightarrow> (Some e, tick a)
         | Inr (ev, d) \<Rightarrow>
             let prev = st_phase (a_state a);
                 a1 = (tick a)\<lparr>a_store := d, a_state := Apply (a_state a) ev, a_head := ev_seq ev\<rparr>
             in (None,
                 snapshot em ev (fanout ev (notify_schedule em (notify_attention
                   (sync_phase w prev em (track em a1)))))))"

text \<open>A run of appends whose errors are only logged.\<close>

definition append_each :: "world \<Rightarrow> event_body list \<Rightarrow> actor \<Rightarrow> actor" where
  "append_each w ems a = foldl (\<lambda>a em. snd (append w em a)) a ems"

end
