(* ===== verification/ActorOps.thy ===== *)
theory ActorOps
  imports Actor
begin

text \<open>
  The operations the commands share: opening a turn, dispatching and dropping the queue,
  planning a recovery (internal/thread/recovery.go), cards (cards.go), schedules
  (schedules.go), artefacts (artefacts.go), account switches and the way down.
\<close>

section \<open>Errors and replies\<close>

datatype actor_error =
    ErrClosed
  | ErrNotReady
  | ErrBusy
  | ErrNothingToContinue
  | ErrNotQueued
  | ErrAlreadySent
  | ErrNoArtefact
  | ErrNoCard
  | ErrMCPUnsupported
  | ErrText string
  | ErrHarness harness_error
  | ErrStore store_error

definition harness_text :: "harness_error \<Rightarrow> turn_finished_payload \<Rightarrow> turn_finished_payload" where
  "harness_text e p = p\<lparr>tf_error := he_message e, tf_failure := he_failure e\<rparr>"

definition finished :: "string \<Rightarrow> string \<Rightarrow> turn_finished_payload" where
  "finished t reason = \<lparr>tf_turnID = t, tf_stopReason = reason, tf_error = [], tf_failure = []\<rparr>"

text \<open>The turn a prompt that failed on the way out ends as.\<close>

definition errored :: "string \<Rightarrow> harness_error \<Rightarrow> event_body" where
  "errored t e = TurnFinished (harness_text e (finished t StopError))"

definition restarted :: "string \<Rightarrow> event_body" where
  "restarted t =
     TurnFinished ((finished t StopError)\<lparr>tf_error := ''server restarted during turn'',
       tf_failure := FailureRestart\<rparr>)"

definition settings_changed :: thread_config_changed_payload where
  "settings_changed =
     \<lparr>cc_replaceSettings = False, cc_model = [], cc_mode = [], cc_effort = None, cc_title = [],
      cc_harnessSessionID = []\<rparr>"

section \<open>What the projection says\<close>

definition interruptedJobs :: "state \<Rightarrow> event_body list" where
  "interruptedJobs s =
     map (\<lambda>j. JobFinished \<lparr>jp_jobID = jb_id j, jp_toolCallID = jb_toolCallID j,
            jp_parentJobID = jb_parentJobID j, jp_kind = [], jp_taskType = [], jp_name = [],
            jp_role = [], jp_workflowName = [], jp_status = JobInterrupted, jp_activity = [],
            jp_usage = None, jp_error = [], jp_outputFile = [], jp_backgrounded = None,
            jp_hidden = False\<rparr>)
       (filter (\<lambda>j. \<not> JobDone (jb_status j)) (st_jobs s))"

definition lastTurn :: "state \<Rightarrow> turn option" where
  "lastTurn s = (if st_turns s = [] then None else Some (last (st_turns s)))"

abbreviation maxRecoveryAttempts :: int where "maxRecoveryAttempts \<equiv> 3"

definition next_attempt :: "turn \<Rightarrow> int" where
  "next_attempt t = (case tu_recovery t of None \<Rightarrow> 1 | Some r \<Rightarrow> tr_attempt r + 1)"

text \<open>The loop over the turns, newest first, returns at the first one it looks at.\<close>

definition planRecovery :: "state \<Rightarrow> turn_recovery option" where
  "planRecovery s =
     (if st_closed s then None
      else case lastTurn s of
             None \<Rightarrow> None
           | Some t \<Rightarrow>
               if tu_done t then None
               else if next_attempt t > maxRecoveryAttempts then None
               else Some \<lparr>tr_resumeOf = tu_id t, tr_attempt = next_attempt t,
                          tr_cause = RecoveryRestart\<rparr>)"

definition isQueued :: "actor \<Rightarrow> string \<Rightarrow> bool" where
  "isQueued a q = list_ex (\<lambda>e. qp_queueID e = q) (st_queued (a_state a))"

section \<open>Turns\<close>

definition resolve_image :: "(string \<Rightarrow> string \<Rightarrow> string option) option \<Rightarrow> string \<Rightarrow> prompt_image \<Rightarrow> prompt_image" where
  "resolve_image res t im =
     (case res of
        None \<Rightarrow> im
      | Some f \<Rightarrow>
          if im_path im = [] then
            (case f t (im_id im) of None \<Rightarrow> im | Some p \<Rightarrow> im\<lparr>im_path := p\<rparr>)
          else im)"

definition resolveImages :: "world \<Rightarrow> actor \<Rightarrow> prompt_image list \<Rightarrow> prompt_image list" where
  "resolveImages w a ims = map (resolve_image (w_imagePath w) (a_id a)) ims"

definition baseline :: "world \<Rightarrow> string \<Rightarrow> actor \<Rightarrow> actor" where
  "baseline w t a =
     (let a1 = tick a
      in if a_checkpoints a \<and> w_baseline w (a_tick a) then a1\<lparr>a_measuring := t\<rparr> else a1)"

definition prompt_title :: "string \<Rightarrow> prompt_image list \<Rightarrow> string" where
  "prompt_title p ims =
     (let t = Projection.truncate p 60 in if t = [] \<and> ims \<noteq> [] then AttachmentTitle ims else t)"

definition name_thread :: "string \<Rightarrow> prompt_image list \<Rightarrow> turn_recovery option \<Rightarrow> actor \<Rightarrow> actor" where
  "name_thread p ims rec a =
     (if rec = None then a\<lparr>a_store := SetTitle (a_id a) (prompt_title p ims) (a_store a)\<rparr> else a)"

text \<open>
  \<open>startTurn\<close> is called with a session; the answer is the turn's id or the error it ended in.
\<close>

definition startTurn ::
  "world \<Rightarrow> session \<Rightarrow> string \<Rightarrow> prompt_image list \<Rightarrow> turn_recovery option \<Rightarrow> string \<Rightarrow> actor
   \<Rightarrow> (actor_error + string) \<times> actor" where
  "startTurn w s prompt images rec queueID a0 =
     (let (turnID, a1) = fresh w a0;
          a2 = baseline w turnID (a1\<lparr>a_turnActive := turnID\<rparr>);
          (err, a3) = append w (TurnStarted \<lparr>ts_turnID = turnID, ts_prompt = prompt,
            ts_images = images, ts_recovery = rec, ts_queueID = queueID\<rparr>) a2
      in case err of
           Some e \<Rightarrow> (Inl (ErrStore e), a3\<lparr>a_turnActive := []\<rparr>)
         | None \<Rightarrow>
             let (herr, a4) = call_harness w s (CallPrompt turnID prompt images)
                   (name_thread prompt images rec a3)
             in case herr of
                  Some e \<Rightarrow> (Inl (ErrHarness e), snd (append w (errored turnID e) a4))
                | None \<Rightarrow> (Inr turnID, a4))"

text \<open>\<open>dispatchQueued\<close> runs after every command that did not stop the actor.\<close>

definition next_unsent :: "actor \<Rightarrow> queued_prompt option" where
  "next_unsent a = List.find (\<lambda>q. \<not> List.member (a_sent a) (qp_queueID q)) (st_queued (a_state a))"

definition dispatchQueued :: "world \<Rightarrow> actor \<Rightarrow> actor" where
  "dispatchQueued w a =
     (case a_sess a of
        None \<Rightarrow> a
      | Some s \<Rightarrow>
          if st_queued (a_state a) = [] \<or> a_turnActive a \<noteq> [] \<or> st_closed (a_state a)
             \<or> a_recovery a \<noteq> None
          then a
          else case next_unsent a of
                 None \<Rightarrow> a
               | Some q \<Rightarrow>
                   snd (startTurn w s (qp_prompt q) (resolveImages w a (qp_images q)) None
                     (qp_queueID q) a))"

definition dequeued :: "string \<Rightarrow> queued_prompt \<Rightarrow> event_body" where
  "dequeued reason q = PromptDequeued \<lparr>pd_queueID = qp_queueID q, pd_reason = reason\<rparr>"

definition dropQueue :: "world \<Rightarrow> actor \<Rightarrow> actor" where
  "dropQueue w a =
     (append_each w (map (dequeued DequeueCancelled) (st_queued (a_state a))) a)\<lparr>a_sent := []\<rparr>"

section \<open>The way down\<close>

text \<open>Every waiting adapter goroutine is answered, the process closed, the channels closed.\<close>

definition close_session :: "actor \<Rightarrow> actor" where
  "close_session a =
     (case a_sess a of None \<Rightarrow> a | Some s \<Rightarrow> emit (ToHarness (se_id s) CallClose) a)"

definition cancel_waiters :: "actor \<Rightarrow> actor" where
  "cancel_waiters a =
     a\<lparr>a_out := a_out a
         @ map (\<lambda>(i, ch). AnswerPermission ch \<lparr>ou_outcome = OutcomeCancelled, ou_optionID = []\<rparr>)
             (a_pendingPerm a)
         @ map (\<lambda>(i, ch). AnswerElicitation ch \<lparr>er_action = ''cancel'', er_value = None\<rparr>)
             (a_pendingElicit a),
       a_pendingPerm := [], a_pendingElicit := []\<rparr>"

definition shutdown_phase :: "bool \<Rightarrow> actor \<Rightarrow> string" where
  "shutdown_phase hard a =
     (if hard \<or> st_closed (a_state a) then ''closed''
      else if a_turnActive a \<noteq> [] then ''turn'' else ''idle'')"

definition close_subscribers :: "actor \<Rightarrow> actor" where
  "close_subscribers a =
     a\<lparr>a_subs := [], a_gone := a_gone a @ map (\<lambda>s. s\<lparr>sb_closed := True\<rparr>) (a_subs a)\<rparr>"

definition shutdown :: "world \<Rightarrow> bool \<Rightarrow> actor \<Rightarrow> actor" where
  "shutdown w hard a =
     (let phase = shutdown_phase hard a;
          a1 = tick (a\<lparr>a_store := SetPhase (w_now w (a_tick a)) (a_id a) phase (a_store a)\<rparr>);
          a2 = close_session (cancel_waiters a1);
          a3 = emit StopCheckpoints a2;
          a4 = (if phase = ''closed'' then emit DropCheckpoints a3 else a3)
      in emit Exit (close_subscribers (a4\<lparr>a_stopped := True\<rparr>)))"

section \<open>Activation\<close>

definition startCheckpoints :: "world \<Rightarrow> actor \<Rightarrow> actor" where
  "startCheckpoints w a =
     (if a_checkpoints a \<or> a_cwd a = [] then a
      else a\<lparr>a_checkpoints := w_checkpointer w (a_cwd a)\<rparr>)"

definition cancelled_permission :: "pending_permission \<Rightarrow> event_body" where
  "cancelled_permission p =
     PermissionResolved \<lparr>ps_requestID = pp_requestID p, ps_outcome = OutcomeCancelled, ps_optionID = []\<rparr>"

definition cancelled_question :: "pending_elicitation \<Rightarrow> event_body" where
  "cancelled_question p =
     ElicitationResolved \<lparr>es_requestID = el_requestID p, es_action = ''cancel'', es_value = None\<rparr>"

text \<open>
  What the death of the old process ended: each loop reads the state the one before it left.
  A card the server still holds stays answerable.
\<close>

definition close_interrupted :: "world \<Rightarrow> actor \<Rightarrow> actor" where
  "close_interrupted w a =
     (let a1 = append_each w (map cancelled_permission (st_pending (a_state a))) a;
          a2 = append_each w (map cancelled_question
                 (filter (\<lambda>p. \<not> (IsCard p \<and> w_cardLive w (el_requestID p)))
                   (st_elicitations (a_state a1)))) a1;
          a3 = append_each w (map (\<lambda>t. restarted (tu_id t))
                 (filter (\<lambda>t. \<not> tu_done t) (st_turns (a_state a2)))) a2
      in append_each w (interruptedJobs (a_state a3)) a3)"

definition activate ::
  "world \<Rightarrow> string \<Rightarrow> string \<Rightarrow> string \<Rightarrow> string \<Rightarrow> bool \<Rightarrow> actor \<Rightarrow> actor_error option \<times> actor" where
  "activate w cwd model mode effort resume a =
     (if st_closed (a_state a) \<or> a_sess a \<noteq> None then (None, a)
      else if a_adapter a = None then
        (Some (ErrText (case a_activationError a of Some e \<Rightarrow> e
           | None \<Rightarrow> ''this thread's provider instance is no longer configured'')), a)
      else
        let s = a_state a;
            (cwd', model', mode', effort') =
              (if resume then (a_cwd a, st_model s, st_mode s, st_effort s)
               else (cwd, model, mode, effort))
        in case Thread (a_id a) (a_store a) of
             Inl e \<Rightarrow> (Some (ErrStore e), a)
           | Inr _ \<Rightarrow>
               let opts = \<lparr>co_threadID = a_id a, co_cwd = cwd', co_model = model', co_mode = mode',
                     co_effort = effort', co_env = a_env a, co_resume = resume,
                     co_harnessSessionID = st_harnessSessionID s\<rparr>
               in case w_create w (a_tick a) opts of
                    Inl e \<Rightarrow> (Some (ErrHarness e), tick a)
                  | Inr sess \<Rightarrow>
                      let a1 = startCheckpoints w
                            ((tick a)\<lparr>a_cwd := cwd', a_sess := Some sess, a_preparing := False\<rparr>)
                      in (None, if resume then close_interrupted w a1 else a1))"

section \<open>Switching account\<close>

record account_switch =
  sw_adapter :: string
  sw_env :: "(string \<times> string) list"
  sw_move :: "string \<Rightarrow> string option"
  sw_changed :: thread_account_changed_payload

definition switchAccount :: "world \<Rightarrow> account_switch \<Rightarrow> actor \<Rightarrow> actor_error option \<times> actor" where
  "switchAccount w sw a =
     (if st_closed (a_state a) then (Some ErrClosed, a)
      else if a_turnActive a \<noteq> [] \<or> st_phase (a_state a) \<noteq> ''idle'' then
        (Some (ErrText ''wait for the turn to finish before switching account''), a)
      else if interruptedJobs (a_state a) \<noteq> [] then
        (Some (ErrText ''background work is still running; wait for it or stop it before switching account''), a)
      else if st_pending (a_state a) \<noteq> [] \<or> Questions (a_state a) > 0 then
        (Some (ErrText ''answer the waiting question before switching account''), a)
      else
        let a1 = (if a_sess a = None then a
                  else (close_session a)\<lparr>a_sess := None, a_sent := []\<rparr>);
            i = (if st_harnessSessionID (a_state a1) = [] then a_id a1
                 else st_harnessSessionID (a_state a1))
        in case sw_move sw i of
             Some e \<Rightarrow> (Some (ErrText e), a1)
           | None \<Rightarrow>
               (None, snd (append w (ThreadAccountChanged (sw_changed sw))
                 (a1\<lparr>a_adapter := Some (sw_adapter sw), a_env := sw_env sw, a_activationError := None\<rparr>))))"

end
