(* ===== verification/ActorCommands.thy ===== *)
theory ActorCommands
  imports ActorOps
begin

text \<open>
  The commands of the actor (\<open>handle\<close> in internal/thread/actor.go, with its cases for
  schedules, cards and artefacts), one definition per case, and the step of the loop: handle a
  command, then dispatch the queue.
\<close>

section \<open>Schedules\<close>

abbreviation scheduleGrace :: int where "scheduleGrace \<equiv> 3600000"

definition error_text :: "world \<Rightarrow> actor_error \<Rightarrow> string" where
  "error_text w e =
     (case e of
        ErrClosed \<Rightarrow> ''thread is closed''
      | ErrNotReady \<Rightarrow> ''workspace is not ready''
      | ErrBusy \<Rightarrow> ''a turn is already in progress''
      | ErrNothingToContinue \<Rightarrow> ''the last turn did not end in an error''
      | ErrNotQueued \<Rightarrow> ''that prompt is no longer queued''
      | ErrAlreadySent \<Rightarrow> ''the harness already has that prompt''
      | ErrNoArtefact \<Rightarrow> ''no such artefact''
      | ErrNoCard \<Rightarrow> ''already answered''
      | ErrMCPUnsupported \<Rightarrow> ''this agent cannot do that with its MCP servers''
      | ErrText t \<Rightarrow> t
      | ErrHarness h \<Rightarrow> he_message h
      | ErrStore x \<Rightarrow> w_storeText w x)"

definition lift_err :: "store_error option \<times> actor \<Rightarrow> actor_error option \<times> actor" where
  "lift_err r = (map_option ErrStore (fst r), snd r)"

definition failSchedule ::
  "world \<Rightarrow> scheduled_prompt \<Rightarrow> actor_error \<Rightarrow> actor \<Rightarrow> actor_error option \<times> actor" where
  "failSchedule w p e a =
     lift_err (append w (PromptScheduled (p\<lparr>sp_status := ''failed'', sp_error := error_text w e,
       sp_revision := sp_revision p + 1\<rparr>)) a)"

text \<open>Restoring one setting: the capability, the call, the event.\<close>

definition restore_setting ::
  "world \<Rightarrow> session \<Rightarrow> bool \<Rightarrow> string \<Rightarrow> harness_call \<Rightarrow> event_body \<Rightarrow> actor
   \<Rightarrow> actor_error option \<times> actor" where
  "restore_setting w s can refusal c em a =
     (if \<not> can then (Some (ErrText refusal), a)
      else case call_harness w s c a of
             (Some e, a1) \<Rightarrow> (Some (ErrHarness e), a1)
           | (None, a1) \<Rightarrow> lift_err (append w em a1))"

definition scheduleModel :: "world \<Rightarrow> session \<Rightarrow> scheduled_prompt \<Rightarrow> actor \<Rightarrow> actor_error option \<times> actor" where
  "scheduleModel w s p a =
     (if sp_model p = st_model (a_state a) then (None, a)
      else restore_setting w s (se_models s) ''provider cannot restore the scheduled model''
             (CallSetModel (sp_model p))
             (ThreadConfigChanged (settings_changed\<lparr>cc_replaceSettings := True, cc_model := sp_model p,
                cc_mode := st_mode (a_state a)\<rparr>)) a)"

definition scheduleMode :: "world \<Rightarrow> session \<Rightarrow> scheduled_prompt \<Rightarrow> actor \<Rightarrow> actor_error option \<times> actor" where
  "scheduleMode w s p a =
     (if sp_mode p = st_mode (a_state a) then (None, a)
      else restore_setting w s (se_modes s) ''provider cannot restore scheduled permissions''
             (CallSetMode (sp_mode p))
             (ThreadConfigChanged (settings_changed\<lparr>cc_replaceSettings := True,
                cc_model := st_model (a_state a), cc_mode := sp_mode p\<rparr>)) a)"

definition scheduleEffort :: "world \<Rightarrow> session \<Rightarrow> scheduled_prompt \<Rightarrow> actor \<Rightarrow> actor_error option \<times> actor" where
  "scheduleEffort w s p a =
     (if sp_effort p = st_effort (a_state a) then (None, a)
      else restore_setting w s (se_efforts s) ''provider cannot restore scheduled effort''
             (CallSetEffort (sp_effort p))
             (ThreadConfigChanged (settings_changed\<lparr>cc_effort := Some (sp_effort p)\<rparr>)) a)"

definition and_then ::
  "actor_error option \<times> actor \<Rightarrow> (actor \<Rightarrow> actor_error option \<times> actor) \<Rightarrow> actor_error option \<times> actor" where
  "and_then r f = (case r of (Some e, a) \<Rightarrow> (Some e, a) | (None, a) \<Rightarrow> f a)"

definition scheduleSettings ::
  "world \<Rightarrow> session \<Rightarrow> scheduled_prompt \<Rightarrow> actor \<Rightarrow> actor_error option \<times> actor" where
  "scheduleSettings w s p a =
     and_then (and_then (scheduleModel w s p a) (scheduleMode w s p)) (scheduleEffort w s p)"

text \<open>
  One due schedule whose turn may start now: activate, look for what stands in its way
  (\<open>None\<close> in the answer is the loop's \<open>continue\<close>), restore its settings, open its turn.
\<close>

definition schedule_blocked :: "actor \<Rightarrow> bool" where
  "schedule_blocked a \<longleftrightarrow>
     a_turnActive a \<noteq> [] \<or> st_pending (a_state a) \<noteq> [] \<or> Questions (a_state a) > 0
     \<or> st_queued (a_state a) \<noteq> [] \<or> a_recovery a \<noteq> None"

definition send_scheduled ::
  "world \<Rightarrow> session \<Rightarrow> scheduled_prompt \<Rightarrow> actor \<Rightarrow> actor_error option \<times> actor" where
  "send_scheduled w s p a =
     (let images = resolveImages w a (sp_images p)
      in if list_ex (\<lambda>im. im_path im = []) images then
           failSchedule w p (ErrText ''a scheduled attachment is missing'') a
         else case scheduleSettings w s p a of
                (Some e, a1) \<Rightarrow> failSchedule w p e a1
              | (None, a1) \<Rightarrow>
                  (case startTurn w s (sp_prompt p) images None (sp_id p) a1 of
                     (Inr _, a2) \<Rightarrow> (None, a2)
                   | (Inl e, a2) \<Rightarrow>
                       if list_ex (\<lambda>q. sp_id q = sp_id p \<and> sp_turnID q \<noteq> []) (st_scheduled (a_state a2))
                       then (Some e, a2) else failSchedule w p e a2))"

definition run_scheduled ::
  "world \<Rightarrow> scheduled_prompt \<Rightarrow> actor \<Rightarrow> (actor_error option option) \<times> actor" where
  "run_scheduled w p a =
     (case (if a_sess a = None then activate w [] [] [] [] True a else (None, a)) of
        (Some e, a1) \<Rightarrow> map_prod Some id (failSchedule w p e a1)
      | (None, a1) \<Rightarrow>
          if schedule_blocked a1 then (None, a1)
          else case a_sess a1 of
                 None \<Rightarrow> (None, a1)
               | Some s \<Rightarrow> map_prod Some id (send_scheduled w s p a1))"

definition pickup_key :: "actor \<Rightarrow> scheduled_prompt \<Rightarrow> string" where
  "pickup_key a p = a_id a @ '':'' @ sp_id p"

definition picked_up :: "int \<Rightarrow> scheduled_prompt \<Rightarrow> scheduled_prompt" where
  "picked_up now p =
     (if now - sp_dueAt p > scheduleGrace
      then p\<lparr>sp_revision := sp_revision p + 1, sp_status := ''missed'',
             sp_error := ''The host did not pick up this message within one hour.''\<rparr>
      else p\<lparr>sp_revision := sp_revision p + 1, sp_status := ''ready''\<rparr>)"

fun dispatch_due ::
  "world \<Rightarrow> int \<Rightarrow> scheduled_prompt list \<Rightarrow> actor \<Rightarrow> actor_error option \<times> actor" where
  "dispatch_due w now [] a = (None, a)"
| "dispatch_due w now (p # ps) a =
     (if \<not> pending_status (sp_status p) \<or> sp_dueAt p > now then dispatch_due w now ps a
      else if sp_status p = ''pending'' \<or> \<not> List.member (a_scheduleReady a) (pickup_key a p) then
        (let p' = picked_up now p
         in case append w (PromptScheduled p') a of
              (Some e, a1) \<Rightarrow> (Some (ErrStore e), a1)
            | (None, a1) \<Rightarrow>
                if sp_status p' = ''missed'' then dispatch_due w now ps a1
                else
                  (case run_scheduled w p' (a1\<lparr>a_scheduleReady := pickup_key a p # a_scheduleReady a1\<rparr>) of
                     (Some r, a2) \<Rightarrow> (r, a2)
                   | (None, a2) \<Rightarrow> dispatch_due w now ps a2))
      else
        (case run_scheduled w p a of
           (Some r, a1) \<Rightarrow> (r, a1)
         | (None, a1) \<Rightarrow> dispatch_due w now ps a1))"

definition dispatchScheduled :: "world \<Rightarrow> int \<Rightarrow> actor \<Rightarrow> actor_error option \<times> actor" where
  "dispatchScheduled w now a = dispatch_due w now (sort_key sp_dueAt (st_scheduled (a_state a))) a"

datatype schedule_action = SchedulePrompt | CancelSchedule | SendSchedule

definition schedule_refusal ::
  "world \<Rightarrow> int \<Rightarrow> schedule_action \<Rightarrow> scheduled_prompt \<Rightarrow> scheduled_prompt option \<Rightarrow> string option" where
  "schedule_refusal w now act p old =
     (if (case old of None \<Rightarrow> False
          | Some o' \<Rightarrow> sp_revision o' \<noteq> sp_revision p \<or> sp_status o' = ''sent'' \<or> sp_status o' = ''cancelled'')
      then Some ''schedule changed or already sent; refresh and try again''
      else if old = None \<and> (sp_revision p \<noteq> 0 \<or> act \<noteq> SchedulePrompt)
      then Some ''schedule no longer exists''
      else if act \<noteq> SchedulePrompt then None
      else if trim_space (sp_prompt p) = [] \<and> sp_images p = [] then Some ''write a message first''
      else if sp_dueAt p \<le> now \<or> sp_dueAt p - now > 24 * scheduleGrace
      then Some ''choose a time in the next 24 hours''
      else if \<not> w_timezone w (sp_timeZone p) \<or> sp_timeZone p = [] \<or> sp_timeZone p = ''Local''
      then Some ''choose a valid IANA timezone''
      else None)"

definition scheduled_as ::
  "state \<Rightarrow> int \<Rightarrow> schedule_action \<Rightarrow> scheduled_prompt \<Rightarrow> scheduled_prompt option \<Rightarrow> scheduled_prompt" where
  "scheduled_as s now act p old =
     (case act of
        SchedulePrompt \<Rightarrow>
          (case old of
             None \<Rightarrow> p\<lparr>sp_model := st_model s, sp_mode := st_mode s, sp_effort := st_effort s\<rparr>
           | Some q \<Rightarrow> p\<lparr>sp_model := sp_model q, sp_mode := sp_mode q, sp_effort := sp_effort q\<rparr>)
            \<lparr>sp_status := ''pending'', sp_error := [], sp_turnID := []\<rparr>
      | CancelSchedule \<Rightarrow> (case old of None \<Rightarrow> p | Some q \<Rightarrow> q)\<lparr>sp_status := ''cancelled'', sp_turnID := []\<rparr>
      | SendSchedule \<Rightarrow> (case old of None \<Rightarrow> p | Some q \<Rightarrow> q)
            \<lparr>sp_status := ''ready'', sp_dueAt := now, sp_error := [], sp_turnID := []\<rparr>)"

definition handleSchedule ::
  "world \<Rightarrow> int \<Rightarrow> schedule_action \<Rightarrow> scheduled_prompt \<Rightarrow> actor \<Rightarrow> actor_error option \<times> actor" where
  "handleSchedule w now act p a =
     (let old = List.find (\<lambda>q. sp_id q = sp_id p) (st_scheduled (a_state a))
      in if st_closed (a_state a) then (Some ErrClosed, a)
         else if sp_id p = [] then (Some (ErrText ''schedule id is required''), a)
         else if act = SchedulePrompt \<and> sp_revision p = 0 \<and> old \<noteq> None then (None, a)
         else case schedule_refusal w now act p old of
                Some t \<Rightarrow> (Some (ErrText t), a)
              | None \<Rightarrow>
                  let q = scheduled_as (a_state a) now act p old
                  in lift_err (append w (PromptScheduled (q\<lparr>sp_revision := sp_revision q + 1\<rparr>)) a))"

section \<open>Cards and artefacts\<close>

definition raiseCard :: "world \<Rightarrow> string \<Rightarrow> string \<Rightarrow> raw_message \<Rightarrow> actor \<Rightarrow> actor_error option \<times> actor" where
  "raiseCard w i prompt body a =
     (if i = [] then (Some (ErrText ''a card needs a request id''), a)
      else if st_closed (a_state a) then (Some ErrClosed, a)
      else if list_ex (\<lambda>p. el_requestID p = i) (st_elicitations (a_state a))
      then (Some (ErrText ''that card is already raised''), a)
      else lift_err (append w (ElicitationRequested \<lparr>er_requestID = i, er_turnID = a_turnActive a,
             er_prompt = prompt, er_schema = None, er_card = body\<rparr>) a))"

definition resolveCard :: "world \<Rightarrow> string \<Rightarrow> string \<Rightarrow> raw_message \<Rightarrow> actor \<Rightarrow> actor_error option \<times> actor" where
  "resolveCard w i action outcome a =
     (if i = [] then (Some (ErrText ''a card needs a request id''), a)
      else if \<not> list_ex (\<lambda>p. el_requestID p = i \<and> IsCard p) (st_elicitations (a_state a))
      then (Some ErrNoCard, a)
      else lift_err (append w (ElicitationResolved \<lparr>es_requestID = i, es_action = action,
             es_value = outcome\<rparr>) a))"

text \<open>
  What the file looks like is the server's; \<open>sh_base\<close> is \<open>filepath.Base\<close> of the path.
\<close>

record show_input =
  sh_path :: string
  sh_base :: string
  sh_name :: string
  sh_dir :: bool
  sh_mediaType :: string
  sh_size :: int
  sh_entry :: string
  sh_files :: int
  sh_modifiedAt :: int
  sh_source :: string
  sh_note :: string

definition shown :: "string \<Rightarrow> string \<Rightarrow> show_input \<Rightarrow> artefact_shown_payload" where
  "shown i turn s =
     \<lparr>as_artefactID = i, as_path = sh_path s,
      as_name = (if sh_name s = [] then sh_base s else sh_name s), as_dir = sh_dir s,
      as_mediaType = sh_mediaType s, as_size = sh_size s, as_entry = sh_entry s,
      as_files = sh_files s, as_modifiedAt = sh_modifiedAt s, as_source = sh_source s,
      as_note = sh_note s, as_turnID = turn\<rparr>"

definition handleShow ::
  "world \<Rightarrow> show_input \<Rightarrow> actor \<Rightarrow> (actor_error + artefact_shown_payload) \<times> actor" where
  "handleShow w s a =
     (let (new, a1) = fresh w a;
          i = (case ArtefactByPath (a_state a) (sh_path s) of None \<Rightarrow> new | Some x \<Rightarrow> af_id x);
          turn = (case lastTurn (a_state a) of
                    None \<Rightarrow> [] | Some t \<Rightarrow> if tu_done t then [] else tu_id t);
          p = shown i turn s
      in case append w (ArtefactShown p) a1 of
           (Some e, a2) \<Rightarrow> (Inl (ErrStore e), a2)
         | (None, a2) \<Rightarrow> (Inr p, a2))"

end
