(* ===== verification/ActorLoop.thy ===== *)
theory ActorLoop
  imports ActorCommands
begin

text \<open>
  The actor's loop (\<open>run\<close> and \<open>handle\<close> in internal/thread/actor.go): the commands, one
  definition per case of \<open>handle\<close>, the step that handles a command and then dispatches the
  queue, the constructors, and what a presenter is given when it attaches.
\<close>

section \<open>Commands and replies\<close>

record permission_request =
  rq_turnID :: string
  rq_toolCallID :: string
  rq_toolName :: string
  rq_title :: string
  rq_rawInput :: raw_message
  rq_options :: "permission_option list"

record question_request =
  qr_turnID :: string
  qr_prompt :: string
  qr_schema :: raw_message

datatype command =
    Schedule schedule_action int scheduled_prompt
  | ScheduleTick int
  | GetState
  | ShowArtefact show_input
  | GetArtefact string
  | Emit event_body
  | HarnessEvent nat event_body
  | HarnessExit nat
  | Activate string string string string bool
  | StopJob string
  | ReadQuota
  | MCPCommand
  | SetMode string
  | SwitchAccount account_switch
  | SetModel string
  | SetEffort string
  | ListComposer
  | RunComposer string string string
  | Prompt string "prompt_image list" "turn_recovery option"
  | Continue
  | Dequeue string
  | Cancel
  | AskPermission permission_request nat
  | ResolvePermission string permission_outcome
  | AskElicitation question_request nat
  | ResolveElicitation string elicitation_result
  | RaiseCard string string raw_message
  | ResolveCard string string raw_message
  | Close bool string

datatype reply_value =
    NoValue
  | StateValue state
  | ShownValue artefact_shown_payload
  | ArtefactValue artefact
  | JsonValue json
  | NoItems
  | TurnStartedAs string
  | QueuedAs string
  | TextValue string

type_synonym reply = "(reply_value \<times> actor_error option) option"

text \<open>What a case of \<open>handle\<close> leaves: the reply sent, whether the loop ends, the actor.\<close>

type_synonym handled = "reply \<times> bool \<times> actor"

definition answer :: "reply_value \<Rightarrow> actor \<Rightarrow> handled" where
  "answer v a = (Some (v, None), False, a)"

definition refuse :: "actor_error \<Rightarrow> actor \<Rightarrow> handled" where
  "refuse e a = (Some (NoValue, Some e), False, a)"

definition quiet :: "actor \<Rightarrow> handled" where
  "quiet a = (None, False, a)"

definition outcome :: "actor_error option \<times> actor \<Rightarrow> handled" where
  "outcome r = (Some (NoValue, fst r), False, snd r)"

section \<open>Harness events\<close>

definition from_session :: "nat \<Rightarrow> actor \<Rightarrow> bool" where
  "from_session i a \<longleftrightarrow> (case a_sess a of None \<Rightarrow> False | Some s \<Rightarrow> se_id s = i)"

definition handle_harness_event :: "world \<Rightarrow> nat \<Rightarrow> event_body \<Rightarrow> actor \<Rightarrow> handled" where
  "handle_harness_event w i em a =
     (if \<not> from_session i a then quiet a else quiet (snd (append w em a)))"

definition handle_harness_exit :: "world \<Rightarrow> nat \<Rightarrow> actor \<Rightarrow> handled" where
  "handle_harness_exit w i a =
     (if \<not> from_session i a then quiet a
      else
        let a1 = (if a_turnActive a \<noteq> []
                  then snd (append w (TurnFinished ((finished (a_turnActive a) StopError)
                         \<lparr>tf_error := ''the harness process ended before the turn finished''\<rparr>)) a)
                  else a);
            a2 = append_each w (interruptedJobs (a_state a1)) a1
        in (None, True, shutdown w False (a2\<lparr>a_sent := []\<rparr>)))"

section \<open>Controls of the running harness\<close>

text \<open>
  A control needs a session that implements it; \<open>f\<close> is what happens with the harness's
  answer.
\<close>

definition with_session :: "actor \<Rightarrow> (session \<Rightarrow> handled) \<Rightarrow> handled" where
  "with_session a f = (case a_sess a of None \<Rightarrow> refuse ErrNotReady a | Some s \<Rightarrow> f s)"

definition handle_setting ::
  "world \<Rightarrow> (session \<Rightarrow> bool) \<Rightarrow> string \<Rightarrow> harness_call \<Rightarrow> event_body \<Rightarrow> actor \<Rightarrow> handled" where
  "handle_setting w can refusal c em a =
     (if st_closed (a_state a) then refuse ErrClosed a
      else with_session a (\<lambda>s.
        if \<not> can s then refuse (ErrText refusal) a
        else case call_harness w s c a of
               (Some e, a1) \<Rightarrow> refuse (ErrHarness e) a1
             | (None, a1) \<Rightarrow> answer NoValue (snd (append w em a1))))"

definition handle_set_mode :: "world \<Rightarrow> string \<Rightarrow> actor \<Rightarrow> handled" where
  "handle_set_mode w m =
     handle_setting w se_modes ''this harness cannot change permission mode mid-thread''
       (CallSetMode m) (ThreadConfigChanged (settings_changed\<lparr>cc_mode := m\<rparr>))"

definition handle_set_model :: "world \<Rightarrow> string \<Rightarrow> actor \<Rightarrow> handled" where
  "handle_set_model w m =
     handle_setting w se_models ''this harness cannot change model mid-thread''
       (CallSetModel m) (ThreadConfigChanged (settings_changed\<lparr>cc_model := m\<rparr>))"

definition handle_set_effort :: "world \<Rightarrow> string \<Rightarrow> actor \<Rightarrow> handled" where
  "handle_set_effort w e =
     handle_setting w se_efforts ''this harness cannot change reasoning effort mid-thread''
       (CallSetEffort e) (ThreadConfigChanged (settings_changed\<lparr>cc_effort := Some e\<rparr>))"

definition handle_stop_job :: "world \<Rightarrow> string \<Rightarrow> actor \<Rightarrow> handled" where
  "handle_stop_job w j a =
     (if st_closed (a_state a) then refuse ErrClosed a
      else with_session a (\<lambda>s.
        if \<not> se_jobs s then refuse (ErrText ''this harness cannot stop a job'') a
        else case call_harness w s (CallStopJob j) a of
               (err, a1) \<Rightarrow> outcome (map_option ErrHarness err, a1)))"

text \<open>Reads through the harness's control path: the value and the error go back together.\<close>

definition ask_harness :: "world \<Rightarrow> session \<Rightarrow> harness_call \<Rightarrow> actor \<Rightarrow> handled" where
  "ask_harness w s c a =
     (case call_harness w s c a of
        (err, a1) \<Rightarrow> (Some (JsonValue (w_value w (a_tick a) c), map_option ErrHarness err), False, a1))"

definition handle_quota :: "world \<Rightarrow> actor \<Rightarrow> handled" where
  "handle_quota w a =
     with_session a (\<lambda>s.
       if \<not> se_quota s then refuse (ErrText ''this harness does not report usage limits'') a
       else ask_harness w s CallQuota a)"

definition handle_mcp :: "world \<Rightarrow> actor \<Rightarrow> handled" where
  "handle_mcp w a =
     with_session a (\<lambda>s.
       if \<not> se_mcp s then refuse ErrMCPUnsupported a
       else ask_harness w s CallMCP a)"

definition handle_list_composer :: "world \<Rightarrow> actor \<Rightarrow> handled" where
  "handle_list_composer w a =
     (if st_closed (a_state a) then answer NoItems a
      else with_session a (\<lambda>s.
        if \<not> se_catalogue s then answer NoItems a else ask_harness w s CallComposerItems a))"

definition handle_run_composer :: "world \<Rightarrow> string \<Rightarrow> string \<Rightarrow> string \<Rightarrow> actor \<Rightarrow> handled" where
  "handle_run_composer w act args invocation a =
     (if st_closed (a_state a) then refuse ErrClosed a
      else if a_turnActive a \<noteq> [] then refuse ErrBusy a
      else with_session a (\<lambda>s.
        if \<not> se_composer s then refuse (ErrText ''this harness cannot run composer actions'') a
        else
          let (turnID, a1) = fresh w a;
              a2 = snd (append w (TurnStarted \<lparr>ts_turnID = turnID, ts_prompt = invocation,
                     ts_images = [], ts_recovery = None, ts_queueID = []\<rparr>) (a1\<lparr>a_turnActive := turnID\<rparr>));
              c = CallComposer turnID act args;
              (err, a3) = call_harness w s c a2;
              a4 = (case err of None \<Rightarrow> a3 | Some e \<Rightarrow> snd (append w (errored turnID e) a3))
          in (Some (JsonValue (w_value w (a_tick a2) c), map_option ErrHarness err), False, a4)))"

section \<open>Prompts\<close>

text \<open>Handing a prompt to a harness that takes one mid-turn: was it taken?\<close>

definition steer :: "world \<Rightarrow> string \<Rightarrow> string \<Rightarrow> prompt_image list \<Rightarrow> actor \<Rightarrow> bool \<times> actor" where
  "steer w queueID prompt images a =
     (case a_sess a of
        None \<Rightarrow> (False, a)
      | Some s \<Rightarrow>
          if \<not> se_steer s then (False, a)
          else case call_harness w s (CallSteer queueID prompt images) a of
                 (Some e, a1) \<Rightarrow> (False, a1)
               | (None, a1) \<Rightarrow> (True, a1\<lparr>a_sent := queueID # a_sent a1\<rparr>))"

definition queue_prompt :: "world \<Rightarrow> bool \<Rightarrow> string \<Rightarrow> prompt_image list \<Rightarrow> actor \<Rightarrow> handled" where
  "queue_prompt w steerable prompt images a =
     (let (queueID, a1) = fresh w a;
          (sent, a2) = (if steerable then steer w queueID prompt images a1 else (False, a1));
          a3 = snd (append w (PromptQueued \<lparr>pq_queueID = queueID, pq_prompt = prompt,
                 pq_images = images, pq_sent = sent\<rparr>) a2)
      in answer (QueuedAs queueID) a3)"

definition handle_prompt ::
  "world \<Rightarrow> string \<Rightarrow> prompt_image list \<Rightarrow> turn_recovery option \<Rightarrow> actor \<Rightarrow> handled" where
  "handle_prompt w prompt images rec a0 =
     (if st_closed (a_state a0) then refuse ErrClosed a0
      else
        let a = (if rec \<noteq> None then a0\<lparr>a_recovery := None\<rparr> else a0)
        in if a_turnActive a \<noteq> [] then
             (if rec \<noteq> None then refuse ErrBusy a else queue_prompt w True prompt images a)
           else case a_sess a of
                  None \<Rightarrow>
                    if a_preparing a \<and> rec = None then queue_prompt w False prompt images a
                    else refuse ErrNotReady a
                | Some s \<Rightarrow>
                    (case startTurn w s prompt images rec [] a of
                       (Inl e, a1) \<Rightarrow> refuse e a1
                     | (Inr turnID, a1) \<Rightarrow> answer (TurnStartedAs turnID) a1))"

definition check_the_work :: string where
  "check_the_work =
     ''Any tool call that was in flight did not report its result back, so you cannot assume it succeeded or failed. ''
     @ ''Check the real state of the work first '' @ em_dash
     @ '' the files, the diff, whatever you had just run '' @ em_dash
     @ '' then continue from where you left off. ''
     @ ''Do not redo work that is already done, and do not start over.''"

definition restartPrompt :: string where
  "restartPrompt =
     ''[omniplex] The omniplex server restarted and interrupted your previous turn. '' @ check_the_work"

definition continuePrompt :: string where
  "continuePrompt =
     ''[omniplex] Your previous turn ended in an error before it finished. '' @ check_the_work"

definition handle_continue :: "world \<Rightarrow> actor \<Rightarrow> handled" where
  "handle_continue w a =
     (case lastTurn (a_state a) of
        None \<Rightarrow> refuse ErrNothingToContinue a
      | Some t \<Rightarrow>
          if \<not> tu_done t \<or> tu_stopReason t \<noteq> StopError then refuse ErrNothingToContinue a
          else handle_prompt w continuePrompt []
                 (Some \<lparr>tr_resumeOf = tu_id t, tr_attempt = next_attempt t,
                    tr_cause = RecoveryContinue\<rparr>) a)"

definition handle_dequeue :: "world \<Rightarrow> string \<Rightarrow> actor \<Rightarrow> handled" where
  "handle_dequeue w q a =
     (if st_closed (a_state a) then refuse ErrClosed a
      else if \<not> isQueued a q then refuse ErrNotQueued a
      else if List.member (a_sent a) q then refuse ErrAlreadySent a
      else answer NoValue
             (snd (append w (PromptDequeued \<lparr>pd_queueID = q, pd_reason = DequeueRemoved\<rparr>) a)))"

definition handle_cancel :: "world \<Rightarrow> actor \<Rightarrow> handled" where
  "handle_cancel w a =
     (if a_turnActive a = [] then answer (TextValue ''idle'') (dropQueue w a)
      else case a_sess a of
             None \<Rightarrow>
               let a1 = dropQueue w (a\<lparr>a_recovery := None\<rparr>)
               in answer (TextValue ''idle'')
                    (snd (append w (TurnFinished (finished (a_turnActive a1) StopCancelled)) a1))
           | Some s \<Rightarrow>
               (case call_harness w s CallCancel a of
                  (err, a1) \<Rightarrow>
                    (Some (TextValue ''cancelling'', map_option ErrHarness err), False, dropQueue w a1)))"

section \<open>Requests a human answers\<close>

definition find_waiter :: "string \<Rightarrow> (string \<times> nat) list \<Rightarrow> nat option" where
  "find_waiter i m = map_of m i"

definition drop_waiter :: "string \<Rightarrow> (string \<times> nat) list \<Rightarrow> (string \<times> nat) list" where
  "drop_waiter i m = filter (\<lambda>p. fst p \<noteq> i) m"

definition handle_ask_permission :: "world \<Rightarrow> permission_request \<Rightarrow> nat \<Rightarrow> actor \<Rightarrow> handled" where
  "handle_ask_permission w req ch a =
     (let (i, a1) = fresh w a;
          a2 = a1\<lparr>a_pendingPerm := drop_waiter i (a_pendingPerm a1) @ [(i, ch)]\<rparr>;
          opts = (if rq_options req = [] then DefaultPermissionOptions else rq_options req)
      in quiet (snd (append w (PermissionRequested \<lparr>pr_requestID = i, pr_turnID = rq_turnID req,
           pr_toolCallID = rq_toolCallID req, pr_toolName = rq_toolName req, pr_title = rq_title req,
           pr_rawInput = rq_rawInput req, pr_options = opts\<rparr>) a2)))"

definition handle_resolve_permission :: "world \<Rightarrow> string \<Rightarrow> permission_outcome \<Rightarrow> actor \<Rightarrow> handled" where
  "handle_resolve_permission w i ou a =
     (case find_waiter i (a_pendingPerm a) of
        None \<Rightarrow> answer (TextValue ''already_resolved'') a
      | Some ch \<Rightarrow>
          answer (TextValue ''resolved'')
            (emit (AnswerPermission ch ou)
              (snd (append w (PermissionResolved \<lparr>ps_requestID = i, ps_outcome = ou_outcome ou,
                 ps_optionID = ou_optionID ou\<rparr>)
                 (a\<lparr>a_pendingPerm := drop_waiter i (a_pendingPerm a)\<rparr>)))))"

definition handle_ask_elicitation :: "world \<Rightarrow> question_request \<Rightarrow> nat \<Rightarrow> actor \<Rightarrow> handled" where
  "handle_ask_elicitation w req ch a =
     (let (i, a1) = fresh w a;
          a2 = a1\<lparr>a_pendingElicit := drop_waiter i (a_pendingElicit a1) @ [(i, ch)]\<rparr>
      in quiet (snd (append w (ElicitationRequested \<lparr>er_requestID = i, er_turnID = qr_turnID req,
           er_prompt = qr_prompt req, er_schema = qr_schema req, er_card = None\<rparr>) a2)))"

definition handle_resolve_elicitation :: "world \<Rightarrow> string \<Rightarrow> elicitation_result \<Rightarrow> actor \<Rightarrow> handled" where
  "handle_resolve_elicitation w i r a =
     (case find_waiter i (a_pendingElicit a) of
        None \<Rightarrow> answer (TextValue ''already_resolved'') a
      | Some ch \<Rightarrow>
          answer (TextValue ''resolved'')
            (emit (AnswerElicitation ch r)
              (snd (append w (ElicitationResolved \<lparr>es_requestID = i, es_action = er_action r,
                 es_value = er_value r\<rparr>)
                 (a\<lparr>a_pendingElicit := drop_waiter i (a_pendingElicit a)\<rparr>)))))"

section \<open>handle\<close>

definition schedule_now :: "world \<Rightarrow> int \<Rightarrow> actor \<Rightarrow> int \<times> actor" where
  "schedule_now w now a = (if now = 0 then (w_now w (a_tick a), tick a) else (now, a))"

definition handle_show :: "world \<Rightarrow> show_input \<Rightarrow> actor \<Rightarrow> handled" where
  "handle_show w s a =
     (case handleShow w s a of
        (Inl e, a1) \<Rightarrow> refuse e a1
      | (Inr p, a1) \<Rightarrow> answer (ShownValue p) a1)"

definition handle_artefact :: "string \<Rightarrow> actor \<Rightarrow> handled" where
  "handle_artefact i a =
     (case ArtefactByID (a_state a) i of
        None \<Rightarrow> refuse ErrNoArtefact a | Some x \<Rightarrow> answer (ArtefactValue x) a)"

definition handle_close :: "world \<Rightarrow> bool \<Rightarrow> string \<Rightarrow> actor \<Rightarrow> handled" where
  "handle_close w hard reason a =
     (let a1 = (if hard then snd (append w (ThreadClosed reason) a) else a)
      in (None, True, shutdown w hard a1))"

fun handle :: "world \<Rightarrow> command \<Rightarrow> actor \<Rightarrow> handled" where
  "handle w (Schedule act now p) a =
     (case schedule_now w now a of (n, a1) \<Rightarrow> outcome (handleSchedule w n act p a1))"
| "handle w (ScheduleTick now) a =
     (case schedule_now w now a of
        (n, a1) \<Rightarrow> if st_closed (a_state a1) then refuse ErrClosed a1
                   else outcome (dispatchScheduled w n a1))"
| "handle w GetState a = answer (StateValue (Clone (a_state a))) a"
| "handle w (ShowArtefact s) a = handle_show w s a"
| "handle w (GetArtefact i) a = handle_artefact i a"
| "handle w (Emit em) a = answer NoValue (snd (append w em a))"
| "handle w (HarnessEvent i em) a = handle_harness_event w i em a"
| "handle w (HarnessExit i) a = handle_harness_exit w i a"
| "handle w (Activate cwd model mode effort resume) a =
     outcome (activate w cwd model mode effort resume a)"
| "handle w (StopJob j) a = handle_stop_job w j a"
| "handle w ReadQuota a = handle_quota w a"
| "handle w MCPCommand a = handle_mcp w a"
| "handle w (SetMode m) a = handle_set_mode w m a"
| "handle w (SwitchAccount sw) a = outcome (switchAccount w sw a)"
| "handle w (SetModel m) a = handle_set_model w m a"
| "handle w (SetEffort e) a = handle_set_effort w e a"
| "handle w ListComposer a = handle_list_composer w a"
| "handle w (RunComposer act args invocation) a = handle_run_composer w act args invocation a"
| "handle w (Prompt text images rec) a = handle_prompt w text images rec a"
| "handle w Continue a = handle_continue w a"
| "handle w (Dequeue q) a = handle_dequeue w q a"
| "handle w Cancel a = handle_cancel w a"
| "handle w (AskPermission req ch) a = handle_ask_permission w req ch a"
| "handle w (ResolvePermission i ou) a = handle_resolve_permission w i ou a"
| "handle w (AskElicitation req ch) a = handle_ask_elicitation w req ch a"
| "handle w (ResolveElicitation i r) a = handle_resolve_elicitation w i r a"
| "handle w (RaiseCard i prompt body) a = outcome (raiseCard w i prompt body a)"
| "handle w (ResolveCard i act v) a = outcome (resolveCard w i act v a)"
| "handle w (Close hard reason) a = handle_close w hard reason a"

text \<open>
  One round of \<open>run\<close>.  A command sent to a stopped actor is answered by \<open>call\<close> with
  \<open>ErrClosed\<close> and changes nothing.
\<close>

definition run_command :: "world \<Rightarrow> command \<Rightarrow> actor \<Rightarrow> reply \<times> actor" where
  "run_command w c a =
     (if a_stopped a then (Some (NoValue, Some ErrClosed), a)
      else case handle w c a of
             (r, stop, a1) \<Rightarrow> (r, if stop then a1 else dispatchQueued w a1))"

definition run_commands :: "world \<Rightarrow> command list \<Rightarrow> actor \<Rightarrow> actor" where
  "run_commands w cs a = foldl (\<lambda>a c. snd (run_command w c a)) a cs"

text \<open>\<open>Recover\<close> (internal/thread/recovery.go): the command it sends, when it sends one.\<close>

definition Recover :: "actor \<Rightarrow> command option" where
  "Recover a = map_option (\<lambda>r. Prompt restartPrompt [] (Some r)) (a_recovery a)"

end
