(* ===== verification/ActorStart.thy ===== *)
theory ActorStart
  imports ActorLoop
begin

text \<open>
  How an actor comes to be (\<open>Start\<close>, \<open>StartPending\<close>, \<open>Resume\<close>, \<open>RestoreIdle\<close>,
  \<open>RestoreClosed\<close>, \<open>RestorePending\<close>), what it answers outside its loop (\<open>Attach\<close>,
  \<open>JobOutput\<close>), in internal/thread/actor.go.  A constructor gives the actor its loop starts
  with and the commands it put on the inbox.
\<close>

section \<open>Constructors\<close>

definition bare_actor ::
  "db \<Rightarrow> string option \<Rightarrow> thread_meta \<Rightarrow> (string \<times> string) list \<Rightarrow> state \<Rightarrow> actor" where
  "bare_actor d ad m env s =
     \<lparr>a_id = tm_id m, a_harness = tm_harness m, a_cwd = tm_cwd m, a_store = d, a_adapter = ad,
      a_env = env, a_sess = None, a_activationError = None, a_preparing = False, a_state = s,
      a_lastSnapAt = 0, a_pendingPerm = [], a_pendingElicit = [], a_turnActive = [], a_sent = [],
      a_subs = [], a_gone = [], a_head = st_seq s, a_attention = [], a_recovery = None,
      a_checkpoints = False, a_measuring = [], a_scheduleReady = [], a_stopped = False,
      a_out = [], a_tick = 0\<rparr>"

text \<open>The loop seeds its attention cache before it reads its first command.\<close>

definition running :: "actor \<Rightarrow> actor" where
  "running a = a\<lparr>a_attention := Attention (a_state a)\<rparr>"

definition created :: "thread_meta \<Rightarrow> string \<Rightarrow> string \<Rightarrow> command" where
  "created m model mode =
     Emit (ThreadCreated \<lparr>tc_cwd = tm_cwd m, tc_harness = tm_harness m, tc_model = model,
       tc_mode = mode, tc_effort = tm_effort m, tc_title = tm_title m\<rparr>)"

definition Start ::
  "world \<Rightarrow> db \<Rightarrow> string \<Rightarrow> thread_meta \<Rightarrow> string \<Rightarrow> string \<Rightarrow> (string \<times> string) list
   \<Rightarrow> harness_error + actor \<times> command list" where
  "Start w d ad m model mode env =
     (let a = bare_actor d (Some ad) m env (New (tm_id m));
          opts = \<lparr>co_threadID = tm_id m, co_cwd = tm_cwd m, co_model = model, co_mode = mode,
            co_effort = tm_effort m, co_env = env, co_resume = False, co_harnessSessionID = []\<rparr>
      in case w_create w (a_tick a) opts of
           Inl e \<Rightarrow> Inl e
         | Inr s \<Rightarrow>
             Inr (running (startCheckpoints w ((tick a)\<lparr>a_sess := Some s\<rparr>)), [created m model mode]))"

definition StartPending ::
  "db \<Rightarrow> string option \<Rightarrow> thread_meta \<Rightarrow> (string \<times> string) list \<Rightarrow> actor \<times> command list" where
  "StartPending d ad m env =
     (running ((bare_actor d ad m env (New (tm_id m)))\<lparr>a_preparing := True\<rparr>),
      [created m (tm_model m) (tm_mode m)])"

definition closing_events :: "state \<Rightarrow> event_body list" where
  "closing_events s =
     map cancelled_permission (st_pending s) @ map cancelled_question (st_elicitations s)
     @ map (\<lambda>t. restarted (tu_id t)) (filter (\<lambda>t. \<not> tu_done t) (st_turns s)) @ interruptedJobs s"

definition Resume ::
  "world \<Rightarrow> db \<Rightarrow> string \<Rightarrow> thread_meta \<Rightarrow> (string \<times> string) list
   \<Rightarrow> harness_error + actor \<times> command list" where
  "Resume w d ad m env =
     (let s = loadState (tm_id m) d;
          a = (bare_actor d (Some ad) m env s)\<lparr>a_recovery := planRecovery s\<rparr>;
          opts = \<lparr>co_threadID = tm_id m, co_cwd = tm_cwd m, co_model = st_model s,
            co_mode = st_mode s, co_effort = st_effort s, co_env = env, co_resume = True,
            co_harnessSessionID = st_harnessSessionID s\<rparr>
      in case w_create w (a_tick a) opts of
           Inl e \<Rightarrow> Inl e
         | Inr sess \<Rightarrow>
             Inr (running (startCheckpoints w ((tick a)\<lparr>a_sess := Some sess\<rparr>)),
                  map Emit (closing_events s)))"

text \<open>The loop over the turns leaves the last unfinished one in the guard.\<close>

definition restored_turn :: "state \<Rightarrow> string" where
  "restored_turn s = foldl (\<lambda>g t. if tu_done t then g else tu_id t) [] (st_turns s)"

definition RestoreIdle ::
  "db \<Rightarrow> string option \<Rightarrow> thread_meta \<Rightarrow> (string \<times> string) list \<Rightarrow> actor" where
  "RestoreIdle d ad m env =
     (let s = loadState (tm_id m) d
      in running ((bare_actor d ad m env s)
           \<lparr>a_recovery := planRecovery s, a_turnActive := restored_turn s\<rparr>))"

definition RestoreClosed :: "int \<Rightarrow> db \<Rightarrow> thread_meta \<Rightarrow> store_error + actor" where
  "RestoreClosed now d m =
     (let s = loadState (tm_id m) d
      in if st_closed s then Inr (running (bare_actor d None m [] s))
         else case Append now (tm_id m) (ThreadClosed ''closed'') d of
                Inl e \<Rightarrow> Inl e
              | Inr (ev, d') \<Rightarrow> Inr (running (bare_actor d' None m [] (Apply s ev))))"

definition RestorePending ::
  "db \<Rightarrow> string option \<Rightarrow> thread_meta \<Rightarrow> (string \<times> string) list \<Rightarrow> actor" where
  "RestorePending d ad m env = running (bare_actor d ad m env (loadState (tm_id m) d))"

section \<open>Attach\<close>

text \<open>
  \<open>None\<close> for the state is the \<open>ErrClosed\<close> of an actor that has stopped: the snapshot is
  asked of the loop, the replay of the store.
\<close>

datatype attach_result =
    AttachSnapshot state int
  | AttachReplay "event list" int

definition Attach :: "int \<Rightarrow> bool \<Rightarrow> actor \<Rightarrow> actor_error + attach_result" where
  "Attach afterSeq hasCursor a =
     (let gap = a_head a - afterSeq
      in if \<not> hasCursor \<or> gap < 0 \<or> gap > MaxReplayGap then
           (if a_stopped a then Inl ErrClosed
            else Inr (AttachSnapshot (Clone (a_state a)) (st_seq (Clone (a_state a)))))
         else
           let evs = ReadEvents (a_id a) afterSeq MaxReplayGap (a_store a)
           in Inr (AttachReplay evs (if evs = [] then afterSeq else ev_seq (last evs))))"

section \<open>JobOutput\<close>

abbreviation jobOutputChunk :: nat where "jobOutputChunk \<equiv> 65536"

text \<open>What the host's file system says of the job's output file.\<close>

datatype output_file =
    FileAbsent
  | FileFails string
  | FileIrregular
  | FileBytes string

datatype output_error =
    NoJob
  | NoOutputFile
  | NotRegular
  | FileError string

definition output_job :: "string \<Rightarrow> state \<Rightarrow> job option" where
  "output_job i s = List.find (\<lambda>j. jb_id j = i) (rev (st_jobs s))"

definition read_output :: "string \<Rightarrow> nat \<Rightarrow> string \<Rightarrow> string \<times> nat \<times> bool" where
  "read_output status offset bytes =
     (let off = min offset (length bytes);
          text = take jobOutputChunk (drop off bytes);
          next = off + length text
      in (text, next, JobDone status \<and> next \<ge> length bytes))"

definition JobOutput ::
  "(string \<Rightarrow> output_file) \<Rightarrow> string \<Rightarrow> int \<Rightarrow> state \<Rightarrow> output_error + (string \<times> nat \<times> bool)" where
  "JobOutput files i offset s =
     (case output_job i s of
        None \<Rightarrow> Inl NoJob
      | Some j \<Rightarrow>
          if jb_outputFile j = [] then Inl NoOutputFile
          else case files (jb_outputFile j) of
                 FileAbsent \<Rightarrow> Inr ([], nat offset, JobDone (jb_status j))
               | FileFails e \<Rightarrow> Inl (FileError e)
               | FileIrregular \<Rightarrow> Inl NotRegular
               | FileBytes b \<Rightarrow> Inr (read_output (jb_status j) (nat offset) b))"

end
