(* ===== verification/ActorFrame.thy ===== *)
theory ActorFrame
  imports ActorStart
begin

text \<open>
  What every case of \<open>handle\<close> is made of.  \<open>work w b\<close> relates an actor to what a run of
  primitive moves makes of it: appending an event, writing the phase or the title, opening a
  turn (only when \<open>b\<close>), and moves of the private fields that leave the log, the state, the
  subscribers and the waiting goroutines alone.  Each operation is such a run, so a fact kept
  by the primitives is proved once and holds after every command.
\<close>

named_theorems work_intro \<open>an operation is a run of primitive moves\<close>

section \<open>Primitive moves\<close>

text \<open>A call that makes the harness run something, and an answer to a waiting goroutine.\<close>

fun opens :: "effect \<Rightarrow> bool" where
  "opens (ToHarness i (CallPrompt t p ims)) = True"
| "opens (ToHarness i (CallComposer t act args)) = True"
| "opens _ = False"

fun answers :: "effect \<Rightarrow> bool" where
  "answers (AnswerPermission ch ou) = True"
| "answers (AnswerElicitation ch r) = True"
| "answers _ = False"

definition allowed :: "bool \<Rightarrow> effect \<Rightarrow> bool" where
  "allowed b e \<longleftrightarrow> \<not> answers e \<and> (b \<or> \<not> opens e)"

fun starts_turn :: "event_body \<Rightarrow> bool" where
  "starts_turn (TurnStarted p) = True"
| "starts_turn _ = False"

definition same_core :: "actor \<Rightarrow> actor \<Rightarrow> bool" where
  "same_core a a' \<longleftrightarrow>
     a_id a' = a_id a \<and> a_store a' = a_store a \<and> a_state a' = a_state a \<and> a_head a' = a_head a
     \<and> a_subs a' = a_subs a \<and> a_gone a' = a_gone a \<and> a_attention a' = a_attention a
     \<and> a_pendingPerm a' = a_pendingPerm a \<and> a_pendingElicit a' = a_pendingElicit a
     \<and> a_stopped a' = a_stopped a \<and> a_lastSnapAt a' = a_lastSnapAt a"

definition grows :: "bool \<Rightarrow> actor \<Rightarrow> actor \<Rightarrow> bool" where
  "grows b a a' \<longleftrightarrow>
     a_tick a \<le> a_tick a' \<and> (\<exists>es. a_out a' = a_out a @ es \<and> list_all (allowed b) es)"

inductive move :: "world \<Rightarrow> bool \<Rightarrow> actor \<Rightarrow> actor \<Rightarrow> bool" for w :: world and b :: bool where
  inner: "same_core a a' \<Longrightarrow> grows b a a' \<Longrightarrow> a_turnActive a' = a_turnActive a \<Longrightarrow> move w b a a'"
| phase: "move w b a (a\<lparr>a_store := SetPhase now (a_id a) ph (a_store a)\<rparr>)"
| title: "move w b a (a\<lparr>a_store := SetTitle (a_id a) t (a_store a)\<rparr>)"
| append: "b \<or> \<not> starts_turn em \<Longrightarrow> move w b a (snd (append w em a))"
| open_turn: "b \<Longrightarrow> move w b a (snd (append w (TurnStarted p) (a\<lparr>a_turnActive := ts_turnID p\<rparr>)))"
| abandon: "Append now (a_id a) em (a_store a) = Inl e \<Longrightarrow> move w b a (a\<lparr>a_turnActive := []\<rparr>)"

definition work :: "world \<Rightarrow> bool \<Rightarrow> actor \<Rightarrow> actor \<Rightarrow> bool" where
  "work w b = (move w b)\<^sup>*\<^sup>*"


section \<open>Runs of moves\<close>

lemma work_refl [work_intro]: "work w b a a"
  by (simp add: work_def)

lemma work_trans: "work w b a x \<Longrightarrow> work w b x y \<Longrightarrow> work w b a y"
  by (simp add: work_def)

lemma work_move: "work w b a x \<Longrightarrow> move w b x y \<Longrightarrow> work w b a y"
  by (simp add: work_def)

lemma work_inner:
  "work w b a x \<Longrightarrow> same_core x y \<Longrightarrow> grows b x y \<Longrightarrow> a_turnActive y = a_turnActive x \<Longrightarrow> work w b a y"
  by (rule work_move [OF _ move.inner])

lemma grows_refl: "a_tick a' = a_tick a \<Longrightarrow> a_out a' = a_out a \<Longrightarrow> grows b a a'"
  by (simp add: grows_def)

lemma work_fields [work_intro]:
  assumes "work w b a x"
  shows "work w b a (tick x)" "allowed b e \<Longrightarrow> work w b a (emit e x)"
    "work w b a (x\<lparr>a_sent := sent\<rparr>)" "work w b a (x\<lparr>a_recovery := rec\<rparr>)"
    "work w b a (x\<lparr>a_cwd := cwd\<rparr>)" "work w b a (x\<lparr>a_adapter := ad\<rparr>)" "work w b a (x\<lparr>a_env := env\<rparr>)"
    "work w b a (x\<lparr>a_sess := s\<rparr>)" "work w b a (x\<lparr>a_activationError := err\<rparr>)"
    "work w b a (x\<lparr>a_preparing := pre\<rparr>)" "work w b a (x\<lparr>a_checkpoints := c\<rparr>)"
    "work w b a (x\<lparr>a_measuring := m\<rparr>)" "work w b a (x\<lparr>a_scheduleReady := r\<rparr>)"
  by (rule work_inner [OF assms]; simp add: same_core_def grows_def tick_def emit_def)+

lemma work_append [work_intro]:
  "work w b a x \<Longrightarrow> b \<or> \<not> starts_turn em \<Longrightarrow> work w b a (snd (append w em x))"
  by (rule work_move [OF _ move.append])

lemma work_store [work_intro]:
  "work w b a x \<Longrightarrow> work w b a (x\<lparr>a_store := SetTitle (a_id x) t (a_store x)\<rparr>)"
  "work w b a x \<Longrightarrow> work w b a (x\<lparr>a_store := SetPhase now (a_id x) ph (a_store x)\<rparr>)"
  by (rule work_move, assumption, rule move.title move.phase)+

lemma work_call [work_intro]:
  assumes "work w b a x" and "allowed b (ToHarness (se_id s) c)"
  shows "work w b a (snd (call_harness w s c x))"
  by (simp add: call_harness_def work_fields assms)

lemma work_fresh [work_intro]: "work w b a x \<Longrightarrow> work w b a (snd (fresh w x))"
  by (simp add: fresh_def work_fields)

lemma work_append_each [work_intro]:
  "work w b a x \<Longrightarrow> \<forall>em\<in>set ems. b \<or> \<not> starts_turn em \<Longrightarrow> work w b a (append_each w ems x)"
proof (induction ems arbitrary: x)
  case (Cons em ems)
  have "work w b a (snd (append w em x))" using Cons.prems by (intro work_append) auto
  then show ?case using Cons.IH Cons.prems(2) by (simp add: append_each_def)
qed (simp add: append_each_def)

lemma allowed_simps [simp]:
  "allowed b (ToHarness i CallCancel)" "allowed b (ToHarness i CallClose)"
  "allowed b (ToHarness i (CallSteer q p ims))" "allowed b (ToHarness i (CallSetMode m))"
  "allowed b (ToHarness i (CallSetModel m))" "allowed b (ToHarness i (CallSetEffort m))"
  "allowed b (ToHarness i (CallStopJob j))" "allowed b (ToHarness i CallComposerItems)"
  "allowed b (ToHarness i CallQuota)" "allowed b (ToHarness i CallMCP)"
  "allowed True (ToHarness i c)" "allowed b StopCheckpoints" "allowed b DropCheckpoints"
  "allowed b Notify" "allowed b (MeasureTurn t)" "allowed b Exit"
  by (auto simp: allowed_def)

section \<open>The operations\<close>

lemma work_dropQueue [work_intro]: "work w b a x \<Longrightarrow> work w b a (dropQueue w x)"
  unfolding dropQueue_def by (intro work_intro) (auto simp: dequeued_def)

lemma work_close_session [work_intro]: "work w b a x \<Longrightarrow> work w b a (close_session x)"
  unfolding close_session_def by (auto split: option.split intro!: work_intro)

lemma work_startCheckpoints [work_intro]: "work w b a x \<Longrightarrow> work w b a (startCheckpoints w x)"
  unfolding startCheckpoints_def by (auto intro!: work_intro)

lemma work_close_interrupted [work_intro]: "work w b a x \<Longrightarrow> work w b a (close_interrupted w x)"
  unfolding close_interrupted_def Let_def
  by (intro work_intro)
    (auto simp: cancelled_permission_def cancelled_question_def restarted_def interruptedJobs_def)

lemma work_activate [work_intro]:
  "work w b a x \<Longrightarrow> work w b a (snd (activate w cwd model mode effort resume x))"
  unfolding activate_def Let_def
  by (auto split: sum.split intro!: work_intro)

lemma work_switchAccount [work_intro]: "work w b a x \<Longrightarrow> work w b a (snd (switchAccount w sw x))"
  unfolding switchAccount_def Let_def
  by (auto split: option.split intro!: work_intro)

lemma work_name_thread [work_intro]: "work w b a x \<Longrightarrow> work w b a (name_thread p ims rec x)"
  unfolding name_thread_def by (auto intro!: work_intro)

text \<open>Opening a turn: the guard is set, then the event appended; a failed append clears the guard.\<close>

lemma append_failed:
  "fst (append w em a) = Some e \<Longrightarrow>
   snd (append w em a) = tick a
   \<and> Append (w_now w (a_tick a)) (a_id a) (redact w a em) (a_store a) = Inl e"
  by (auto simp: append_def Let_def split: sum.splits)

lemma work_open:
  assumes "work w True a x"
  shows "work w True a (snd (append w (TurnStarted p) (x\<lparr>a_turnActive := ts_turnID p\<rparr>)))"
  by (rule work_move [OF assms move.open_turn]) simp

lemma work_abandon:
  assumes "work w b a x" and "Append now (a_id x) em (a_store x) = Inl e"
  shows "work w b a (x\<lparr>a_turnActive := []\<rparr>)"
  using assms by (blast intro: work_move move.abandon)

lemma baseline_guard: "baseline w t (x\<lparr>a_turnActive := u\<rparr>) = (baseline w t x)\<lparr>a_turnActive := u\<rparr>"
  by (simp add: baseline_def tick_def Let_def)

lemma work_baseline [work_intro]: "work w b a x \<Longrightarrow> work w b a (baseline w t x)"
  unfolding baseline_def Let_def by (auto intro!: work_intro)

definition started :: "world \<Rightarrow> string \<Rightarrow> prompt_image list \<Rightarrow> turn_recovery option \<Rightarrow> string \<Rightarrow> actor \<Rightarrow> turn_started_payload" where
  "started w prompt images rec q x =
     \<lparr>ts_turnID = fst (fresh w x), ts_prompt = prompt, ts_images = images, ts_recovery = rec,
      ts_queueID = q\<rparr>"

definition opened :: "world \<Rightarrow> turn_started_payload \<Rightarrow> actor \<Rightarrow> store_error option \<times> actor" where
  "opened w p x =
     append w (TurnStarted p) ((baseline w (ts_turnID p) (snd (fresh w x)))\<lparr>a_turnActive := ts_turnID p\<rparr>)"

lemma startTurn_eq:
  "startTurn w s prompt images rec q x =
    (let p = started w prompt images rec q x; r = opened w p x;
         c = call_harness w s (CallPrompt (ts_turnID p) prompt images) (name_thread prompt images rec (snd r))
     in case fst r of
          Some e \<Rightarrow> (Inl (ErrStore e), (snd r)\<lparr>a_turnActive := []\<rparr>)
        | None \<Rightarrow>
            (case fst c of
               Some e \<Rightarrow> (Inl (ErrHarness e), snd (append w (errored (ts_turnID p) e) (snd c)))
             | None \<Rightarrow> (Inr (ts_turnID p), snd c)))"
  by (simp add: startTurn_def started_def opened_def Let_def case_prod_beta baseline_guard split: option.split)

lemma work_opened:
  assumes "work w True a x"
  shows "work w True a (snd (opened w p x))"
  unfolding opened_def by (intro work_open work_intro assms)

lemma work_startTurn [work_intro]:
  assumes "work w True a x"
  shows "work w True a (snd (startTurn w s prompt images rec q x))"
proof -
  let ?p = "started w prompt images rec q x"
  let ?r = "opened w ?p x"
  let ?c = "call_harness w s (CallPrompt (ts_turnID ?p) prompt images) (name_thread prompt images rec (snd ?r))"
  have opened: "work w True a (snd ?r)" by (rule work_opened [OF assms])
  show ?thesis
  proof (cases "fst ?r")
    case None
    have "work w True a (snd ?c)" by (intro work_intro opened) simp
    with None show ?thesis
      by (auto simp: startTurn_eq Let_def errored_def split: option.split intro!: work_append)
  next
    case (Some e)
    let ?y = "(baseline w (ts_turnID ?p) (snd (fresh w x)))\<lparr>a_turnActive := ts_turnID ?p\<rparr>"
    have "Append (w_now w (a_tick ?y)) (a_id (snd ?r)) (redact w ?y (TurnStarted ?p)) (a_store (snd ?r)) = Inl e"
      using append_failed [OF Some [unfolded opened_def]] by (simp add: opened_def tick_def)
    with Some show ?thesis by (simp add: startTurn_eq Let_def work_abandon [OF opened])
  qed
qed

lemma work_dispatchQueued [work_intro]: "work w True a x \<Longrightarrow> work w True a (dispatchQueued w x)"
  unfolding dispatchQueued_def
  by (auto split: option.split intro!: work_intro)

section \<open>Schedules\<close>

lemma work_lift [work_intro]: "work w b a (snd r) \<Longrightarrow> work w b a (snd (lift_err r))"
  by (simp add: lift_err_def)

lemma work_failSchedule [work_intro]: "work w b a x \<Longrightarrow> work w b a (snd (failSchedule w p e x))"
  unfolding failSchedule_def by (intro work_intro) auto

lemma work_restore_setting [work_intro]:
  assumes "work w b a x" and "allowed b (ToHarness (se_id s) c)" and "\<not> starts_turn em"
  shows "work w b a (snd (restore_setting w s can refusal c em x))"
  using work_call [OF assms(1,2)] assms
  by (auto simp: restore_setting_def split: prod.split option.split intro!: work_intro)

lemma work_scheduleSettings [work_intro]:
  "work w b a x \<Longrightarrow> work w b a (snd (scheduleModel w s p x))"
  "work w b a x \<Longrightarrow> work w b a (snd (scheduleMode w s p x))"
  "work w b a x \<Longrightarrow> work w b a (snd (scheduleEffort w s p x))"
  unfolding scheduleModel_def scheduleMode_def scheduleEffort_def
  by (auto intro!: work_intro)

lemma work_and_then [work_intro]:
  assumes "work w b a (snd r)" and "\<And>x. work w b a x \<Longrightarrow> work w b a (snd (f x))"
  shows "work w b a (snd (and_then r f))"
  using assms by (auto simp: and_then_def split: prod.split option.split)

lemma work_settings [work_intro]: "work w b a x \<Longrightarrow> work w b a (snd (scheduleSettings w s p x))"
  unfolding scheduleSettings_def by (intro work_intro)

lemma work_send_scheduled [work_intro]:
  assumes "work w True a x"
  shows "work w True a (snd (send_scheduled w s p x))"
proof -
  let ?r = "scheduleSettings w s p x"
  have "work w True a (snd ?r)" by (intro work_intro assms)
  moreover have "work w True a (snd (startTurn w s pr ims None q (snd ?r)))" for pr ims q
    by (intro work_intro assms)
  ultimately show ?thesis
    by (auto simp: send_scheduled_def Let_def case_prod_beta split: option.split sum.split intro!: work_intro assms)
qed

lemma work_run_scheduled [work_intro]:
  assumes "work w True a x"
  shows "work w True a (snd (run_scheduled w p x))"
proof -
  let ?r = "if a_sess x = None then activate w [] [] [] [] True x else (None, x)"
  have "work w True a (snd ?r)" by (auto intro!: work_intro assms)
  then show ?thesis
    unfolding run_scheduled_def
    by (cases ?r) (auto split: option.split intro!: work_intro)
qed

lemma work_dispatch_due: "work w True a x \<Longrightarrow> work w True a (snd (dispatch_due w now ps x))"
proof (induction ps arbitrary: x)
  case (Cons p ps)
  have run: "work w True a (snd (case run_scheduled w q y of
      (Some r, z) \<Rightarrow> (r, z) | (None, z) \<Rightarrow> dispatch_due w now ps z))" if "work w True a y" for q y
    using work_run_scheduled [OF that, of q] Cons.IH by (auto split: prod.split option.split)
  let ?r = "append w (PromptScheduled (picked_up now p)) x"
  have app: "work w True a (snd ?r)" by (intro work_intro Cons.prems) simp
  show ?case
    using Cons run [OF Cons.prems] run [OF work_fields(13) [OF app]] app
    by (auto simp: Let_def case_prod_beta split: option.split)
qed simp

lemma work_dispatchScheduled [work_intro]:
  "work w True a x \<Longrightarrow> work w True a (snd (dispatchScheduled w now x))"
  unfolding dispatchScheduled_def by (rule work_dispatch_due)

lemma work_handleSchedule [work_intro]:
  "work w b a x \<Longrightarrow> work w b a (snd (handleSchedule w now act p x))"
  unfolding handleSchedule_def Let_def by (auto split: option.split intro!: work_intro)

lemma work_cards [work_intro]:
  "work w b a x \<Longrightarrow> work w b a (snd (raiseCard w i prompt body x))"
  "work w b a x \<Longrightarrow> work w b a (snd (resolveCard w i act v x))"
  unfolding raiseCard_def resolveCard_def by (auto intro!: work_intro)

lemma work_handleShow [work_intro]: "work w b a x \<Longrightarrow> work w b a (snd (handleShow w s x))"
  unfolding handleShow_def Let_def case_prod_beta by (auto split: option.split intro!: work_intro)

section \<open>Commands as runs of moves\<close>

fun waits :: "command \<Rightarrow> bool" where
  "waits (AskPermission req ch) = True"
| "waits (ResolvePermission i ou) = True"
| "waits (AskElicitation req ch) = True"
| "waits (ResolveElicitation i r) = True"
| "waits (HarnessExit i) = True"
| "waits (Close hard reason) = True"
| "waits _ = False"

abbreviation after :: "handled \<Rightarrow> actor" where
  "after r \<equiv> snd (snd r)"

lemma after_simps [simp]:
  "after (answer v a) = a" "after (refuse e a) = a" "after (quiet a) = a" "after (outcome r) = snd r"
  by (simp_all add: answer_def refuse_def quiet_def outcome_def)

lemma work_with_session [work_intro]:
  "work w b a x \<Longrightarrow> (\<And>s. a_sess x = Some s \<Longrightarrow> work w b a (after (f s))) \<Longrightarrow> work w b a (after (with_session x f))"
  by (simp add: with_session_def split: option.split)

lemma work_handle_setting [work_intro]:
  assumes "work w b a x" and "\<And>i. allowed b (ToHarness i c)" and "\<not> starts_turn em"
  shows "work w b a (after (handle_setting w can refusal c em x))"
proof -
  have call: "work w b a (snd (call_harness w s c x))" for s :: session by (intro work_intro assms)
  show ?thesis
    unfolding handle_setting_def using assms(3) call
    by (auto simp: case_prod_beta split: option.split intro!: work_intro assms(1,2))
qed

lemma work_ask_harness [work_intro]:
  "work w b a x \<Longrightarrow> (\<And>i. allowed b (ToHarness i c)) \<Longrightarrow> work w b a (after (ask_harness w s c x))"
  by (simp add: ask_harness_def case_prod_beta work_call)

lemma work_controls [work_intro]:
  assumes "work w b a x"
  shows "work w b a (after (handle_set_mode w m x))" "work w b a (after (handle_set_model w m x))"
    "work w b a (after (handle_set_effort w m x))" "work w b a (after (handle_stop_job w j x))"
    "work w b a (after (handle_quota w x))" "work w b a (after (handle_mcp w x))"
    "work w b a (after (handle_list_composer w x))"
  unfolding handle_set_mode_def handle_set_model_def handle_set_effort_def handle_stop_job_def
    handle_quota_def handle_mcp_def handle_list_composer_def
  by (auto simp: case_prod_beta intro!: work_intro assms)

lemma work_steer [work_intro]: "work w b a x \<Longrightarrow> work w b a (snd (steer w q prompt images x))"
proof -
  assume x: "work w b a x"
  have "work w b a (snd (call_harness w s (CallSteer q prompt images) x))" for s
    by (intro work_intro x) simp
  then show ?thesis
    by (auto simp: steer_def case_prod_beta x split: option.split intro!: work_intro)
qed

lemma work_queue_prompt [work_intro]:
  "work w b a x \<Longrightarrow> work w b a (after (queue_prompt w st prompt images x))"
  unfolding queue_prompt_def Let_def case_prod_beta
  by (auto intro!: work_intro)

lemma work_handle_prompt [work_intro]:
  assumes "work w True a x"
  shows "work w True a (after (handle_prompt w prompt images rec x))"
proof -
  have "work w True a (snd (startTurn w s prompt images rec q y))" if "work w True a y" for s q y
    by (intro work_intro that)
  moreover have "work w True a (if rec \<noteq> None then x\<lparr>a_recovery := None\<rparr> else x)"
    by (auto intro!: work_intro assms)
  ultimately show ?thesis
    using assms unfolding handle_prompt_def Let_def
    by (auto simp: case_prod_beta split: option.split sum.split intro!: work_intro)
qed

lemma work_handle_continue [work_intro]:
  "work w True a x \<Longrightarrow> work w True a (after (handle_continue w x))"
  unfolding handle_continue_def by (auto split: option.split intro!: work_intro)

lemma work_handle_cancel [work_intro]: "work w b a x \<Longrightarrow> work w b a (after (handle_cancel w x))"
proof -
  assume x: "work w b a x"
  have "work w b a (snd (call_harness w s CallCancel x))" for s by (intro work_intro x) simp
  with x show ?thesis
    unfolding handle_cancel_def Let_def
    by (auto simp: case_prod_beta split: option.split intro!: work_intro)
qed

lemma work_handle_rest [work_intro]:
  assumes "work w b a x"
  shows "work w b a (after (handle_dequeue w q x))" "work w b a (after (handle_show w s x))"
    "work w b a (after (handle_artefact i x))"
  using work_handleShow [OF assms, of s] assms
  unfolding handle_dequeue_def handle_show_def handle_artefact_def
  by (auto simp: case_prod_beta split: option.split sum.split intro!: work_intro)

lemma work_handle_harness_event [work_intro]:
  "work w True a x \<Longrightarrow> work w True a (after (handle_harness_event w i em x))"
  unfolding handle_harness_event_def by (auto intro!: work_intro)

lemma work_run_composer [work_intro]:
  assumes "work w True a x"
  shows "work w True a (after (handle_run_composer w act args invo x))"
proof -
  let ?t = "fst (fresh w x)"
  let ?a2 = "snd (append w (TurnStarted \<lparr>ts_turnID = ?t, ts_prompt = invo, ts_images = [],
    ts_recovery = None, ts_queueID = []\<rparr>) ((snd (fresh w x))\<lparr>a_turnActive := ?t\<rparr>))"
  have "work w True a ?a2"
    using work_open [OF work_fresh [OF assms], of "\<lparr>ts_turnID = ?t, ts_prompt = invo, ts_images = [],
      ts_recovery = None, ts_queueID = []\<rparr>"] by simp
  then have call: "work w True a (snd (call_harness w s (CallComposer ?t act args) ?a2))" for s :: session
    by (rule work_call) simp
  show ?thesis
    unfolding handle_run_composer_def Let_def
    by (auto simp: case_prod_beta errored_def split: option.split
        intro!: work_with_session work_append call assms)
qed

lemma work_schedule_now [work_intro]: "work w b a x \<Longrightarrow> work w b a (snd (schedule_now w now x))"
  by (auto simp: schedule_now_def intro!: work_intro)

lemma work_handle:
  assumes "\<not> waits c"
  shows "work w True a (after (handle w c a))"
  using assms
  by (cases c) (auto simp: case_prod_beta intro!: work_intro)

end
