(* ===== verification/ActorInv.thy ===== *)
theory ActorInv
  imports ActorFrame StoreProps "HOL-Library.Sublist"
begin

text \<open>
  The actors the code can produce: a constructor on an honest store, then commands, presenters
  coming, reading and going, and other writers changing the shared store.  Every such step is a
  run of the finer relation \<open>life\<close>, over which the invariants are proved by rule induction:
  the state in memory is the fold of the stored log, what every live subscriber has yet to read
  is the end of that log, and the busy guard names a turn that is open.
\<close>

section \<open>What append does\<close>

abbreviation actor_log :: "actor \<Rightarrow> event list" where
  "actor_log a \<equiv> log_of (a_id a) (a_store a)"

lemma track_fields [simp]:
  "a_id (track em a) = a_id a" "a_store (track em a) = a_store a" "a_state (track em a) = a_state a"
  "a_head (track em a) = a_head a" "a_subs (track em a) = a_subs a" "a_gone (track em a) = a_gone a"
  "a_pendingPerm (track em a) = a_pendingPerm a" "a_pendingElicit (track em a) = a_pendingElicit a"
  "a_stopped (track em a) = a_stopped a" "a_tick (track em a) = a_tick a"
  "a_recovery (track em a) = a_recovery a" "a_sess (track em a) = a_sess a"
  "a_preparing (track em a) = a_preparing a" "a_lastSnapAt (track em a) = a_lastSnapAt a"
  by (cases em; simp add: unsend_def emit_def Let_def)+

lemma track_sent: "set (a_sent (track em a)) \<subseteq> set (a_sent a)"
  by (cases em) (auto simp: unsend_def emit_def Let_def)

lemma track_out: "\<exists>es. a_out (track em a) = a_out a @ es \<and> list_all (allowed b) es \<and> list_all (Not \<circ> opens) es"
  by (cases em) (auto simp: unsend_def emit_def Let_def)

definition noticed :: "world \<Rightarrow> string \<Rightarrow> event_body \<Rightarrow> event \<Rightarrow> actor \<Rightarrow> actor" where
  "noticed w prev em ev a = snapshot em ev (fanout ev (notify_schedule em (notify_attention (sync_phase w prev em a))))"

lemma log_of_phase [simp]: "log_of i (SetPhase now t ph d) = log_of i d"
  by (simp add: SetPhase_def update_thread_def log_of_def)

lemma log_of_title [simp]: "log_of i (SetTitle t u d) = log_of i d"
  by (simp add: SetTitle_def update_thread_def log_of_def)

lemma log_of_snapshot [simp]: "log_of i (PutSnapshot t n s d) = log_of i d"
  by (simp add: PutSnapshot_def Let_def log_of_def)

lemma sync_phase_fields [simp]:
  "a_id (sync_phase w prev em a) = a_id a" "a_state (sync_phase w prev em a) = a_state a"
  "a_head (sync_phase w prev em a) = a_head a" "a_stopped (sync_phase w prev em a) = a_stopped a"
  "a_pendingPerm (sync_phase w prev em a) = a_pendingPerm a" "a_pendingElicit (sync_phase w prev em a) = a_pendingElicit a"
  "a_turnActive (sync_phase w prev em a) = a_turnActive a" "a_sent (sync_phase w prev em a) = a_sent a"
  "a_recovery (sync_phase w prev em a) = a_recovery a" "a_sess (sync_phase w prev em a) = a_sess a"
  "a_preparing (sync_phase w prev em a) = a_preparing a" "a_lastSnapAt (sync_phase w prev em a) = a_lastSnapAt a"
  "log_of i (a_store (sync_phase w prev em a)) = log_of i (a_store a)" "a_subs (sync_phase w prev em a) = a_subs a"
  "a_gone (sync_phase w prev em a) = a_gone a" "a_out (sync_phase w prev em a) = a_out a"
  "a_attention (sync_phase w prev em a) = a_attention a" "a_tick a \<le> a_tick (sync_phase w prev em a)"
  by (simp_all add: sync_phase_def tick_def Let_def)

lemma notify_attention_fields [simp]:
  "a_id (notify_attention a) = a_id a" "a_state (notify_attention a) = a_state a"
  "a_head (notify_attention a) = a_head a" "a_stopped (notify_attention a) = a_stopped a"
  "a_pendingPerm (notify_attention a) = a_pendingPerm a" "a_pendingElicit (notify_attention a) = a_pendingElicit a"
  "a_turnActive (notify_attention a) = a_turnActive a" "a_sent (notify_attention a) = a_sent a"
  "a_recovery (notify_attention a) = a_recovery a" "a_sess (notify_attention a) = a_sess a"
  "a_preparing (notify_attention a) = a_preparing a" "a_lastSnapAt (notify_attention a) = a_lastSnapAt a"
  "a_store (notify_attention a) = a_store a" "a_subs (notify_attention a) = a_subs a"
  "a_gone (notify_attention a) = a_gone a" "a_attention (notify_attention a) = Attention (a_state a)"
  "a_tick (notify_attention a) = a_tick a"
  by (simp_all add: notify_attention_def emit_def)

lemma notify_schedule_fields [simp]:
  "a_id (notify_schedule em a) = a_id a" "a_state (notify_schedule em a) = a_state a"
  "a_head (notify_schedule em a) = a_head a" "a_stopped (notify_schedule em a) = a_stopped a"
  "a_pendingPerm (notify_schedule em a) = a_pendingPerm a" "a_pendingElicit (notify_schedule em a) = a_pendingElicit a"
  "a_turnActive (notify_schedule em a) = a_turnActive a" "a_sent (notify_schedule em a) = a_sent a"
  "a_recovery (notify_schedule em a) = a_recovery a" "a_sess (notify_schedule em a) = a_sess a"
  "a_preparing (notify_schedule em a) = a_preparing a" "a_lastSnapAt (notify_schedule em a) = a_lastSnapAt a"
  "a_store (notify_schedule em a) = a_store a" "a_subs (notify_schedule em a) = a_subs a"
  "a_gone (notify_schedule em a) = a_gone a" "a_attention (notify_schedule em a) = a_attention a"
  "a_tick (notify_schedule em a) = a_tick a"
  by (cases em; simp add: emit_def)+

lemma fanout_fields [simp]:
  "a_id (fanout ev a) = a_id a" "a_state (fanout ev a) = a_state a"
  "a_head (fanout ev a) = a_head a" "a_stopped (fanout ev a) = a_stopped a"
  "a_pendingPerm (fanout ev a) = a_pendingPerm a" "a_pendingElicit (fanout ev a) = a_pendingElicit a"
  "a_turnActive (fanout ev a) = a_turnActive a" "a_sent (fanout ev a) = a_sent a"
  "a_recovery (fanout ev a) = a_recovery a" "a_sess (fanout ev a) = a_sess a"
  "a_preparing (fanout ev a) = a_preparing a" "a_lastSnapAt (fanout ev a) = a_lastSnapAt a"
  "a_store (fanout ev a) = a_store a" "a_out (fanout ev a) = a_out a"
  "a_attention (fanout ev a) = a_attention a" "a_tick (fanout ev a) = a_tick a"
  "a_subs (fanout ev a) = filter (\<lambda>s. \<not> sb_resync s) (map (deliver ev) (a_subs a))" "a_gone (fanout ev a) = a_gone a @ filter sb_resync (map (deliver ev) (a_subs a))"
  by (simp_all add: fanout_def Let_def)

lemma snapshot_fields [simp]:
  "a_id (snapshot em ev a) = a_id a" "a_state (snapshot em ev a) = a_state a"
  "a_head (snapshot em ev a) = a_head a" "a_stopped (snapshot em ev a) = a_stopped a"
  "a_pendingPerm (snapshot em ev a) = a_pendingPerm a" "a_pendingElicit (snapshot em ev a) = a_pendingElicit a"
  "a_turnActive (snapshot em ev a) = a_turnActive a" "a_sent (snapshot em ev a) = a_sent a"
  "a_recovery (snapshot em ev a) = a_recovery a" "a_sess (snapshot em ev a) = a_sess a"
  "a_preparing (snapshot em ev a) = a_preparing a" "log_of i (a_store (snapshot em ev a)) = log_of i (a_store a)"
  "a_subs (snapshot em ev a) = a_subs a" "a_gone (snapshot em ev a) = a_gone a"
  "a_out (snapshot em ev a) = a_out a" "a_attention (snapshot em ev a) = a_attention a"
  "a_tick (snapshot em ev a) = a_tick a"
  by (simp_all add: snapshot_def)

lemma notified: "\<exists>es. a_out (notify_schedule em (notify_attention a)) = a_out a @ es \<and> set es \<subseteq> {Notify}"
proof -
  have "a_out (notify_schedule em x) = a_out x \<or> a_out (notify_schedule em x) = a_out x @ [Notify]" for x
    by (cases em) (auto simp: emit_def)
  moreover have "a_out (notify_attention a) = a_out a \<or> a_out (notify_attention a) = a_out a @ [Notify]"
    by (auto simp: notify_attention_def emit_def)
  ultimately show ?thesis by (metis append.assoc append_Nil2 empty_subsetI insert_subset list.set set_append subset_insertI2 sup.bounded_iff order_refl)
qed

lemma noticed_fields [simp]:
  "a_id (noticed w prev em ev a) = a_id a" "a_state (noticed w prev em ev a) = a_state a"
  "a_head (noticed w prev em ev a) = a_head a" "a_stopped (noticed w prev em ev a) = a_stopped a"
  "a_pendingPerm (noticed w prev em ev a) = a_pendingPerm a" "a_pendingElicit (noticed w prev em ev a) = a_pendingElicit a"
  "a_turnActive (noticed w prev em ev a) = a_turnActive a" "a_sent (noticed w prev em ev a) = a_sent a"
  "a_recovery (noticed w prev em ev a) = a_recovery a" "a_sess (noticed w prev em ev a) = a_sess a"
  "a_preparing (noticed w prev em ev a) = a_preparing a" "log_of i (a_store (noticed w prev em ev a)) = log_of i (a_store a)"
  "a_attention (noticed w prev em ev a) = Attention (a_state a)" "a_tick a \<le> a_tick (noticed w prev em ev a)"
  "a_subs (noticed w prev em ev a) = filter (\<lambda>s. \<not> sb_resync s) (map (deliver ev) (a_subs a))" "a_gone (noticed w prev em ev a) = a_gone a @ filter sb_resync (map (deliver ev) (a_subs a))"
  by (simp_all add: noticed_def)

lemma noticed_out: "\<exists>es. a_out (noticed w prev em ev a) = a_out a @ es \<and> set es \<subseteq> {Notify}"
  using notified [of em "sync_phase w prev em a"] by (simp add: noticed_def)

lemma append_eq:
  "append w em a =
    (case Append (w_now w (a_tick a)) (a_id a) (redact w a em) (a_store a) of
       Inl e \<Rightarrow> (Some e, tick a)
     | Inr (ev, d) \<Rightarrow>
         (None, noticed w (st_phase (a_state a)) (redact w a em) ev
            (track (redact w a em)
              ((tick a)\<lparr>a_store := d, a_state := Apply (a_state a) ev, a_head := ev_seq ev\<rparr>))))"
  by (simp add: append_def noticed_def Let_def split: sum.split)

lemma redact_kind [simp]:
  "redact w a (TurnStarted p) = TurnStarted p" "redact w a (TurnFinished q) = TurnFinished q"
  "starts_turn (redact w a em) = starts_turn em"
  "is_turn_finished (redact w a em) = is_turn_finished em"
  by (simp_all, (cases em; simp add: Let_def split: option.split)+)

text \<open>On a store that knows the thread, an append succeeds; this is all it changes.\<close>

definition store_good :: "actor \<Rightarrow> bool" where
  "store_good a \<longleftrightarrow> store_reachable (a_store a) \<and> snapshots_ok (a_store a)
     \<and> a_id a \<in> tm_id ` set (db_threads (a_store a))"

definition state_ok :: "actor \<Rightarrow> bool" where
  "state_ok a \<longleftrightarrow> a_state a = foldl Apply (New (a_id a)) (actor_log a)
     \<and> a_head a = int (length (actor_log a))"

lemma store_good_threads: "store_good a \<Longrightarrow> threads_ok (a_store a)"
  by (simp add: store_good_def reachable_threads)

lemma state_ok_seq:
  assumes "store_good a" and "state_ok a"
  shows "st_seq (a_state a) = a_head a"
  using seq_foldl_log [OF store_good_threads [OF assms(1)] order.refl, of "a_id a"] assms(2)
  by (simp add: state_ok_def)

lemma thread_ids_stay:
  "tm_id ` set (db_threads (SetPhase now t ph d)) = tm_id ` set (db_threads d)"
  "tm_id ` set (db_threads (SetTitle t u d)) = tm_id ` set (db_threads d)"
  "tm_id ` set (db_threads (PutSnapshot t n s d)) = tm_id ` set (db_threads d)"
proof -
  have "map tm_id (db_threads (SetPhase now t ph d)) = map tm_id (db_threads d)"
    "map tm_id (db_threads (SetTitle t u d)) = map tm_id (db_threads d)"
    by (simp_all add: SetPhase_def SetTitle_def thread_ids_update)
  then show "tm_id ` set (db_threads (SetPhase now t ph d)) = tm_id ` set (db_threads d)"
    "tm_id ` set (db_threads (SetTitle t u d)) = tm_id ` set (db_threads d)"
    by (metis list.set_map)+
qed (simp add: PutSnapshot_def Let_def)

lemma snapshots_ok_rows:
  "snapshots_ok (SetPhase now t ph d) = snapshots_ok d" "snapshots_ok (SetTitle t u d) = snapshots_ok d"
  by (simp_all add: snapshots_ok_def snapshot_ok_def)
    (simp_all add: SetPhase_def SetTitle_def update_thread_def)

lemma store_good_phase:
  "store_good a \<Longrightarrow> store_good (a\<lparr>a_store := SetPhase now t ph (a_store a)\<rparr>)"
  "store_good a \<Longrightarrow> store_good (a\<lparr>a_store := SetTitle t u (a_store a)\<rparr>)"
  by (auto simp: store_good_def snapshots_ok_rows thread_ids_stay
      intro: store_reachable.step store_step.set_phase store_step.set_title)

lemma store_good_cong: "a_store b = a_store a \<Longrightarrow> a_id b = a_id a \<Longrightarrow> store_good b = store_good a"
  by (simp add: store_good_def)

lemma state_ok_cong:
  "actor_log b = actor_log a \<Longrightarrow> a_id b = a_id a \<Longrightarrow> a_state b = a_state a \<Longrightarrow> a_head b = a_head a \<Longrightarrow>
   state_ok b = state_ok a"
  by (simp add: state_ok_def)

lemma store_good_sync: "store_good a \<Longrightarrow> store_good (sync_phase w prev em a)"
  using store_good_phase(1) store_good_cong [of "tick (sync_phase w prev em a)" "sync_phase w prev em a"]
  by (simp add: sync_phase_def Let_def tick_def store_good_cong [of "b\<lparr>a_tick := n\<rparr>" b for b n])

lemma store_good_snapshot:
  assumes "store_good a" and "state_ok a" and "ev_seq ev = a_head a"
  shows "store_good (snapshot em ev a)"
proof (cases "snapshot em ev a = a")
  case False
  have "snapshots_ok (PutSnapshot (a_id a) (st_seq (a_state a)) (a_state a) (a_store a))"
    using assms by (intro snapshots_ok_PutSnapshot [OF store_good_threads _ order.refl])
      (auto simp: store_good_def state_ok_def)
  then have "snapshots_ok (PutSnapshot (a_id a) (ev_seq ev) (a_state a) (a_store a))"
    using assms by (simp add: state_ok_seq)
  with False assms show ?thesis
    by (auto simp: snapshot_def store_good_def thread_ids_stay
        intro: store_reachable.step store_step.put_snapshot)
qed (use assms in simp)

lemma append_succeeds:
  assumes "store_good a" and "state_ok a"
  obtains ev d where
    "Append (w_now w (a_tick a)) (a_id a) (redact w a em) (a_store a) = Inr (ev, d)"
    "append w em a = (None, noticed w (st_phase (a_state a)) (redact w a em) ev
       (track (redact w a em) ((tick a)\<lparr>a_store := d, a_state := Apply (a_state a) ev, a_head := ev_seq ev\<rparr>)))"
    "ev_seq ev = a_head a + 1" "ev_body ev = stored_body (redact w a em)"
    "log_of (a_id a) d = actor_log a @ [ev]"
    "store_reachable d" "snapshots_ok d" "a_id a \<in> tm_id ` set (db_threads d)"
proof -
  let ?b = "redact w a em" and ?now = "w_now w (a_tick a)"
  have ok: "threads_ok (a_store a)" by (rule store_good_threads [OF assms(1)])
  obtain ev d where app: "Append ?now (a_id a) ?b (a_store a) = Inr (ev, d)"
    using Append_known [OF ok, of "a_id a" ?now ?b] assms(1) by (auto simp: store_good_def)
  then have opt: "append_opt (a_store a) ?now (a_id a) ?b = Some (ev, d)" by (simp add: append_opt_Some)
  show ?thesis
  proof (rule that [OF app])
    show "append w em a = (None, noticed w (st_phase (a_state a)) ?b ev
       (track ?b ((tick a)\<lparr>a_store := d, a_state := Apply (a_state a) ev, a_head := ev_seq ev\<rparr>)))"
      by (simp add: append_eq app)
    show "ev_seq ev = a_head a + 1"
      using event_store.append_seq [OF ok opt] assms(2) by (simp add: state_ok_def)
    show "ev_body ev = stored_body ?b" using event_store.append_event [OF ok opt] by simp
    show "log_of (a_id a) d = actor_log a @ [ev]" using Append_log_of [OF app, of "a_id a"] by simp
    show "store_reachable d" using app assms(1)
      by (auto simp: store_good_def intro: store_reachable.step store_step.append)
    show "snapshots_ok d" using snapshots_ok_Append [OF _ app] assms(1) by (simp add: store_good_def)
    show "a_id a \<in> tm_id ` set (db_threads d)"
      using event_store.append_has [OF ok opt, of "a_id a"] assms(1) by (simp add: store_good_def)
  qed
qed

lemma state_ok_appended:
  assumes "state_ok a" and "log_of (a_id a) d = actor_log a @ [ev]" and "ev_seq ev = a_head a + 1"
    and "a_id b = a_id a" and "actor_log b = log_of (a_id a) d" and "a_state b = Apply (a_state a) ev"
    and "a_head b = ev_seq ev"
  shows "state_ok b"
  using assms by (simp add: state_ok_def)

lemma core_ok_append:
  assumes "store_good a" and "state_ok a"
  shows "store_good (snd (append w em a)) \<and> state_ok (snd (append w em a))"
proof -
  obtain ev d where e: "append w em a = (None, noticed w (st_phase (a_state a)) (redact w a em) ev
       (track (redact w a em) ((tick a)\<lparr>a_store := d, a_state := Apply (a_state a) ev, a_head := ev_seq ev\<rparr>)))"
    and seq: "ev_seq ev = a_head a + 1" and log: "log_of (a_id a) d = actor_log a @ [ev]"
    and d: "store_reachable d" "snapshots_ok d" "a_id a \<in> tm_id ` set (db_threads d)"
    using append_succeeds [OF assms, of w em] by metis
  let ?a1 = "(tick a)\<lparr>a_store := d, a_state := Apply (a_state a) ev, a_head := ev_seq ev\<rparr>"
  let ?a2 = "sync_phase w (st_phase (a_state a)) (redact w a em) (track (redact w a em) ?a1)"
  let ?a3 = "fanout ev (notify_schedule (redact w a em) (notify_attention ?a2))"
  have "store_good (track (redact w a em) ?a1)" using d by (simp add: store_good_def tick_def)
  then have "store_good ?a2" by (rule store_good_sync)
  then have good: "store_good ?a3" by (simp add: store_good_cong [of ?a3 ?a2])
  have state: "state_ok ?a3"
    by (rule state_ok_appended [OF assms(2) log seq]) (simp_all add: tick_def)
  have "state_ok (snapshot (redact w a em) ev ?a3)"
    by (rule state_ok_appended [OF assms(2) log seq]) (simp_all add: tick_def)
  with store_good_snapshot [OF good state] e show ?thesis by (simp add: noticed_def)
qed

section \<open>The busy guard\<close>

definition open_in :: "string \<Rightarrow> state \<Rightarrow> bool" where
  "open_in t s \<longleftrightarrow> list_ex (\<lambda>u. tu_id u = t \<and> \<not> tu_done u) (st_turns s)"

definition guard_ok :: "actor \<Rightarrow> bool" where
  "guard_ok a \<longleftrightarrow> a_turnActive a = [] \<or> open_in (a_turnActive a) (a_state a)"

lemma list_ex_update_where:
  "list_ex P xs \<Longrightarrow> (\<And>x. P x \<Longrightarrow> Q x \<Longrightarrow> P (f x)) \<Longrightarrow> list_ex P (update_where Q f xs)"
  by (auto simp: list_ex_iff update_where_def)

lemma open_in_seq [simp]: "open_in t (s\<lparr>st_seq := n\<rparr>) = open_in t s"
  by (simp add: open_in_def)

lemma turn_stays_open:
  assumes "open_in t s" and "\<And>p. b = TurnFinished p \<Longrightarrow> tf_turnID p \<noteq> t"
  shows "open_in t (apply_body ev b s)"
  using assms
  by (cases b)
    (auto simp: apply_defs open_in_def Let_def finish_turn_def split: option.split
      intro!: list_ex_update_where)

lemma turn_opens: "open_in (ts_turnID p) (apply_body ev (TurnStarted p) s)"
proof -
  have "ts_turnID (resolve_queue s p) = ts_turnID p" by simp
  then show ?thesis by (simp add: apply_defs open_in_def Let_def new_turn_def)
qed

lemma stored_turn [simp]:
  "stored_body b = TurnFinished p \<longleftrightarrow> b = TurnFinished p"
  "stored_body (TurnStarted q) = TurnStarted (q\<lparr>ts_images := map stored_image (ts_images q)\<rparr>)"
  by (cases b; simp)+

lemma redact_finished [simp]: "redact w a em = TurnFinished p \<longleftrightarrow> em = TurnFinished p"
  by (cases em) (auto simp: Let_def split: option.split)

lemma redact_started [simp]: "redact w a em = TurnStarted p \<longleftrightarrow> em = TurnStarted p"
  by (cases em) (auto simp: Let_def split: option.split)

lemma track_guard:
  "a_turnActive (track em a) =
    (case em of
       TurnStarted p \<Rightarrow> if a_turnActive a = [] then ts_turnID p else a_turnActive a
     | TurnFinished p \<Rightarrow> if tf_turnID p = a_turnActive a then [] else a_turnActive a
     | _ \<Rightarrow> a_turnActive a)"
  by (cases em) (auto simp: Let_def unsend_def emit_def)

lemma guard_append:
  assumes good: "store_good a" and state: "state_ok a"
    and guard: "guard_ok a \<or> (\<exists>p. em = TurnStarted p \<and> a_turnActive a = ts_turnID p)"
  shows "guard_ok (snd (append w em a))"
proof -
  obtain ev d where e: "append w em a = (None, noticed w (st_phase (a_state a)) (redact w a em) ev
       (track (redact w a em) ((tick a)\<lparr>a_store := d, a_state := Apply (a_state a) ev, a_head := ev_seq ev\<rparr>)))"
    and seq: "ev_seq ev = a_head a + 1" and body: "ev_body ev = stored_body (redact w a em)"
    using append_succeeds [OF good state, of w em] by metis
  let ?r = "redact w a em" and ?s = "a_state (snd (append w em a))"
  let ?g = "a_turnActive (snd (append w em a))"
  have g: "?g = (case ?r of
       TurnStarted p \<Rightarrow> if a_turnActive a = [] then ts_turnID p else a_turnActive a
     | TurnFinished p \<Rightarrow> if tf_turnID p = a_turnActive a then [] else a_turnActive a
     | _ \<Rightarrow> a_turnActive a)"
    unfolding e snd_conv noticed_fields track_guard by (simp add: tick_def split: event_body.split)
  have s: "?s = apply_body ev (stored_body ?r) ((a_state a)\<lparr>st_seq := ev_seq ev\<rparr>)"
    using e seq body state_ok_seq [OF good state] by (simp add: Apply_def)
  have stays: "open_in (a_turnActive a) ?s"
    if "open_in (a_turnActive a) (a_state a)" "\<And>p. em = TurnFinished p \<Longrightarrow> tf_turnID p \<noteq> a_turnActive a"
    unfolding s by (rule turn_stays_open) (use that in auto)
  have opens: "open_in (ts_turnID p) ?s" if "em = TurnStarted p" for p
    using turn_opens [of "p\<lparr>ts_images := map stored_image (ts_images p)\<rparr>"] that unfolding s by simp
  show ?thesis
  proof (cases em)
    case (TurnStarted p)
    with guard g opens stays show ?thesis by (auto simp: guard_ok_def)
  next
    case (TurnFinished p)
    with guard g stays show ?thesis by (auto simp: guard_ok_def)
  qed (use guard g stays in \<open>auto simp: guard_ok_def Let_def split: option.splits\<close>)
qed

section \<open>Subscribers\<close>

definition sub_ok :: "event list \<Rightarrow> subscriber \<Rightarrow> bool" where
  "sub_ok l s \<longleftrightarrow> length (sb_queue s) \<le> SubscriberQueue \<and> \<not> sb_resync s \<and> \<not> sb_closed s \<and> suffix (sb_queue s) l"

definition subs_ok :: "actor \<Rightarrow> bool" where
  "subs_ok a \<longleftrightarrow> list_all (sub_ok (actor_log a)) (a_subs a)"

lemma sub_ok_deliver:
  "sub_ok l s \<Longrightarrow> \<not> sb_resync (deliver ev s) \<Longrightarrow> sub_ok (l @ [ev]) (deliver ev s)"
  by (auto simp: sub_ok_def deliver_def split: if_splits)

lemma subs_ok_delivered:
  "list_all (sub_ok l) subs \<Longrightarrow> list_all (sub_ok (l @ [ev])) (filter (\<lambda>s. \<not> sb_resync s) (map (deliver ev) subs))"
  using sub_ok_deliver by (auto simp: list_all_iff)

lemma subs_ok_cong: "a_subs b = a_subs a \<Longrightarrow> actor_log b = actor_log a \<Longrightarrow> subs_ok b = subs_ok a"
  by (simp add: subs_ok_def)

lemma subs_ok_append:
  assumes "store_good a" and "state_ok a" and "subs_ok a"
  shows "subs_ok (snd (append w em a))"
proof -
  obtain ev d where e: "append w em a = (None, noticed w (st_phase (a_state a)) (redact w a em) ev
       (track (redact w a em) ((tick a)\<lparr>a_store := d, a_state := Apply (a_state a) ev, a_head := ev_seq ev\<rparr>)))"
    and log: "log_of (a_id a) d = actor_log a @ [ev]"
    using append_succeeds [OF assms(1,2), of w em] by metis
  then show ?thesis
    using subs_ok_delivered [of "actor_log a" "a_subs a" ev] assms(3)
    by (simp add: subs_ok_def tick_def)
qed

section \<open>Life of an actor\<close>

inductive life :: "world \<Rightarrow> actor \<Rightarrow> actor \<Rightarrow> bool" for w :: world where
  moved: "move w True a a' \<Longrightarrow> life w a a'"
| waited: "life w a (a\<lparr>a_pendingPerm := pp, a_pendingElicit := pe, a_out := es, a_tick := n\<rparr>)"
| stopped: "life w a (a\<lparr>a_stopped := True\<rparr>)"
| hung_up: "a_stopped a \<Longrightarrow> life w a (close_subscribers a)"

definition core_ok :: "actor \<Rightarrow> bool" where
  "core_ok a \<longleftrightarrow> store_good a \<and> state_ok a \<and> guard_ok a \<and> subs_ok a \<and> a_attention a = Attention (a_state a)"

lemma core_ok_cong:
  assumes "a_store b = a_store a" and "a_id b = a_id a" and "a_state b = a_state a"
    and "a_head b = a_head a" and "a_turnActive b = a_turnActive a" and "a_subs b = a_subs a"
    and "a_attention b = a_attention a"
  shows "core_ok b = core_ok a"
  using assms by (simp add: core_ok_def store_good_def state_ok_def guard_ok_def subs_ok_def)

lemma append_attention:
  "store_good a \<Longrightarrow> state_ok a \<Longrightarrow>
   a_attention (snd (append w em a)) = Attention (a_state (snd (append w em a)))"
  by (rule append_succeeds [of a w em]) simp_all

lemma core_ok_move: "move w b a a' \<Longrightarrow> core_ok a \<Longrightarrow> core_ok a'"
proof (induction rule: move.induct)
  case (inner a a')
  then show ?case using core_ok_cong [of a' a] by (simp add: same_core_def)
next
  case (phase a now ph)
  then show ?case
    using store_good_phase(1) [of a now "a_id a" ph]
    by (auto simp add: core_ok_def state_ok_def guard_ok_def subs_ok_def)
next
  case (title a t)
  then show ?case
    using store_good_phase(2) [of a "a_id a" t]
    by (auto simp add: core_ok_def state_ok_def guard_ok_def subs_ok_def)
next
  case (append em a)
  then show ?case
    unfolding core_ok_def by (simp add: core_ok_append guard_append subs_ok_append append_attention)
next
  case (open_turn a p)
  let ?a = "a\<lparr>a_turnActive := ts_turnID p\<rparr>"
  have ok: "store_good ?a" "state_ok ?a" "subs_ok ?a"
    using open_turn.prems by (simp_all add: core_ok_def store_good_def state_ok_def subs_ok_def)
  have "guard_ok (snd (append w (TurnStarted p) ?a))"
    by (rule guard_append [OF ok(1,2)]) simp
  then show ?case
    unfolding core_ok_def using core_ok_append [OF ok(1,2)] subs_ok_append [OF ok] append_attention [OF ok(1,2)]
    by simp
next
  case (abandon now a em e)
  then show ?case by (simp add: core_ok_def store_good_def state_ok_def guard_ok_def subs_ok_def)
qed

lemma core_ok_work: "work w b a a' \<Longrightarrow> core_ok a \<Longrightarrow> core_ok a'"
  unfolding work_def by (induction rule: rtranclp_induct) (auto intro: core_ok_move)

lemma core_ok_life: "life w a a' \<Longrightarrow> core_ok a \<Longrightarrow> core_ok a'"
proof (induction rule: life.induct)
  case (waited a pp pe es n)
  then show ?case by (subst core_ok_cong [of _ a]) simp_all
next
  case (stopped a)
  then show ?case by (subst core_ok_cong [of _ a]) simp_all
next
  case (hung_up a)
  then show ?case
    by (auto simp: core_ok_def close_subscribers_def store_good_def state_ok_def guard_ok_def subs_ok_def)
qed (rule core_ok_move)

lemma core_ok_lives: "(life w)\<^sup>*\<^sup>* a a' \<Longrightarrow> core_ok a \<Longrightarrow> core_ok a'"
  by (induction rule: rtranclp_induct) (auto intro: core_ok_life)

lemma life_work: "work w b a a' \<Longrightarrow> (life w)\<^sup>*\<^sup>* a a'" if "b" for b
  using that unfolding work_def
  by (auto intro: rtranclp_mono [THEN predicate2D, OF predicate2I] life.moved)

abbreviation lives :: "world \<Rightarrow> actor \<Rightarrow> actor \<Rightarrow> bool" where
  "lives w \<equiv> (life w)\<^sup>*\<^sup>*"

lemma lives_waited:
  assumes "lives w a x" and "x\<lparr>a_pendingPerm := a_pendingPerm y, a_pendingElicit := a_pendingElicit y,
    a_out := a_out y, a_tick := a_tick y\<rparr> = y"
  shows "lives w a y"
  using assms life.waited by (metis rtranclp.rtrancl_into_rtrancl)

lemma lives_fields [work_intro]:
  assumes "lives w a x"
  shows "lives w a (emit e x)" "lives w a (tick x)" "lives w a (snd (fresh w x))"
    "lives w a (x\<lparr>a_pendingPerm := pp\<rparr>)" "lives w a (x\<lparr>a_pendingElicit := pe\<rparr>)"
    "lives w a (cancel_waiters x)"
  by (rule lives_waited [OF assms], simp add: emit_def tick_def fresh_def cancel_waiters_def)+

lemma lives_work: "lives w a x \<Longrightarrow> work w True x y \<Longrightarrow> lives w a y"
  using life_work [of True] by (meson rtranclp_trans)

lemma lives_moves [work_intro]:
  assumes "lives w a x"
  shows "lives w a (snd (append w em x))" "lives w a (append_each w ems x)"
    "lives w a (x\<lparr>a_sent := sent\<rparr>)" "lives w a (close_session x)"
    "lives w a (x\<lparr>a_store := SetPhase now (a_id x) ph (a_store x)\<rparr>)" "lives w a (dispatchQueued w x)"
  by (rule lives_work [OF assms], intro work_intro; simp)+

lemma lives_stop [work_intro]:
  assumes "lives w a x"
  shows "lives w a (x\<lparr>a_stopped := True\<rparr>)" "a_stopped x \<Longrightarrow> lives w a (close_subscribers x)"
  using assms life.stopped life.hung_up by (meson rtranclp.rtrancl_into_rtrancl)+

lemma lives_shutdown [work_intro]:
  assumes "lives w a x"
  shows "lives w a (shutdown w hard x)"
proof -
  let ?p = "shutdown_phase hard x"
  let ?a1 = "tick (x\<lparr>a_store := SetPhase (w_now w (a_tick x)) (a_id x) ?p (a_store x)\<rparr>)"
  have "lives w a (emit StopCheckpoints (close_session (cancel_waiters ?a1)))"
    by (intro work_intro assms)
  then have "lives w a (if ?p = ''closed'' then emit DropCheckpoints (emit StopCheckpoints (close_session (cancel_waiters ?a1)))
      else emit StopCheckpoints (close_session (cancel_waiters ?a1)))"
    by (auto intro: lives_fields)
  then show ?thesis unfolding shutdown_def Let_def by (intro work_intro) simp_all
qed

lemma lives_handle: "lives w a (after (handle w c a))"
proof (cases "waits c")
  case False
  then show ?thesis by (intro lives_work [OF rtranclp.rtrancl_refl] work_handle)
next
  case True
  have refl: "lives w a a" by simp
  show ?thesis
  proof (cases c)
    case (HarnessExit i)
    show ?thesis
      by (simp add: HarnessExit handle_harness_exit_def Let_def) (intro conjI impI work_intro refl)
  qed (use True in \<open>auto simp: handle_ask_permission_def handle_ask_elicitation_def
      handle_resolve_permission_def handle_resolve_elicitation_def handle_close_def Let_def
      case_prod_beta split: option.split intro!: work_intro\<close>)
qed

lemma lives_run_command: "lives w a (snd (run_command w c a))"
  using lives_handle [of w a c] by (auto simp: run_command_def case_prod_beta intro!: work_intro)

section \<open>Reachable actors\<close>

text \<open>A presenter's connection takes one event off its channel.\<close>

definition Receive :: "string \<Rightarrow> actor \<Rightarrow> actor" where
  "Receive i a =
     a\<lparr>a_subs := map (\<lambda>s. if sb_id s = i then s\<lparr>sb_queue := tl (sb_queue s)\<rparr> else s) (a_subs a)\<rparr>"

text \<open>
  Other writers (the manager, the HTTP API, other threads' actors) change the store beside the
  actor; nobody else appends to a live thread's log, deletes it, or writes a false snapshot.
\<close>

definition foreign_write :: "actor \<Rightarrow> db \<Rightarrow> bool" where
  "foreign_write a d \<longleftrightarrow> store_step (a_store a) d \<and> log_of (a_id a) d = actor_log a
     \<and> snapshots_ok d \<and> a_id a \<in> tm_id ` set (db_threads d)"

inductive actor_step :: "world \<Rightarrow> actor \<Rightarrow> actor \<Rightarrow> bool" for w :: world where
  command: "actor_step w a (snd (run_command w c a))"
| subscribe: "actor_step w a (Subscribe w a)"
| unsubscribe: "actor_step w a (Unsubscribe i a)"
| receive: "actor_step w a (Receive i a)"
| foreign: "foreign_write a d \<Longrightarrow> actor_step w a (a\<lparr>a_store := d\<rparr>)"

definition honest :: "db \<Rightarrow> thread_meta \<Rightarrow> bool" where
  "honest d m \<longleftrightarrow> store_reachable d \<and> snapshots_ok d \<and> tm_id m \<in> tm_id ` set (db_threads d)"

inductive actor_reachable :: "world \<Rightarrow> actor \<Rightarrow> bool" for w :: world where
  start: "honest d m \<Longrightarrow> log_of (tm_id m) d = [] \<Longrightarrow> Start w d ad m model mode env = Inr (a, cs) \<Longrightarrow>
    actor_reachable w a"
| pending: "honest d m \<Longrightarrow> log_of (tm_id m) d = [] \<Longrightarrow> StartPending d ado m env = (a, cs) \<Longrightarrow>
    actor_reachable w a"
| resume: "honest d m \<Longrightarrow> Resume w d ad m env = Inr (a, cs) \<Longrightarrow> actor_reachable w a"
| restore_idle: "honest d m \<Longrightarrow> actor_reachable w (RestoreIdle d ado m env)"
| restore_closed: "honest d m \<Longrightarrow> RestoreClosed now d m = Inr a \<Longrightarrow> actor_reachable w a"
| restore_pending: "honest d m \<Longrightarrow> actor_reachable w (RestorePending d ado m env)"
| step: "actor_reachable w a \<Longrightarrow> actor_step w a a' \<Longrightarrow> actor_reachable w a'"

inductive_cases actor_stepE: "actor_step w a a'"

lemma suffix_tl: "suffix xs ys \<Longrightarrow> suffix (tl xs) ys"
  by (metis suffix_order.trans suffix_tl)

lemma core_ok_step: "actor_step w a a' \<Longrightarrow> core_ok a \<Longrightarrow> core_ok a'"
proof (induction rule: actor_step.induct)
  case (command a c)
  then show ?case by (rule core_ok_lives [OF lives_run_command])
next
  case (subscribe a)
  have q: "core_ok (a\<lparr>a_tick := n, a_gone := g, a_subs := a_subs a @ ss\<rparr>)"
    if "list_all (sub_ok (actor_log a)) ss" for n g ss
    using subscribe that by (auto simp: core_ok_def store_good_def state_ok_def guard_ok_def subs_ok_def)
  show ?case
  proof (cases "a_stopped a")
    case True
    then have "core_ok (a\<lparr>a_tick := Suc (a_tick a), a_gone := a_gone (Subscribe w a), a_subs := a_subs a @ []\<rparr>)"
      by (intro q) simp
    with True show ?thesis by (simp add: Subscribe_def Let_def case_prod_beta fresh_def tick_def)
  next
    case False
    let ?s = "\<lparr>sb_id = w_uuid w (a_tick a), sb_queue = [], sb_resync = False, sb_closed = False\<rparr>"
    have "core_ok (a\<lparr>a_tick := Suc (a_tick a), a_gone := a_gone a, a_subs := a_subs a @ [?s]\<rparr>)"
      by (intro q) (simp add: sub_ok_def)
    with False show ?thesis by (simp add: Subscribe_def Let_def case_prod_beta fresh_def tick_def)
  qed
next
  case (unsubscribe a i)
  then show ?case
    by (auto simp: Unsubscribe_def core_ok_def store_good_def state_ok_def guard_ok_def subs_ok_def
        list_all_iff)
next
  case (receive a i)
  have "sub_ok l s \<Longrightarrow> sub_ok l (s\<lparr>sb_queue := tl (sb_queue s)\<rparr>)" for l s
    by (auto simp: sub_ok_def intro: suffix_tl)
  with receive show ?case
    by (auto simp: Receive_def core_ok_def store_good_def state_ok_def guard_ok_def subs_ok_def
        list_all_iff)
next
  case (foreign a d)
  then show ?case
    by (auto simp: foreign_write_def core_ok_def store_good_def state_ok_def guard_ok_def subs_ok_def
        intro: store_reachable.step)
qed

lemma restored_turn_open: "restored_turn s = [] \<or> open_in (restored_turn s) s"
proof -
  have "g = foldl (\<lambda>g t. if tu_done t then g else tu_id t) [] us \<Longrightarrow>
      g = [] \<or> list_ex (\<lambda>u. tu_id u = g \<and> \<not> tu_done u) us" for g us
    by (induction us arbitrary: g rule: rev_induct) auto
  then show ?thesis unfolding restored_turn_def open_in_def by blast
qed

lemma restored_is_open_turn: "restored_turn s = open_turn s"
proof -
  have "foldl (\<lambda>g t. if tu_done t then g else tu_id t) [] us =
      (case last_match (\<lambda>t. \<not> tu_done t) us of None \<Rightarrow> [] | Some t \<Rightarrow> tu_id t)" for us
    by (induction us rule: rev_induct) (auto simp: last_match_def)
  then show ?thesis by (simp add: restored_turn_def open_turn_def)
qed

lemma core_ok_start:
  assumes "a_store a = d" and "a_id a = tm_id m" and "a_head a = st_seq (a_state a)"
    and "a_state a = foldl Apply (New (tm_id m)) (log_of (tm_id m) d)" and "a_subs a = []"
    and "a_turnActive a = [] \<or> a_turnActive a = restored_turn (a_state a)"
    and "a_attention a = Attention (a_state a)"
    and "store_reachable d" and "snapshots_ok d" and "tm_id m \<in> tm_id ` set (db_threads d)"
  shows "core_ok a"
proof -
  have "st_seq (a_state a) = int (length (log_of (tm_id m) d))"
    using seq_foldl_log [OF reachable_threads [OF assms(8)] order.refl] assms(4) by simp
  then show ?thesis
    using assms restored_turn_open [of "a_state a"]
    by (auto simp: core_ok_def store_good_def state_ok_def guard_ok_def subs_ok_def)
qed

lemma honest_load: "honest d m \<Longrightarrow> loadState (tm_id m) d = foldl Apply (New (tm_id m)) (log_of (tm_id m) d)"
  by (simp add: honest_def loadState_log reachable_threads)

lemma boot_fields [simp]:
  "a_store (bare_actor d ad m env s) = d" "a_id (bare_actor d ad m env s) = tm_id m"
  "a_state (bare_actor d ad m env s) = s" "a_head (bare_actor d ad m env s) = st_seq s"
  "a_subs (bare_actor d ad m env s) = []" "a_turnActive (bare_actor d ad m env s) = []"
  "a_store (running a) = a_store a" "a_id (running a) = a_id a" "a_state (running a) = a_state a"
  "a_head (running a) = a_head a" "a_subs (running a) = a_subs a"
  "a_turnActive (running a) = a_turnActive a" "a_attention (running a) = Attention (a_state a)"
  "a_store (startCheckpoints w a) = a_store a" "a_id (startCheckpoints w a) = a_id a"
  "a_state (startCheckpoints w a) = a_state a" "a_head (startCheckpoints w a) = a_head a"
  "a_subs (startCheckpoints w a) = a_subs a" "a_turnActive (startCheckpoints w a) = a_turnActive a"
  by (simp_all add: bare_actor_def running_def startCheckpoints_def)

lemma st_seq_New [simp]: "st_seq (New t) = 0"
  by (simp add: New_def)

lemma core_ok_boots:
  assumes "honest d m"
  shows "log_of (tm_id m) d = [] \<Longrightarrow> Start w d ad m model mode env = Inr (a, cs) \<Longrightarrow> core_ok a"
    and "log_of (tm_id m) d = [] \<Longrightarrow> StartPending d ado m env = (a, cs) \<Longrightarrow> core_ok a"
    and "Resume w d ad m env = Inr (a, cs) \<Longrightarrow> core_ok a"
    and "core_ok (RestoreIdle d ado m env)" and "core_ok (RestorePending d ado m env)"
  using honest_load [OF assms] assms
  by (auto simp: Start_def StartPending_def Resume_def RestoreIdle_def RestorePending_def Let_def
      honest_def tick_def split: sum.splits intro!: core_ok_start)

lemma core_ok_RestoreClosed:
  assumes "honest d m" and "RestoreClosed now d m = Inr a"
  shows "core_ok a"
proof (cases "st_closed (loadState (tm_id m) d)")
  case True
  with assms honest_load [OF assms(1)] show ?thesis
    by (auto simp: RestoreClosed_def honest_def intro!: core_ok_start)
next
  case False
  let ?s = "loadState (tm_id m) d"
  obtain ev d' where app: "Append now (tm_id m) (ThreadClosed ''closed'') d = Inr (ev, d')"
    and a: "a = running (bare_actor d' None m [] (Apply ?s ev))"
    using assms(2) False by (auto simp: RestoreClosed_def split: sum.splits)
  have ok: "threads_ok d" using assms(1) by (simp add: honest_def reachable_threads)
  have opt: "append_opt d now (tm_id m) (ThreadClosed ''closed'') = Some (ev, d')"
    using app by (simp add: append_opt_Some)
  show ?thesis
  proof (rule core_ok_start)
    show "a_state a = foldl Apply (New (tm_id m)) (log_of (tm_id m) d')"
      using Append_log_of [OF app, of "tm_id m"] honest_load [OF assms(1)] by (simp add: a)
    show "store_reachable d'" using app assms(1)
      by (auto simp: honest_def intro: store_reachable.step store_step.append)
    show "snapshots_ok d'" using snapshots_ok_Append [OF _ app] assms(1) by (simp add: honest_def)
    show "tm_id m \<in> tm_id ` set (db_threads d')"
      using event_store.append_has [OF ok opt, of "tm_id m"] assms(1) by (simp add: honest_def)
  qed (simp_all add: a)
qed

lemma core_ok_reachable: "actor_reachable w a \<Longrightarrow> core_ok a"
  by (induction rule: actor_reachable.induct)
    (blast intro: core_ok_boots core_ok_RestoreClosed core_ok_step)+

end
