(* ===== verification/ActorProps.thy ===== *)
theory ActorProps
  imports ActorInv
begin

text \<open>
  What the actor promises: its memory is its log, its subscribers miss nothing, a presenter that
  attaches is exactly up to date, a busy thread queues and an idle one starts the oldest prompt,
  every waiting adapter is answered once, a restart loses nothing and stops retrying.
\<close>

section \<open>The effect of the operations\<close>

declare track.simps [simp del] redact.simps [simp del]

definition prompted :: "actor \<Rightarrow> effect list" where
  "prompted a = filter opens (a_out a)"

text \<open>Moves of private fields that reach nobody.\<close>

definition silent :: "actor \<Rightarrow> actor \<Rightarrow> bool" where
  "silent a b \<longleftrightarrow> same_core a b \<and> a_turnActive b = a_turnActive a \<and> a_tick a \<le> a_tick b
     \<and> (\<exists>es. a_out b = a_out a @ es \<and> list_all (allowed False) es)"

lemma silentD:
  assumes "silent a b"
  shows "a_id b = a_id a" "a_store b = a_store a" "a_state b = a_state a" "a_head b = a_head a"
    "a_turnActive b = a_turnActive a" "actor_log b = actor_log a" "a_stopped b = a_stopped a"
    "a_pendingPerm b = a_pendingPerm a" "a_pendingElicit b = a_pendingElicit a"
    "prompted b = prompted a" "filter answers (a_out b) = filter answers (a_out a)"
    "core_ok b = core_ok a"
proof -
  from assms obtain es where es: "a_out b = a_out a @ es" "list_all (allowed False) es"
    by (auto simp: silent_def)
  then have "filter opens es = []" "filter answers es = []"
    by (auto simp: filter_empty_conv list_all_iff allowed_def)
  with es show "prompted b = prompted a" "filter answers (a_out b) = filter answers (a_out a)"
    by (simp_all add: prompted_def)
  show "core_ok b = core_ok a"
    using assms by (intro core_ok_cong) (simp_all add: silent_def same_core_def)
qed (use assms in \<open>simp_all add: silent_def same_core_def\<close>)

lemma silent_refl [intro]: "silent a a"
  by (simp add: silent_def same_core_def)

lemma silent_trans: "silent a b \<Longrightarrow> silent b c \<Longrightarrow> silent a c"
  unfolding silent_def same_core_def by fastforce

lemma silent_steps:
  "silent a (snd (fresh w a))" "silent a (baseline w t a)" "silent a (a\<lparr>a_sent := sent\<rparr>)"
  "silent a (a\<lparr>a_recovery := rec\<rparr>)"
  by (auto simp: silent_def same_core_def fresh_def baseline_def tick_def Let_def)

lemma silent_call: "allowed False (ToHarness (se_id s) c) \<Longrightarrow> silent a (snd (call_harness w s c a))"
  by (simp add: silent_def same_core_def call_harness_def tick_def emit_def)

lemma silent_steer: "silent a (snd (steer w q prompt images a))"
proof -
  have "silent a (snd (call_harness w s (CallSteer q prompt images) a))" for s :: session
    by (rule silent_call) simp
  then show ?thesis
    by (auto simp: steer_def case_prod_beta split: option.split intro: silent_trans silent_steps)
qed

text \<open>An append, as the properties use it.\<close>

lemma append_out:
  "\<exists>es. a_out (snd (append w em a)) = a_out a @ es \<and> list_all (allowed False) es"
proof -
  have "\<exists>es. a_out (noticed w prev em ev (track em b)) = a_out b @ es \<and> list_all (allowed False) es" for prev em ev b
  proof -
    obtain xs where "a_out (track em b) = a_out b @ xs" "list_all (allowed False) xs"
      using track_out [of em b False] by blast
    moreover obtain ys where "a_out (noticed w prev em ev (track em b)) = a_out (track em b) @ ys" "set ys \<subseteq> {Notify}"
      using noticed_out by blast
    moreover have "list_all (allowed False) ys" using \<open>set ys \<subseteq> {Notify}\<close> by (auto simp: list_all_iff)
    ultimately show ?thesis by auto
  qed
  note this [of "st_phase (a_state a)" "redact w a em" _ "(tick a)\<lparr>a_store := _, a_state := _, a_head := _\<rparr>"]
  moreover have "a_out ((tick a)\<lparr>a_store := d, a_state := s, a_head := n\<rparr>) = a_out a" for d s n
    by (simp add: tick_def)
  ultimately show ?thesis
    by (auto simp: append_eq tick_def split: sum.split)
qed

lemma append_quiet:
  "prompted (snd (append w em a)) = prompted a"
  "filter answers (a_out (snd (append w em a))) = filter answers (a_out a)"
proof -
  obtain es where es: "a_out (snd (append w em a)) = a_out a @ es" "list_all (allowed False) es"
    using append_out by blast
  then have "filter opens es = []" "filter answers es = []"
    by (auto simp: filter_empty_conv list_all_iff allowed_def)
  with es show "prompted (snd (append w em a)) = prompted a"
    "filter answers (a_out (snd (append w em a))) = filter answers (a_out a)"
    by (simp_all add: prompted_def)
qed

lemma append_keeps [simp]:
  "a_id (snd (append w em a)) = a_id a" "a_sess (snd (append w em a)) = a_sess a"
  "a_recovery (snd (append w em a)) = a_recovery a" "a_stopped (snd (append w em a)) = a_stopped a"
  "a_pendingPerm (snd (append w em a)) = a_pendingPerm a"
  "a_pendingElicit (snd (append w em a)) = a_pendingElicit a"
  "a_tick a \<le> a_tick (snd (append w em a))"
proof -
  have that: "a_tick y \<le> a_tick (noticed w p em' ev y)" for y p em' ev by simp
  have "a_tick a \<le> a_tick (noticed w p em' ev (track em' ((tick a)\<lparr>a_store := d, a_state := s, a_head := n\<rparr>)))"
    for p em' ev d s n
    using that [of "track em' ((tick a)\<lparr>a_store := d, a_state := s, a_head := n\<rparr>)" p em' ev]
    by (simp add: tick_def)
  then show "a_tick a \<le> a_tick (snd (append w em a))"
    by (auto simp: append_eq tick_def split: sum.split)
qed (auto simp: append_eq tick_def split: sum.split)

lemma append_effect:
  assumes "core_ok a"
  obtains ev where "fst (append w em a) = None" "ev_body ev = stored_body (redact w a em)"
    "ev_seq ev = a_head a + 1"
    "actor_log (snd (append w em a)) = actor_log a @ [ev]"
    "a_state (snd (append w em a)) = apply_body ev (ev_body ev) ((a_state a)\<lparr>st_seq := ev_seq ev\<rparr>)"
    "a_turnActive (snd (append w em a)) =
      (case redact w a em of
         TurnStarted p \<Rightarrow> if a_turnActive a = [] then ts_turnID p else a_turnActive a
       | TurnFinished p \<Rightarrow> if tf_turnID p = a_turnActive a then [] else a_turnActive a
       | _ \<Rightarrow> a_turnActive a)"
proof -
  have ok: "store_good a" "state_ok a" using assms by (simp_all add: core_ok_def)
  obtain ev d where e: "append w em a = (None, noticed w (st_phase (a_state a)) (redact w a em) ev
       (track (redact w a em) ((tick a)\<lparr>a_store := d, a_state := Apply (a_state a) ev, a_head := ev_seq ev\<rparr>)))"
    and seq: "ev_seq ev = a_head a + 1" and body: "ev_body ev = stored_body (redact w a em)"
    and log: "log_of (a_id a) d = actor_log a @ [ev]"
    using append_succeeds [OF ok, of w em] by metis
  show ?thesis
  proof (rule that [OF _ body seq])
    show "fst (append w em a) = None" using e by simp
    show "actor_log (snd (append w em a)) = actor_log a @ [ev]" using e log by (simp add: tick_def)
    show "a_state (snd (append w em a)) = apply_body ev (ev_body ev) ((a_state a)\<lparr>st_seq := ev_seq ev\<rparr>)"
      using e seq state_ok_seq [OF ok] by (simp add: Apply_def)
    show "a_turnActive (snd (append w em a)) =
      (case redact w a em of
         TurnStarted p \<Rightarrow> if a_turnActive a = [] then ts_turnID p else a_turnActive a
       | TurnFinished p \<Rightarrow> if tf_turnID p = a_turnActive a then [] else a_turnActive a
       | _ \<Rightarrow> a_turnActive a)"
      unfolding e snd_conv noticed_fields track_guard by (simp add: tick_def split: event_body.split)
  qed
qed

lemma core_ok_appended [intro]: "core_ok a \<Longrightarrow> core_ok (snd (append w em a))"
  by (rule core_ok_move [OF move.append [of True]]) simp

section \<open>Opening a turn\<close>

lemma name_thread_fields [simp]:
  "a_id (name_thread p ims rec a) = a_id a" "a_state (name_thread p ims rec a) = a_state a"
  "log_of i (a_store (name_thread p ims rec a)) = log_of i (a_store a)"
  "a_turnActive (name_thread p ims rec a) = a_turnActive a"
  "prompted (name_thread p ims rec a) = prompted a"
  by (simp_all add: name_thread_def prompted_def)

lemma opened_effect:
  assumes ok: "core_ok a" and idle: "a_turnActive a = []"
  obtains ev where "fst (opened w p a) = None" "core_ok (snd (opened w p a))"
    "ev_body ev = stored_body (TurnStarted p)"
    "actor_log (snd (opened w p a)) = actor_log a @ [ev]"
    "a_state (snd (opened w p a)) = apply_body ev (ev_body ev) ((a_state a)\<lparr>st_seq := ev_seq ev\<rparr>)"
    "a_turnActive (snd (opened w p a)) = ts_turnID p"
    "prompted (snd (opened w p a)) = prompted a" "a_id (snd (opened w p a)) = a_id a"
    "a_sess (snd (opened w p a)) = a_sess a"
proof -
  let ?b = "baseline w (ts_turnID p) (snd (fresh w a))"
  let ?c = "?b\<lparr>a_turnActive := ts_turnID p\<rparr>"
  have sil: "silent a ?b" by (blast intro: silent_trans silent_steps)
  note b = silentD [OF sil]
  have c: "store_good ?c" "state_ok ?c"
    using ok b(12) by (simp_all add: core_ok_def store_good_def state_ok_def)
  obtain ev d where e: "append w (TurnStarted p) ?c = (None, noticed w (st_phase (a_state ?c)) (TurnStarted p) ev
       (track (TurnStarted p) ((tick ?c)\<lparr>a_store := d, a_state := Apply (a_state ?c) ev, a_head := ev_seq ev\<rparr>)))"
    and seq: "ev_seq ev = a_head ?c + 1" and body: "ev_body ev = stored_body (TurnStarted p)"
    and log: "log_of (a_id ?c) d = actor_log ?c @ [ev]"
    using append_succeeds [OF c, of w "TurnStarted p"] by (metis redact_kind(1))
  have work: "work w True a (snd (opened w p a))" by (rule work_opened [OF work_refl])
  show ?thesis
  proof (rule that)
    show "fst (opened w p a) = None" by (simp add: opened_def e)
    show "core_ok (snd (opened w p a))" by (rule core_ok_work [OF work ok])
    show "ev_body ev = stored_body (TurnStarted p)" by (rule body)
    show "actor_log (snd (opened w p a)) = actor_log a @ [ev]"
      using log b by (simp add: opened_def e tick_def)
    show "a_state (snd (opened w p a)) = apply_body ev (ev_body ev) ((a_state a)\<lparr>st_seq := ev_seq ev\<rparr>)"
      using seq state_ok_seq [OF c] b by (simp add: opened_def e Apply_def)
    show "a_turnActive (snd (opened w p a)) = ts_turnID p"
      unfolding opened_def e snd_conv noticed_fields track_guard by (simp add: tick_def)
    show "prompted (snd (opened w p a)) = prompted a"
      using append_quiet(1) [of w "TurnStarted p" ?c] b by (simp add: opened_def prompted_def)
    show "a_id (snd (opened w p a)) = a_id a" using b by (simp add: opened_def)
    show "a_sess (snd (opened w p a)) = a_sess a"
      by (simp add: opened_def baseline_def fresh_def tick_def Let_def)
  qed
qed

text \<open>
  What \<open>startTurn\<close> leaves: the turn is in the log and the harness was prompted once; it is
  running, or the call failed and the turn ended in that error at once.
\<close>

definition turn_outcome ::
  "world \<Rightarrow> session \<Rightarrow> turn_started_payload \<Rightarrow> prompt_image list \<Rightarrow> actor \<Rightarrow> actor \<Rightarrow> bool" where
  "turn_outcome w s p ims a b \<longleftrightarrow>
     (\<exists>ev rest. actor_log b = actor_log a @ ev # rest \<and> ev_body ev = stored_body (TurnStarted p)
        \<and> prompted b = prompted a @ [ToHarness (se_id s) (CallPrompt (ts_turnID p) (ts_prompt p) ims)]
        \<and> (case rest of
             [] \<Rightarrow> a_turnActive b = ts_turnID p \<and> open_in (ts_turnID p) (a_state b)
           | [e] \<Rightarrow> (\<exists>err. ev_body e = errored (ts_turnID p) err) \<and> a_turnActive b = []
           | _ \<Rightarrow> False))"

lemma startTurn_effect:
  assumes ok: "core_ok a" and idle: "a_turnActive a = []" and t: "w_uuid w (a_tick a) \<noteq> []"
  shows "let p = started w prompt images rec q a; b = snd (startTurn w s prompt images rec q a)
    in core_ok b \<and> turn_outcome w s p images a b
       \<and> (ts_queueID p \<noteq> [] \<longrightarrow> ts_queueID p \<notin> qp_queueID ` set (st_queued (a_state b)))"
proof -
  let ?p = "started w prompt images rec q a"
  let ?t = "ts_turnID ?p"
  have tp: "?t \<noteq> []" using t by (simp add: started_def fresh_def)
  obtain ev where r: "fst (opened w ?p a) = None" "core_ok (snd (opened w ?p a))"
    and body: "ev_body ev = stored_body (TurnStarted ?p)"
    and log: "actor_log (snd (opened w ?p a)) = actor_log a @ [ev]"
    and state: "a_state (snd (opened w ?p a)) = apply_body ev (ev_body ev) ((a_state a)\<lparr>st_seq := ev_seq ev\<rparr>)"
    and guard: "a_turnActive (snd (opened w ?p a)) = ?t"
    and out: "prompted (snd (opened w ?p a)) = prompted a"
    using opened_effect [OF ok idle, of w ?p] by metis
  let ?x = "name_thread prompt images rec (snd (opened w ?p a))"
  let ?c = "call_harness w s (CallPrompt ?t prompt images) ?x"
  have x: "a_id ?x = a_id (snd (opened w ?p a))" "actor_log ?x = actor_log (snd (opened w ?p a))"
    "a_state ?x = a_state (snd (opened w ?p a))" "a_turnActive ?x = ?t" "prompted ?x = prompted a"
    using guard out by simp_all
  have c: "actor_log (snd ?c) = actor_log a @ [ev]" "a_state (snd ?c) = a_state (snd (opened w ?p a))"
    "a_turnActive (snd ?c) = ?t"
    "prompted (snd ?c) = prompted a @ [ToHarness (se_id s) (CallPrompt ?t (ts_prompt ?p) images)]"
    using x log by (simp_all add: call_harness_def tick_def emit_def prompted_def started_def)
  have work: "work w True (snd (opened w ?p a)) (snd ?c)" by (intro work_intro) simp
  have okc: "core_ok (snd ?c)" by (rule core_ok_work [OF work r(2)])
  have gone: "ts_queueID ?p \<notin> qp_queueID ` set (st_queued (a_state (snd ?c)))" if "ts_queueID ?p \<noteq> []"
    using that unfolding c(2) state body
    by (auto simp: apply_turn_started_def leave_queue_def removeQueued_def Let_def)
  show ?thesis
  proof (cases "fst ?c")
    case None
    then have b: "snd (startTurn w s prompt images rec q a) = snd ?c"
      by (simp add: startTurn_eq r(1) Let_def)
    have "open_in ?t (a_state (snd ?c))"
      using okc c(3) tp by (simp add: core_ok_def guard_ok_def)
    then have "turn_outcome w s ?p images a (snd ?c)"
      unfolding turn_outcome_def using c body by (intro exI [of _ ev] exI [of _ "[]"]) auto
    with gone okc show ?thesis unfolding b Let_def by blast
  next
    case (Some e)
    let ?d = "snd (append w (errored ?t e) (snd ?c))"
    have b: "snd (startTurn w s prompt images rec q a) = ?d"
      using Some by (simp add: startTurn_eq r(1) Let_def)
    have em: "redact w (snd ?c) (errored ?t e) = errored ?t e" "stored_body (errored ?t e) = errored ?t e"
      by (simp_all add: errored_def)
    obtain ev2 where d: "ev_body ev2 = errored ?t e" "actor_log ?d = actor_log (snd ?c) @ [ev2]"
      "a_state ?d = apply_body ev2 (ev_body ev2) ((a_state (snd ?c))\<lparr>st_seq := ev_seq ev2\<rparr>)"
      and guard2: "a_turnActive ?d = (case errored ?t e of
         TurnStarted p \<Rightarrow> if a_turnActive (snd ?c) = [] then ts_turnID p else a_turnActive (snd ?c)
       | TurnFinished p \<Rightarrow> if tf_turnID p = a_turnActive (snd ?c) then [] else a_turnActive (snd ?c)
       | _ \<Rightarrow> a_turnActive (snd ?c))"
      by (rule append_effect [OF okc, of w "errored ?t e", unfolded em]) blast
    have guard2: "a_turnActive ?d = []"
      unfolding guard2 using c(3) by (simp add: errored_def harness_text_def finished_def)
    have "st_queued (a_state ?d) = st_queued (a_state (snd ?c))"
      unfolding d(3) d(1) by (simp add: errored_def apply_turn_finished_def Let_def)
    then have "ts_queueID ?p \<noteq> [] \<Longrightarrow> ts_queueID ?p \<notin> qp_queueID ` set (st_queued (a_state ?d))"
      using gone by simp
    moreover have "turn_outcome w s ?p images a ?d"
      unfolding turn_outcome_def
      using c d guard2 body append_quiet(1) [of w "errored ?t e" "snd ?c"]
      by (intro exI [of _ ev] exI [of _ "[ev2]"]) auto
    ultimately show ?thesis unfolding b Let_def using core_ok_appended [OF okc] by blast
  qed
qed

section \<open>A running example\<close>

text \<open>Ids are distinct and not empty; the harness takes every call.\<close>

definition sample_session :: session where
  "sample_session =
     \<lparr>se_id = 1, se_steer = True, se_modes = True, se_models = True, se_efforts = True,
      se_jobs = True, se_catalogue = True, se_composer = True, se_quota = True, se_mcp = True\<rparr>"

definition sample_world :: world where
  "sample_world =
     \<lparr>w_now = (\<lambda>n. 1000 + int n), w_uuid = (\<lambda>n. ''i'' @ replicate n CHR ''x''),
      w_create = (\<lambda>n opts. Inr sample_session), w_answer = (\<lambda>n c. None), w_value = (\<lambda>n c. JNull),
      w_cardLive = (\<lambda>i. False), w_imagePath = None, w_redact = None, w_checkpointer = (\<lambda>cwd. False),
      w_baseline = (\<lambda>n. False), w_timezone = (\<lambda>z. True), w_storeText = (\<lambda>e. [])\<rparr>"

definition sample_idle :: actor where
  "sample_idle = RestoreIdle sample_db (Some ''pi'') (sample_thread ''t1'') []"

definition sample_ready :: actor where
  "sample_ready = Subscribe sample_world (run_commands sample_world [Activate [] [] [] [] True] sample_idle)"

definition sample_busy :: actor where
  "sample_busy = run_commands sample_world [Prompt ''first'' [] None] sample_ready"

lemma sample_honest: "honest sample_db (sample_thread ''t1'')"
  using sample_db_reachable
  by (simp add: honest_def snapshots_ok_def) (simp add: sample_db_def sample_thread_def inserted_thread_def empty_db_def)

lemma reachable_commands: "actor_reachable w a \<Longrightarrow> actor_reachable w (run_commands w cs a)"
proof (induction cs arbitrary: a)
  case (Cons c cs)
  have "actor_reachable w (snd (run_command w c a))"
    by (rule actor_reachable.step [OF Cons.prems actor_step.command])
  then show ?case using Cons.IH by (simp add: run_commands_def)
qed (simp add: run_commands_def)

lemma sample_reachable:
  "actor_reachable sample_world sample_idle" "actor_reachable sample_world sample_ready"
  "actor_reachable sample_world sample_busy"
proof -
  show idle: "actor_reachable sample_world sample_idle"
    unfolding sample_idle_def by (rule actor_reachable.restore_idle [OF sample_honest])
  show ready: "actor_reachable sample_world sample_ready"
    unfolding sample_ready_def
    by (rule actor_reachable.step [OF reachable_commands [OF idle] actor_step.subscribe])
  show "actor_reachable sample_world sample_busy"
    unfolding sample_busy_def by (rule reachable_commands [OF ready])
qed

section \<open>The log, the memory and the subscribers\<close>

text \<open>
  C1: at every moment an actor's state in memory is the fold of the stored log, its head is the
  number of the log's last event, the snapshots beside it are honest and the attention the
  thread list reads is that of the state.
\<close>

theorem actor_mirrors_log:
  assumes "actor_reachable w a"
  shows "a_state a = foldl Apply (New (a_id a)) (actor_log a)
    \<and> a_head a = int (length (actor_log a)) \<and> st_seq (a_state a) = a_head a
    \<and> loadState (a_id a) (a_store a) = a_state a
    \<and> a_attention a = Attention (a_state a)"
proof -
  have ok: "core_ok a" by (rule core_ok_reachable [OF assms])
  then have g: "store_good a" and s: "state_ok a" by (simp_all add: core_ok_def)
  have "loadState (a_id a) (a_store a) = foldl Apply (New (a_id a)) (actor_log a)"
    using g by (intro loadState_log [OF store_good_threads]) (simp_all add: store_good_def)
  with ok s state_ok_seq [OF g s] show ?thesis by (simp add: core_ok_def state_ok_def)
qed

theorem actor_mirrors_log_witness:
  "loadState (a_id sample_busy) (a_store sample_busy) = a_state sample_busy"
  using actor_mirrors_log [OF sample_reachable(3)] by blast

text \<open>A further prompt, which waits behind the running turn.\<close>

definition sample_told :: actor where
  "sample_told = snd (run_command sample_world (Prompt ''later'' [] None) sample_busy)"

text \<open>
  What has become of a subscriber once the events \<open>new\<close> have been appended: it has them all behind
  what it had, or it is gone, with as many as its queue held, to be told to resync, or because the
  loop has ended.
\<close>

definition given :: "subscriber \<Rightarrow> event list \<Rightarrow> subscriber" where
  "given s new = s\<lparr>sb_queue := sb_queue s @ new\<rparr>"

definition let_go :: "subscriber \<Rightarrow> event list \<Rightarrow> bool \<Rightarrow> subscriber \<Rightarrow> bool" where
  "let_go s new over g \<longleftrightarrow> sb_id g = sb_id s \<and> prefix (sb_queue g) (sb_queue s @ new)
     \<and> (if sb_closed g then over
        else sb_resync g \<and> length (sb_queue g) = SubscriberQueue \<and> SubscriberQueue < length (sb_queue s @ new))"

definition passed_on :: "actor \<Rightarrow> actor \<Rightarrow> bool" where
  "passed_on a b \<longleftrightarrow> a_id b = a_id a
     \<and> (\<exists>new ds. actor_log b = actor_log a @ new \<and> a_gone b = a_gone a @ ds
          \<and> set (a_subs b) \<subseteq> (\<lambda>s. given s new) ` set (a_subs a)
          \<and> (\<forall>s\<in>set (a_subs a). given s new \<in> set (a_subs b) \<or> (\<exists>g\<in>set ds. let_go s new (a_stopped b) g)))"

lemma passed_on_refl: "passed_on a a"
  by (auto simp: passed_on_def given_def)

lemma passed_on_same:
  assumes "passed_on a b" and "a_id c = a_id b" and "actor_log c = actor_log b" and "a_subs c = a_subs b"
    and "a_gone c = a_gone b" and "a_stopped b \<longrightarrow> a_stopped c"
  shows "passed_on a c"
proof -
  have "let_go s new (a_stopped b) g \<Longrightarrow> let_go s new (a_stopped c) g" for s new g
    using assms(6) by (auto simp: let_go_def split: if_splits)
  with assms show ?thesis unfolding passed_on_def by metis
qed

lemma let_go_later: "let_go s new over g \<Longrightarrow> let_go s (new @ es) over g"
  using prefix_order.trans [of "sb_queue g" "sb_queue s @ new" "sb_queue s @ new @ es"]
  by (auto simp: let_go_def split: if_splits)

lemma passed_on_append:
  assumes "passed_on a b" and "store_good b" and "state_ok b" and "subs_ok b"
  shows "passed_on a (snd (append w em b))"
proof -
  let ?c = "snd (append w em b)"
  obtain ev where c: "a_id ?c = a_id b" "actor_log ?c = actor_log b @ [ev]" "a_stopped ?c = a_stopped b"
    "a_subs ?c = filter (\<lambda>s. \<not> sb_resync s) (map (deliver ev) (a_subs b))"
    "a_gone ?c = a_gone b @ filter sb_resync (map (deliver ev) (a_subs b))"
    by (rule append_succeeds [OF assms(2,3), of w em]) (simp add: tick_def)
  obtain new ds where b: "a_id b = a_id a" "actor_log b = actor_log a @ new" "a_gone b = a_gone a @ ds"
    "set (a_subs b) \<subseteq> (\<lambda>s. given s new) ` set (a_subs a)"
    "\<forall>s\<in>set (a_subs a). given s new \<in> set (a_subs b) \<or> (\<exists>g\<in>set ds. let_go s new (a_stopped b) g)"
    using assms(1) unfolding passed_on_def by blast
  let ?ds = "ds @ filter sb_resync (map (deliver ev) (a_subs b))"
  have room: "deliver ev (given s new) = given s (new @ [ev])"
    if "length (sb_queue (given s new)) < SubscriberQueue" for s
    using that by (simp add: deliver_def given_def)
  have full: "let_go s (new @ [ev]) (a_stopped b) (deliver ev (given s new))"
    if "given s new \<in> set (a_subs b)" "\<not> length (sb_queue (given s new)) < SubscriberQueue" for s
  proof -
    have "length (sb_queue (given s new)) \<le> SubscriberQueue" "\<not> sb_closed (given s new)"
      using assms(4) that(1) by (auto simp: subs_ok_def list_all_iff sub_ok_def)
    with that(2) show ?thesis by (simp add: deliver_def given_def let_go_def)
  qed
  have open_subs: "\<not> sb_resync s" if "s \<in> set (a_subs b)" for s
    using assms(4) that by (auto simp: subs_ok_def list_all_iff sub_ok_def)
  have "set (a_subs ?c) \<subseteq> (\<lambda>s. given s (new @ [ev])) ` set (a_subs a)"
  proof
    fix x assume "x \<in> set (a_subs ?c)"
    then obtain s where s: "s \<in> set (a_subs a)" "x = deliver ev (given s new)" "\<not> sb_resync x"
      using b(4) by (auto simp: c(4))
    then have "length (sb_queue (given s new)) < SubscriberQueue" by (auto simp: deliver_def split: if_splits)
    with s room show "x \<in> (\<lambda>s. given s (new @ [ev])) ` set (a_subs a)" by auto
  qed
  moreover have "given s (new @ [ev]) \<in> set (a_subs ?c) \<or> (\<exists>g\<in>set ?ds. let_go s (new @ [ev]) (a_stopped ?c) g)"
    if s: "s \<in> set (a_subs a)" for s
  proof (cases "given s new \<in> set (a_subs b)")
    case True
    show ?thesis
    proof (cases "length (sb_queue (given s new)) < SubscriberQueue")
      case fits: True
      have "\<not> sb_resync (given s (new @ [ev]))" using open_subs [OF True] by (simp add: given_def)
      then have "given s (new @ [ev]) \<in> set (a_subs ?c)"
        unfolding c(4) using True by (auto simp: room [OF fits, symmetric])
      then show ?thesis ..
    next
      case False
      have "sb_resync (deliver ev (given s new))" using False by (simp add: deliver_def)
      then have "deliver ev (given s new) \<in> set ?ds" using True by auto
      with full [OF True False] show ?thesis unfolding c(3) by blast
    qed
  next
    case False
    then obtain g where "g \<in> set ds" "let_go s new (a_stopped b) g" using b(5) s by blast
    then show ?thesis using let_go_later unfolding c(3) by fastforce
  qed
  ultimately show ?thesis
    unfolding passed_on_def
    by (intro conjI exI [of _ "new @ [ev]"] exI [of _ ?ds]) (simp_all add: b(1,3) c(1,5) b(2) [unfolded b(1)] c(2) [unfolded c(1) b(1)])
qed

lemma passed_on_move: "move w x b c \<Longrightarrow> passed_on a b \<Longrightarrow> core_ok b \<Longrightarrow> passed_on a c"
proof (induction rule: move.induct)
  case (inner b c)
  then show ?case by (intro passed_on_same [of a b c]) (auto simp: same_core_def)
next
  case (append em b)
  then show ?case by (intro passed_on_append) (simp_all add: core_ok_def)
next
  case (open_turn b p)
  let ?b = "b\<lparr>a_turnActive := ts_turnID p\<rparr>"
  have "passed_on a ?b" by (rule passed_on_same [OF open_turn.prems(1)]) simp_all
  with open_turn.prems(2) show ?case
    by (intro passed_on_append) (simp_all add: core_ok_def store_good_def state_ok_def subs_ok_def)
qed (auto intro: passed_on_same)

lemma passed_on_life: "life w b c \<Longrightarrow> passed_on a b \<Longrightarrow> core_ok b \<Longrightarrow> passed_on a c"
proof (induction rule: life.induct)
  case (hung_up b)
  obtain new ds where b: "a_id b = a_id a" "actor_log b = actor_log a @ new" "a_gone b = a_gone a @ ds"
    "\<forall>s\<in>set (a_subs a). given s new \<in> set (a_subs b) \<or> (\<exists>g\<in>set ds. let_go s new (a_stopped b) g)"
    using hung_up.prems(1) unfolding passed_on_def by blast
  let ?c = "close_subscribers b" and ?ds = "ds @ map (\<lambda>s. s\<lparr>sb_closed := True\<rparr>) (a_subs b)"
  have "let_go s new True ((given s new)\<lparr>sb_closed := True\<rparr>)" for s by (simp add: let_go_def given_def)
  then have "\<forall>s\<in>set (a_subs a). \<exists>g\<in>set ?ds. let_go s new (a_stopped ?c) g"
    using b(4) hung_up.hyps by (auto simp: close_subscribers_def) blast+
  then show ?case
    unfolding passed_on_def
    by (intro conjI exI [of _ new] exI [of _ ?ds]) (simp_all add: b(1,3) b(2) [unfolded b(1)] close_subscribers_def)
next
  case (moved b c)
  then show ?case by (blast intro: passed_on_move)
qed (auto intro: passed_on_same)

lemma passed_on_lives: "lives w a b \<Longrightarrow> core_ok a \<Longrightarrow> passed_on a b"
proof (induction rule: rtranclp_induct)
  case (step b c)
  then have "core_ok b" by (blast intro: core_ok_lives)
  with step show ?case by (blast intro: passed_on_life)
qed (rule passed_on_refl)

text \<open>
  C17: a connected subscriber misses nothing.  What it has not read yet is the end of the log, without
  a gap and never more than the queue holds; and after any command it has, behind what it had, every
  event the command appended, or it has been let go: with a full queue that could not have held them
  all, and to be told to resync, or because the loop ended with the command.
\<close>

theorem subscriber_misses_nothing:
  assumes "actor_reachable w a" and "s \<in> set (a_subs a)" and "b = snd (run_command w c a)"
  shows "(\<exists>k. sb_queue s = drop k (actor_log a)) \<and> length (sb_queue s) \<le> SubscriberQueue
    \<and> \<not> sb_resync s \<and> \<not> sb_closed s
    \<and> (\<exists>new ds. actor_log b = actor_log a @ new \<and> a_gone b = a_gone a @ ds
        \<and> (s\<lparr>sb_queue := sb_queue s @ new\<rparr> \<in> set (a_subs b)
           \<or> (\<exists>g\<in>set ds. sb_id g = sb_id s \<and> prefix (sb_queue g) (sb_queue s @ new)
                \<and> (if sb_closed g then a_stopped b
                   else sb_resync g \<and> length (sb_queue g) = SubscriberQueue
                     \<and> SubscriberQueue < length (sb_queue s @ new)))))"
proof -
  have ok: "core_ok a" by (rule core_ok_reachable [OF assms(1)])
  then have "sub_ok (actor_log a) s" using assms(2) by (simp add: core_ok_def subs_ok_def list_all_iff)
  moreover from this obtain zs where "actor_log a = zs @ sb_queue s" by (auto simp: sub_ok_def suffix_def)
  then have "sb_queue s = drop (length zs) (actor_log a)" by simp
  moreover obtain new ds where "actor_log b = actor_log a @ new" "a_gone b = a_gone a @ ds"
      "given s new \<in> set (a_subs b) \<or> (\<exists>g\<in>set ds. let_go s new (a_stopped b) g)"
    using passed_on_lives [OF lives_run_command ok, of w c] assms(2,3) unfolding passed_on_def by blast
  ultimately show ?thesis unfolding given_def let_go_def sub_ok_def by blast
qed

theorem subscriber_misses_nothing_witness:
  "\<exists>new ds. actor_log sample_told = actor_log sample_busy @ new \<and> a_gone sample_told = a_gone sample_busy @ ds \<and> ds = []
    \<and> (hd (a_subs sample_busy))\<lparr>sb_queue := sb_queue (hd (a_subs sample_busy)) @ new\<rparr> \<in> set (a_subs sample_told)"
proof -
  have "a_subs sample_busy \<noteq> []" by code_simp
  then obtain new ds where n: "actor_log sample_told = actor_log sample_busy @ new" "a_gone sample_told = a_gone sample_busy @ ds"
     "(hd (a_subs sample_busy))\<lparr>sb_queue := sb_queue (hd (a_subs sample_busy)) @ new\<rparr> \<in> set (a_subs sample_told)
       \<or> (\<exists>g\<in>set ds. True)"
    using subscriber_misses_nothing [OF sample_reachable(3) hd_in_set sample_told_def] by blast
  have "length (a_gone sample_told) = length (a_gone sample_busy)" by code_simp
  with n(2) have "ds = []" by simp
  with n show ?thesis by auto
qed

text \<open>
  C12: a presenter that attaches with the state it had at its cursor is exactly up to date after
  it, by a snapshot or by at most a thousand events, and is told the number it is up to date
  with; what its subscription queued meanwhile changes nothing when it is applied again.
\<close>

theorem attach_catches_up:
  assumes "actor_reachable w a" and "\<not> a_stopped a" and "0 \<le> c"
  shows "(case Attach c cursor a of
      Inl e \<Rightarrow> False
    | Inr (AttachSnapshot s n) \<Rightarrow>
        (\<not> cursor \<or> c > a_head a \<or> a_head a - c > MaxReplayGap) \<and> ensure_index s = a_state a \<and> n = a_head a
    | Inr (AttachReplay evs n) \<Rightarrow>
        cursor \<and> length evs \<le> 1000 \<and> n = a_head a
        \<and> foldl Apply (foldl Apply (New (a_id a)) (take (nat c) (actor_log a))) evs = a_state a)
    \<and> list_all (\<lambda>s. foldl Apply (a_state a) (sb_queue s) = a_state a) (a_subs a)"
proof -
  have ok: "core_ok a" by (rule core_ok_reachable [OF assms(1)])
  then have g: "store_good a" and s: "state_ok a" by (simp_all add: core_ok_def)
  note thr = store_good_threads [OF g]
  let ?l = "actor_log a" and ?evs = "ReadEvents (a_id a) c (int 1000) (a_store a)"
  have state: "a_state a = foldl Apply (New (a_id a)) ?l" and head: "a_head a = int (length ?l)"
    using s by (simp_all add: state_ok_def)
  have clone: "ensure_index (Clone (a_state a)) = a_state a" "st_seq (Clone (a_state a)) = a_head a"
  proof -
    show "ensure_index (Clone (a_state a)) = a_state a"
      unfolding state by (rule ensure_index_Clone) (simp_all add: wf_items_fold indexed_foldl indexed_New)
    show "st_seq (Clone (a_state a)) = a_head a" using state_ok_seq [OF g s] by (simp add: Clone_def)
  qed
  have queues: "foldl Apply (a_state a) (sb_queue x) = a_state a" if "x \<in> set (a_subs a)" for x
  proof (rule foldl_Apply_stale)
    have "set (sb_queue x) \<subseteq> set ?l"
      using ok that by (auto simp: core_ok_def subs_ok_def list_all_iff sub_ok_def dest: set_mono_suffix)
    then show "\<forall>ev\<in>set (sb_queue x). ev_seq ev \<le> st_seq (a_state a)"
      unfolding state using seq_foldl_ge_event by blast
  qed
  have replay: "length ?evs \<le> 1000 \<and> (if ?evs = [] then c else ev_seq (last ?evs)) = a_head a
      \<and> foldl Apply (foldl Apply (New (a_id a)) (take (nat c) ?l)) ?evs = a_state a"
    if "a_head a - c \<le> 1000" "c \<le> a_head a"
  proof -
    have evs: "?evs = drop (nat c) ?l"
      using event_store.read_slice [OF thr, of "a_id a" c 1000] that head by (simp add: le_nat_iff)
    have "(if ?evs = [] then c else ev_seq (last ?evs)) = a_head a"
    proof (cases "?evs = []")
      case True
      with evs head that assms(3) show ?thesis by auto
    next
      case False
      then have "ev_seq (last ?evs) = int (nat c + length ?evs)"
        by (rule event_store.last_page [OF thr])
      with False evs head that assms(3) show ?thesis by (simp del: of_nat_add)
    qed
    moreover have "length ?evs \<le> 1000" using evs head that by simp
    moreover have "foldl Apply (foldl Apply (New (a_id a)) (take (nat c) ?l)) (drop (nat c) ?l) = a_state a"
      unfolding state by (metis append_take_drop_id foldl_append)
    ultimately show ?thesis using evs by simp
  qed
  show ?thesis
  proof (cases "\<not> cursor \<or> a_head a - c < 0 \<or> a_head a - c > MaxReplayGap")
    case True
    with clone queues assms(2) show ?thesis by (auto simp: Attach_def list_all_iff)
  next
    case False
    with replay queues show ?thesis by (auto simp: Attach_def list_all_iff Let_def)
  qed
qed

theorem attach_catches_up_witness:
  "(case Attach 1 True sample_busy of
      Inr (AttachReplay evs n) \<Rightarrow> n = a_head sample_busy | _ \<Rightarrow> False)"
proof -
  have "\<not> a_stopped sample_busy" "a_head sample_busy = 1" by code_simp+
  with attach_catches_up [OF sample_reachable(3), of 1 True] show ?thesis
    by (auto split: sum.splits attach_result.splits)
qed

section \<open>Prompts\<close>

lemma steer_fields: "a_turnActive (snd (steer w q p ims a)) = a_turnActive a"
  by (rule silentD [OF silent_steer])

text \<open>
  C19: a prompt that arrives while a turn runs is queued behind it: one event, at the end of the
  queue, under the id the presenter is answered with; the running turn keeps the thread and the
  harness is not told to start another.
\<close>

theorem busy_prompt_waits:
  assumes "actor_reachable w a" and "\<not> a_stopped a" and "\<not> st_closed (a_state a)"
    and "a_turnActive a \<noteq> []"
  shows "\<exists>q sent ts b. run_command w (Prompt prompt images None) a = (Some (QueuedAs q, None), b)
    \<and> map ev_body (actor_log b) = map ev_body (actor_log a) @
        [PromptQueued \<lparr>pq_queueID = q, pq_prompt = prompt, pq_images = map stored_image images, pq_sent = sent\<rparr>]
    \<and> st_queued (a_state b) = st_queued (a_state a) @
        [\<lparr>qp_queueID = q, qp_prompt = prompt, qp_images = map stored_image images, qp_queuedAt = ts, qp_sent = sent\<rparr>]
    \<and> a_turnActive b = a_turnActive a \<and> filter opens (a_out b) = filter opens (a_out a)"
proof -
  let ?q = "fst (fresh w a)"
  let ?s = "steer w ?q prompt images (snd (fresh w a))"
  let ?p = "\<lparr>pq_queueID = ?q, pq_prompt = prompt, pq_images = images, pq_sent = fst ?s\<rparr>"
  let ?b = "snd (append w (PromptQueued ?p) (snd ?s))"
  have sil: "silent a (snd ?s)" by (rule silent_trans [OF silent_steps(1) silent_steer])
  note b = silentD [OF sil]
  have ok: "core_ok (snd ?s)" using core_ok_reachable [OF assms(1)] b by simp
  have em: "redact w (snd ?s) (PromptQueued ?p) = PromptQueued ?p" by (simp add: redact.simps)
  obtain ev where ev: "ev_body ev = stored_body (PromptQueued ?p)"
    "actor_log ?b = actor_log a @ [ev]"
    "a_state ?b = apply_body ev (ev_body ev) ((a_state a)\<lparr>st_seq := ev_seq ev\<rparr>)"
    "a_turnActive ?b = a_turnActive a"
    by (rule append_effect [OF ok, of w "PromptQueued ?p", unfolded em]) (simp add: b)
  have "handle_prompt w prompt images None a = answer (QueuedAs ?q) ?b"
    using assms by (simp add: handle_prompt_def queue_prompt_def Let_def case_prod_beta)
  moreover have "dispatchQueued w ?b = ?b"
    using ev(4) assms(4) by (simp add: dispatchQueued_def split: option.split)
  ultimately have run: "run_command w (Prompt prompt images None) a = (Some (QueuedAs ?q, None), ?b)"
    using assms(2) by (simp add: run_command_def answer_def)
  have "prompted ?b = prompted a" using append_quiet(1) b(10) by metis
  then show ?thesis
    unfolding run using ev
    by (intro exI [of _ ?q] exI [of _ "fst ?s"] exI [of _ "ev_timestamp ev"] exI [of _ ?b])
      (simp add: apply_prompt_queued_def prompted_def)
qed

theorem busy_prompt_waits_witness:
  "\<exists>q b. run_command sample_world (Prompt ''second'' [] None) sample_busy = (Some (QueuedAs q, None), b)
     \<and> a_turnActive b = a_turnActive sample_busy"
proof -
  have "\<not> a_stopped sample_busy" "\<not> st_closed (a_state sample_busy)" "a_turnActive sample_busy \<noteq> []"
    by code_simp+
  with busy_prompt_waits [OF sample_reachable(3), of "''second''" "[]"] show ?thesis by blast
qed

text \<open>
  C18: whatever command leaves the thread idle with a harness and nothing to recover, the loop
  then starts the oldest prompt the harness does not hold, the one ahead of which every entry of the
  queue has already been handed to the harness: its turn is in the log under the entry's id, the
  harness is prompted once with its text, the entry has left the queue, and the turn is running
  unless the call failed.
\<close>

theorem dispatch_starts_oldest:
  assumes "actor_reachable w a" and "\<not> a_stopped a" and "handle w c a = (r, False, b)"
    and "a_sess b = Some s" and "a_turnActive b = []"
    and "\<not> st_closed (a_state b)" and "a_recovery b = None"
    and "st_queued (a_state b) = ahead @ q # behind" and "list_all (\<lambda>p. qp_queueID p \<in> set (a_sent b)) ahead"
    and "qp_queueID q \<notin> set (a_sent b)"
    and "w_uuid w (a_tick b) \<noteq> []" and "qp_queueID q \<noteq> []"
  shows "turn_outcome w s
      \<lparr>ts_turnID = w_uuid w (a_tick b), ts_prompt = qp_prompt q,
       ts_images = resolveImages w b (qp_images q), ts_recovery = None, ts_queueID = qp_queueID q\<rparr>
      (resolveImages w b (qp_images q)) b (snd (run_command w c a))
    \<and> qp_queueID q \<notin> qp_queueID ` set (st_queued (a_state (snd (run_command w c a))))"
proof -
  have ok: "core_ok b"
    using core_ok_lives [OF lives_handle core_ok_reachable [OF assms(1)], of w c] assms(3) by simp
  have "next_unsent b = Some q"
    using assms(9,10) by (simp add: next_unsent_def assms(8) find_append list_all_iff find_None_iff [THEN iffD2])
  then have d: "snd (run_command w c a) = snd (startTurn w s (qp_prompt q) (resolveImages w b (qp_images q))
      None (qp_queueID q) b)"
    using assms(2-7) by (simp add: run_command_def dispatchQueued_def assms(8))
  show ?thesis
    using startTurn_effect [OF ok assms(5,11), where s = s and prompt = "qp_prompt q"
        and images = "resolveImages w b (qp_images q)" and rec = None and q = "qp_queueID q"] assms(12)
    by (simp add: d Let_def started_def fresh_def)
qed

text \<open>A prompt sent while the workspace was prepared, started by the activation.\<close>

definition sample_waiting :: actor where
  "sample_waiting =
     run_commands sample_world [Prompt ''early'' [] None] (fst (StartPending sample_db (Some ''pi'') (sample_thread ''t1'') []))"

definition sample_activated :: handled where
  "sample_activated = handle sample_world (Activate ''/w'' [] [] [] False) sample_waiting"

lemma sample_waiting_reachable: "actor_reachable sample_world sample_waiting"
proof -
  have "log_of (tm_id (sample_thread ''t1'')) sample_db = []"
    by (simp add: sample_db_def log_of_def empty_db_def)
  then have "actor_reachable sample_world (fst (StartPending sample_db (Some ''pi'') (sample_thread ''t1'') []))"
    by (rule actor_reachable.pending [OF sample_honest]) (rule surjective_pairing)
  then show ?thesis unfolding sample_waiting_def by (rule reachable_commands)
qed

theorem dispatch_starts_oldest_witness:
  "\<exists>p. ts_prompt p = ''early'' \<and> turn_outcome sample_world sample_session p [] (after sample_activated)
      (snd (run_command sample_world (Activate ''/w'' [] [] [] False) sample_waiting))"
proof -
  let ?b = "after sample_activated"
  have h: "handle sample_world (Activate ''/w'' [] [] [] False) sample_waiting = (fst sample_activated, False, ?b)"
    by (simp add: sample_activated_def prod_eq_iff) code_simp
  have facts: "\<not> a_stopped sample_waiting" "a_sess ?b = Some sample_session" "a_turnActive ?b = []"
    "\<not> st_closed (a_state ?b)" "a_recovery ?b = None" "w_uuid sample_world (a_tick ?b) \<noteq> []"
    by code_simp+
  have "map qp_prompt (st_queued (a_state ?b)) = [''early'']" "map qp_images (st_queued (a_state ?b)) = [[]]"
    "map qp_queueID (st_queued (a_state ?b)) = [''i'']" and sent: "a_sent ?b = []"
    by code_simp+
  then obtain q where q: "st_queued (a_state ?b) = [] @ q # []" "qp_prompt q = ''early''" "qp_images q = []" "qp_queueID q = ''i''"
    by auto
  have "list_all (\<lambda>p. qp_queueID p \<in> set (a_sent ?b)) []" "qp_queueID q \<notin> set (a_sent ?b)" "qp_queueID q \<noteq> []"
    using q sent by simp_all
  from dispatch_starts_oldest [OF sample_waiting_reachable facts(1) h facts(2-5) q(1) this(1,2) facts(6) this(3)] q(2,3)
  show ?thesis by (intro exI) (auto simp: resolveImages_def)
qed

end
