(* ===== verification/ActorWaiters.thy ===== *)
theory ActorWaiters
  imports ActorProps
begin

text \<open>
  The adapter goroutines that wait on a human: what is asked, what is waiting and what has been
  answered balance after every command, so nobody is answered twice and nobody is forgotten.
\<close>

section \<open>The balance\<close>

text \<open>A waiter is its channel, marked by the map it waits in.\<close>

datatype waiter = PermissionWaiter nat | QuestionWaiter nat

fun answer_of :: "effect \<Rightarrow> waiter list" where
  "answer_of (AnswerPermission ch ou) = [PermissionWaiter ch]"
| "answer_of (AnswerElicitation ch r) = [QuestionWaiter ch]"
| "answer_of _ = []"

definition answered :: "actor \<Rightarrow> waiter multiset" where
  "answered a = mset (concat (map answer_of (a_out a)))"

definition waiting :: "actor \<Rightarrow> waiter multiset" where
  "waiting a = mset (map (PermissionWaiter \<circ> snd) (a_pendingPerm a))
     + mset (map (QuestionWaiter \<circ> snd) (a_pendingElicit a))"

fun asks :: "command \<Rightarrow> waiter multiset" where
  "asks (AskPermission req ch) = {#PermissionWaiter ch#}"
| "asks (AskElicitation req ch) = {#QuestionWaiter ch#}"
| "asks _ = {#}"

fun asked :: "world \<Rightarrow> command list \<Rightarrow> actor \<Rightarrow> waiter multiset" where
  "asked w [] a = {#}"
| "asked w (c # cs) a = (if a_stopped a then {#} else asks c) + asked w cs (snd (run_command w c a))"

definition fresh_ids :: "world \<Rightarrow> nat \<Rightarrow> (string \<times> nat) list \<Rightarrow> bool" where
  "fresh_ids w n ps \<longleftrightarrow> distinct (map fst ps) \<and> fst ` set ps \<subseteq> w_uuid w ` {..<n}"

definition waiters_ok :: "world \<Rightarrow> actor \<Rightarrow> bool" where
  "waiters_ok w a \<longleftrightarrow> fresh_ids w (a_tick a) (a_pendingPerm a) \<and> fresh_ids w (a_tick a) (a_pendingElicit a)
     \<and> (a_stopped a \<longrightarrow> a_pendingPerm a = [] \<and> a_pendingElicit a = [])"

lemma fresh_ids_mono: "fresh_ids w n ps \<Longrightarrow> n \<le> m \<Longrightarrow> fresh_ids w m ps"
proof -
  assume "fresh_ids w n ps" "n \<le> m"
  moreover from this have "w_uuid w ` {..<n} \<subseteq> w_uuid w ` {..<m}" by (intro image_mono) simp
  ultimately show ?thesis unfolding fresh_ids_def by blast
qed

lemma fresh_ids_filter: "fresh_ids w n ps \<Longrightarrow> fresh_ids w n (filter P ps)"
  by (auto simp: fresh_ids_def distinct_map_filter)

lemma fresh_ids_new:
  assumes "inj (w_uuid w)" and "fresh_ids w n ps"
  shows "fresh_ids w (Suc n) (ps @ [(w_uuid w n, ch)])" and "drop_waiter (w_uuid w n) ps = ps"
proof -
  have new: "w_uuid w n \<notin> fst ` set ps"
    using assms by (auto simp: fresh_ids_def inj_eq dest!: subsetD)
  show "fresh_ids w (Suc n) (ps @ [(w_uuid w n, ch)])"
    using assms(2) new by (simp add: fresh_ids_def lessThan_Suc subset_insertI2)
  show "drop_waiter (w_uuid w n) ps = ps"
    using new unfolding drop_waiter_def by (intro filter_True) (metis image_eqI)
qed

lemma fresh_ids_Nil [simp]: "fresh_ids w n []"
  by (simp add: fresh_ids_def)

text \<open>Taking one waiter out of its map.\<close>

lemma drop_waiter_balance:
  assumes "distinct (map fst ps)" and "find_waiter i ps = Some ch"
  shows "mset (map (f \<circ> snd) ps) = add_mset (f ch) (mset (map (f \<circ> snd) (drop_waiter i ps)))"
  using assms
proof (induction ps)
  case (Cons p ps)
  show ?case
  proof (cases "fst p = i")
    case True
    then have "drop_waiter i ps = ps" using Cons.prems(1)
      unfolding drop_waiter_def by (intro filter_True) (metis distinct.simps(2) image_eqI list.set_map list.simps(9))
    with True Cons.prems(2) show ?thesis by (auto simp: find_waiter_def drop_waiter_def)
  next
    case False
    then show ?thesis
      using Cons by (cases p) (auto simp: find_waiter_def drop_waiter_def)
  qed
qed (simp add: find_waiter_def)

lemma answered_filter: "answered a = mset (concat (map answer_of (filter answers (a_out a))))"
proof -
  have "concat (map answer_of es) = concat (map answer_of (filter answers es))" for es
  proof (induction es)
    case (Cons e es)
    then show ?case by (cases e) simp_all
  qed simp
  then show ?thesis by (simp add: answered_def)
qed

text \<open>No run of moves touches the balance.\<close>

definition same_waiters :: "actor \<Rightarrow> actor \<Rightarrow> bool" where
  "same_waiters a b \<longleftrightarrow> a_pendingPerm b = a_pendingPerm a \<and> a_pendingElicit b = a_pendingElicit a
     \<and> filter answers (a_out b) = filter answers (a_out a) \<and> a_stopped b = a_stopped a \<and> a_tick a \<le> a_tick b"

lemma same_waiters_move: "move w b x y \<Longrightarrow> same_waiters x y"
proof (induction rule: move.induct)
  case (inner a a')
  then obtain es where es: "a_out a' = a_out a @ es" "list_all (allowed b) es" by (auto simp: grows_def)
  then have "filter answers es = []" by (auto simp: filter_empty_conv list_all_iff allowed_def)
  with inner es show ?case by (simp add: same_waiters_def same_core_def grows_def)
next
  case (append em a)
  then show ?case by (simp add: same_waiters_def append_quiet)
next
  case (open_turn a p)
  have "a_tick a \<le> a_tick (snd (append w (TurnStarted p) (a\<lparr>a_turnActive := ts_turnID p\<rparr>)))"
    using append_keeps(7) [of "a\<lparr>a_turnActive := ts_turnID p\<rparr>" w "TurnStarted p"] by simp
  then show ?case by (simp add: same_waiters_def append_quiet)
qed (simp_all add: same_waiters_def)

lemma same_waiters_work: "work w b x y \<Longrightarrow> same_waiters x y"
  unfolding work_def
proof (induction rule: rtranclp_induct)
  case (step y z)
  then show ?case using same_waiters_move [OF step(2)] by (simp add: same_waiters_def)
qed (simp add: same_waiters_def)

lemma same_waiters_balance:
  assumes "same_waiters a b"
  shows "answered b = answered a" "waiting b = waiting a" "waiters_ok w a \<Longrightarrow> waiters_ok w b"
  using assms by (auto simp: same_waiters_def answered_filter waiting_def waiters_ok_def intro: fresh_ids_mono)

text \<open>What one command does to the balance.\<close>

definition balanced :: "world \<Rightarrow> waiter multiset \<Rightarrow> actor \<Rightarrow> actor \<Rightarrow> bool" where
  "balanced w q a b \<longleftrightarrow> answered b + waiting b = answered a + waiting a + q
     \<and> answered a \<subseteq># answered b \<and> waiters_ok w b"

lemma balanced_work: "balanced w q a b \<Longrightarrow> work w x b c \<Longrightarrow> balanced w q a c"
  using same_waiters_balance [OF same_waiters_work] by (simp add: balanced_def)

lemma balanced_refl: "waiters_ok w a \<Longrightarrow> balanced w {#} a a"
  by (simp add: balanced_def)

lemma balanced_ask:
  assumes "inj (w_uuid w)" and "waiters_ok w a" and "\<not> a_stopped a"
  shows "balanced w (asks (AskPermission req ch)) a (after (handle_ask_permission w req ch a))"
    and "balanced w (asks (AskElicitation req2 ch)) a (after (handle_ask_elicitation w req2 ch a))"
proof -
  let ?i = "w_uuid w (a_tick a)"
  let ?p = "(tick a)\<lparr>a_pendingPerm := drop_waiter ?i (a_pendingPerm a) @ [(?i, ch)]\<rparr>"
  let ?e = "(tick a)\<lparr>a_pendingElicit := drop_waiter ?i (a_pendingElicit a) @ [(?i, ch)]\<rparr>"
  have ids: "fresh_ids w (a_tick a) (a_pendingPerm a)" "fresh_ids w (a_tick a) (a_pendingElicit a)"
    using assms(2) by (simp_all add: waiters_ok_def)
  have p: "balanced w {#PermissionWaiter ch#} a ?p"
    using fresh_ids_new [OF assms(1) ids(1)] ids assms(3)
    by (auto simp: balanced_def answered_def waiting_def waiters_ok_def tick_def intro: fresh_ids_mono)
  have e: "balanced w {#QuestionWaiter ch#} a ?e"
    using fresh_ids_new [OF assms(1) ids(2)] ids assms(3)
    by (auto simp: balanced_def answered_def waiting_def waiters_ok_def tick_def intro: fresh_ids_mono)
  show "balanced w (asks (AskPermission req ch)) a (after (handle_ask_permission w req ch a))"
    unfolding handle_ask_permission_def Let_def case_prod_beta fresh_def fst_conv snd_conv after_simps asks.simps
    by (rule balanced_work [OF _ work_append [OF work_refl]])
      (use p in \<open>simp_all add: tick_def\<close>)
  show "balanced w (asks (AskElicitation req2 ch)) a (after (handle_ask_elicitation w req2 ch a))"
    unfolding handle_ask_elicitation_def Let_def case_prod_beta fresh_def fst_conv snd_conv after_simps asks.simps
    by (rule balanced_work [OF _ work_append [OF work_refl]])
      (use e in \<open>simp_all add: tick_def\<close>)
qed

lemma answered_emit:
  "answered (emit e a) = answered a + mset (answer_of e)" "waiting (emit e a) = waiting a"
  "waiters_ok w (emit e a) = waiters_ok w a"
  by (simp_all add: answered_def waiting_def waiters_ok_def emit_def)

lemma balanced_answer:
  assumes "waiters_ok w a" and "\<not> a_stopped a"
  shows "balanced w {#} a (after (handle_resolve_permission w i ou a))"
    and "balanced w {#} a (after (handle_resolve_elicitation w i r a))"
proof -
  let ?p = "a\<lparr>a_pendingPerm := drop_waiter i (a_pendingPerm a)\<rparr>"
  let ?e = "a\<lparr>a_pendingElicit := drop_waiter i (a_pendingElicit a)\<rparr>"
  have ids: "fresh_ids w (a_tick a) (a_pendingPerm a)" "fresh_ids w (a_tick a) (a_pendingElicit a)"
    using assms(1) by (simp_all add: waiters_ok_def)
  have p: "answered ?p = answered a" "waiters_ok w ?p" and e: "answered ?e = answered a" "waiters_ok w ?e"
    using ids assms(2) by (simp_all add: answered_def waiters_ok_def drop_waiter_def fresh_ids_filter)
  have wp: "waiting a = add_mset (PermissionWaiter ch) (waiting ?p)" if "find_waiter i (a_pendingPerm a) = Some ch" for ch
    using drop_waiter_balance [OF _ that, of PermissionWaiter] ids(1) by (simp add: waiting_def fresh_ids_def)
  have we: "waiting a = add_mset (QuestionWaiter ch) (waiting ?e)" if "find_waiter i (a_pendingElicit a) = Some ch" for ch
    using drop_waiter_balance [OF _ that, of QuestionWaiter] ids(2) by (simp add: waiting_def fresh_ids_def)
  have app: "answered (snd (append w em x)) = answered x" "waiting (snd (append w em x)) = waiting x"
    "waiters_ok w x \<Longrightarrow> waiters_ok w (snd (append w em x))" for em x
    using same_waiters_balance [OF same_waiters_work [OF work_append [OF work_refl, of True]]] by simp_all
  show "balanced w {#} a (after (handle_resolve_permission w i ou a))"
    using p wp balanced_refl [OF assms(1)]
    by (auto simp: handle_resolve_permission_def balanced_def answered_emit app split: option.split)
  show "balanced w {#} a (after (handle_resolve_elicitation w i r a))"
    using e we balanced_refl [OF assms(1)]
    by (auto simp: handle_resolve_elicitation_def balanced_def answered_emit app split: option.split)
qed

text \<open>Going down answers everyone who is left.\<close>

lemma answers_cancelled:
  "concat (map answer_of (map (\<lambda>(i, ch). AnswerPermission ch ou) ps)) = map (PermissionWaiter \<circ> snd) ps"
  "concat (map answer_of (map (\<lambda>(i, ch). AnswerElicitation ch r) ps)) = map (QuestionWaiter \<circ> snd) ps"
  by (induction ps) (auto simp: case_prod_beta)

lemma cancel_waiters_balance:
  "answered (cancel_waiters a) = answered a + waiting a" "waiting (cancel_waiters a) = {#}"
proof -
  have "a_out (cancel_waiters a) = a_out a
      @ map (\<lambda>(i, ch). AnswerPermission ch \<lparr>ou_outcome = OutcomeCancelled, ou_optionID = []\<rparr>) (a_pendingPerm a)
      @ map (\<lambda>(i, ch). AnswerElicitation ch \<lparr>er_action = ''cancel'', er_value = None\<rparr>) (a_pendingElicit a)"
    by (simp add: cancel_waiters_def)
  then show "answered (cancel_waiters a) = answered a + waiting a"
    by (simp only: answered_def waiting_def map_append concat_append mset_append answers_cancelled add.assoc)
  show "waiting (cancel_waiters a) = {#}" by (simp add: waiting_def cancel_waiters_def)
qed

lemma balanced_shutdown:
  assumes "waiters_ok w a"
  shows "balanced w {#} a (shutdown w hard a)" and "waiting (shutdown w hard a) = {#}"
proof -
  let ?p = "shutdown_phase hard a"
  let ?a1 = "tick (a\<lparr>a_store := SetPhase (w_now w (a_tick a)) (a_id a) ?p (a_store a)\<rparr>)"
  let ?b = "cancel_waiters ?a1" and ?z = "shutdown w hard a"
  have one: "answered ?a1 = answered a" "waiting ?a1 = waiting a"
    by (simp_all add: answered_def waiting_def tick_def)
  have ends: "a_pendingPerm ?z = a_pendingPerm ?b" "a_pendingElicit ?z = a_pendingElicit ?b"
    by (simp_all add: shutdown_def Let_def emit_def close_subscribers_def close_session_def
        cancel_waiters_def tick_def split: option.split)
  have "\<exists>es. a_out ?z = a_out ?b @ es \<and> list_all (\<lambda>e. answer_of e = []) es"
    by (auto simp: shutdown_def Let_def emit_def close_subscribers_def close_session_def
        cancel_waiters_def tick_def split: option.split)
  then have "answered ?z = answered ?b"
    by (auto simp: answered_def list_all_iff)
  moreover have "waiting ?z = waiting ?b" using ends by (simp add: waiting_def)
  ultimately show "waiting ?z = {#}" "balanced w {#} a ?z"
    using one ends cancel_waiters_balance [of ?a1]
    by (simp_all add: balanced_def waiters_ok_def cancel_waiters_def)
qed

lemma balanced_trans:
  "balanced w p a b \<Longrightarrow> balanced w q b c \<Longrightarrow> balanced w (p + q) a c"
  by (auto simp: balanced_def)

lemma balanced_handle:
  assumes "inj (w_uuid w)" and "waiters_ok w a" and "\<not> a_stopped a"
  shows "balanced w (asks c) a (after (handle w c a))"
proof (cases "waits c")
  case False
  then have "asks c = {#}" by (cases c) simp_all
  then show ?thesis
    using balanced_work [OF balanced_refl [OF assms(2)] work_handle [OF False]] by simp
next
  case True
  show ?thesis
  proof (cases c)
    case (HarnessExit i)
    let ?x = "if a_turnActive a \<noteq> []
      then snd (append w (TurnFinished ((finished (a_turnActive a) StopError)
             \<lparr>tf_error := ''the harness process ended before the turn finished''\<rparr>)) a) else a"
    let ?y = "(append_each w (interruptedJobs (a_state ?x)) ?x)\<lparr>a_sent := []\<rparr>"
    have work: "work w True a ?y"
      by (cases "a_turnActive a = []") (simp_all, (intro work_intro; simp)+)
    have "balanced w {#} a ?y" by (rule balanced_work [OF balanced_refl [OF assms(2)] work])
    moreover from this have "balanced w {#} ?y (shutdown w False ?y)"
      by (intro balanced_shutdown) (simp add: balanced_def)
    ultimately have "balanced w {#} a (shutdown w False ?y)" using balanced_trans by fastforce
    then show ?thesis
      using balanced_refl [OF assms(2)] by (simp add: HarnessExit handle_harness_exit_def Let_def)
  next
    case (Close hard reason)
    let ?x = "if hard then snd (append w (ThreadClosed reason) a) else a"
    have work: "work w True a ?x" by (auto intro: work_intro)
    have "balanced w {#} a ?x" by (rule balanced_work [OF balanced_refl [OF assms(2)] work])
    moreover from this have "balanced w {#} ?x (shutdown w hard ?x)"
      by (intro balanced_shutdown) (simp add: balanced_def)
    ultimately have "balanced w {#} a (shutdown w hard ?x)" using balanced_trans by fastforce
    then show ?thesis by (simp add: Close handle_close_def Let_def)
  qed (use True assms balanced_ask balanced_answer in \<open>simp_all del: asks.simps add: asks.simps(3-)\<close>)
qed

section \<open>Every command\<close>

lemma balanced_command:
  assumes "inj (w_uuid w)" and "waiters_ok w a"
  shows "balanced w (if a_stopped a then {#} else asks c) a (snd (run_command w c a))"
proof (cases "a_stopped a")
  case True
  then show ?thesis using balanced_refl [OF assms(2)] by (simp add: run_command_def)
next
  case False
  have "balanced w (asks c) a (after (handle w c a))" by (rule balanced_handle [OF assms False])
  moreover from this have "balanced w (asks c) a (dispatchQueued w (after (handle w c a)))"
    by (rule balanced_work [OF _ work_dispatchQueued [OF work_refl]])
  ultimately show ?thesis using False by (simp add: run_command_def case_prod_beta)
qed

lemma waiters_ok_boots:
  "Start w d ad m model mode env = Inr (a, cs) \<Longrightarrow> waiters_ok w a"
  "StartPending d ado m env = (a, cs) \<Longrightarrow> waiters_ok w a"
  "Resume w d ad m env = Inr (a, cs) \<Longrightarrow> waiters_ok w a"
  "waiters_ok w (RestoreIdle d ado m env)" "RestoreClosed now d m = Inr a \<Longrightarrow> waiters_ok w a"
  "waiters_ok w (RestorePending d ado m env)"
  by (auto simp: Start_def StartPending_def Resume_def RestoreIdle_def RestoreClosed_def RestorePending_def
      Let_def waiters_ok_def bare_actor_def running_def startCheckpoints_def tick_def
      split: sum.splits if_splits)

lemma waiters_ok_step:
  assumes "inj (w_uuid w)" and "actor_step w a a'" and "waiters_ok w a"
  shows "waiters_ok w a'"
  using assms(2,3)
proof (induction rule: actor_step.induct)
  case (command a c)
  then show ?case using balanced_command [OF assms(1)] by (simp add: balanced_def)
next
  case (subscribe a)
  then show ?case
    by (auto simp: Subscribe_def fresh_def tick_def waiters_ok_def Let_def intro: fresh_ids_mono)
qed (simp_all add: Unsubscribe_def Receive_def waiters_ok_def)

lemma waiters_ok_reachable: "actor_reachable w a \<Longrightarrow> inj (w_uuid w) \<Longrightarrow> waiters_ok w a"
  by (induction rule: actor_reachable.induct)
    (blast intro: waiters_ok_boots waiters_ok_step)+

lemma balanced_commands:
  "inj (w_uuid w) \<Longrightarrow> waiters_ok w a \<Longrightarrow> balanced w (asked w cs a) a (run_commands w cs a)"
proof (induction cs arbitrary: a)
  case Nil
  then show ?case by (simp add: run_commands_def balanced_refl)
next
  case (Cons c cs)
  have one: "balanced w (if a_stopped a then {#} else asks c) a (snd (run_command w c a))"
    by (rule balanced_command [OF Cons.prems])
  then have "waiters_ok w (snd (run_command w c a))" by (simp add: balanced_def)
  from balanced_trans [OF one Cons.IH [OF Cons.prems(1) this]]
  show ?case by (simp add: run_commands_def)
qed

text \<open>
  C13: over any run of commands every adapter goroutine that asked a human something is either
  still waiting or has been answered, exactly once; once the actor has stopped nobody waits.
\<close>

theorem waiters_answered_once:
  assumes "actor_reachable w a" and "inj (w_uuid w)"
  shows "answered (run_commands w cs a) + waiting (run_commands w cs a) =
      answered a + waiting a + asked w cs a
    \<and> answered a \<subseteq># answered (run_commands w cs a)
    \<and> (a_stopped (run_commands w cs a) \<longrightarrow> waiting (run_commands w cs a) = {#})"
proof -
  have "balanced w (asked w cs a) a (run_commands w cs a)"
    by (rule balanced_commands [OF assms(2) waiters_ok_reachable [OF assms]])
  then show ?thesis by (auto simp: balanced_def waiters_ok_def waiting_def)
qed

definition sample_request :: permission_request where
  "sample_request =
     \<lparr>rq_turnID = [], rq_toolCallID = ''c1'', rq_toolName = ''Bash'', rq_title = [], rq_rawInput = None,
      rq_options = []\<rparr>"

lemma sample_ids: "inj (w_uuid sample_world)"
  by (rule injI) (simp add: sample_world_def)

theorem waiters_answered_once_witness:
  "answered (run_commands sample_world [AskPermission sample_request 7, Close False []] sample_busy)
     = {#PermissionWaiter 7#}"
proof -
  let ?b = "run_commands sample_world [AskPermission sample_request 7, Close False []] sample_busy"
  have "a_stopped ?b" by code_simp
  have "\<not> a_stopped sample_busy" "a_pendingPerm sample_busy = []"
    "a_pendingElicit sample_busy = []" "concat (map answer_of (a_out sample_busy)) = []"
    "\<not> a_stopped (snd (run_command sample_world (AskPermission sample_request 7) sample_busy))"
    by code_simp+
  then have "answered sample_busy + waiting sample_busy
      + asked sample_world [AskPermission sample_request 7, Close False []] sample_busy = {#PermissionWaiter 7#}"
    by (simp add: waiting_def answered_def)
  then have "answered ?b + waiting ?b = {#PermissionWaiter 7#}" "waiting ?b = {#}"
    using waiters_answered_once [OF sample_reachable(3) sample_ids, of "[AskPermission sample_request 7, Close False []]"]
      \<open>a_stopped ?b\<close> by metis+
  then show ?thesis by simp
qed

text \<open>
  Of two answers to one request the first wins: the goroutine gets that one, the second
  presenter is told the request was already resolved and nothing changes.
\<close>

theorem first_answer_wins:
  assumes "\<not> a_stopped a" and "find_waiter i (a_pendingPerm a) = Some ch"
  shows "let (r, b) = run_command w (ResolvePermission i first) a
    in r = Some (TextValue ''resolved'', None)
       \<and> filter answers (a_out b) = filter answers (a_out a) @ [AnswerPermission ch first]
       \<and> (\<exists>c. run_command w (ResolvePermission i second) b = (Some (TextValue ''already_resolved'', None), c)
           \<and> filter answers (a_out c) = filter answers (a_out b))"
proof -
  let ?x = "emit (AnswerPermission ch first)
      (snd (append w (PermissionResolved \<lparr>ps_requestID = i, ps_outcome = ou_outcome first,
         ps_optionID = ou_optionID first\<rparr>)
         (a\<lparr>a_pendingPerm := drop_waiter i (a_pendingPerm a)\<rparr>)))"
  let ?b = "dispatchQueued w ?x" and ?c = "dispatchQueued w (dispatchQueued w ?x)"
  have sw: "same_waiters y (dispatchQueued w y)" for y
    by (rule same_waiters_work [OF work_dispatchQueued [OF work_refl]])
  have run: "run_command w (ResolvePermission i first) a = (Some (TextValue ''resolved'', None), ?b)"
    using assms by (simp add: run_command_def handle_resolve_permission_def answer_def)
  have x: "a_pendingPerm ?x = drop_waiter i (a_pendingPerm a)" "\<not> a_stopped ?x"
    "filter answers (a_out ?x) = filter answers (a_out a) @ [AnswerPermission ch first]"
    using assms(1) by (simp_all add: emit_def append_quiet)
  have "find_waiter i (drop_waiter i ps) = None" for ps
    by (induction ps) (auto simp: find_waiter_def drop_waiter_def)
  then have "run_command w (ResolvePermission i second) ?b = (Some (TextValue ''already_resolved'', None), ?c)"
    using x(1,2) sw [of ?x]
    by (simp add: run_command_def handle_resolve_permission_def answer_def same_waiters_def)
  with run x(3) sw [of ?x] sw [of ?b] show ?thesis by (simp add: same_waiters_def)
qed

theorem first_answer_wins_witness:
  "fst (run_command sample_world
      (ResolvePermission ''i'' \<lparr>ou_outcome = OutcomeAllowOnce, ou_optionID = []\<rparr>)
      (run_commands sample_world [AskPermission sample_request 7] sample_idle)) =
    Some (TextValue ''resolved'', None)"
proof -
  let ?a = "run_commands sample_world [AskPermission sample_request 7] sample_idle"
  have "\<not> a_stopped ?a" "find_waiter ''i'' (a_pendingPerm ?a) = Some 7"
    by code_simp+
  from first_answer_wins [OF this, of sample_world "\<lparr>ou_outcome = OutcomeAllowOnce, ou_optionID = []\<rparr>"]
  show ?thesis by (simp add: case_prod_beta)
qed

end
