(* ===== verification/ActorRestart.thy ===== *)
theory ActorRestart
  imports ActorWaiters
begin

text \<open>
  How a thread ends and comes back: disposing and restoring it, closing what a dead process left
  open, the bound on automatic recovery, stopping a turn, closed threads, and reading a job's
  output.
\<close>

section \<open>Disposing and restoring\<close>

lemma phase_row:
  "map_option tm_phase (thread_row (SetPhase now t ph d) t) = map_option (\<lambda>m. ph) (thread_row d t)"
  by (simp add: SetPhase_def thread_row_update option.map_comp comp_def)

lemma shutdown_fields:
  "a_state (shutdown w hard a) = a_state a" "a_id (shutdown w hard a) = a_id a"
  "a_stopped (shutdown w hard a)" "a_head (shutdown w hard a) = a_head a"
  "a_store (shutdown w hard a) = SetPhase (w_now w (a_tick a)) (a_id a) (shutdown_phase hard a) (a_store a)"
  by (simp_all add: shutdown_def Let_def emit_def close_subscribers_def close_session_def
      cancel_waiters_def tick_def split: option.split)

text \<open>
  C22: disposing of a thread (the server going down) writes nothing to its log, leaves in its row
  whether it was in the middle of a turn, and the actor restored from the store afterwards has
  the same state, holds the same open turn and plans the recovery the state calls for.
\<close>

theorem dispose_then_restore:
  assumes "actor_reachable w a" and "\<not> a_stopped a" and "tm_id m = a_id a"
  shows "let b = snd (run_command w (Close False reason) a); r = RestoreIdle (a_store b) ado m env
    in a_stopped b \<and> actor_log b = actor_log a
       \<and> map_option tm_phase (thread_row (a_store b) (a_id a)) =
           Some (if st_closed (a_state a) then ''closed'' else if a_turnActive a \<noteq> [] then ''turn'' else ''idle'')
       \<and> a_state r = a_state a \<and> a_head r = a_head a \<and> a_attention r = Attention (a_state a)
       \<and> a_turnActive r = open_turn (a_state a) \<and> a_recovery r = planRecovery (a_state a)"
proof -
  let ?b = "shutdown w False a"
  have ok: "core_ok a" by (rule core_ok_reachable [OF assms(1)])
  have b: "snd (run_command w (Close False reason) a) = ?b"
    using assms(2) by (simp add: run_command_def handle_close_def)
  have okb: "core_ok ?b" by (rule core_ok_lives [OF lives_shutdown ok]) simp
  then have good: "store_good ?b" and state: "state_ok ?b" by (simp_all add: core_ok_def)
  have load: "loadState (tm_id m) (a_store ?b) = a_state a"
    using loadState_log [OF store_good_threads [OF good]] good state assms(3)
    by (simp add: store_good_def state_ok_def shutdown_fields(1,2))
  have "thread_row (a_store a) (a_id a) \<noteq> None"
    using ok by (simp add: core_ok_def store_good_def thread_row_None)
  then have "map_option tm_phase (thread_row (a_store ?b) (a_id a)) = Some (shutdown_phase False a)"
    unfolding shutdown_fields phase_row by auto
  moreover have "actor_log ?b = actor_log a" by (simp add: shutdown_fields)
  ultimately show ?thesis
    using load state_ok_seq [of a] ok
    by (simp add: b Let_def RestoreIdle_def running_def bare_actor_def shutdown_fields(3) shutdown_phase_def
        restored_is_open_turn core_ok_def)
qed

theorem dispose_then_restore_witness:
  "a_state (RestoreIdle (a_store (snd (run_command sample_world (Close False []) sample_busy)))
     (Some ''pi'') (sample_thread ''t1'') []) = a_state sample_busy"
proof -
  have "\<not> a_stopped sample_busy" "tm_id (sample_thread ''t1'') = a_id sample_busy" by code_simp+
  from dispose_then_restore [OF sample_reachable(3) this] show ?thesis by (simp add: Let_def)
qed

section \<open>Closing what a dead process left open\<close>

definition waiting_ids :: "state \<Rightarrow> string set" where
  "waiting_ids s = pp_requestID ` set (st_pending s)"

definition questions :: "state \<Rightarrow> pending_elicitation set" where
  "questions s = set (st_elicitations s)"

definition open_ids :: "state \<Rightarrow> string set" where
  "open_ids s = tu_id ` {t \<in> set (st_turns s). \<not> tu_done t}"

definition live_ids :: "state \<Rightarrow> string set" where
  "live_ids s = jb_id ` {j \<in> set (st_jobs s). \<not> JobDone (jb_status j)}"

definition queue_ids :: "state \<Rightarrow> string set" where
  "queue_ids s = qp_queueID ` set (st_queued s)"

definition shrinks :: "state \<Rightarrow> state \<Rightarrow> bool" where
  "shrinks s s' \<longleftrightarrow> waiting_ids s' \<subseteq> waiting_ids s \<and> questions s' \<subseteq> questions s
     \<and> open_ids s' \<subseteq> open_ids s \<and> live_ids s' \<subseteq> live_ids s \<and> queue_ids s' \<subseteq> queue_ids s
     \<and> st_closed s' = st_closed s"

lemma shrinks_refl [simp]: "shrinks s s"
  by (simp add: shrinks_def)

lemma shrinks_trans: "shrinks s t \<Longrightarrow> shrinks t u \<Longrightarrow> shrinks s u"
  by (auto simp: shrinks_def)

lemmas loose_defs = shrinks_def waiting_ids_def questions_def open_ids_def live_ids_def queue_ids_def

lemma permission_closes:
  "shrinks s (apply_body ev (cancelled_permission p) s)"
  "pp_requestID p \<notin> waiting_ids (apply_body ev (cancelled_permission p) s)"
  by (auto simp: cancelled_permission_def apply_permission_resolved_def loose_defs)

lemma elicitation_frame:
  "waiting_ids (apply_elicitation_resolved p s) = waiting_ids s"
  "open_ids (apply_elicitation_resolved p s) = open_ids s"
  "live_ids (apply_elicitation_resolved p s) = live_ids s"
  "queue_ids (apply_elicitation_resolved p s) = queue_ids s"
  "questions (apply_elicitation_resolved p s) = {q \<in> questions s. el_requestID q \<noteq> es_requestID p}"
  "st_closed (apply_elicitation_resolved p s) = st_closed s"
proof -
  have "st_queued (apply_elicitation_resolved p s) = st_queued s"
    by (simp add: apply_elicitation_resolved_def Let_def split: option.split)
  then show "queue_ids (apply_elicitation_resolved p s) = queue_ids s" by (simp add: queue_ids_def)
  show "questions (apply_elicitation_resolved p s) = {q \<in> questions s. el_requestID q \<noteq> es_requestID p}"
    by (simp add: questions_def)
qed (simp_all add: waiting_ids_def open_ids_def live_ids_def)

lemma question_closes:
  "shrinks s (apply_body ev (cancelled_question p) s)"
  "p \<notin> questions (apply_body ev (cancelled_question p) s)"
  by (auto simp: cancelled_question_def elicitation_frame shrinks_def)

lemma open_ids_finish:
  "open_ids (apply_turn_finished ev p s) = open_ids s - {tf_turnID p}"
  by (auto simp: apply_turn_finished_def open_ids_def Let_def set_update_where finish_turn_def image_iff)

lemma turn_closes:
  "shrinks s (apply_body ev (TurnFinished p) s)"
  "tf_turnID p \<notin> open_ids (apply_body ev (TurnFinished p) s)"
proof -
  have "st_pending (apply_turn_finished ev p s) = st_pending s"
    "st_elicitations (apply_turn_finished ev p s) = st_elicitations s"
    "st_jobs (apply_turn_finished ev p s) = st_jobs s" "st_queued (apply_turn_finished ev p s) = st_queued s"
    "st_closed (apply_turn_finished ev p s) = st_closed s"
    by (simp_all add: apply_turn_finished_def Let_def)
  then show "shrinks s (apply_body ev (TurnFinished p) s)"
    by (simp add: shrinks_def open_ids_finish) (auto simp: waiting_ids_def questions_def live_ids_def queue_ids_def)
  show "tf_turnID p \<notin> open_ids (apply_body ev (TurnFinished p) s)" by (simp add: open_ids_finish)
qed

lemma set_put_keyed_distinct:
  "set (put_keyed key a xs) \<subseteq> insert a {x \<in> set xs. key x \<noteq> key a}" if "distinct (map key xs)"
proof -
  have "set (update_first (\<lambda>x. key x = key a) (\<lambda>_. a) xs) \<subseteq> insert a {x \<in> set xs. key x \<noteq> key a}"
    using that by (induction xs) (auto simp: image_iff)
  then show ?thesis by (auto simp: put_keyed_def)
qed

lemma job_closes:
  assumes "wf_state s" and "jp_jobID p \<noteq> []"
  shows "shrinks s (apply_body ev (JobFinished p) s)"
    and "jp_jobID p \<notin> live_ids (apply_body ev (JobFinished p) s)"
proof -
  have "distinct (map jb_id (st_jobs s))" using assms(1) by (simp add: wf_state_def)
  then have "set (st_jobs (applyJob ev True p s)) \<subseteq>
      insert (job_after ev True p s) {j \<in> set (st_jobs s). jb_id j \<noteq> jp_jobID p}"
    using set_put_keyed_distinct [of jb_id "st_jobs s" "job_after ev True p s"] assms(2)
    by (simp add: applyJob_jobs)
  then have live: "live_ids (applyJob ev True p s) \<subseteq> live_ids s - {jp_jobID p}"
    using finish_job_done by (force simp: live_ids_def job_after_def)
  have frame: "waiting_ids (applyJob ev True p s) = waiting_ids s" "questions (applyJob ev True p s) = questions s"
    "open_ids (applyJob ev True p s) = open_ids s" "queue_ids (applyJob ev True p s) = queue_ids s"
    "st_closed (applyJob ev True p s) = st_closed s"
    by (simp_all add: loose_defs)
  show "shrinks s (apply_body ev (JobFinished p) s)" using live frame by (auto simp: shrinks_def)
  show "jp_jobID p \<notin> live_ids (apply_body ev (JobFinished p) s)" using live by auto
qed

lemma dequeue_closes:
  "shrinks s (apply_body ev (dequeued r q) s)" "qp_queueID q \<notin> queue_ids (apply_body ev (dequeued r q) s)"
  by (auto simp: dequeued_def removeQueued_def loose_defs)

lemma shrinks_seq [simp]: "shrinks (s\<lparr>st_seq := n\<rparr>) t = shrinks s t"
  by (simp add: loose_defs)

lemma core_ok_wf: "core_ok a \<Longrightarrow> wf_state (a_state a)"
  by (simp add: core_ok_def state_ok_def wf_state_foldl wf_state_New)

lemma closing_plain [simp]:
  "redact w a (cancelled_permission p) = cancelled_permission p"
  "redact w a (cancelled_question q) = cancelled_question q"
  "redact w a (restarted t) = restarted t" "redact w a (dequeued r e) = dequeued r e"
  "stored_body (cancelled_permission p) = cancelled_permission p"
  "stored_body (cancelled_question q) = cancelled_question q"
  "stored_body (restarted t) = restarted t" "stored_body (dequeued r e) = dequeued r e"
  by (simp_all add: cancelled_permission_def cancelled_question_def restarted_def dequeued_def redact.simps)

lemma shrinksD:
  assumes "shrinks s s'"
  shows "waiting_ids s' \<subseteq> waiting_ids s" "questions s' \<subseteq> questions s" "open_ids s' \<subseteq> open_ids s"
    "live_ids s' \<subseteq> live_ids s" "queue_ids s' \<subseteq> queue_ids s"
  using assms by (simp_all add: shrinks_def)

lemma restarted_closes:
  "shrinks s (apply_body ev (restarted t) s)" "t \<notin> open_ids (apply_body ev (restarted t) s)"
  using turn_closes [where p = "(finished t StopError)\<lparr>tf_error := ''server restarted during turn'',
    tf_failure := FailureRestart\<rparr>"] by (simp_all add: restarted_def finished_def)

text \<open>A run of closing events leaves none of the things it closes.\<close>

lemma append_each_closes:
  assumes "core_ok a" and plain: "\<And>x y. redact w y (f x) = f x" "\<And>x. stored_body (f x) = f x"
    and step: "\<And>s ev x. x \<in> set xs \<Longrightarrow> wf_state s \<Longrightarrow> shrinks s (apply_body ev (f x) s)"
      "\<And>s ev x. x \<in> set xs \<Longrightarrow> wf_state s \<Longrightarrow> g x \<notin> G (apply_body ev (f x) s)"
    and mono: "\<And>s s'. shrinks s s' \<Longrightarrow> G s' \<subseteq> G s"
  shows "core_ok (append_each w (map f xs) a)
    \<and> shrinks (a_state a) (a_state (append_each w (map f xs) a))
    \<and> (\<forall>x\<in>set xs. g x \<notin> G (a_state (append_each w (map f xs) a)))"
  using assms(1) step
proof (induction xs arbitrary: a)
  case (Cons x xs)
  let ?b = "snd (append w (f x) a)"
  have more: "append_each w (map f (x # xs)) a = append_each w (map f xs) ?b"
    by (simp add: append_each_def)
  have okb: "core_ok ?b" by (rule core_ok_appended [OF Cons.prems(1)])
  obtain ev where ev: "ev_body ev = f x"
    "a_state ?b = apply_body ev (ev_body ev) ((a_state a)\<lparr>st_seq := ev_seq ev\<rparr>)"
    by (rule append_effect [OF Cons.prems(1), of w "f x", unfolded plain]) blast
  have wf: "wf_state ((a_state a)\<lparr>st_seq := ev_seq ev\<rparr>)" using core_ok_wf [OF Cons.prems(1)] by simp
  have one: "shrinks (a_state a) (a_state ?b)" "g x \<notin> G (a_state ?b)"
    using Cons.prems(2) [OF _ wf, of x ev] Cons.prems(3) [OF _ wf, of x ev] ev by simp_all
  have rest: "core_ok (append_each w (map f xs) ?b)
      \<and> shrinks (a_state ?b) (a_state (append_each w (map f xs) ?b))
      \<and> (\<forall>y\<in>set xs. g y \<notin> G (a_state (append_each w (map f xs) ?b)))"
    by (rule Cons.IH [OF okb]) (use Cons.prems in auto)
  then have "g x \<notin> G (a_state (append_each w (map f xs) ?b))" using mono one by blast
  with rest one show ?case unfolding more by (auto intro: shrinks_trans)
qed (simp add: append_each_def)

lemma interruptedJobs_as_map:
  "\<exists>f. interruptedJobs s = map (\<lambda>j. JobFinished (f j)) (filter (\<lambda>j. \<not> JobDone (jb_status j)) (st_jobs s))
     \<and> (\<forall>j. jp_jobID (f j) = jb_id j)"
  unfolding interruptedJobs_def by (intro exI conjI) (rule refl, simp)

lemma nothing_left: "A \<subseteq> f ` S \<Longrightarrow> \<forall>x\<in>S. f x \<notin> A \<Longrightarrow> A = {}"
  by blast

lemma close_interrupted_closes:
  assumes "core_ok a"
  shows "let s = a_state (close_interrupted w a)
    in waiting_ids s = {} \<and> (\<forall>p\<in>questions s. IsCard p \<and> w_cardLive w (el_requestID p))
       \<and> open_ids s = {} \<and> live_ids s = {} \<and> core_ok (close_interrupted w a)"
proof -
  let ?a1 = "append_each w (map cancelled_permission (st_pending (a_state a))) a"
  let ?qs = "filter (\<lambda>p. \<not> (IsCard p \<and> w_cardLive w (el_requestID p))) (st_elicitations (a_state ?a1))"
  let ?a2 = "append_each w (map cancelled_question ?qs) ?a1"
  let ?a3 = "append_each w (map (\<lambda>t. restarted (tu_id t)) (filter (\<lambda>t. \<not> tu_done t) (st_turns (a_state ?a2)))) ?a2"
  let ?a4 = "append_each w (interruptedJobs (a_state ?a3)) ?a3"
  have a1: "core_ok ?a1 \<and> shrinks (a_state a) (a_state ?a1)
      \<and> (\<forall>p\<in>set (st_pending (a_state a)). pp_requestID p \<notin> waiting_ids (a_state ?a1))"
    by (rule append_each_closes [OF assms]) (simp_all add: permission_closes shrinksD)
  have a2: "core_ok ?a2 \<and> shrinks (a_state ?a1) (a_state ?a2)
      \<and> (\<forall>p\<in>set ?qs. p \<notin> questions (a_state ?a2))"
    by (rule append_each_closes [OF a1 [THEN conjunct1]]) (simp_all add: question_closes shrinksD)
  have a3: "core_ok ?a3 \<and> shrinks (a_state ?a2) (a_state ?a3)
      \<and> (\<forall>t\<in>set (filter (\<lambda>t. \<not> tu_done t) (st_turns (a_state ?a2))). tu_id t \<notin> open_ids (a_state ?a3))"
    by (rule append_each_closes [OF a2 [THEN conjunct1]]) (simp_all add: restarted_closes shrinksD)
  obtain f where f: "interruptedJobs (a_state ?a3) =
      map (\<lambda>j. JobFinished (f j)) (filter (\<lambda>j. \<not> JobDone (jb_status j)) (st_jobs (a_state ?a3)))"
    and fid: "\<forall>j. jp_jobID (f j) = jb_id j"
    using interruptedJobs_as_map by blast
  have ids: "jb_id j \<noteq> []" if "j \<in> set (st_jobs (a_state ?a3))" for j
    using core_ok_wf [of ?a3] a3 that by (simp add: wf_state_def jobs_ok_def)
  have a4: "core_ok ?a4 \<and> shrinks (a_state ?a3) (a_state ?a4)
      \<and> (\<forall>j\<in>set (filter (\<lambda>j. \<not> JobDone (jb_status j)) (st_jobs (a_state ?a3))). jb_id j \<notin> live_ids (a_state ?a4))"
    unfolding f
  proof (rule append_each_closes [OF a3 [THEN conjunct1]])
    fix s :: state and ev j
    assume j: "j \<in> set (filter (\<lambda>j. \<not> JobDone (jb_status j)) (st_jobs (a_state ?a3)))" and wf: "wf_state s"
    have ne: "jp_jobID (f j) \<noteq> []" using ids [of j] fid j by simp
    show "shrinks s (apply_body ev (JobFinished (f j)) s)" by (rule job_closes(1) [OF wf ne])
    show "jb_id j \<notin> live_ids (apply_body ev (JobFinished (f j)) s)"
      using job_closes(2) [OF wf ne] fid by simp
  qed (simp_all add: redact.simps shrinksD)
  note sub = shrinksD [OF a1 [THEN conjunct2, THEN conjunct1]] shrinksD [OF a2 [THEN conjunct2, THEN conjunct1]]
    shrinksD [OF a3 [THEN conjunct2, THEN conjunct1]] shrinksD [OF a4 [THEN conjunct2, THEN conjunct1]]
  have "waiting_ids (a_state ?a1) = {}"
    by (rule nothing_left [OF sub(1) [unfolded waiting_ids_def [of "a_state a"]]]) (use a1 in blast)
  then have w: "waiting_ids (a_state ?a4) = {}" using sub by blast
  have q: "\<forall>p\<in>questions (a_state ?a4). IsCard p \<and> w_cardLive w (el_requestID p)"
  proof
    fix p assume "p \<in> questions (a_state ?a4)"
    then have "p \<in> questions (a_state ?a2)" "p \<in> set (st_elicitations (a_state ?a1))"
      using sub by (auto simp: questions_def [of "a_state ?a1"])
    with a2 show "IsCard p \<and> w_cardLive w (el_requestID p)" by auto
  qed
  have as_filter: "open_ids s = tu_id ` set (filter (\<lambda>t. \<not> tu_done t) (st_turns s))"
    "live_ids s = jb_id ` set (filter (\<lambda>j. \<not> JobDone (jb_status j)) (st_jobs s))" for s
    by (simp_all add: open_ids_def live_ids_def)
  have "open_ids (a_state ?a3) = {}"
    by (rule nothing_left [OF sub(13) [unfolded as_filter(1) [of "a_state ?a2"]]]) (use a3 in blast)
  then have o: "open_ids (a_state ?a4) = {}" using sub by blast
  have l: "live_ids (a_state ?a4) = {}"
    by (rule nothing_left [OF sub(19) [unfolded as_filter(2) [of "a_state ?a3"]]]) (use a4 in blast)
  have "close_interrupted w a = ?a4" by (simp only: close_interrupted_def Let_def)
  then show ?thesis
    unfolding Let_def by (simp only:) (intro conjI w q o l a4 [THEN conjunct1])
qed

text \<open>
  C23: once a thread's harness is running again nothing the dead process held is left open: no
  permission waits, the only questions left are cards the server still holds, every turn and
  every job is closed, and the busy guard is free.
\<close>

theorem resume_closes_everything:
  assumes "actor_reachable w a" and "\<not> st_closed (a_state a)" and "a_sess a = None"
    and "handle w (Activate cwd model mode effort True) a = (Some (NoValue, None), False, b)"
  shows "st_pending (a_state b) = []
    \<and> list_all (\<lambda>p. IsCard p \<and> w_cardLive w (el_requestID p)) (st_elicitations (a_state b))
    \<and> list_all tu_done (st_turns (a_state b))
    \<and> list_all (\<lambda>j. JobDone (jb_status j)) (st_jobs (a_state b))
    \<and> a_turnActive b = [] \<and> a_sess b \<noteq> None"
proof -
  have ok: "core_ok a" by (rule core_ok_reachable [OF assms(1)])
  obtain sess where b: "b = close_interrupted w (startCheckpoints w
      ((tick a)\<lparr>a_cwd := a_cwd a, a_sess := Some sess, a_preparing := False\<rparr>))"
    using assms(2-4)
    by (auto simp: activate_def outcome_def Let_def split: sum.splits if_splits option.splits)
  let ?a1 = "startCheckpoints w ((tick a)\<lparr>a_cwd := a_cwd a, a_sess := Some sess, a_preparing := False\<rparr>)"
  have "work w True a ?a1" by (intro work_intro)
  then have "core_ok ?a1" by (rule core_ok_work [OF _ ok])
  from close_interrupted_closes [OF this, of w]
  have c: "waiting_ids (a_state b) = {}" "\<forall>p\<in>questions (a_state b). IsCard p \<and> w_cardLive w (el_requestID p)"
    "open_ids (a_state b) = {}" "live_ids (a_state b) = {}" and okb: "core_ok b"
    unfolding b Let_def by blast+
  have "a_turnActive b = []"
    using okb c(3) by (auto simp: core_ok_def guard_ok_def open_in_def open_ids_def list_ex_iff)
  moreover have sess: "a_sess (append_each w ems x) = a_sess x" for ems x
    by (induction ems arbitrary: x) (simp_all add: append_each_def)
  have "a_sess b \<noteq> None"
    by (simp add: b close_interrupted_def Let_def sess startCheckpoints_def)
  ultimately show ?thesis
    using c by (auto simp: waiting_ids_def questions_def open_ids_def live_ids_def list_all_iff)
qed

text \<open>The store of a thread that died in the middle of a turn with a permission waiting.\<close>

definition sample_dead :: actor where
  "sample_dead =
     RestoreIdle (append_all ''t1'' [sample_turn ''u1'' [], sample_permission ''p1''] sample_db)
       (Some ''pi'') (sample_thread ''t1'') []"

lemma sample_dead_reachable: "actor_reachable sample_world sample_dead"
proof -
  let ?d = "append_all ''t1'' [sample_turn ''u1'' [], sample_permission ''p1''] sample_db"
  have "tm_id (hd (db_threads ?d)) = ''t1''" "db_threads ?d \<noteq> []" by code_simp+
  then have "''t1'' \<in> tm_id ` set (db_threads ?d)" by (metis hd_in_set image_eqI)
  moreover have "db_snapshots ?d = []"
    by (simp add: append_all_snapshots sample_db_def empty_db_def)
  ultimately have "honest ?d (sample_thread ''t1'')"
    using append_all_reachable [OF sample_db_reachable]
    by (simp add: honest_def snapshots_ok_def sample_thread_def)
  then show ?thesis unfolding sample_dead_def by (rule actor_reachable.restore_idle)
qed

theorem resume_closes_everything_witness:
  "st_pending (a_state sample_dead) \<noteq> []
   \<and> st_pending (a_state (after (handle sample_world (Activate [] [] [] [] True) sample_dead))) = []
   \<and> a_turnActive (after (handle sample_world (Activate [] [] [] [] True) sample_dead)) = []"
proof -
  let ?r = "activate sample_world [] [] [] [] True sample_dead"
  have facts: "\<not> st_closed (a_state sample_dead)" "a_sess sample_dead = None"
    "st_pending (a_state sample_dead) \<noteq> []" "a_adapter sample_dead = Some ''pi''"
    "case Thread (a_id sample_dead) (a_store sample_dead) of Inl e \<Rightarrow> False | Inr m \<Rightarrow> True"
    by code_simp+
  have "w_create sample_world n opts = Inr sample_session" for n opts by (simp add: sample_world_def)
  with facts have "fst ?r = None"
    by (auto simp: activate_def Let_def split: sum.splits)
  then have h: "handle sample_world (Activate [] [] [] [] True) sample_dead = (Some (NoValue, None), False, snd ?r)"
    by (simp add: outcome_def)
  show ?thesis
    unfolding h snd_conv
    using resume_closes_everything [OF sample_dead_reachable facts(1,2) h] facts(3) by blast
qed

section \<open>Stopping\<close>

lemma dropQueue_effect:
  assumes "core_ok a"
  shows "core_ok (dropQueue w a) \<and> queue_ids (a_state (dropQueue w a)) = {}
    \<and> st_closed (a_state (dropQueue w a)) = st_closed (a_state a) \<and> a_sent (dropQueue w a) = []"
proof -
  let ?b = "append_each w (map (dequeued DequeueCancelled) (st_queued (a_state a))) a"
  have b: "core_ok ?b \<and> shrinks (a_state a) (a_state ?b)
      \<and> (\<forall>q\<in>set (st_queued (a_state a)). qp_queueID q \<notin> queue_ids (a_state ?b))"
    by (rule append_each_closes [OF assms]) (simp_all add: dequeue_closes shrinksD)
  then have "queue_ids (a_state ?b) \<subseteq> queue_ids (a_state a)" by (simp add: shrinksD)
  then have "queue_ids (a_state ?b) = {}"
    by (intro nothing_left [OF _ b [THEN conjunct2, THEN conjunct2]]) (simp add: queue_ids_def [of "a_state a"])
  moreover have "core_ok (dropQueue w a)"
    using b core_ok_cong [of "dropQueue w a" ?b] by (simp add: dropQueue_def)
  ultimately show ?thesis using b by (simp add: dropQueue_def shrinks_def)
qed

text \<open>A run of moves that opens nothing prompts nobody.\<close>

lemma prompted_move: "move w b x y \<Longrightarrow> \<not> b \<Longrightarrow> prompted y = prompted x"
proof (induction rule: move.induct)
  case (inner a a')
  then obtain es where es: "a_out a' = a_out a @ es" "list_all (allowed b) es" by (auto simp: grows_def)
  then have "filter opens es = []" using inner.prems by (auto simp: filter_empty_conv list_all_iff allowed_def)
  with es show ?case by (simp add: prompted_def)
qed (simp_all add: append_quiet, simp_all add: prompted_def)

lemma prompted_work: "work w False x y \<Longrightarrow> prompted y = prompted x"
  unfolding work_def by (induction rule: rtranclp_induct) (simp_all add: prompted_move)

lemma append_sent: "set (a_sent (snd (append w em a))) \<subseteq> set (a_sent a)"
  by (auto simp: append_eq tick_def split: sum.split dest!: subsetD [OF track_sent])

text \<open>
  C26: stop means stop: after a cancel no prompt is left in the queue, the harness holds none,
  none was started in its place, and the presenter is told \<open>idle\<close> exactly when no harness was
  working on a turn.
\<close>

theorem cancel_empties_queue:
  assumes "actor_reachable w a" and "\<not> a_stopped a"
  shows "let (r, b) = run_command w Cancel a
    in st_queued (a_state b) = [] \<and> a_sent b = [] \<and> filter opens (a_out b) = filter opens (a_out a)
       \<and> (fst (the r) = TextValue ''idle'' \<longleftrightarrow> a_turnActive a = [] \<or> a_sess a = None)
       \<and> (a_sess a = None \<longrightarrow> a_turnActive b = [])"
proof -
  have ok: "core_ok a" by (rule core_ok_reachable [OF assms(1)])
  let ?h = "handle_cancel w a" and ?b = "after (handle_cancel w a)"
  have shape: "fst (snd ?h) = False" "fst (the (fst ?h)) = TextValue ''idle'' \<longleftrightarrow> a_turnActive a = [] \<or> a_sess a = None"
    by (auto simp: handle_cancel_def answer_def Let_def case_prod_beta split: option.split)
  have empty: "st_queued (a_state (dropQueue w x)) = []" "a_sent (dropQueue w x) = []" "core_ok (dropQueue w x)"
    if "core_ok x" for x
    using dropQueue_effect [OF that] by (simp_all add: queue_ids_def)
  have oka: "core_ok (a\<lparr>a_recovery := None\<rparr>)" "core_ok (snd (call_harness w s CallCancel a))" for s :: session
    using ok silentD(12) [OF silent_steps(4)] silentD(12) [OF silent_call] by simp_all
  let ?x = "dropQueue w (a\<lparr>a_recovery := None\<rparr>)"
  let ?fin = "TurnFinished (finished (a_turnActive ?x) StopCancelled)"
  have fin: "st_queued (a_state (snd (append w ?fin ?x))) = []"
    "a_sent (snd (append w ?fin ?x)) = []" "a_turnActive (snd (append w ?fin ?x)) = []"
  proof -
    have em: "redact w ?x ?fin = ?fin" "stored_body ?fin = ?fin" by simp_all
    obtain ev where ev: "ev_body ev = ?fin"
      "a_state (snd (append w ?fin ?x)) = apply_body ev (ev_body ev) ((a_state ?x)\<lparr>st_seq := ev_seq ev\<rparr>)"
      "a_turnActive (snd (append w ?fin ?x)) = (case ?fin of
         TurnStarted p \<Rightarrow> if a_turnActive ?x = [] then ts_turnID p else a_turnActive ?x
       | TurnFinished p \<Rightarrow> if tf_turnID p = a_turnActive ?x then [] else a_turnActive ?x
       | _ \<Rightarrow> a_turnActive ?x)"
      by (rule append_effect [OF empty(3) [OF oka(1)], of w ?fin, unfolded em]) blast
    show "a_turnActive (snd (append w ?fin ?x)) = []" unfolding ev(3) by (simp add: finished_def)
    show "st_queued (a_state (snd (append w ?fin ?x))) = []"
      using empty(1) [OF oka(1)] unfolding ev(2) ev(1) by (simp add: apply_turn_finished_def Let_def)
    show "a_sent (snd (append w ?fin ?x)) = []"
      using append_sent [of w ?fin ?x] empty(2) [OF oka(1)] by simp
  qed
  have b: "st_queued (a_state ?b) = []" "a_sent ?b = []"
    using empty [OF ok] empty [OF oka(2)] fin
    by (auto simp: handle_cancel_def Let_def case_prod_beta split: option.split)
  have idle: "a_turnActive ?b = []" if "a_sess a = None"
  proof (cases "a_turnActive a = []")
    case True
    have "core_ok ?b" by (rule core_ok_work [OF work_handle_cancel [OF work_refl, of w False] ok])
    have "a_turnActive (append_each w (map (dequeued r) qs) y) = []" if "a_turnActive y = []" for r qs y
      using that
    proof (induction qs arbitrary: y)
      case (Cons q qs)
      have "a_turnActive (snd (append w (dequeued r q) y)) = []"
        using Cons.prems by (auto simp: append_eq tick_def track_guard dequeued_def redact.simps split: sum.split)
      then show ?case using Cons.IH by (simp add: append_each_def)
    qed (simp add: append_each_def)
    with True show ?thesis by (simp add: handle_cancel_def dropQueue_def)
  next
    case False
    with fin that show ?thesis by (simp add: handle_cancel_def Let_def)
  qed
  have "prompted ?b = prompted a" by (rule prompted_work [OF work_handle_cancel [OF work_refl]])
  moreover have "dispatchQueued w ?b = ?b" using b by (simp add: dispatchQueued_def split: option.split)
  ultimately show ?thesis
    using assms(2) shape b idle by (simp add: run_command_def case_prod_beta prompted_def)
qed

theorem cancel_empties_queue_witness:
  "st_queued (a_state (snd (run_command sample_world Cancel
     (run_commands sample_world [Prompt ''second'' [] None] sample_busy)))) = []"
proof -
  have "\<not> a_stopped (run_commands sample_world [Prompt ''second'' [] None] sample_busy)" by code_simp
  from cancel_empties_queue [OF reachable_commands [OF sample_reachable(3)] this]
  show ?thesis by (simp add: case_prod_beta)
qed

end
