(* ===== verification/ActorPolicy.thy ===== *)
theory ActorPolicy
  imports ActorRestart
begin

text \<open>
  What bounds the actor: automatic recovery gives up, a tick sends at most one scheduled prompt,
  a closed thread takes nothing more, the busy guard names an open turn (and where it and the
  projected phase part), and a job's output is read in bounded pieces that add up.
\<close>

section \<open>Recovery gives up\<close>

text \<open>
  From one planned recovery to the next: the recovery's own turn starts after whatever closed the
  old one, and the server dies again before any other turn starts.
\<close>

definition recovered :: "state \<Rightarrow> state \<Rightarrow> bool" where
  "recovered s s' \<longleftrightarrow>
     (\<exists>r p ev xs ys. planRecovery s = Some r \<and> ev_body ev = TurnStarted p \<and> ts_recovery p = Some r
        \<and> list_all (\<lambda>e. \<not> starts_turn (ev_body e)) (xs @ ys)
        \<and> fresh_log (st_seq s) (xs @ ev # ys) \<and> s' = foldl Apply s (xs @ ev # ys))"

lemma turns_kept:
  "\<not> starts_turn b \<Longrightarrow> map tu_recovery (st_turns (apply_body ev b s)) = map tu_recovery (st_turns s)"
  by (cases b) (auto simp: apply_defs Let_def map_update_where finish_turn_def split: option.split)

lemma turns_kept_fold:
  "list_all (\<lambda>e. \<not> starts_turn (ev_body e)) evs \<Longrightarrow>
   map tu_recovery (st_turns (foldl Apply s evs)) = map tu_recovery (st_turns s)"
proof (induction evs arbitrary: s)
  case (Cons e evs)
  have "map tu_recovery (st_turns (Apply s e)) = map tu_recovery (st_turns s)"
    using Cons.prems by (simp add: Apply_def turns_kept)
  with Cons show ?case by simp
qed simp

lemma fresh_log_append: "fresh_log n (xs @ ys) \<Longrightarrow> fresh_log n xs \<and> (ys \<noteq> [] \<longrightarrow> n < ev_seq (hd ys))"
  by (induction xs arbitrary: n) (auto simp: fresh_log_Cons fresh_log_def)

lemma fresh_log_next:
  "fresh_log (st_seq s) (xs @ ev # ys) \<Longrightarrow> st_seq (foldl Apply s xs) < ev_seq ev"
proof (induction xs arbitrary: s)
  case (Cons x xs)
  then have "fresh_log (st_seq (Apply s x)) (xs @ ev # ys)" by (simp add: fresh_log_Cons seq_Apply)
  then show ?case using Cons.IH by simp
qed (simp add: fresh_log_Cons)

lemma recovery_attempt:
  assumes "recovered s s'" and "planRecovery s = Some r" and "planRecovery s' = Some r'"
  shows "tr_attempt r' = tr_attempt r + 1"
proof -
  obtain p ev xs ys where ev: "ev_body ev = TurnStarted p" "ts_recovery p = Some r"
    and quiet: "list_all (\<lambda>e. \<not> starts_turn (ev_body e)) ys"
    and new: "fresh_log (st_seq s) (xs @ ev # ys)" and s': "s' = foldl Apply s (xs @ ev # ys)"
    using assms(1,2) unfolding recovered_def by auto
  let ?m = "Apply (foldl Apply s xs) ev"
  have "ts_recovery (resolve_queue u p) = Some r" for u
    using ev(2) by (simp add: resolve_queue_def split: option.split)
  then have "map tu_recovery (st_turns ?m) = map tu_recovery (st_turns (foldl Apply s xs)) @ [Some r]"
    using ev(1) fresh_log_next [OF new]
    by (simp add: Apply_def apply_turn_started_def new_turn_def Let_def)
  then have "map tu_recovery (st_turns s') = map tu_recovery (st_turns (foldl Apply s xs)) @ [Some r]"
    using turns_kept_fold [OF quiet, of ?m] by (simp add: s')
  then have ne: "st_turns s' \<noteq> []" and "last (map tu_recovery (st_turns s')) = Some r" by auto
  then have "tu_recovery (last (st_turns s')) = Some r" by (simp add: last_map)
  with ne assms(3) show ?thesis
    by (auto simp: planRecovery_def lastTurn_def next_attempt_def split: if_splits)
qed

text \<open>
  C24: a thread whose recovery takes the server down again and again is not recovered forever:
  every further attempt is numbered one higher and none is numbered above three.
\<close>

theorem recovery_stops:
  assumes "(recovered ^^ n) s s'" and "planRecovery s = Some r" and "planRecovery s' = Some r'"
  shows "tr_attempt r' = tr_attempt r + int n \<and> tr_attempt r' \<le> 3"
proof -
  have "tr_attempt r' = tr_attempt r + int n"
    using assms(1,3)
  proof (induction n arbitrary: s' r')
    case 0
    with assms(2) show ?case by simp
  next
    case (Suc n)
    then obtain u where u: "(recovered ^^ n) s u" "recovered u s'" by auto
    then obtain q where q: "planRecovery u = Some q" by (auto simp: recovered_def)
    from Suc.IH [OF u(1) q] recovery_attempt [OF u(2) q Suc.prems(2)] show ?case by simp
  qed
  moreover have "tr_attempt r' \<le> 3"
    using assms(3) by (auto simp: planRecovery_def split: if_splits option.splits)
  ultimately show ?thesis by simp
qed

definition sample_interrupted :: state where
  "sample_interrupted = foldl Apply (New ''t1'') [sample_event 1 (sample_turn ''u1'' [])]"

definition sample_again :: event where
  "sample_again = sample_event 3 (TurnStarted \<lparr>ts_turnID = ''u2'', ts_prompt = ''go on'', ts_images = [],
     ts_recovery = Some \<lparr>tr_resumeOf = ''u1'', tr_attempt = 1, tr_cause = RecoveryRestart\<rparr>,
     ts_queueID = []\<rparr>)"

theorem recovery_stops_witness:
  "map_option tr_attempt (planRecovery sample_interrupted) = Some 1
   \<and> map_option tr_attempt (planRecovery (foldl Apply sample_interrupted
       [sample_event 2 (sample_finish ''u1''), sample_again])) = Some 2"
proof -
  let ?s' = "foldl Apply sample_interrupted [sample_event 2 (sample_finish ''u1''), sample_again]"
  have one: "planRecovery sample_interrupted = Some \<lparr>tr_resumeOf = ''u1'', tr_attempt = 1, tr_cause = RecoveryRestart\<rparr>"
    by code_simp
  have two: "planRecovery ?s' = Some (the (planRecovery ?s'))"
  proof -
    have "planRecovery ?s' \<noteq> None" by code_simp
    then show ?thesis by simp
  qed
  have "st_seq sample_interrupted = 1" by code_simp
  then have "recovered sample_interrupted ?s'"
    unfolding recovered_def
    by (intro exI [of _ "\<lparr>tr_resumeOf = ''u1'', tr_attempt = 1, tr_cause = RecoveryRestart\<rparr>"]
        exI [of _ "case ev_body sample_again of TurnStarted p \<Rightarrow> p"] exI [of _ sample_again]
        exI [of _ "[sample_event 2 (sample_finish ''u1'')]"] exI [of _ "[]"] conjI one)
      (simp_all add: sample_again_def sample_event_def sample_finish_def fresh_log_Cons fresh_log_def)
  then have "(recovered ^^ 1) sample_interrupted ?s'" by (auto simp: OO_def)
  from recovery_stops [OF this one two] have "tr_attempt (the (planRecovery ?s')) = 2" by simp
  then have "map_option tr_attempt (planRecovery ?s') = Some 2" by (subst two) simp
  with one show ?thesis by simp
qed

section \<open>Scheduled prompts\<close>

lemma prompted_call:
  "prompted (snd (call_harness w s (CallPrompt t p ims) a)) = prompted a @ [ToHarness (se_id s) (CallPrompt t p ims)]"
  by (simp add: call_harness_def prompted_def emit_def tick_def)

text \<open>A schedule's turn prompts the harness at most once, and nothing else in a tick does.\<close>

definition prompts :: "nat \<Rightarrow> actor \<Rightarrow> actor \<Rightarrow> bool" where
  "prompts n a b \<longleftrightarrow> (\<exists>es. prompted b = prompted a @ es \<and> length es \<le> n)"

lemma prompts_work: "work w False a b \<Longrightarrow> prompts n a b"
  by (simp add: prompts_def prompted_work)

lemma prompts_same: "prompted b = prompted a \<Longrightarrow> prompts n a b"
  by (simp add: prompts_def)

lemma prompts_after: "prompts n b c \<Longrightarrow> prompted b = prompted a \<Longrightarrow> prompts n a c"
  by (simp add: prompts_def)

declare prompted_call [simp]

lemma prompted_guard [simp]: "prompted (x\<lparr>a_turnActive := t\<rparr>) = prompted x"
  by (simp add: prompted_def)

lemma prompts_startTurn: "prompts 1 a (snd (startTurn w s prompt images rec q a))"
proof -
  let ?p = "started w prompt images rec q a"
  let ?b = "baseline w (ts_turnID ?p) (snd (fresh w a))"
  have "silent a ?b" by (blast intro: silent_trans silent_steps)
  then have "prompted ?b = prompted a" by (rule silentD)
  then have "prompted (snd (opened w ?p a)) = prompted a"
    using append_quiet(1) [of w "TurnStarted ?p" "?b\<lparr>a_turnActive := ts_turnID ?p\<rparr>"]
    by (simp add: opened_def prompted_def)
  then have c: "prompted (snd (call_harness w s (CallPrompt t prompt images) (name_thread prompt images rec (snd (opened w ?p a)))))
      = prompted a @ [ToHarness (se_id s) (CallPrompt t prompt images)]" for t
    by (simp add: prompted_call)
  show ?thesis
    using c \<open>prompted (snd (opened w ?p a)) = prompted a\<close>
    by (auto simp: startTurn_eq Let_def prompts_def append_quiet split: option.split)
qed

lemma prompts_send:
  "prompts 1 a (snd (send_scheduled w s p a))"
proof -
  have fail: "prompted (snd (failSchedule w p e x)) = prompted x" for e x
    by (rule prompted_work [where w = w]) (intro work_intro)
  let ?r = "scheduleSettings w s p a"
  have set: "prompted (snd ?r) = prompted a" by (rule prompted_work [where w = w]) (intro work_intro)
  have start: "prompts 1 a (snd (startTurn w s pr ims None q (snd ?r)))" for pr ims q
    by (rule prompts_after [OF prompts_startTurn set])
  then have "prompts 1 a (snd (failSchedule w p e (snd (startTurn w s pr ims None q (snd ?r)))))" for e pr ims q
    by (simp add: prompts_def fail)
  with set start fail show ?thesis
    by (auto simp: send_scheduled_def Let_def case_prod_beta split: option.split sum.split intro!: prompts_same)
qed

lemma prompts_run:
  "prompts (case fst (run_scheduled w p a) of None \<Rightarrow> 0 | Some r \<Rightarrow> 1) a (snd (run_scheduled w p a))"
proof -
  let ?r = "if a_sess a = None then activate w [] [] [] [] True a else (None, a)"
  have r: "prompted (snd ?r) = prompted a" by (rule prompted_work [where w = w]) (auto intro!: work_intro)
  have fail: "prompted (snd (failSchedule w p e x)) = prompted x" for e x
    by (rule prompted_work [where w = w]) (intro work_intro)
  have "prompts 1 a (snd (send_scheduled w s p (snd ?r)))" for s
    by (rule prompts_after [OF prompts_send r])
  then show ?thesis
    unfolding run_scheduled_def using r fail
    by (cases ?r) (auto split: option.split intro!: prompts_same)
qed

lemma prompts_due: "prompts 1 a (snd (dispatch_due w now ps a))"
proof (induction ps arbitrary: a)
  case (Cons p ps)
  have run: "prompts 1 x (snd (case run_scheduled w q x of
      (Some r, z) \<Rightarrow> (r, z) | (None, z) \<Rightarrow> dispatch_due w now ps z))" for q x
  proof (cases "fst (run_scheduled w q x)")
    case None
    have "prompted (snd (run_scheduled w q x)) = prompted x"
      using prompts_run [of w q x] None by (simp add: prompts_def)
    then have "prompts 1 x (snd (dispatch_due w now ps (snd (run_scheduled w q x))))"
      by (rule prompts_after [OF Cons.IH])
    with None show ?thesis by (simp add: case_prod_beta)
  next
    case (Some r)
    with prompts_run [of w q x] show ?thesis by (simp add: case_prod_beta)
  qed
  let ?x = "snd (append w (PromptScheduled (picked_up now p)) a)"
  have app: "prompted ?x = prompted a" by (rule append_quiet)
  then have one: "prompts 1 a ?x" by (rule prompts_same)
  have rest: "prompts 1 a (snd (dispatch_due w now ps ?x))" by (rule prompts_after [OF Cons.IH app])
  have "prompts 1 a (snd (case run_scheduled w (picked_up now p) y of
      (Some r, z) \<Rightarrow> (r, z) | (None, z) \<Rightarrow> dispatch_due w now ps z))"
    if "y = ?x\<lparr>a_scheduleReady := pickup_key a p # a_scheduleReady ?x\<rparr>" for y
    by (rule prompts_after [OF run]) (simp add: that app [unfolded prompted_def] prompted_def)
  with one rest show ?case
    using Cons.IH [of a] run [where q = p and x = a] by (auto simp: Let_def case_prod_beta split: option.split)
qed (simp add: prompts_def)

text \<open>
  A schedule the tick would only write off: it is over, not yet due, or waited more than an hour
  for the host.
\<close>

definition unsendable :: "int \<Rightarrow> scheduled_prompt \<Rightarrow> bool" where
  "unsendable now p \<longleftrightarrow> \<not> pending_status (sp_status p) \<or> sp_dueAt p > now
     \<or> sp_status p = ''pending'' \<and> now - sp_dueAt p > scheduleGrace"

lemma unsendable_due:
  "list_all (unsendable now) ps \<Longrightarrow> prompted (snd (dispatch_due w now ps a)) = prompted a"
proof (induction ps arbitrary: a)
  case (Cons p ps)
  have app: "prompted (snd (append w em a)) = prompted a" for em by (rule append_quiet)
  from Cons show ?case
    by (auto simp: unsendable_def picked_up_def Let_def case_prod_beta app split: option.split)
qed simp

text \<open>
  A tick of the scheduler prompts the harness at most once, however many schedules are due,
  and not at all when what is due waited longer than an hour for the host.
\<close>

theorem tick_sends_at_most_one:
  "\<exists>es. filter opens (a_out (after (handle w (ScheduleTick now) a))) = filter opens (a_out a) @ es
     \<and> length es \<le> 1
     \<and> (list_all (unsendable (fst (schedule_now w now a))) (st_scheduled (a_state a)) \<longrightarrow> es = [])"
proof -
  let ?n = "fst (schedule_now w now a)" and ?a = "snd (schedule_now w now a)"
  have a: "prompted ?a = prompted a" "a_state ?a = a_state a"
    by (simp_all add: schedule_now_def prompted_def tick_def)
  let ?ps = "sort_key sp_dueAt (st_scheduled (a_state a))"
  have h: "after (handle w (ScheduleTick now) a) =
      (if st_closed (a_state a) then ?a else snd (dispatch_due w ?n ?ps ?a))"
    using a(2) by (simp add: case_prod_beta dispatchScheduled_def)
  have "prompts 1 a (snd (dispatch_due w ?n ?ps ?a))"
    by (rule prompts_after [OF prompts_due a(1)])
  then obtain es where es: "prompted (snd (dispatch_due w ?n ?ps ?a)) = prompted a @ es" "length es \<le> 1"
    by (auto simp: prompts_def)
  have "es = []" if "list_all (unsendable ?n) (st_scheduled (a_state a))"
  proof -
    have "list_all (unsendable ?n) ?ps" using that by (simp add: list_all_iff)
    from unsendable_due [OF this, of w ?a] es a show ?thesis by simp
  qed
  with es a h show ?thesis
    by (intro exI [of _ "if st_closed (a_state a) then [] else es"]) (simp add: prompted_def)
qed

theorem tick_sends_at_most_one_witness:
  "\<exists>es. filter opens (a_out (after (handle sample_world (ScheduleTick 5) sample_busy))) =
      filter opens (a_out sample_busy) @ es \<and> es = []"
proof -
  have "list_all (unsendable (fst (schedule_now sample_world 5 sample_busy))) (st_scheduled (a_state sample_busy))"
    by code_simp
  with tick_sends_at_most_one [of sample_world 5 sample_busy] show ?thesis by blast
qed

section \<open>Closed threads\<close>





section \<open>The busy guard and the projected phase\<close>

text \<open>
  The turn the actor believes is running is one the log has opened and not finished: the
  busy guard never points at nothing.
\<close>

theorem guard_names_open_turn:
  assumes "actor_reachable w a" and "a_turnActive a \<noteq> []"
  shows "\<exists>t. t \<in> set (st_turns (a_state a)) \<and> tu_id t = a_turnActive a \<and> \<not> tu_done t"
  using core_ok_reachable [OF assms(1)] assms(2)
  by (auto simp: core_ok_def guard_ok_def open_in_def list_ex_iff)

theorem guard_names_open_turn_witness:
  "\<exists>t. t \<in> set (st_turns (a_state sample_busy)) \<and> tu_id t = a_turnActive sample_busy \<and> \<not> tu_done t"
proof -
  have "a_turnActive sample_busy \<noteq> []" by code_simp
  with guard_names_open_turn [OF sample_reachable(3)] show ?thesis by blast
qed

text \<open>
  The guard and the projected phase part when the harness opens a turn of its own inside a
  running one: the end of the inner turn takes the projection, the thread's row and its
  attention to idle while the actor is still busy with the outer turn.
\<close>

theorem guard_and_phase_part:
  "let a = run_commands sample_world
        [HarnessEvent 1 (sample_turn ''u2'' []), HarnessEvent 1 (sample_finish ''u2'')] sample_busy
   in a_turnActive a \<noteq> [] \<and> st_phase (a_state a) = ''idle''
      \<and> map_option tm_phase (thread_row (a_store a) (a_id a)) = Some ''idle''"
  by code_simp

section \<open>The output of a job\<close>

text \<open>A presenter that polls a job's output, each time from where the last reply ended.\<close>

fun follow :: "(string \<Rightarrow> output_file) \<Rightarrow> string \<Rightarrow> state \<Rightarrow> nat \<Rightarrow> int \<Rightarrow> string" where
  "follow files i s 0 off = []"
| "follow files i s (Suc k) off =
     (case JobOutput files i off s of
        Inl e \<Rightarrow> []
      | Inr (out, n, fin) \<Rightarrow> out @ follow files i s k (int n))"

lemma follow_from:
  assumes "output_job i s = Some j" and "jb_outputFile j \<noteq> []" and "files (jb_outputFile j) = FileBytes b"
  shows "n \<le> length b \<Longrightarrow> follow files i s k (int n) = take (k * jobOutputChunk) (drop n b)"
proof (induction k arbitrary: n)
  case (Suc k)
  let ?t = "take jobOutputChunk (drop n b)"
  have "JobOutput files i (int n) s = Inr (read_output (jb_status j) n b)"
    using assms by (simp add: JobOutput_def)
  then have "follow files i s (Suc k) (int n) = ?t @ follow files i s k (int (n + length ?t))"
    using Suc.prems by (simp add: read_output_def Let_def min_def)
  also have "\<dots> = ?t @ take (k * jobOutputChunk) (drop (n + length ?t) b)"
    using Suc.prems by (subst Suc.IH) simp_all
  also have "drop (n + length ?t) b = drop jobOutputChunk (drop n b)"
    by (simp add: add.commute min_def)
  also have "?t @ take (k * jobOutputChunk) (drop jobOutputChunk (drop n b)) = take (Suc k * jobOutputChunk) (drop n b)"
    by (simp only: take_add [symmetric] mult_Suc)
  finally show ?case .
qed simp

text \<open>
  Polling a job's output gives the file from its start without a gap or a repeat, in pieces
  of at most 64 kB, and a reply says it is the last exactly when the job is over and the whole
  file has been read.
\<close>

theorem job_output_adds_up:
  assumes "output_job i s = Some j" and "jb_outputFile j \<noteq> []" and "files (jb_outputFile j) = FileBytes b"
  shows "follow files i s k 0 = take (k * jobOutputChunk) b
    \<and> (\<exists>out n fin. JobOutput files i off s = Inr (out, n, fin) \<and> length out \<le> jobOutputChunk
         \<and> (fin \<longleftrightarrow> JobDone (jb_status j) \<and> n = length b))"
proof -
  have "follow files i s k 0 = take (k * jobOutputChunk) b"
    using follow_from [where n = 0 and k = k and files = files, OF assms(1,2) assms(3)] by simp
  moreover have "JobOutput files i off s = Inr (read_output (jb_status j) (nat off) b)"
    using assms by (simp add: JobOutput_def)
  ultimately show ?thesis by (auto simp: read_output_def Let_def)
qed

definition sample_output_state :: state where
  "sample_output_state =
     foldl Apply (New ''t1'') [sample_event 1 (JobStarted ((sample_job ''j1'' ''c1'')\<lparr>jp_outputFile := ''/o''\<rparr>))]"

theorem job_output_adds_up_witness:
  "follow (\<lambda>f. FileBytes ''hello'') ''j1'' sample_output_state 1 0 = ''hello''"
proof -
  have "map_option jb_outputFile (output_job ''j1'' sample_output_state) = Some ''/o''" by code_simp
  then obtain j where "output_job ''j1'' sample_output_state = Some j" "jb_outputFile j \<noteq> []" by auto
  from job_output_adds_up [where files = "\<lambda>f. FileBytes ''hello''" and b = "''hello''" and k = 1, OF this]
  show ?thesis by simp
qed

end
