(* ===== verification/Text.thy ===== *)
theory Text
  imports Prelude
begin

text \<open>
  What the server uses of Go's \<open>strings\<close>, \<open>net\<close> and \<open>encoding/base32\<close>: splitting and
  trimming, host and port, IP addresses in their text form, and the base32 of pairing codes.
\<close>

section \<open>Strings\<close>

text \<open>\<open>strings.Split\<close> with a separator of one byte: always at least one part.\<close>

fun split_on :: "char \<Rightarrow> string \<Rightarrow> string list" where
  "split_on c [] = [[]]"
| "split_on c (b # s) =
     (if b = c then [] # split_on c s
      else case split_on c s of [] \<Rightarrow> [[b]] | p # ps \<Rightarrow> (b # p) # ps)"

text \<open>\<open>strings.CutPrefix\<close>: \<open>None\<close> where the prefix is missing.\<close>

fun cut_prefix :: "string \<Rightarrow> string \<Rightarrow> string option" where
  "cut_prefix [] s = Some s"
| "cut_prefix (p # ps) [] = None"
| "cut_prefix (p # ps) (b # s) = (if p = b then cut_prefix ps s else None)"

lemma cut_prefix_append [simp]: "cut_prefix p (p @ s) = Some s"
  by (induction p) auto

lemma cut_prefix_SomeD: "cut_prefix p s = Some r \<Longrightarrow> s = p @ r"
  by (induction p s rule: cut_prefix.induct) (auto split: if_splits)

text \<open>\<open>strings.Trim\<close> with a set of bytes.\<close>

definition trim_bytes :: "(char \<Rightarrow> bool) \<Rightarrow> string \<Rightarrow> string" where
  "trim_bytes P s = rev (dropWhile P (rev (dropWhile P s)))"

lemma dropWhile_hd: "xs \<noteq> [] \<Longrightarrow> \<not> P (hd xs) \<Longrightarrow> dropWhile P xs = xs"
  by (cases xs) auto

lemma trim_bytes_id:
  "s \<noteq> [] \<Longrightarrow> \<not> P (hd s) \<Longrightarrow> \<not> P (last s) \<Longrightarrow> trim_bytes P s = s"
  by (simp add: trim_bytes_def dropWhile_hd hd_rev)

definition is_ascii :: "char \<Rightarrow> bool" where
  "is_ascii b \<longleftrightarrow> (of_char b :: nat) < 128"

text \<open>
  \<open>strings.ToUpper\<close>, rune by rune: ASCII letters, and the two runes outside ASCII whose upper
  case is an ASCII letter (U+0131 and U+017F).  Every other rune outside ASCII has its upper case
  outside ASCII and stands for itself here; a byte that is no rune becomes U+FFFD.
\<close>

definition upper_rune :: "string \<Rightarrow> string" where
  "upper_rune r =
     (if r = map char_of [0xC4, 0xB1 :: nat] then ''I''
      else if r = map char_of [0xC5, 0xBF :: nat] then ''S''
      else if list_all is_ascii r then map upper_byte r
      else rune_bytes r)"

definition upper_text :: "string \<Rightarrow> string" where
  "upper_text s = concat (map upper_rune (runes s))"

text \<open>\<open>strings.ToLower\<close> in the same way: U+0130 and U+212A have ASCII lower cases.\<close>

definition lower_rune :: "string \<Rightarrow> string" where
  "lower_rune r =
     (if r = map char_of [0xC4, 0xB0 :: nat] then ''i''
      else if r = map char_of [0xE2, 0x84, 0xAA :: nat] then ''k''
      else if list_all is_ascii r then map lower_byte r
      else rune_bytes r)"

definition lower_text :: "string \<Rightarrow> string" where
  "lower_text s = concat (map lower_rune (runes s))"

text \<open>\<open>strings.CutSuffix\<close>, \<open>strings.Contains\<close> and \<open>strings.ReplaceAll\<close> (of a text that is not empty).\<close>

definition cut_suffix :: "string \<Rightarrow> string \<Rightarrow> string option" where
  "cut_suffix p s = map_option rev (cut_prefix (rev p) (rev s))"

fun contains_text :: "string \<Rightarrow> string \<Rightarrow> bool" where
  "contains_text p [] \<longleftrightarrow> p = []"
| "contains_text p (b # s) \<longleftrightarrow> cut_prefix p (b # s) \<noteq> None \<or> contains_text p s"

lemma cut_prefix_length: "cut_prefix p s = Some r \<Longrightarrow> length s = length p + length r"
  using cut_prefix_SomeD [of p s r] by simp

function replace_all :: "string \<Rightarrow> string \<Rightarrow> string \<Rightarrow> string" where
  "replace_all p q [] = []"
| "replace_all p q (b # s) =
     (case cut_prefix p (b # s) of
        None \<Rightarrow> b # replace_all p q s
      | Some r \<Rightarrow> if p = [] then b # replace_all p q s else q @ replace_all p q r)"
  by pat_completeness auto
termination
  by (relation "measure (\<lambda>(p, q, s). length s)") (auto dest: cut_prefix_length)

lemma runes_ascii: "list_all is_ascii s \<Longrightarrow> runes s = map (\<lambda>b. [b]) s"
proof (induction s)
  case (Cons b s)
  then have "in_range 0 0x7F b" by (simp add: in_range_def is_ascii_def)
  then have "rune_width (b # s) = 1" by (simp add: rune_width_def)
  with Cons show ?case by (simp add: runes.simps(2))
qed simp

lemma upper_rune_ascii: "is_ascii b \<Longrightarrow> upper_rune [b] = [upper_byte b]"
  by (simp add: upper_rune_def)

lemma upper_text_ascii: "list_all is_ascii s \<Longrightarrow> upper_text s = map upper_byte s"
proof (induction s)
  case (Cons b s)
  then show ?case by (simp add: upper_text_def runes_ascii upper_rune_ascii)
qed (simp add: upper_text_def)

section \<open>Host and port\<close>

definition last_index :: "char \<Rightarrow> string \<Rightarrow> nat option" where
  "last_index c s =
     (case List.find (\<lambda>i. s ! i = c) (rev [0..<length s]) of None \<Rightarrow> None | Some i \<Rightarrow> Some i)"

definition first_index :: "char \<Rightarrow> string \<Rightarrow> nat option" where
  "first_index c s = List.find (\<lambda>i. s ! i = c) [0..<length s]"

text \<open>The host \<open>net.SplitHostPort\<close> answers, \<open>None\<close> for each of its errors.\<close>

definition split_host :: "string \<Rightarrow> string option" where
  "split_host s =
     (case last_index (CHR '':'') s of
        None \<Rightarrow> None
      | Some i \<Rightarrow>
          if hd s = CHR ''['' then
            (case first_index (CHR '']'') s of
               None \<Rightarrow> None
             | Some e \<Rightarrow>
                 if e + 1 \<noteq> i then None
                 else if CHR ''['' \<in> set (drop 1 s) \<or> CHR '']'' \<in> set (drop (e + 1) s) then None
                 else Some (drop 1 (take e s)))
          else
            let host = take i s
            in if CHR '':'' \<in> set host \<or> CHR ''['' \<in> set s \<or> CHR '']'' \<in> set s then None
               else Some host)"

section \<open>Addresses\<close>

definition dec_value :: "char \<Rightarrow> nat option" where
  "dec_value b = (let n = of_char b :: nat in if 48 \<le> n \<and> n \<le> 57 then Some (n - 48) else None)"

definition hex_value :: "char \<Rightarrow> nat option" where
  "hex_value b =
     (let n = of_char b :: nat
      in if 48 \<le> n \<and> n \<le> 57 then Some (n - 48)
         else if 97 \<le> n \<and> n \<le> 102 then Some (n - 87)
         else if 65 \<le> n \<and> n \<le> 70 then Some (n - 55) else None)"

text \<open>One field of a dotted address: at most 255, no leading zero.\<close>

definition octet :: "string \<Rightarrow> nat option" where
  "octet s =
     (if s = [] \<or> list_ex (\<lambda>b. dec_value b = None) s \<or> (hd s = CHR ''0'' \<and> s \<noteq> ''0'') then None
      else let v = foldl (\<lambda>n b. 10 * n + the (dec_value b)) 0 s in if v > 255 then None else Some v)"

definition parse_ipv4 :: "string \<Rightarrow> nat list option" where
  "parse_ipv4 s =
     (let fs = map octet (split_on (CHR ''.'') s)
      in if length fs \<noteq> 4 \<or> None \<in> set fs then None else Some (map the fs))"

text \<open>
  The loop over the groups of an IPv6 address: \<open>k\<close> groups may still come, \<open>ell\<close> is where the
  ellipsis stands, \<open>ip\<close> the bytes so far; it answers the bytes and the ellipsis when all of the
  text was used.
\<close>

fun ipv6_groups :: "nat \<Rightarrow> string \<Rightarrow> nat option \<Rightarrow> nat list \<Rightarrow> (nat list \<times> nat option) option" where
  "ipv6_groups 0 s ell ip = (if s = [] then Some (ip, ell) else None)"
| "ipv6_groups (Suc k) s ell ip =
     (let ds = takeWhile (\<lambda>b. hex_value b \<noteq> None) s;
          rest = drop (length ds) s;
          acc = foldl (\<lambda>n b. 16 * n + the (hex_value b)) 0 ds
      in if ds = [] \<or> length ds > 4 then None
         else if rest \<noteq> [] \<and> hd rest = CHR ''.'' then
           (if ell = None \<and> length ip \<noteq> 12 \<or> length ip + 4 > 16 then None
            else case parse_ipv4 s of None \<Rightarrow> None | Some q \<Rightarrow> Some (ip @ q, ell))
         else
           let ip' = ip @ [acc div 256, acc mod 256]
           in if rest = [] then Some (ip', ell)
              else if hd rest \<noteq> CHR '':'' \<or> length rest = 1 then None
              else if rest ! 1 = CHR '':'' then
                (if ell \<noteq> None then None
                 else if length rest = 2 then Some (ip', Some (length ip'))
                 else ipv6_groups k (drop 2 rest) (Some (length ip')) ip')
              else ipv6_groups k (drop 1 rest) ell ip')"

text \<open>A zone makes the address one that \<open>net.ParseIP\<close> refuses.\<close>

definition parse_ipv6 :: "string \<Rightarrow> nat list option" where
  "parse_ipv6 s =
     (if CHR ''%'' \<in> set s then None
      else if s = ''::'' then Some (replicate 16 0)
      else
        let (t, e0) = (case cut_prefix ''::'' s of None \<Rightarrow> (s, None) | Some t \<Rightarrow> (t, Some 0))
        in case ipv6_groups 8 t e0 [] of
             None \<Rightarrow> None
           | Some (ip, ell) \<Rightarrow>
               (case ell of
                  None \<Rightarrow> if length ip < 16 then None else Some ip
                | Some e \<Rightarrow>
                    if length ip < 16 then Some (take e ip @ replicate (16 - length ip) 0 @ drop e ip)
                    else None))"

text \<open>\<open>net.ParseIP\<close> followed by \<open>IsLoopback\<close>.\<close>

definition mapped_prefix :: "nat list" where
  "mapped_prefix = replicate 10 0 @ [255, 255]"

definition loopback_address :: "string \<Rightarrow> bool" where
  "loopback_address s =
     (case List.find (\<lambda>b. b = CHR ''.'' \<or> b = CHR '':'' \<or> b = CHR ''%'') s of
        None \<Rightarrow> False
      | Some b \<Rightarrow>
          if b = CHR ''.'' then (case parse_ipv4 s of None \<Rightarrow> False | Some q \<Rightarrow> hd q = 127)
          else if b = CHR '':'' then
            (case parse_ipv6 s of
               None \<Rightarrow> False
             | Some ip \<Rightarrow> if take 12 ip = mapped_prefix then ip ! 12 = 127
                          else ip = replicate 15 0 @ [1])
          else False)"

section \<open>Base32 without padding\<close>

text \<open>Five bytes are eight characters of five bits, the first bits first.\<close>

definition base32_block :: "string \<Rightarrow> nat list \<Rightarrow> string" where
  "base32_block alphabet bs =
     (let v = foldl (\<lambda>n b. 256 * n + b) 0 bs
      in map (\<lambda>i. alphabet ! (v div 32 ^ (7 - i) mod 32)) [0..<8])"

text \<open>
  Whether the decoder accepts a text: it skips line breaks and looks for nothing but characters
  outside its alphabet.
\<close>

definition base32_accepts :: "string \<Rightarrow> string \<Rightarrow> bool" where
  "base32_accepts alphabet s =
     list_all (\<lambda>b. b \<in> set alphabet) (filter (\<lambda>b. (of_char b :: nat) \<noteq> 10 \<and> (of_char b :: nat) \<noteq> 13) s)"

lemma base32_block_chars:
  "length alphabet = 32 \<Longrightarrow> set (base32_block alphabet bs) \<subseteq> set alphabet \<and> length (base32_block alphabet bs) = 8"
  by (auto simp: base32_block_def Let_def)

end
