(* ===== verification/Auth.thy ===== *)
theory Auth
  imports Text ProjectStore
begin

text \<open>
  Who may talk to the server (internal/auth/auth.go): pairing codes and device tokens, the
  rule that admits a request, and the budget of pairing attempts per peer.  The hash is a
  parameter \<open>hash\<close>, random bytes and fresh ids are arguments, and times are in nanoseconds.
\<close>

section \<open>Requests and the guard\<close>

text \<open>
  Of a request: the peer's address, \<open>Header.Get\<close> by canonical name (empty where absent), the
  parsed cookies in order, and whether it came over TLS.
\<close>

record request =
  hr_remote :: string
  hr_header :: "string \<Rightarrow> string"
  hr_cookies :: "(string \<times> string) list"
  hr_tls :: bool

record bucket =
  bk_count :: int
  bk_reset :: int

type_synonym limiter = "(string \<times> bucket) list"

record guard =
  gd_reachable :: bool
  gd_cookie :: string
  gd_limiter :: limiter
  gd_proxied :: bool

abbreviation cookiePrefix :: string where "cookiePrefix \<equiv> ''omniplex_device''"
abbreviation DefaultPort :: int where "DefaultPort \<equiv> 8787"

definition CookieName :: "int \<Rightarrow> string" where
  "CookieName port = (if port = DefaultPort then cookiePrefix else cookiePrefix @ ''_'' @ format_int port)"

definition New_guard :: "bool \<Rightarrow> int \<Rightarrow> guard" where
  "New_guard reachable port =
     \<lparr>gd_reachable = reachable, gd_cookie = CookieName port, gd_limiter = [], gd_proxied = False\<rparr>"

definition SetReachable :: "guard \<Rightarrow> guard" where
  "SetReachable g = g\<lparr>gd_reachable := True\<rparr>"

definition SetProxied :: "bool \<Rightarrow> guard \<Rightarrow> guard" where
  "SetProxied v g = g\<lparr>gd_proxied := v\<rparr>"

datatype policy = PolicyLoopback | PolicyReachable

definition Policy :: "guard \<Rightarrow> policy" where
  "Policy g = (if gd_reachable g then PolicyReachable else PolicyLoopback)"

section \<open>Pairing codes\<close>

definition pairingAlphabetChars :: string where
  "pairingAlphabetChars = ''ABCDEFGHJKLMNPQRSTUVWXYZ23456789''"

abbreviation pairingCodeLen :: nat where "pairingCodeLen \<equiv> 16"

text \<open>Ten random bytes in base32.\<close>

definition randomPairingCode :: "nat list \<Rightarrow> string" where
  "randomPairingCode bytes =
     base32_block pairingAlphabetChars (take 5 bytes) @ base32_block pairingAlphabetChars (drop 5 bytes)"

text \<open>The loop counts bytes, which in a code are its characters.\<close>

fun format_from :: "nat \<Rightarrow> string \<Rightarrow> string" where
  "format_from i [] = []"
| "format_from i (b # s) = (if i > 0 \<and> i mod 4 = 0 then [CHR ''-'', b] else [b]) @ format_from (Suc i) s"

definition FormatCode :: "string \<Rightarrow> string" where
  "FormatCode code = format_from 0 code"

definition separator :: "char \<Rightarrow> bool" where
  "separator b \<longleftrightarrow> b = CHR '' '' \<or> b = CHR ''-'' \<or> b = CHR ''_'' \<or> (of_char b :: nat) = 9"

definition normaliseCode :: "string \<Rightarrow> string" where
  "normaliseCode code =
     (let c = filter (\<lambda>b. \<not> separator b) (upper_text (trim_space code))
      in if length c \<noteq> pairingCodeLen then []
         else if base32_accepts pairingAlphabetChars c then c else [])"

section \<open>The budget of pairing attempts\<close>

abbreviation attemptBudget :: int where "attemptBudget \<equiv> 10"
abbreviation attemptWindow :: int where "attemptWindow \<equiv> 60000000000"
abbreviation maxBuckets :: nat where "maxBuckets \<equiv> 4096"

text \<open>
  The map of buckets is listed in the order a range over it takes; among buckets of one expiry
  the order is the list's, where Go's sort promises none.
\<close>

definition evict :: "int \<Rightarrow> limiter \<Rightarrow> limiter" where
  "evict now l =
     (let l1 = filter (\<lambda>(k, b). \<not> now > bk_reset b) l
      in if length l1 < maxBuckets then l1
         else let entries = sort_key (\<lambda>(k, b). bk_reset b) l1;
                  gone = map fst (take (length entries div 2) entries)
              in filter (\<lambda>(k, b). k \<notin> set gone) l1)"

definition set_bucket :: "string \<Rightarrow> bucket \<Rightarrow> limiter \<Rightarrow> limiter" where
  "set_bucket k b l = filter (\<lambda>(i, c). i \<noteq> k) l @ [(k, b)]"

definition allow :: "int \<Rightarrow> string \<Rightarrow> limiter \<Rightarrow> bool \<times> limiter" where
  "allow now key l =
     (case map_of l key of
        Some b \<Rightarrow>
          if now < bk_reset b then
            (if bk_count b \<ge> attemptBudget then (False, l)
             else (True, set_bucket key (b\<lparr>bk_count := bk_count b + 1\<rparr>) l))
          else
            (let l1 = (if length l \<ge> maxBuckets then evict now l else l)
             in (True, set_bucket key \<lparr>bk_count = 1, bk_reset = now + attemptWindow\<rparr> l1))
      | None \<Rightarrow>
          (let l1 = (if length l \<ge> maxBuckets then evict now l else l)
           in (True, set_bucket key \<lparr>bk_count = 1, bk_reset = now + attemptWindow\<rparr> l1)))"

definition reset_bucket :: "string \<Rightarrow> limiter \<Rightarrow> limiter" where
  "reset_bucket key l = filter (\<lambda>(k, b). k \<noteq> key) l"

section \<open>Pairing\<close>

datatype auth_error = ErrTooManyAttempts | ErrBadCode | ErrAuthStore store_error

abbreviation PairingTTL :: int where "PairingTTL \<equiv> 600000000000"

definition millis :: "int \<Rightarrow> int" where
  "millis ns = ns div 1000000"

definition NewPairingCode :: "(string \<Rightarrow> string) \<Rightarrow> int \<Rightarrow> nat list \<Rightarrow> db \<Rightarrow> string \<times> db" where
  "NewPairingCode hash now bytes d =
     (let code = randomPairingCode bytes
      in (code, CreatePairing (millis now) (hash code) (millis (now + PairingTTL))
            (PurgePairings (millis now) d)))"

text \<open>The token is the text of 32 random bytes; the device is read back for its stamps.\<close>

definition Redeem ::
  "(string \<Rightarrow> string) \<Rightarrow> int \<Rightarrow> string \<Rightarrow> string \<Rightarrow> string \<Rightarrow> string \<Rightarrow> string \<Rightarrow> guard \<Rightarrow> db
   \<Rightarrow> (auth_error + string \<times> device) \<times> guard \<times> db" where
  "Redeem hash now token uuid remote code label0 g d =
     (let (ok, l) = allow now remote (gd_limiter g); g1 = g\<lparr>gd_limiter := l\<rparr>
      in if \<not> ok then (Inl ErrTooManyAttempts, g1, d)
         else
           let c = normaliseCode code;
               label = (if label0 = [] then ''paired device'' else label0)
           in if c = [] then (Inl ErrBadCode, g1, d)
              else case RedeemPairingForDevice (millis now) (hash c) uuid (hash token) label d of
                     Inl e \<Rightarrow> (Inl ErrBadCode, g1, d)
                   | Inr d1 \<Rightarrow>
                       let (dev, d2) =
                         (case DeviceByToken (millis now) (hash token) d1 of
                            Inl e \<Rightarrow> (\<lparr>dv_id = uuid, dv_label = label, dv_createdAt = 0, dv_lastSeen = 0\<rparr>, d1)
                          | Inr r \<Rightarrow> r)
                       in (Inr (token, dev), g1\<lparr>gd_limiter := reset_bucket remote l\<rparr>, d2))"

section \<open>Requests\<close>

definition host_of :: "string \<Rightarrow> string" where
  "host_of remote = (case split_host remote of None \<Rightarrow> remote | Some h \<Rightarrow> h)"

definition PeerKey :: "request \<Rightarrow> string" where
  "PeerKey r = host_of (hr_remote r)"

definition IsLocal :: "request \<Rightarrow> bool" where
  "IsLocal r = loopback_address (trim_bytes (\<lambda>b. b = CHR ''['' \<or> b = CHR '']'') (host_of (hr_remote r)))"

definition proxyHeaders :: "string list" where
  "proxyHeaders =
     [''Tailscale-User-Login'', ''Tailscale-User-Name'', ''Tailscale-User-Profile-Pic'',
      ''Tailscale-App-Capabilities'', ''Tailscale-Headers-Info'', ''X-Forwarded-For'',
      ''X-Forwarded-Host'', ''X-Forwarded-Proto'']"

definition looksProxied :: "request \<Rightarrow> bool" where
  "looksProxied r = list_ex (\<lambda>h. hr_header r h \<noteq> []) proxyHeaders"

definition DirectlyLocal :: "request \<Rightarrow> bool" where
  "DirectlyLocal r \<longleftrightarrow> IsLocal r \<and> \<not> looksProxied r"

definition LocalDevice :: device where
  "LocalDevice = \<lparr>dv_id = ''local'', dv_label = ''this machine'', dv_createdAt = 0, dv_lastSeen = 0\<rparr>"

definition token_prefix :: string where
  "token_prefix = ''omniplex.token.''"

definition TokenSubprotocol :: "request \<Rightarrow> string option" where
  "TokenSubprotocol r =
     List.find (\<lambda>p. cut_prefix token_prefix p \<noteq> None)
       (map trim_space (split_on (CHR '','') (hr_header r ''Sec-WebSocket-Protocol'')))"

definition tokenFrom :: "guard \<Rightarrow> request \<Rightarrow> string" where
  "tokenFrom g r =
     (let cookie = (case map_of (hr_cookies r) (gd_cookie g) of None \<Rightarrow> [] | Some v \<Rightarrow> v)
      in if cookie \<noteq> [] then cookie
         else case cut_prefix ''Bearer '' (hr_header r ''Authorization'') of
                Some t \<Rightarrow> trim_space t
              | None \<Rightarrow>
                  (case TokenSubprotocol r of
                     None \<Rightarrow> []
                   | Some p \<Rightarrow> (case cut_prefix token_prefix p of None \<Rightarrow> [] | Some t \<Rightarrow> t)))"

definition Authorize ::
  "(string \<Rightarrow> string) \<Rightarrow> int \<Rightarrow> guard \<Rightarrow> request \<Rightarrow> db \<Rightarrow> device option \<times> db" where
  "Authorize hash now g r d =
     (let proxied = (gd_proxied g \<or> looksProxied r)
      in if IsLocal r \<and> \<not> proxied then (Some LocalDevice, d)
         else if \<not> proxied \<and> Policy g = PolicyLoopback then (None, d)
         else
           let token = tokenFrom g r
           in if token = [] then (None, d)
              else case DeviceByToken (millis now) (hash token) d of
                     Inl e \<Rightarrow> (None, d)
                   | Inr (dev, d1) \<Rightarrow> (Some dev, d1))"

section \<open>The cookie\<close>

record cookie =
  ck_name :: string
  ck_value :: string
  ck_path :: string
  ck_httpOnly :: bool
  ck_secure :: bool
  ck_lax :: bool
  ck_expires :: "int option"
  ck_maxAge :: int

definition SetCookie :: "int \<Rightarrow> guard \<Rightarrow> request \<Rightarrow> string \<Rightarrow> cookie" where
  "SetCookie now g r token =
     \<lparr>ck_name = gd_cookie g, ck_value = token, ck_path = ''/'', ck_httpOnly = True,
      ck_secure = hr_tls r, ck_lax = True, ck_expires = Some (now + 365 * 24 * 3600000000000),
      ck_maxAge = 0\<rparr>"

definition ClearCookie :: "guard \<Rightarrow> cookie" where
  "ClearCookie g =
     \<lparr>ck_name = gd_cookie g, ck_value = [], ck_path = ''/'', ck_httpOnly = True, ck_secure = False,
      ck_lax = False, ck_expires = None, ck_maxAge = -1\<rparr>"

end
