(* ===== verification/AuthProps.thy ===== *)
theory AuthProps
  imports Auth
begin

text \<open>
  What the guard promises: a code redeems however it is typed and once, a request is admitted
  only as this machine or as a paired device, and the attempts of a peer are bounded in number
  and the table of peers in size.
\<close>

section \<open>Codes\<close>

lemma alphabet_length: "length pairingAlphabetChars = 32"
  by code_simp

lemma alphabet_range:
  "list_all (\<lambda>b. (50 \<le> (of_char b :: nat) \<and> (of_char b :: nat) \<le> 57)
     \<or> (65 \<le> (of_char b :: nat) \<and> (of_char b :: nat) \<le> 90)) pairingAlphabetChars"
  by (simp add: pairingAlphabetChars_def)

lemma alphabet_plain:
  assumes "b \<in> set pairingAlphabetChars"
  shows "is_ascii b" "\<not> separator b" "upper_byte b = b" "\<not> is_space_rune [b]"
  using bspec [OF alphabet_range [unfolded list_all_iff] assms]
  by (auto simp: is_ascii_def separator_def upper_byte_def is_space_rune_def)

text \<open>What a person may type for a code: space around it, separators in it, letters in either case.\<close>

definition spells :: "string \<Rightarrow> string \<Rightarrow> bool" where
  "spells s c \<longleftrightarrow> list_all is_ascii (trim_space s)
     \<and> map upper_byte (filter (\<lambda>b. \<not> separator b) (trim_space s)) = c"

definition generated :: "string \<Rightarrow> bool" where
  "generated c \<longleftrightarrow> length c = 16 \<and> set c \<subseteq> set pairingAlphabetChars"

lemma generated_code: "length bytes = 10 \<Longrightarrow> generated (randomPairingCode bytes)"
  using base32_block_chars [OF alphabet_length] by (simp add: generated_def randomPairingCode_def)

lemma separator_upper: "separator (upper_byte b) = separator b"
proof -
  have "\<not> separator (upper_byte b) \<and> \<not> separator b" if "97 \<le> (of_char b :: nat)" "(of_char b :: nat) \<le> 122"
  proof -
    have "(of_char (upper_byte b) :: nat) = of_char b - 32" using that by (simp add: upper_byte_def Let_def)
    with that have "65 \<le> (of_char (upper_byte b) :: nat)" "(of_char (upper_byte b) :: nat) \<le> 90" by simp_all
    then show ?thesis using that by (auto simp: separator_def)
  qed
  then show ?thesis by (auto simp: upper_byte_def Let_def)
qed

lemma filter_upper: "filter (\<lambda>b. \<not> separator b) (map upper_byte s) = map upper_byte (filter (\<lambda>b. \<not> separator b) s)"
  by (induction s) (simp_all add: separator_upper)

lemma normalise_spelling: "spells s c \<Longrightarrow> generated c \<Longrightarrow> normaliseCode s = c"
  by (auto simp: spells_def generated_def normaliseCode_def upper_text_ascii filter_upper base32_accepts_def
      list_all_iff Let_def)

lemma format_from_chars: "set (format_from i c) \<subseteq> insert (CHR ''-'') (set c)"
  by (induction c arbitrary: i) auto

lemma format_from_filter:
  "list_all (\<lambda>b. \<not> separator b) c \<Longrightarrow> filter (\<lambda>b. \<not> separator b) (format_from i c) = c"
  by (induction c arbitrary: i) (auto simp: separator_def)

lemma trim_space_plain:
  assumes "list_all is_ascii s" and "list_all (\<lambda>b. \<not> is_space_rune [b]) s"
  shows "trim_space s = s"
proof -
  have "dropWhile is_space_rune (map (\<lambda>b. [b]) t) = map (\<lambda>b. [b]) t" if "list_all (\<lambda>b. \<not> is_space_rune [b]) t" for t
    using that by (cases t) auto
  from this [of s] this [of "rev s"] show ?thesis
    using assms by (simp add: trim_space_def runes_ascii rev_map concat_map_singleton)
qed

lemma format_spells:
  assumes "generated c"
  shows "spells (FormatCode c) c"
proof -
  have c: "b \<in> set pairingAlphabetChars" if "b \<in> set c" for b
    using assms that by (auto simp: generated_def)
  have plain: "is_ascii b \<and> \<not> is_space_rune [b]" if "b \<in> set (FormatCode c)" for b
  proof (cases "b = CHR ''-''")
    case True
    then show ?thesis by (simp add: is_ascii_def is_space_rune_def)
  next
    case False
    with that have "b \<in> set c" using format_from_chars [of 0 c] by (auto simp: FormatCode_def)
    then show ?thesis using alphabet_plain c by blast
  qed
  then have "trim_space (FormatCode c) = FormatCode c" by (intro trim_space_plain) (simp_all add: list_all_iff)
  moreover have "filter (\<lambda>b. \<not> separator b) (FormatCode c) = c" and "map upper_byte c = c"
    using alphabet_plain c by (auto simp: FormatCode_def list_all_iff intro!: format_from_filter map_idI)
  ultimately show ?thesis using plain by (simp add: spells_def list_all_iff)
qed

text \<open>
  The decoder is not the last word on membership: it skips line breaks, so a text with one in its
  middle is taken for a code (of which no pairing row has the hash).
\<close>

lemma line_break_accepted: "normaliseCode (''AAAA'' @ [CHR 0x0A] @ ''AAAAAAAAAAA'') \<noteq> []"
proof -
  let ?s = "''AAAA'' @ [CHR 0x0A] @ ''AAAAAAAAAAA''"
  have a: "list_all is_ascii ?s" by (simp add: is_ascii_def)
  have t: "trim_space ?s = ?s"
    unfolding trim_space_def runes_ascii [OF a] by (simp add: is_space_rune_def)
  have u: "upper_text ?s = ?s" unfolding upper_text_ascii [OF a] by (simp add: upper_byte_def)
  have f: "filter (\<lambda>b. \<not> separator b) ?s = ?s" by (simp add: separator_def)
  have "base32_accepts pairingAlphabetChars ?s"
    by (simp add: base32_accepts_def pairingAlphabetChars_def)
  then have "normaliseCode ?s = ?s" unfolding normaliseCode_def t u f Let_def by simp
  then show ?thesis by simp
qed

section \<open>The limiter\<close>

text \<open>What happens to the table: attempts at their time, and the reset after a pairing.\<close>

datatype limiter_op = Attempt int string | Clear string

fun limiter_step :: "limiter_op \<Rightarrow> limiter \<Rightarrow> limiter" where
  "limiter_step (Attempt now key) l = snd (allow now key l)"
| "limiter_step (Clear key) l = reset_bucket key l"

text \<open>How many attempts of a peer are let through on the way.\<close>

fun admitted :: "string \<Rightarrow> (int \<times> string) list \<Rightarrow> limiter \<Rightarrow> nat" where
  "admitted key [] l = 0"
| "admitted key ((now, k) # as) l =
     (if k = key \<and> fst (allow now k l) then 1 else 0) + admitted key as (snd (allow now k l))"

definition table_ok :: "limiter \<Rightarrow> bool" where
  "table_ok l \<longleftrightarrow> distinct (map fst l) \<and> length l \<le> maxBuckets"

lemma distinct_map_filter_fst: "distinct (map fst l) \<Longrightarrow> distinct (map fst (filter P l))"
  by (induction l) auto

lemma fst_set_bucket: "fst ` set (set_bucket k b l) = insert k (fst ` set l)"
  by (auto simp: set_bucket_def image_iff)

lemma distinct_set_bucket: "distinct (map fst l) \<Longrightarrow> distinct (map fst (set_bucket k b l))"
  by (auto simp: set_bucket_def distinct_map_filter_fst)

lemma length_set_bucket:
  assumes "distinct (map fst l)"
  shows "length (set_bucket k b l) = (if k \<in> fst ` set l then length l else Suc (length l))"
proof -
  have "length l = card (fst ` set l)" if "distinct (map fst l)" for l :: limiter
    using distinct_card [OF that] by simp
  from this [OF assms] this [OF distinct_set_bucket [OF assms], of k b] show ?thesis
    by (simp add: fst_set_bucket card_insert_if)
qed

lemma map_of_set_bucket: "map_of (set_bucket k b l) i = (if i = k then Some b else map_of l i)"
  by (induction l) (auto simp: set_bucket_def map_add_def split: option.split)

lemma evict_shrinks:
  assumes "distinct (map fst l)" and "length l \<le> maxBuckets"
  shows "length (evict now l) < maxBuckets" and "distinct (map fst (evict now l))"
proof -
  let ?l = "filter (\<lambda>(k, b). \<not> now > bk_reset b) l"
  let ?e = "sort_key (\<lambda>(k, b). bk_reset b) ?l"
  let ?t = "take (length ?e div 2) ?e"
  have le: "length ?l \<le> length l" by (rule length_filter_le)
  show "distinct (map fst (evict now l))"
    using assms(1) by (simp add: evict_def Let_def distinct_map_filter_fst)
  show "length (evict now l) < maxBuckets"
  proof (cases "length ?l < maxBuckets")
    case False
    then have "length ?e \<ge> maxBuckets" by simp
    then have "length ?t > 0" by simp
    then have "?t \<noteq> []" by (rule length_greater_0_conv [THEN iffD1])
    then have "hd ?t \<in> set ?t" by (rule hd_in_set)
    then have "hd ?t \<in> set ?l" "fst (hd ?t) \<in> set (map fst ?t)" by (auto dest: in_set_takeD)
    then have "length (filter (\<lambda>(k, b). k \<notin> set (map fst ?t)) ?l) < length ?l"
      by (intro length_filter_less [of "hd ?t"]) (auto simp: case_prod_unfold)
    moreover have "evict now l = filter (\<lambda>(k, b). k \<notin> set (map fst ?t)) ?l"
      unfolding evict_def Let_def using False by (rule if_not_P)
    ultimately have "length (evict now l) < length ?l" by simp
    with le assms(2) show ?thesis by (meson less_le_trans)
  qed (simp add: evict_def Let_def)
qed

lemma allow_table: "table_ok l \<Longrightarrow> table_ok (snd (allow now key l))"
proof -
  assume ok: "table_ok l"
  have grow: "table_ok (set_bucket key b (if length l \<ge> maxBuckets then evict now l else l))" for b
    using ok evict_shrinks [of l now] by (auto simp: table_ok_def distinct_set_bucket length_set_bucket)
  have "map_of l key \<noteq> None \<Longrightarrow> key \<in> fst ` set l" by (simp add: map_of_eq_None_iff)
  with ok grow show ?thesis
    by (auto simp: allow_def table_ok_def Let_def distinct_set_bucket length_set_bucket split: option.split)
qed

lemma step_table: "table_ok l \<Longrightarrow> table_ok (limiter_step x l)"
proof (cases x)
  case (Clear key)
  assume "table_ok l"
  with Clear show ?thesis
    by (auto simp: reset_bucket_def table_ok_def distinct_map_filter_fst intro: order_trans [OF length_filter_le])
qed (simp add: allow_table)

lemma steps_table: "table_ok l \<Longrightarrow> table_ok (fold limiter_step xs l)"
  by (induction xs arbitrary: l) (auto simp: step_table)

text \<open>
  A peer whose bucket is live: each attempt let through before the expiry is counted, while the
  table has room for every peer there is.
\<close>

lemma admitted_live:
  assumes "table_ok l" and "map_of l key = Some b" and "0 \<le> bk_count b" and "bk_count b \<le> attemptBudget"
    and "\<forall>(n, k)\<in>set as. n < bk_reset b" and "card (fst ` set l \<union> snd ` set as) < maxBuckets"
  shows "int (admitted key as l) \<le> attemptBudget - bk_count b"
  using assms
proof (induction as arbitrary: l b)
  case (Cons a as)
  obtain now k where a: "a = (now, k)" by (cases a)
  let ?l = "snd (allow now k l)"
  have room: "card (fst ` set l) < maxBuckets"
    using Cons.prems(6) by (meson card_mono finite_UnI finite_imageI finite_set le_less_trans sup_ge1)
  then have n: "length l < maxBuckets"
    using Cons.prems(1) distinct_card [of "map fst l"] by (simp add: table_ok_def)
  have ok: "table_ok ?l" by (rule allow_table [OF Cons.prems(1)])
  have mem: "map_of l k \<noteq> None \<longleftrightarrow> k \<in> fst ` set l" for k by (simp add: map_of_eq_None_iff)
  have dom: "fst ` set ?l \<subseteq> insert k (fst ` set l)"
    using n by (auto simp: allow_def Let_def fst_set_bucket split: option.split)
  then have "fst ` set ?l \<union> snd ` set as \<subseteq> fst ` set l \<union> snd ` set (a # as)" by (auto simp: a)
  then have c: "card (fst ` set ?l \<union> snd ` set as) < maxBuckets"
    using Cons.prems(6) by (meson card_mono finite_UnI finite_imageI finite_set le_less_trans)
  show ?case
  proof (cases "k = key")
    case False
    then have "map_of ?l key = Some b"
      using n Cons.prems(2) by (auto simp: allow_def Let_def map_of_set_bucket split: option.split)
    from Cons.IH [OF ok this Cons.prems(3,4) _ c] Cons.prems(5) False show ?thesis by (simp add: a)
  next
    case True
    have live: "now < bk_reset b" using Cons.prems(5) by (simp add: a)
    show ?thesis
    proof (cases "bk_count b \<ge> attemptBudget")
      case full: True
      then have "?l = l" "\<not> fst (allow now k l)" using live Cons.prems(2) True by (simp_all add: allow_def)
      with Cons.IH [OF ok, of b] Cons.prems c show ?thesis by (simp add: a)
    next
      case False
      let ?b = "b\<lparr>bk_count := bk_count b + 1\<rparr>"
      have "map_of ?l key = Some ?b" and y: "fst (allow now k l)"
        using False live Cons.prems(2) True by (simp_all add: allow_def map_of_set_bucket)
      from Cons.IH [OF ok this(1) _ _ _ c] Cons.prems(3,5) False True y show ?thesis by (simp add: a)
    qed
  qed
qed simp

text \<open>
  C34: the table of peers never outgrows its cap whatever attempts and resets there are, and a
  peer without a live bucket gets at most ten attempts through in a minute, as long as there are
  fewer peers than the cap.
\<close>

theorem limiter_bounds:
  shows "length (fold limiter_step xs []) \<le> maxBuckets
    \<and> (\<forall>t l key as. table_ok l \<longrightarrow> (case map_of l key of None \<Rightarrow> True | Some b \<Rightarrow> bk_reset b \<le> t) \<longrightarrow>
        (\<forall>(n, k)\<in>set as. t \<le> n \<and> n < t + attemptWindow) \<longrightarrow>
        card (fst ` set l \<union> snd ` set as) < maxBuckets \<longrightarrow> int (admitted key as l) \<le> attemptBudget)"
proof -
  have "int (admitted key as l) \<le> attemptBudget"
    if "table_ok l" "case map_of l key of None \<Rightarrow> True | Some b \<Rightarrow> bk_reset b \<le> t"
      "\<forall>(n, k)\<in>set as. t \<le> n \<and> n < t + attemptWindow" "card (fst ` set l \<union> snd ` set as) < maxBuckets"
    for t l key as
    using that
  proof (induction as arbitrary: l)
    case (Cons a as)
    obtain now k where a: "a = (now, k)" by (cases a)
    let ?l = "snd (allow now k l)"
    have t: "t \<le> now" "now < t + attemptWindow" using Cons.prems(3) by (simp_all add: a)
    have room: "card (fst ` set l) < maxBuckets"
      using Cons.prems(4) by (meson card_mono finite_UnI finite_imageI finite_set le_less_trans sup_ge1)
    then have n: "length l < maxBuckets"
      using Cons.prems(1) distinct_card [of "map fst l"] by (simp add: table_ok_def)
    have ok: "table_ok ?l" by (rule allow_table [OF Cons.prems(1)])
    have dom: "fst ` set ?l \<subseteq> insert k (fst ` set l)"
      using n by (auto simp: allow_def Let_def fst_set_bucket split: option.split)
    then have "fst ` set ?l \<union> snd ` set as \<subseteq> fst ` set l \<union> snd ` set (a # as)" by (auto simp: a)
    then have c: "card (fst ` set ?l \<union> snd ` set as) < maxBuckets"
      using Cons.prems(4) by (meson card_mono finite_UnI finite_imageI finite_set le_less_trans)
    show ?case
    proof (cases "k = key")
      case False
      then have "map_of ?l key = map_of l key"
        using n by (auto simp: allow_def Let_def map_of_set_bucket split: option.split)
      then show ?thesis using Cons.IH [OF ok _ _ c] Cons.prems(2,3) False by (simp add: a)
    next
      case True
      let ?b = "\<lparr>bk_count = 1, bk_reset = now + attemptWindow\<rparr>"
      have "map_of ?l key = Some ?b" "fst (allow now k l)"
        using Cons.prems(2) True t n by (auto simp: allow_def Let_def map_of_set_bucket split: option.split)
      moreover have "\<forall>(n, k)\<in>set as. n < bk_reset ?b" using Cons.prems(3) t by (fastforce simp: a)
      ultimately have "int (admitted key as ?l) \<le> attemptBudget - 1"
        using admitted_live [OF ok, of key ?b as] c by simp
      then show ?thesis using True \<open>fst (allow now k l)\<close> by (simp add: a)
    qed
  qed simp
  moreover have "table_ok (fold limiter_step xs [])" by (rule steps_table) (simp add: table_ok_def)
  ultimately show ?thesis by (simp add: table_ok_def)
qed

theorem limiter_bounds_witness:
  "int (admitted ''p'' (replicate 12 (5, ''p'')) []) \<le> 10"
proof -
  have "table_ok []" by (simp add: table_ok_def)
  moreover have "case map_of ([] :: limiter) ''p'' of None \<Rightarrow> True | Some b \<Rightarrow> bk_reset b \<le> 5" by simp
  moreover have "\<forall>(n, k)\<in>set (replicate 12 (5, ''p'')). 5 \<le> n \<and> n < 5 + attemptWindow" by simp
  moreover have "card (fst ` set ([] :: limiter) \<union> snd ` set (replicate 12 (5 :: int, ''p''))) < maxBuckets" by simp
  ultimately show ?thesis using limiter_bounds [of "[]"] by blast
qed

section \<open>Pairing\<close>

lemma device_by_new_token:
  assumes "\<forall>r\<in>set (db_devices d). dv_id (dw_device r) \<noteq> i \<and> dw_tokenHash r \<noteq> h"
  shows "\<exists>d'. CreateDevice now i h label d = Inr d'
    \<and> DeviceByToken now h d' = Inr (\<lparr>dv_id = i, dv_label = label, dv_createdAt = now, dv_lastSeen = now\<rparr>, d')
    \<and> db_pairings d' = db_pairings d"
proof -
  let ?row = "\<lparr>dw_device = \<lparr>dv_id = i, dv_label = label, dv_createdAt = now, dv_lastSeen = now\<rparr>, dw_tokenHash = h\<rparr>"
  have "List.find (\<lambda>r. dw_tokenHash r = h) (db_devices d) = None"
    using assms by (simp add: find_None_iff_key)
  then have "List.find (\<lambda>r. dw_tokenHash r = h) (db_devices d @ [?row]) = Some ?row"
    by (simp add: find_append)
  then have "DeviceByToken now h (d\<lparr>db_devices := db_devices d @ [?row]\<rparr>)
      = Inr (dw_device ?row, d\<lparr>db_devices := db_devices d @ [?row]\<rparr>)"
    by (simp add: DeviceByToken_def Let_def)
  moreover have "CreateDevice now i h label d = Inr (d\<lparr>db_devices := db_devices d @ [?row]\<rparr>)"
    using assms by (auto simp: CreateDevice_def list_ex_iff)
  ultimately show ?thesis by simp
qed

lemma device_by_token_again:
  "DeviceByToken now h d = Inr (dev, d1) \<Longrightarrow> map_sum id fst (DeviceByToken later h d) = Inr dev"
  by (auto simp: DeviceByToken_def Let_def split: option.splits if_splits)

definition carries :: "guard \<Rightarrow> string \<Rightarrow> request \<Rightarrow> bool" where
  "carries g token r \<longleftrightarrow> tokenFrom g r = token \<and> (IsLocal r \<longrightarrow> gd_proxied g \<or> looksProxied r)
     \<and> (gd_reachable g \<or> gd_proxied g \<or> looksProxied r)"

text \<open>
  C32: pairing works end to end: while it is fresh a code buys a device however it is typed, from
  any peer with attempts left; a request from another machine that carries the token is then
  admitted as that device; and the code buys nothing more.
\<close>

theorem pair_then_authorize:
  assumes "length bytes = 10" and "NewPairingCode hash t0 bytes d = (c, d1)"
    and "spells typed c" and "millis t1 < millis (t0 + PairingTTL)"
    and "fst (allow t1 remote (gd_limiter g))" and "token \<noteq> []"
    and "\<forall>r\<in>set (db_devices d). dv_id (dw_device r) \<noteq> uuid \<and> dw_tokenHash r \<noteq> hash token"
  shows "\<exists>dev g1 d2. Redeem hash t1 token uuid remote typed label g d1 = (Inr (token, dev), g1, d2) \<and> dv_id dev = uuid
    \<and> (\<forall>t2 r. carries g1 token r \<longrightarrow> fst (Authorize hash t2 g1 r d2) = Some dev)
    \<and> (\<forall>t3 token3 uuid3 remote3 again label3 g3. spells again c \<longrightarrow>
         (\<exists>e. fst (Redeem hash t3 token3 uuid3 remote3 again label3 g3 d2) = Inl e))"
proof -
  let ?row = "\<lparr>pa_codeHash = hash c, pa_createdAt = millis t0, pa_expiresAt = millis (t0 + PairingTTL), pa_usedAt = None\<rparr>"
  let ?rest = "filter (\<lambda>r. pa_codeHash r \<noteq> hash c) (db_pairings (PurgePairings (millis t0) d))"
  let ?n = "millis t1" and ?label = "if label = [] then ''paired device'' else label"
  have c: "c = randomPairingCode bytes" and pairings: "db_pairings d1 = ?rest @ [?row]"
    and devices: "db_devices d1 = db_devices d"
    using assms(2) by (auto simp: NewPairingCode_def CreatePairing_def PurgePairings_def Let_def)
  have gen: "generated c" unfolding c by (rule generated_code [OF assms(1)])
  then have "c \<noteq> []" by (auto simp: generated_def)
  have norm: "normaliseCode s = c" if "spells s c" for s by (rule normalise_spelling [OF that gen])
  let ?used = "update_where (redeemable ?n (hash c)) (\<lambda>r. r\<lparr>pa_usedAt := Some ?n\<rparr>) (?rest @ [?row])"
  have redeem: "RedeemPairing ?n (hash c) d1 = Inr (d1\<lparr>db_pairings := ?used\<rparr>)"
    using assms(4) by (simp add: RedeemPairing_def update_found_def pairings redeemable_def)
  have "\<forall>r\<in>set (db_devices (d1\<lparr>db_pairings := ?used\<rparr>)). dv_id (dw_device r) \<noteq> uuid \<and> dw_tokenHash r \<noteq> hash token"
    using assms(7) devices by simp
  from device_by_new_token [OF this, of ?n ?label] obtain d2
    where d2: "CreateDevice ?n uuid (hash token) ?label (d1\<lparr>db_pairings := ?used\<rparr>) = Inr d2"
      and dev: "DeviceByToken ?n (hash token) d2
        = Inr (\<lparr>dv_id = uuid, dv_label = ?label, dv_createdAt = ?n, dv_lastSeen = ?n\<rparr>, d2)"
      and used: "db_pairings d2 = ?used" by auto
  let ?dev = "\<lparr>dv_id = uuid, dv_label = ?label, dv_createdAt = ?n, dv_lastSeen = ?n\<rparr>"
  let ?l = "snd (allow t1 remote (gd_limiter g))"
  let ?g1 = "g\<lparr>gd_limiter := reset_bucket remote ?l\<rparr>"
  have first: "Redeem hash t1 token uuid remote typed label g d1 = (Inr (token, ?dev), ?g1, d2)"
    using assms(5) norm [OF assms(3)] \<open>c \<noteq> []\<close> redeem d2 dev
    by (simp add: Redeem_def Let_def case_prod_beta RedeemPairingForDevice_def)
  have auth: "fst (Authorize hash t2 ?g1 r d2) = Some ?dev" if "carries ?g1 token r" for t2 r
    using that assms(6) device_by_token_again [OF dev, of "millis t2"]
    by (auto simp: carries_def Authorize_def Let_def Policy_def split: sum.splits)
  have spent: "\<not> redeemable n (hash c) r" if "r \<in> set (db_pairings d2)" for r n
    using that assms(4) by (auto simp: used redeemable_def update_where_def)
  have "\<exists>e. fst (Redeem hash t3 token3 uuid3 remote3 again label3 g3 d2) = Inl e"
    if "spells again c" for t3 token3 uuid3 remote3 again label3 g3
  proof -
    have "RedeemPairing (millis t3) (hash c) d2 = Inl NotFound"
      using spent by (auto simp: RedeemPairing_def update_found_def list_ex_iff)
    then show ?thesis using norm [OF that] \<open>c \<noteq> []\<close>
      by (simp add: Redeem_def Let_def case_prod_beta RedeemPairingForDevice_def)
  qed
  with first auth show ?thesis by fastforce
qed

section \<open>Admission\<close>

text \<open>
  C33: a request is admitted only as this machine, when it came from a loopback address with no
  mark of a relay and no proxy stands in front, or as the paired device whose token it carries;
  and never as a device that was revoked.
\<close>

theorem authorize_sound:
  "(case fst (Authorize hash now g r d) of
      None \<Rightarrow> True
    | Some dev \<Rightarrow>
        dev = LocalDevice \<and> DirectlyLocal r \<and> \<not> gd_proxied g
        \<or> tokenFrom g r \<noteq> [] \<and> (\<exists>row\<in>set (db_devices d). dw_device row = dev \<and> dw_tokenHash row = hash (tokenFrom g r)))
   \<and> (case fst (Authorize hash now g r (RevokeDevice i d)) of
        None \<Rightarrow> True
      | Some dev \<Rightarrow>
          dev = LocalDevice \<and> DirectlyLocal r \<and> \<not> gd_proxied g
          \<or> dev \<in> dw_device ` set (filter (\<lambda>row. dv_id (dw_device row) \<noteq> i) (db_devices d)))"
  by (auto simp: Authorize_def DirectlyLocal_def DeviceByToken_def RevokeDevice_def Let_def
      dest!: find_SomeD split: option.splits if_splits)

text \<open>
  A relay's header can also let a request in: a paired device that reaches a server bound to
  loopback from another address is refused without the header and admitted with it.
\<close>

theorem header_can_admit:
  assumes "\<not> IsLocal r" and "\<not> gd_reachable g" and "\<not> gd_proxied g" and "\<not> looksProxied r"
    and "tokenFrom g r \<noteq> []" and "DeviceByToken (millis now) (hash (tokenFrom g r)) d = Inr (dev, d1)"
    and "v \<noteq> []"
  shows "fst (Authorize hash now g r d) = None
    \<and> fst (Authorize hash now g (r\<lparr>hr_header := (hr_header r)(''X-Forwarded-For'' := v)\<rparr>) d) = Some dev"
proof -
  let ?r = "r\<lparr>hr_header := (hr_header r)(''X-Forwarded-For'' := v)\<rparr>"
  have "looksProxied ?r" using assms(7) by (simp add: looksProxied_def proxyHeaders_def)
  moreover have "tokenFrom g ?r = tokenFrom g r"
  proof -
    have "hr_header ?r ''Authorization'' = hr_header r ''Authorization''" "hr_cookies ?r = hr_cookies r"
      "TokenSubprotocol ?r = TokenSubprotocol r"
      by (simp_all add: TokenSubprotocol_def)
    note same = this
    show ?thesis unfolding tokenFrom_def same ..
  qed
  moreover have "IsLocal ?r = IsLocal r" by (simp add: IsLocal_def)
  ultimately show ?thesis using assms by (simp add: Authorize_def Let_def Policy_def)
qed

section \<open>A sample server\<close>

definition sample_hash :: "string \<Rightarrow> string" where
  "sample_hash s = s"

definition sample_remote :: "string \<Rightarrow> (string \<Rightarrow> string) \<Rightarrow> request" where
  "sample_remote tok hs =
     \<lparr>hr_remote = ''192.168.1.7:5123'', hr_header = hs, hr_cookies = [(cookiePrefix, tok)], hr_tls = False\<rparr>"

definition sample_guard :: "bool \<Rightarrow> guard" where
  "sample_guard reachable = New_guard reachable 8787"

theorem pair_then_authorize_witness:
  "\<exists>dev g1 d2. Redeem sample_hash 9 ''tok'' ''dev'' ''192.168.1.7''
       (FormatCode (fst (NewPairingCode sample_hash 1 (replicate 10 0) empty_db))) [] (sample_guard True)
       (snd (NewPairingCode sample_hash 1 (replicate 10 0) empty_db)) = (Inr (''tok'', dev), g1, d2)
     \<and> dv_id dev = ''dev''"
proof -
  let ?c = "fst (NewPairingCode sample_hash 1 (replicate 10 0) empty_db)"
    and ?d = "snd (NewPairingCode sample_hash 1 (replicate 10 0) empty_db)"
  have "?c = randomPairingCode (replicate 10 0)" by (simp add: NewPairingCode_def Let_def)
  then have spelt: "spells (FormatCode ?c) ?c" using format_spells generated_code by simp
  have ok: "fst (allow 9 ''192.168.1.7'' (gd_limiter (sample_guard True)))"
    by (simp add: sample_guard_def New_guard_def allow_def Let_def)
  have new: "NewPairingCode sample_hash 1 (replicate 10 0) empty_db = (?c, ?d)" by simp
  have time: "millis 9 < millis (1 + PairingTTL)" by (simp add: millis_def)
  have none: "\<forall>r\<in>set (db_devices empty_db). dv_id (dw_device r) \<noteq> ''dev'' \<and> dw_tokenHash r \<noteq> sample_hash ''tok''"
    by (simp add: empty_db_def)
  have "length (replicate 10 (0 :: nat)) = 10" "''tok'' \<noteq> []" by simp_all
  from pair_then_authorize [OF this(1) new spelt time ok this(2) none, of "[]"] show ?thesis by blast
qed

definition sample_device_db :: db where
  "sample_device_db = empty_db\<lparr>db_devices :=
     [\<lparr>dw_device = \<lparr>dv_id = ''dev'', dv_label = [], dv_createdAt = 0, dv_lastSeen = 0\<rparr>, dw_tokenHash = ''tok''\<rparr>]\<rparr>"

theorem header_can_admit_witness:
  "fst (Authorize sample_hash 5 (sample_guard False)
       ((sample_remote ''tok'' (\<lambda>h. []))\<lparr>hr_header := (\<lambda>h. [])(''X-Forwarded-For'' := ''10.0.0.9'')\<rparr>)
       sample_device_db) \<noteq> None"
proof -
  let ?r = "sample_remote ''tok'' (\<lambda>h. [])" and ?g = "sample_guard False"
  have remote: "\<not> IsLocal ?r" by code_simp
  have guard: "\<not> gd_reachable ?g" "\<not> gd_proxied ?g" by (simp_all add: sample_guard_def New_guard_def)
  have plain: "\<not> looksProxied ?r" by (simp add: looksProxied_def proxyHeaders_def sample_remote_def)
  have tok: "tokenFrom ?g ?r = ''tok''"
    by (simp add: tokenFrom_def sample_remote_def sample_guard_def New_guard_def CookieName_def)
  have dev: "DeviceByToken (millis 5) (sample_hash (tokenFrom ?g ?r)) sample_device_db
      = Inr (\<lparr>dv_id = ''dev'', dv_label = [], dv_createdAt = 0, dv_lastSeen = 0\<rparr>, sample_device_db)"
    by (simp add: tok sample_hash_def DeviceByToken_def sample_device_db_def millis_def Let_def)
  have hdr: "hr_header ?r = (\<lambda>h. [])" by (simp add: sample_remote_def)
  have "fst (Authorize sample_hash 5 ?g (?r\<lparr>hr_header := (\<lambda>h. [])(''X-Forwarded-For'' := ''10.0.0.9'')\<rparr>)
      sample_device_db) = Some \<lparr>dv_id = ''dev'', dv_label = [], dv_createdAt = 0, dv_lastSeen = 0\<rparr>"
    using header_can_admit [where v = "''10.0.0.9''" and hash = sample_hash, OF remote guard plain _ dev, unfolded hdr] tok by simp
  then show ?thesis by simp
qed

end
