(* ===== verification/Paths.thy ===== *)
theory Paths
  imports Text
begin

text \<open>
  Go's \<open>path/filepath\<close> on Unix, on the components of a path: what the workspace and project code
  uses of it.
\<close>

definition is_abs :: "string \<Rightarrow> bool" where
  "is_abs p \<longleftrightarrow> p \<noteq> [] \<and> hd p = CHR ''/''"

definition join_with :: "char \<Rightarrow> string list \<Rightarrow> string" where
  "join_with c ps = (case ps of [] \<Rightarrow> [] | p # qs \<Rightarrow> p @ concat (map (\<lambda>q. c # q) qs))"

text \<open>\<open>strings.Join\<close> for an arbitrary separator.\<close>

definition join_text :: "string \<Rightarrow> string list \<Rightarrow> string" where
  "join_text sep ps = (case ps of [] \<Rightarrow> [] | p # qs \<Rightarrow> p @ concat (map (\<lambda>q. sep @ q) qs))"

text \<open>The elements \<open>filepath.Clean\<close> keeps: \<open>..\<close> takes one away, and stays where there is none to take.\<close>

fun clean_parts :: "bool \<Rightarrow> string list \<Rightarrow> string list \<Rightarrow> string list" where
  "clean_parts rooted acc [] = rev acc"
| "clean_parts rooted acc (p # ps) =
     (if p = [] \<or> p = ''.'' then clean_parts rooted acc ps
      else if p = ''..'' then
        (if acc \<noteq> [] \<and> hd acc \<noteq> ''..'' then clean_parts rooted (tl acc) ps
         else if rooted then clean_parts rooted acc ps
         else clean_parts rooted (p # acc) ps)
      else clean_parts rooted (p # acc) ps)"

definition parts_of :: "string \<Rightarrow> string list" where
  "parts_of p = clean_parts (is_abs p) [] (split_on (CHR ''/'') p)"

definition path_of :: "bool \<Rightarrow> string list \<Rightarrow> string" where
  "path_of rooted ps =
     (if rooted then CHR ''/'' # join_with (CHR ''/'') ps
      else if ps = [] then ''.'' else join_with (CHR ''/'') ps)"

definition clean :: "string \<Rightarrow> string" where
  "clean p = path_of (is_abs p) (parts_of p)"

text \<open>Empty elements are left out of a join.\<close>

definition join_path :: "string list \<Rightarrow> string" where
  "join_path ps =
     (let qs = dropWhile (\<lambda>p. p = []) ps
      in if qs = [] then [] else clean (join_with (CHR ''/'') qs))"

definition base_name :: "string \<Rightarrow> string" where
  "base_name p =
     (if p = [] then ''.''
      else let q = rev (dropWhile (\<lambda>b. b = CHR ''/'') (rev p))
           in if q = [] then ''/'' else last (split_on (CHR ''/'') q))"

text \<open>\<open>filepath.Split\<close>: the directory keeps its slash.\<close>

definition split_path :: "string \<Rightarrow> string \<times> string" where
  "split_path p =
     (let f = takeWhile (\<lambda>b. b \<noteq> CHR ''/'') (rev p)
      in (take (length p - length f) p, rev f))"

definition dir_name :: "string \<Rightarrow> string" where
  "dir_name p = clean (fst (split_path p))"

text \<open>\<open>filepath.Ext\<close>: from the last dot of the last element.\<close>

definition ext_name :: "string \<Rightarrow> string" where
  "ext_name p =
     (let f = snd (split_path p); e = takeWhile (\<lambda>b. b \<noteq> CHR ''.'') (rev f)
      in if length e = length f then [] else CHR ''.'' # rev e)"

fun strip_common :: "string list \<Rightarrow> string list \<Rightarrow> string list \<times> string list" where
  "strip_common (x # xs) (y # ys) = (if x = y then strip_common xs ys else (x # xs, y # ys))"
| "strip_common xs ys = (xs, ys)"

definition rel_path :: "string \<Rightarrow> string \<Rightarrow> string option" where
  "rel_path base targ =
     (if clean base = clean targ then Some ''.''
      else if is_abs base \<noteq> is_abs targ then None
      else case strip_common (parts_of base) (parts_of targ) of
             (up, down) \<Rightarrow>
               if up \<noteq> [] \<and> hd up = ''..'' then None
               else Some (join_with (CHR ''/'') (replicate (length up) ''..'' @ down)))"

text \<open>
  A relative path that leaves its base: the test the code writes after \<open>filepath.Rel\<close>.
\<close>

definition escapes :: "string \<Rightarrow> bool" where
  "escapes r \<longleftrightarrow> r = ''..'' \<or> cut_prefix ''../'' r \<noteq> None"

definition path_under :: "string \<Rightarrow> string \<Rightarrow> bool" where
  "path_under path dir \<longleftrightarrow> path = dir \<or> cut_prefix (dir @ ''/'') path \<noteq> None"

section \<open>What the guards mean\<close>

definition plain_part :: "string \<Rightarrow> bool" where
  "plain_part p \<longleftrightarrow> p \<noteq> ''..'' \<and> p \<noteq> []"

lemma clean_parts_plain: "list_all plain_part acc \<Longrightarrow> list_all plain_part (clean_parts True acc ps)"
proof (induction ps arbitrary: acc)
  case (Cons p ps)
  have tl: "list_all plain_part (tl acc)" using Cons.prems by (cases acc) simp_all
  consider "p = [] \<or> p = ''.''" | "p = ''..''" | "p \<noteq> []" "p \<noteq> ''.''" "p \<noteq> ''..''" by blast
  then show ?case
  proof cases
    case 1
    then show ?thesis using Cons.IH [OF Cons.prems] by auto
  next
    case 2
    then show ?thesis using Cons.IH [OF Cons.prems] Cons.IH [OF tl] by simp
  next
    case 3
    then have "plain_part p" by (simp add: plain_part_def)
    then have "list_all plain_part (p # acc)" using Cons.prems by simp
    with 3 show ?thesis using Cons.IH by simp
  qed
qed (simp add: list_all_iff)

lemma split_on_no_sep: "p \<in> set (split_on c s) \<Longrightarrow> c \<notin> set p"
proof (induction s arbitrary: p)
  case (Cons b s)
  then show ?case by (cases "split_on c s") (auto split: if_splits)
qed simp

lemma clean_parts_subset: "set (clean_parts r acc ps) \<subseteq> set acc \<union> set ps"
proof (induction ps arbitrary: acc)
  case (Cons p ps)
  have "set (tl acc) \<subseteq> set acc" by (cases acc) auto
  then show ?case using Cons.IH [of acc] Cons.IH [of "tl acc"] Cons.IH [of "p # acc"] by auto
qed simp

lemma parts_of_abs:
  assumes "is_abs p" and "q \<in> set (parts_of p)"
  shows "q \<noteq> ''..''" and "q \<noteq> []" and "CHR ''/'' \<notin> set q"
proof -
  have "plain_part q"
    using clean_parts_plain [of "[]"] assms by (auto simp: parts_of_def list_all_iff)
  then show "q \<noteq> ''..''" "q \<noteq> []" by (simp_all add: plain_part_def)
  show "CHR ''/'' \<notin> set q"
    using assms(2) clean_parts_subset [of "is_abs p" "[]" "split_on (CHR ''/'') p"] split_on_no_sep
    by (auto simp: parts_of_def)
qed

lemma strip_common_split:
  "strip_common xs ys = (us, ds) \<Longrightarrow> \<exists>zs. xs = zs @ us \<and> ys = zs @ ds"
proof (induction xs ys arbitrary: us ds rule: strip_common.induct)
  case (1 x xs y ys)
  then show ?case by (cases "x = y") (fastforce, auto)
qed auto

text \<open>
  For absolute paths the relative path does not escape exactly when the target lies at or below
  the base.
\<close>

lemma rel_path_inside:
  assumes "is_abs base" and "is_abs targ" and "rel_path base targ = Some r" and "escapes r"
  shows "\<not> (\<exists>ds. parts_of targ = parts_of base @ ds)"
proof
  assume "\<exists>ds. parts_of targ = parts_of base @ ds"
  then obtain ds where ds: "parts_of targ = parts_of base @ ds" by blast
  have s: "strip_common (zs) (zs @ ws) = ([], ws)" for zs ws by (induction zs) auto
  show False
  proof (cases "clean base = clean targ")
    case True
    with assms(3) have "r = ''.''" by (simp add: rel_path_def)
    with assms(4) show False by (simp add: escapes_def)
  next
    case False
    with assms s ds have r: "r = join_with (CHR ''/'') ds" by (simp add: rel_path_def)
    then show False
    proof (cases ds)
      case Nil
      with r assms(4) show False by (simp add: join_with_def escapes_def)
    next
      case (Cons q qs)
      have q: "q \<noteq> ''..''" "CHR ''/'' \<notin> set q"
        using parts_of_abs [OF assms(2), of q] ds Cons by auto
      have r2: "r = q @ concat (map (\<lambda>q. CHR ''/'' # q) qs)" using r Cons by (simp add: join_with_def)
      from assms(4) consider "r = ''..''" | t where "r = ''../'' @ t"
        by (auto simp: escapes_def dest: cut_prefix_SomeD)
      then show False
      proof cases
        case 1
        then have "concat (map (\<lambda>q. CHR ''/'' # q) qs) = []"
          using r2 by (cases qs) (auto simp: append_eq_Cons_conv)
        with 1 r2 q(1) show False by simp
      next
        case 2
        have "takeWhile (\<lambda>b. b \<noteq> CHR ''/'') r = q"
        proof -
          have "takeWhile (\<lambda>b. b \<noteq> CHR ''/'') (concat (map (\<lambda>q. CHR ''/'' # q) qs)) = []"
            by (cases qs) auto
          then show ?thesis using q(2) by (simp add: r2 takeWhile_append2 in_set_conv_decomp takeWhile_append)
        qed
        with 2 q(1) show False by simp
      qed
    qed
  qed
qed

end
