(* ===== verification/Host.thy ===== *)
theory Host
  imports Paths Database
begin

text \<open>
  The machine under the manager: file system, Git and hooks.  What they answer may depend on
  everything asked of them before (the list of calls), so a branch that one command creates is
  there for the next; calls that change nothing are not in the list.
\<close>

section \<open>Calls and answers\<close>

datatype call =
    Git string "string list"
  | GitIndex string string "string list"
  | RemoveAll string
  | RunHook string string "string list" string "(string \<times> string) list" int
  | WriteFile string json
  | RemoveFile string
  | MakeDir string
  | PurgeThread string

type_synonym calls = "call list"

text \<open>
  \<open>os_git\<close>: the output of a Git command in a directory and whether it exited with zero;
  \<open>os_gitIndex\<close>: the same for one that runs with an index of its own (\<open>GIT_INDEX_FILE\<close>);
  \<open>os_temp\<close>: the name of a new temporary file; \<open>os_pointer\<close>: the text of a path that is a regular file; \<open>os_procs\<close>: pid, working directory and
  name of the processes whose \<open>/proc\<close> entries can be read; \<open>os_hook\<close>: how the hook that was called
  last goes, with the lines it writes; \<open>os_result\<close>: the working directory, branch and resources in
  the result file, \<open>None\<close> where there is no such file, an error where it cannot be read or is not
  such an object.  \<open>os_file\<close>: whether a path is a directory and executable.  \<open>os_quote\<close> is the
  verb \<open>%q\<close>.
\<close>

record hook_answer =
  hk_start :: "string option"
  hk_lines :: "(string \<times> string) list"
  hk_exit :: int
  hk_timeout :: bool
  hk_duration :: int

record host =
  os_cwd :: string
  os_resolve :: "calls \<Rightarrow> string \<Rightarrow> string option"
  os_isDir :: "calls \<Rightarrow> string \<Rightarrow> bool"
  os_missing :: "calls \<Rightarrow> string \<Rightarrow> bool"
  os_present :: "calls \<Rightarrow> string \<Rightarrow> bool"
  os_git :: "calls \<Rightarrow> string \<Rightarrow> string list \<Rightarrow> string \<times> bool"
  os_gitError :: "calls \<Rightarrow> string list \<Rightarrow> string"
  os_gitIndex :: "calls \<Rightarrow> string \<Rightarrow> string \<Rightarrow> string list \<Rightarrow> string \<times> bool"
  os_temp :: "calls \<Rightarrow> string + string"
  os_removeAll :: "calls \<Rightarrow> string \<Rightarrow> string option"
  os_pointer :: "calls \<Rightarrow> string \<Rightarrow> string option"
  os_procs :: "calls \<Rightarrow> (nat \<times> string \<times> string) list"
  os_self :: nat
  os_hook :: "calls \<Rightarrow> hook_answer"
  os_uuid :: "calls \<Rightarrow> string"
  os_environ :: "string list"
  os_stateDir :: "string \<Rightarrow> string + string"
  os_result :: "calls \<Rightarrow> string \<Rightarrow> string + (string \<times> string \<times> (string \<times> json) list) option"
  os_write :: "calls \<Rightarrow> string \<Rightarrow> string option"
  os_mkdir :: "calls \<Rightarrow> string \<Rightarrow> string option"
  os_file :: "calls \<Rightarrow> string \<Rightarrow> (bool \<times> bool) option"
  os_isGit :: "string \<Rightarrow> bool"
  os_quote :: "string \<Rightarrow> string"
  os_decimal :: "nat \<Rightarrow> string"

definition git :: "host \<Rightarrow> string \<Rightarrow> string list \<Rightarrow> calls \<Rightarrow> (string \<times> bool) \<times> calls" where
  "git h dir args t = (os_git h t dir args, t @ [Git dir args])"

text \<open>\<open>runGit\<close>: the output, or the error of a command that fails.\<close>

definition runGit :: "host \<Rightarrow> string \<Rightarrow> string list \<Rightarrow> calls \<Rightarrow> (string + string) \<times> calls" where
  "runGit h dir args t =
     (case git h dir args t of
        ((out, ok), t1) \<Rightarrow> (if ok then Inr out else Inl (os_gitError h t args), t1))"

definition gitOK :: "host \<Rightarrow> string \<Rightarrow> string list \<Rightarrow> calls \<Rightarrow> bool \<times> calls" where
  "gitOK h dir args t = (case git h dir args t of ((_, ok), t1) \<Rightarrow> (ok, t1))"

definition gitCapture :: "host \<Rightarrow> string \<Rightarrow> string list \<Rightarrow> calls \<Rightarrow> string option \<times> calls" where
  "gitCapture h dir args t =
     (case git h dir args t of ((out, ok), t1) \<Rightarrow> (if ok then Some (trim_space out) else None, t1))"

text \<open>\<open>filepath.Abs\<close> and \<open>canonicalPath\<close>.\<close>

definition abs_path :: "host \<Rightarrow> string \<Rightarrow> string" where
  "abs_path h p = (if is_abs p then clean p else join_path [os_cwd h, p])"

definition canonicalPath :: "host \<Rightarrow> calls \<Rightarrow> string \<Rightarrow> string" where
  "canonicalPath h t p = (case os_resolve h t p of Some q \<Rightarrow> q | None \<Rightarrow> p)"

section \<open>Where a branch begins\<close>

record base_resolution =
  br_ref :: string
  br_requested :: string
  br_note :: string
  br_fetched :: bool
  br_created :: bool
  br_fellBack :: bool

definition hasLocalBranch :: "host \<Rightarrow> string \<Rightarrow> string \<Rightarrow> calls \<Rightarrow> bool \<times> calls" where
  "hasLocalBranch h dir name t =
     gitOK h dir [''show-ref'', ''--verify'', ''--quiet'', ''refs/heads/'' @ name] t"

definition hasRemoteRef :: "host \<Rightarrow> string \<Rightarrow> string \<Rightarrow> calls \<Rightarrow> bool \<times> calls" where
  "hasRemoteRef h dir name t =
     gitOK h dir [''show-ref'', ''--verify'', ''--quiet'', ''refs/remotes/'' @ name] t"

text \<open>\<open>strings.Fields\<close>.\<close>

fun words_from :: "string \<Rightarrow> string list \<Rightarrow> string list" where
  "words_from w [] = (if w = [] then [] else [w])"
| "words_from w (r # rs) =
     (if is_space_rune r then (if w = [] then words_from [] rs else w # words_from [] rs)
      else words_from (w @ r) rs)"

definition fields :: "string \<Rightarrow> string list" where
  "fields s = words_from [] (runes s)"

definition remotes :: "host \<Rightarrow> string \<Rightarrow> calls \<Rightarrow> string list \<times> calls" where
  "remotes h dir t =
     (case gitCapture h dir [''remote''] t of
        (None, t1) \<Rightarrow> ([], t1)
      | (Some out, t1) \<Rightarrow> (if out = [] then [] else sort_key (\<lambda>n. - int (length n)) (fields out), t1))"

fun holding :: "host \<Rightarrow> string \<Rightarrow> string \<Rightarrow> string list \<Rightarrow> calls \<Rightarrow> string list \<times> calls" where
  "holding h dir base [] t = ([], t)"
| "holding h dir base (r # rs) t =
     (let (ok, t1) = hasRemoteRef h dir (r @ ''/'' @ base) t; (found, t2) = holding h dir base rs t1
      in (if ok then r # found else found, t2))"

definition remoteHolding :: "host \<Rightarrow> string \<Rightarrow> string \<Rightarrow> string list \<Rightarrow> calls \<Rightarrow> string \<times> calls" where
  "remoteHolding h dir base names t =
     (let (found, t1) = holding h dir base names t
      in (if List.member found ''origin'' then ''origin'' else if found = [] then [] else hd found, t1))"

definition originFirst :: "string list \<Rightarrow> string list" where
  "originFirst names = filter (\<lambda>r. r = ''origin'') names @ filter (\<lambda>r. r \<noteq> ''origin'') names"

fun default_remote :: "host \<Rightarrow> string \<Rightarrow> string list \<Rightarrow> calls \<Rightarrow> string option \<times> calls" where
  "default_remote h dir [] t = (None, t)"
| "default_remote h dir (r # rs) t =
     (case gitCapture h dir [''symbolic-ref'', ''--quiet'', ''refs/remotes/'' @ r @ ''/HEAD''] t of
        (None, t1) \<Rightarrow> default_remote h dir rs t1
      | (Some head, t1) \<Rightarrow>
          if head = [] then default_remote h dir rs t1
          else
            let short = (case cut_prefix ''refs/remotes/'' head of None \<Rightarrow> head | Some s \<Rightarrow> s);
                name = (case cut_prefix (r @ ''/'') short of None \<Rightarrow> short | Some s \<Rightarrow> s);
                (ok, t2) = (if name \<noteq> [] then hasLocalBranch h dir name t1 else (False, t1))
            in if ok then (Some name, t2)
               else if short \<noteq> [] then (Some short, t2)
               else default_remote h dir rs t2)"

definition defaultBranch :: "host \<Rightarrow> string \<Rightarrow> calls \<Rightarrow> string \<times> calls" where
  "defaultBranch h dir t =
     (let (names, t1) = remotes h dir t
      in case default_remote h dir (originFirst names) t1 of
           (Some ref, t2) \<Rightarrow> (ref, t2)
         | (None, t2) \<Rightarrow>
             let (main, t3) = hasLocalBranch h dir ''main'' t2
             in if main then (''main'', t3)
                else let (master, t4) = hasLocalBranch h dir ''master'' t3
                     in (if master then ''master'' else ''HEAD'', t4))"

definition trackRemote ::
  "host \<Rightarrow> string \<Rightarrow> string \<Rightarrow> string \<Rightarrow> base_resolution \<Rightarrow> calls \<Rightarrow> base_resolution \<times> calls" where
  "trackRemote h dir base remote res t =
     (let start = remote @ ''/'' @ base;
          (ok, t1) = gitOK h dir [''branch'', ''--track'', base, start] t;
          ref = (if ok then base else start);
          verb = (if ok then ''created local branch'' else ''branched directly from'');
          q = os_quote h;
          found = (if br_fetched res then '' was fetched from '' else '' was found on '')
      in (res\<lparr>br_ref := ref, br_created := ok \<or> br_created res,
              br_note := ''base branch '' @ q base @ found @ q remote @ ''; '' @ verb @ '' '' @ q ref\<rparr>, t1))"

definition fetchBase :: "host \<Rightarrow> string \<Rightarrow> string \<Rightarrow> string \<Rightarrow> calls \<Rightarrow> bool \<times> calls" where
  "fetchBase h dir remote base t =
     gitOK h dir [''fetch'', ''--quiet'', ''--no-tags'', remote,
       ''+refs/heads/'' @ base @ '':refs/remotes/'' @ remote @ ''/'' @ base] t"

definition fallbackBase :: "host \<Rightarrow> string \<Rightarrow> base_resolution \<Rightarrow> calls \<Rightarrow> base_resolution \<times> calls" where
  "fallbackBase h dir res t =
     (let (ref, t1) = defaultBranch h dir t
      in (res\<lparr>br_ref := ref, br_fellBack := True,
              br_note := ''base branch '' @ os_quote h (br_requested res)
                @ '' was not found locally or on any remote; branched from '' @ os_quote h ref @ '' instead''\<rparr>, t1))"

text \<open>A base written with its remote's name.\<close>

fun remote_named :: "host \<Rightarrow> string \<Rightarrow> string \<Rightarrow> string list \<Rightarrow> calls \<Rightarrow> bool \<times> calls" where
  "remote_named h dir base [] t = (False, t)"
| "remote_named h dir base (r # rs) t =
     (if cut_prefix (r @ ''/'') base = None then remote_named h dir base rs t
      else let (ok, t1) = hasRemoteRef h dir base t
           in if ok then (True, t1) else remote_named h dir base rs t1)"

fun fetch_from ::
  "host \<Rightarrow> string \<Rightarrow> string \<Rightarrow> base_resolution \<Rightarrow> string list \<Rightarrow> calls \<Rightarrow> base_resolution \<times> calls" where
  "fetch_from h dir base res [] t = fallbackBase h dir res t"
| "fetch_from h dir base res (r # rs) t =
     (let (ok, t1) = fetchBase h dir r base t
      in if \<not> ok then fetch_from h dir base res rs t1
         else let (have_ref, t2) = hasRemoteRef h dir (r @ ''/'' @ base) t1
              in if have_ref then trackRemote h dir base r (res\<lparr>br_fetched := True\<rparr>) t2
                 else fetch_from h dir base res rs t2)"

definition resolveBaseRef :: "host \<Rightarrow> string \<Rightarrow> string \<Rightarrow> calls \<Rightarrow> base_resolution \<times> calls" where
  "resolveBaseRef h dir base0 t =
     (let base = trim_space base0;
          res = \<lparr>br_ref = [], br_requested = base, br_note = [], br_fetched = False,
                 br_created = False, br_fellBack = False\<rparr>
      in if base = [] then (res\<lparr>br_ref := ''HEAD''\<rparr>, t)
         else if hd base = CHR ''-'' then
           let (ref, t1) = defaultBranch h dir t
           in (res\<lparr>br_ref := ref, br_fellBack := True,
                   br_note := ''base '' @ os_quote h base
                     @ '' cannot be a ref '' @ em_dash @ '' it reads as a git option; branched from '' @ os_quote h ref
                     @ '' instead''\<rparr>, t1)
         else
           let (loc, t1) = hasLocalBranch h dir base t
           in if loc then (res\<lparr>br_ref := base\<rparr>, t1)
              else
                let (names, t2) = remotes h dir t1; (named, t3) = remote_named h dir base names t2
                in if named then (res\<lparr>br_ref := base\<rparr>, t3)
                   else
                     let (remote, t4) = remoteHolding h dir base names t3
                     in if remote \<noteq> [] then trackRemote h dir base remote res t4
                        else fetch_from h dir base res (originFirst names) t4)"

end
