(* ===== verification/Workspace.thy ===== *)
theory Workspace
  imports Host ProjectStore EventStore
begin

text \<open>
  Checkouts (internal/thread/workspaces.go, lifecycle.go, workspace_procs.go): which ones a
  project has, where a thread's copy goes, how it is made, and the guarded removal of one.
\<close>

section \<open>Listing\<close>

record workspace =
  ws_path :: string
  ws_branch :: string
  ws_head :: string
  ws_isRoot :: bool
  ws_busy :: bool
  ws_busyThread :: string
  ws_busyTitle :: string
  ws_locked :: bool

definition bare_workspace :: "string \<Rightarrow> string \<Rightarrow> bool \<Rightarrow> workspace" where
  "bare_workspace p b r =
     \<lparr>ws_path = p, ws_branch = b, ws_head = [], ws_isRoot = r, ws_busy = False,
      ws_busyThread = [], ws_busyTitle = [], ws_locked = False\<rparr>"

definition hasRoot :: "workspace list \<Rightarrow> bool" where
  "hasRoot ws = list_ex ws_isRoot ws"

definition currentBranch :: "host \<Rightarrow> string \<Rightarrow> calls \<Rightarrow> string \<times> calls" where
  "currentBranch h dir t =
     (case git h dir [''rev-parse'', ''--abbrev-ref'', ''HEAD''] t of
        ((out, ok), t1) \<Rightarrow>
          (if \<not> ok \<or> trim_space out = ''HEAD'' then [] else trim_space out, t1))"

definition provisioned :: "string \<Rightarrow> bool" where
  "provisioned phase \<longleftrightarrow> phase \<noteq> ''creating'' \<and> phase \<noteq> ''provisioning'' \<and> phase \<noteq> ''provision_failed''"

text \<open>One line of \<open>git worktree list --porcelain\<close>: the entries done, and the one being read.\<close>

definition trim_cr :: "string \<Rightarrow> string" where
  "trim_cr l = rev (dropWhile (\<lambda>b. (of_char b :: nat) = 13) (rev l))"

definition without_prefix :: "string \<Rightarrow> string \<Rightarrow> string" where
  "without_prefix p s = (case cut_prefix p s of None \<Rightarrow> s | Some r \<Rightarrow> r)"

definition worktree_line ::
  "host \<Rightarrow> calls \<Rightarrow> string \<Rightarrow> workspace list \<times> workspace option \<Rightarrow> string \<Rightarrow> workspace list \<times> workspace option" where
  "worktree_line h t dir acc line0 =
     (let line = trim_cr line0; (out, cur) = acc
      in case cut_prefix ''worktree '' line of
           Some p \<Rightarrow>
             let path = canonicalPath h t (abs_path h p)
             in (out @ (case cur of None \<Rightarrow> [] | Some w \<Rightarrow> [w]), Some (bare_workspace path [] (path = dir)))
         | None \<Rightarrow>
             (case cur of
                None \<Rightarrow> (out, None)
              | Some w \<Rightarrow>
                  (case cut_prefix ''branch '' line of
                     Some b \<Rightarrow> (out, Some (w\<lparr>ws_branch := without_prefix ''refs/heads/'' b\<rparr>))
                   | None \<Rightarrow>
                       (case cut_prefix ''HEAD '' line of
                          Some c \<Rightarrow> (out, Some (w\<lparr>ws_head := take 8 c\<rparr>))
                        | None \<Rightarrow>
                            if line = ''locked'' \<or> cut_prefix ''locked '' line \<noteq> None
                            then (out, Some (w\<lparr>ws_locked := True\<rparr>)) else (out, Some w)))))"

definition parseWorktreeList :: "host \<Rightarrow> calls \<Rightarrow> string \<Rightarrow> string \<Rightarrow> workspace list" where
  "parseWorktreeList h t porcelain dir =
     (case foldl (worktree_line h t dir) ([], None) (split_on (CHR 0x0A) porcelain) of
        (out, cur) \<Rightarrow> out @ (case cur of None \<Rightarrow> [] | Some w \<Rightarrow> [w]))"

text \<open>The first thread, in the list's order, that holds each checkout.\<close>

definition thread_title :: "thread_meta \<Rightarrow> string" where
  "thread_title m = (if tm_title m = [] then ''untitled thread'' else tm_title m)"

definition holds :: "host \<Rightarrow> calls \<Rightarrow> string \<Rightarrow> thread_meta \<Rightarrow> bool" where
  "holds h t dir m \<longleftrightarrow>
     tm_phase m \<noteq> ''closed'' \<and> tm_cwd m \<noteq> []
     \<and> \<not> (canonicalPath h t (abs_path h (tm_cwd m)) = dir \<and> tm_workspaceMode m = ''managed''
          \<and> \<not> provisioned (tm_phase m))"

definition mark_busy :: "host \<Rightarrow> calls \<Rightarrow> thread_meta list \<Rightarrow> workspace \<Rightarrow> workspace" where
  "mark_busy h t holders w =
     (case List.find (\<lambda>m. canonicalPath h t (abs_path h (tm_cwd m)) = canonicalPath h t (ws_path w)) holders of
        None \<Rightarrow> w
      | Some m \<Rightarrow> w\<lparr>ws_busy := True, ws_busyThread := tm_id m, ws_busyTitle := thread_title m\<rparr>)"

definition ListWorkspaces :: "host \<Rightarrow> folder \<Rightarrow> db \<Rightarrow> calls \<Rightarrow> workspace list \<times> calls" where
  "ListWorkspaces h f d t =
     (let dir = canonicalPath h t (abs_path h (fo_path f));
          ((listing, ok), t1) = git h dir [''worktree'', ''list'', ''--porcelain''] t;
          out = (if ok then parseWorktreeList h t1 listing dir else [bare_workspace dir [] True]);
          (out1, t2) = (if hasRoot out then (out, t1)
                        else case currentBranch h dir t1 of (b, t2) \<Rightarrow> (bare_workspace dir b True # out, t2));
          holders = filter (holds h t2 dir) (ListThreads d)
      in (map (mark_busy h t2 holders) out1, t2))"

definition ResolveWorkspace ::
  "host \<Rightarrow> folder \<Rightarrow> string \<Rightarrow> db \<Rightarrow> calls \<Rightarrow> (string + workspace) \<times> calls" where
  "ResolveWorkspace h f path d t =
     (if trim_space path = [] then (Inl ''workspace path is empty'', t)
      else
        let (spaces, t1) = ListWorkspaces h f d t;
            target = canonicalPath h t1 (abs_path h path)
        in case List.find (\<lambda>w. canonicalPath h t1 (ws_path w) = target) spaces of
             None \<Rightarrow> (Inl (path @ '' is not a worktree of this project''), t1)
           | Some w \<Rightarrow>
               if os_isDir h t1 (ws_path w) then (Inr w, t1)
               else (Inl (ws_path w @ '' is no longer a directory''), t1))"

section \<open>Hooks\<close>

definition hookCommand :: "string \<Rightarrow> string list \<Rightarrow> string list" where
  "hookCommand hook args =
     (let e = lower_text (ext_name hook)
      in if e = ''.ts'' \<or> e = ''.mts'' then [''bun'', ''run'', hook] @ args
         else if e = ''.js'' \<or> e = ''.mjs'' \<or> e = ''.cjs'' then [''node'', hook] @ args
         else if e = ''.sh'' then [''sh'', hook] @ args
         else hook # args)"

definition isCompatibilityHook :: "string \<Rightarrow> string \<Rightarrow> bool" where
  "isCompatibilityHook path kind =
     (let base = lower_text (base_name path);
          stem = take (length base - length (ext_name base)) base
      in stem = ''worktree-'' @ kind
         \<or> base = kind \<and> base_name (dir_name path) = ''worktree''
           \<and> base_name (dir_name (dir_name path)) = ''.claude'')"

text \<open>\<open>ResolveHook\<close> (internal/project/project.go): a hook is a file inside its folder.\<close>

definition script_exts :: "string list" where
  "script_exts = [''.ts'', ''.mts'', ''.js'', ''.mjs'', ''.cjs'', ''.sh'']"

definition ResolveHook :: "host \<Rightarrow> calls \<Rightarrow> string \<Rightarrow> string \<Rightarrow> string + string" where
  "ResolveHook h t dir rel =
     (if rel = [] then Inr []
      else if is_abs rel then Inl ''hook path escapes the folder''
      else
        let p = join_path [dir, clean rel]
        in if (case rel_path dir p of None \<Rightarrow> True | Some r \<Rightarrow> escapes r) then Inl ''hook path escapes the folder''
           else case os_file h t p of
                  None \<Rightarrow> Inl ''no such file''
                | Some (isDir, exec) \<Rightarrow>
                    if isDir then Inl (rel @ '' is not a script file'')
                    else if \<not> exec \<and> \<not> List.member script_exts (lower_text (ext_name p))
                    then Inl (rel @ '' must be executable or use a supported script extension'')
                    else Inr p)"

abbreviation maxHookOutput :: nat where "maxHookOutput \<equiv> 4194304"

definition secret_name :: "string \<Rightarrow> bool" where
  "secret_name n \<longleftrightarrow>
     contains_text ''TOKEN'' n \<or> contains_text ''SECRET'' n \<or> contains_text ''PASSWORD'' n
     \<or> cut_suffix ''_KEY'' n \<noteq> None"

definition redact_entry :: "string \<Rightarrow> string \<Rightarrow> string" where
  "redact_entry v entry =
     (let name = takeWhile (\<lambda>b. b \<noteq> CHR ''='') entry; rest = drop (length name) entry
      in if rest = [] \<or> length (tl rest) < 4 \<or> \<not> secret_name (upper_text name) then v
         else replace_all (tl rest) ''[REDACTED]'' v)"

definition redactHookOutput :: "host \<Rightarrow> string \<Rightarrow> string" where
  "redactHookOutput h v = foldl redact_entry v (os_environ h)"

text \<open>
  The two streams in the order their lines are taken: what is emitted, how much that is in all,
  and whether something was clipped.
\<close>

definition output_event :: "string \<Rightarrow> string \<Rightarrow> string \<Rightarrow> string \<Rightarrow> event_body" where
  "output_event run hook stream chunk =
     WorkspaceHookOutput \<lparr>ho_runID = run, ho_hook = hook, ho_stream = stream, ho_chunk = chunk\<rparr>"

fun hook_output :: "string \<Rightarrow> string \<Rightarrow> nat \<Rightarrow> (string \<times> string) list \<Rightarrow> event_body list \<times> nat \<times> bool" where
  "hook_output run hook sent [] = ([], sent, False)"
| "hook_output run hook sent ((stream, chunk) # ls) =
     (let allowed = min (maxHookOutput - sent) (length chunk);
          (evs, sent', clipped) = hook_output run hook (sent + allowed) ls
      in ((if allowed > 0 then [output_event run hook stream (take allowed chunk)] else []) @ evs,
          sent', clipped \<or> allowed < length chunk))"

text \<open>
  \<open>runHook\<close>: what it reports and how it ends.  Each line is redacted and given its line break
  back; a command that cannot be started reports nothing after its start.
\<close>

definition newline :: string where "newline = [CHR 0x0A]"

definition hook_display :: "string list \<Rightarrow> string" where
  "hook_display args = join_text '' '' args"

definition hook_env ::
  "string \<Rightarrow> string \<Rightarrow> string \<Rightarrow> string \<Rightarrow> string \<Rightarrow> string \<Rightarrow> string \<Rightarrow> (string \<times> string) list" where
  "hook_env kind thread cwd context result stateDir baseRef =
     [(''OMNIPLEX_LIFECYCLE_VERSION'', ''2''), (''OMNIPLEX_HOOK'', kind), (''OMNIPLEX_THREAD_ID'', thread),
      (''OMNIPLEX_PROJECT_ROOT'', cwd), (''OMNIPLEX_CONTEXT_FILE'', context),
      (''OMNIPLEX_RESULT_FILE'', result), (''OMNIPLEX_STATE_DIR'', stateDir), (''OMNIPLEX_BASE_REF'', baseRef)]"

definition runHook ::
  "host \<Rightarrow> string \<Rightarrow> string \<Rightarrow> string \<Rightarrow> string list \<Rightarrow> (string \<times> string) list \<Rightarrow> int \<Rightarrow> calls
   \<Rightarrow> string option \<times> event_body list \<times> calls" where
  "runHook h kind cwd hook args env seconds t =
     (let run = os_uuid h t; cmd = hookCommand hook args; t1 = t @ [RunHook kind hook args cwd env seconds];
          ans = os_hook h t1;
          start = WorkspaceHookStarted \<lparr>hs_runID = run, hs_hook = kind, hs_command = hook_display cmd\<rparr>
      in case hk_start ans of
           Some e \<Rightarrow> (Some e, [start], t1)
         | None \<Rightarrow>
             let (out, sent, clipped) = hook_output run kind 0
                   (map (\<lambda>(s, l). (s, redactHookOutput h l @ newline)) (hk_lines ans));
                 note = (if clipped then [output_event run kind ''stdout''
                           (newline @ ''[output truncated by omniplex]'' @ newline)] else []);
                 fin = WorkspaceHookFinished \<lparr>hf_runID = run, hf_hook = kind, hf_exitCode = hk_exit ans,
                         hf_durationMs = hk_duration ans\<rparr>;
                 err = (if hk_timeout ans then Some (kind @ '' hook timed out'')
                        else if hk_exit ans \<noteq> 0 then Some (kind @ '' hook exited '' @ format_int (hk_exit ans))
                        else None)
             in (err, start # out @ note @ [fin], t1))"

section \<open>Making a copy\<close>

definition baseRefFor :: "thread_meta \<Rightarrow> folder \<Rightarrow> string" where
  "baseRefFor m f =
     (let b = trim_space (tm_baseRef m) in if b \<noteq> [] then b else trim_space (fo_baseBranch f))"

definition workspaceTarget :: "thread_meta \<Rightarrow> folder \<Rightarrow> string \<times> string" where
  "workspaceTarget m f =
     (let branch = (if tm_branch m = []
                    then ''feature/omniplex-'' @ take 8 (filter (\<lambda>b. b \<noteq> CHR ''-'') (tm_id m))
                    else tm_branch m)
      in (branch, join_path [fo_path f, fo_copiesDir f,
            map (\<lambda>b. if b = CHR ''/'' then CHR ''-'' else b) branch]))"

record provision_result =
  pv_cwd :: string
  pv_branch :: string
  pv_resources :: "(string \<times> json) list"

definition base_note :: "base_resolution \<Rightarrow> event_body list" where
  "base_note r =
     (if br_note r = [] then []
      else [output_event [] ''provision'' ''stdout'' (''note: '' @ br_note r @ newline)])"

definition copy_result :: "string \<Rightarrow> string \<Rightarrow> provision_result" where
  "copy_result path branch = \<lparr>pv_cwd = path, pv_branch = branch, pv_resources = []\<rparr>"

text \<open>
  The arguments of \<open>git worktree add\<close>: the branch where it exists, before or after the base was
  resolved, and a new one from the base otherwise.
\<close>

definition worktree_args ::
  "host \<Rightarrow> thread_meta \<Rightarrow> folder \<Rightarrow> base_resolution option \<Rightarrow> calls \<Rightarrow> string list \<times> event_body list \<times> calls" where
  "worktree_args h m f resolved t =
     (let (branch, path) = workspaceTarget m f;
          existing = [''worktree'', ''add'', path, branch];
          (have_it, t1) = hasLocalBranch h (fo_path f) branch t
      in if have_it then (existing, [], t1)
         else
           let (res, note, t2) =
             (case resolved of
                Some r \<Rightarrow> (r, [], t1)
              | None \<Rightarrow> (case resolveBaseRef h (fo_path f) (baseRefFor m f) t1 of (r, t2) \<Rightarrow> (r, base_note r, t2)));
               (made, t3) = hasLocalBranch h (fo_path f) branch t2
           in (if made then existing else [''worktree'', ''add'', path, ''-b'', branch, br_ref res], note, t3))"

definition createWorktreeFrom ::
  "host \<Rightarrow> thread_meta \<Rightarrow> folder \<Rightarrow> base_resolution option \<Rightarrow> calls
   \<Rightarrow> (string + provision_result) \<times> event_body list \<times> calls" where
  "createWorktreeFrom h m f resolved t =
     (let (branch, path) = workspaceTarget m f
      in if os_isDir h t path then (Inr (copy_result path branch), [], t)
         else
           let start = WorkspaceHookStarted \<lparr>hs_runID = os_uuid h t, hs_hook = ''provision'',
                 hs_command = ''git worktree add '' @ path\<rparr>;
               (args, note, t1) = worktree_args h m f resolved t;
               ((out, ok), t2) = git h (fo_path f) args t1;
               said = (if out = [] then [] else [output_event [] ''provision'' ''stdout'' out])
           in (if ok then Inr (copy_result path branch) else Inl ''git worktree add failed'',
               start # note @ said, t2))"

section \<open>Removing one\<close>

definition processesIn :: "host \<Rightarrow> string \<Rightarrow> bool \<Rightarrow> calls \<Rightarrow> (nat \<times> string) list" where
  "processesIn h target includeDeleted t =
     concat (map (\<lambda>(pid, cwd0, name).
       let gone = cut_suffix '' (deleted)'' cwd0;
           cwd = (case gone of None \<Rightarrow> cwd0 | Some c \<Rightarrow> c)
       in if pid = os_self h \<or> (gone \<noteq> None \<and> \<not> includeDeleted) \<or> \<not> is_abs cwd \<or> \<not> path_under cwd target
          then [] else [(pid, name)]) (os_procs h t))"

definition show_proc :: "host \<Rightarrow> nat \<times> string \<Rightarrow> string" where
  "show_proc h p =
     (if snd p = [] then os_decimal h (fst p)
      else snd p @ '' (pid '' @ os_decimal h (fst p) @ '')'')"

definition describeProcs :: "host \<Rightarrow> (nat \<times> string) list \<Rightarrow> string" where
  "describeProcs h ps =
     join_text '', '' (map (show_proc h) (take 3 ps)
       @ (if length ps > 3 then [''and '' @ os_decimal h (length ps - 3) @ '' more''] else []))"

definition orphanedWorktreeOf :: "host \<Rightarrow> string \<Rightarrow> string \<Rightarrow> calls \<Rightarrow> bool" where
  "orphanedWorktreeOf h target rootCommon t =
     (case os_pointer h t (join_path [target, ''.git'']) of
        None \<Rightarrow> False
      | Some text \<Rightarrow>
          (case cut_prefix ''gitdir:'' (trim_space text) of
             None \<Rightarrow> False
           | Some g \<Rightarrow>
               let gitDir = trim_space g;
                   full = clean (if is_abs gitDir then gitDir else join_path [target, gitDir])
               in gitDir \<noteq> [] \<and> clean (fst (split_path full)) = join_path [rootCommon, ''worktrees'']
                  \<and> snd (split_path full) \<noteq> []))"

text \<open>The directory Git keeps what a checkout shares in.\<close>

definition common_dir :: "host \<Rightarrow> string \<Rightarrow> calls \<Rightarrow> string option \<times> calls" where
  "common_dir h dir t =
     (case git h [] [''-C'', dir, ''rev-parse'', ''--git-common-dir''] t of
        ((out, ok), t1) \<Rightarrow>
          (if \<not> ok then None
           else let v = trim_space out; p = abs_path h (if is_abs v then v else join_path [dir, v])
                in Some (canonicalPath h t1 p), t1))"

definition prune :: "host \<Rightarrow> string \<Rightarrow> calls \<Rightarrow> string option \<times> calls" where
  "prune h dir t =
     (case gitOK h dir [''worktree'', ''prune''] t of
        (ok, t1) \<Rightarrow> (if ok then None else Some ''git worktree prune failed'', t1))"

definition remove_tree :: "host \<Rightarrow> string \<Rightarrow> calls \<Rightarrow> string option \<times> calls" where
  "remove_tree h target t = (os_removeAll h t target, t @ [RemoveAll target])"

definition deleteWorktreeDir :: "host \<Rightarrow> string \<Rightarrow> string \<Rightarrow> calls \<Rightarrow> string option \<times> calls" where
  "deleteWorktreeDir h dir target t =
     (let (e1, t1) = remove_tree h target t;
          (e2, t2) = (if e1 = None then (None, t1) else remove_tree h target t1);
          err = (if e2 = None \<and> os_present h t2 target
                 then Some (target @ '' was recreated while it was being removed'') else e2)
      in case err of
           Some e \<Rightarrow>
             let procs = processesIn h target True t2
             in (Some (if procs = [] then e
                       else e @ '' '' @ em_dash @ '' '' @ describeProcs h procs @ '' is still writing to it''), t2)
         | None \<Rightarrow> prune h dir t2)"

text \<open>The registered worktrees of a repository, as canonical paths.\<close>

definition registered :: "host \<Rightarrow> calls \<Rightarrow> string \<Rightarrow> string \<Rightarrow> bool" where
  "registered h t target listing =
     list_ex (\<lambda>l. case cut_prefix ''worktree '' l of
                    None \<Rightarrow> False
                  | Some p \<Rightarrow> canonicalPath h t (abs_path h p) = target) (split_on (CHR 0x0A) listing)"

definition git_remove ::
  "host \<Rightarrow> folder \<Rightarrow> string \<Rightarrow> string \<Rightarrow> bool \<Rightarrow> calls \<Rightarrow> string option \<times> event_body list \<times> calls" where
  "git_remove h f dir target narrate t =
     (let ((out, ok), t1) = git h (fo_path f) [''worktree'', ''remove'', ''--force'', target] t;
          said = (if out \<noteq> [] \<and> narrate then [output_event [] ''worktree-remove'' ''stdout'' out] else [])
      in if ok then (case prune h (fo_path f) t1 of (e, t2) \<Rightarrow> (e, said, t2))
         else (case deleteWorktreeDir h dir target t1 of
                 (None, t2) \<Rightarrow> (None, said, t2)
               | (Some e, t2) \<Rightarrow>
                   (Some (''exit status (and removing the directory failed: '' @ e @ '')''), said, t2)))"

text \<open>The refusals come before anything is touched, in this order.\<close>

definition removeGitWorktree ::
  "host \<Rightarrow> thread_meta \<Rightarrow> folder \<Rightarrow> bool \<Rightarrow> bool \<Rightarrow> calls \<Rightarrow> string option \<times> event_body list \<times> calls" where
  "removeGitWorktree h m f narrate allowMissingLease t =
     (let target = canonicalPath h t (abs_path h (tm_cwd m));
          dir = canonicalPath h t (abs_path h (fo_path f))
      in if target = [] \<or> target = dir then
           (if allowMissingLease then (case prune h dir t of (e, t1) \<Rightarrow> (e, [], t1))
            else (Some ''refusing to remove the project root'', [], t))
         else if os_missing h t target then (case prune h dir t of (e, t1) \<Rightarrow> (e, [], t1))
         else if (case rel_path target dir of None \<Rightarrow> False | Some r \<Rightarrow> \<not> escapes r) then
           (Some ''refusing to remove an ancestor of the project root'', [], t)
         else
           case common_dir h dir t of
             (None, t1) \<Rightarrow> (Some ''git rev-parse failed'', [], t1)
           | (Some rootCommon, t1) \<Rightarrow>
               let ((listing, ok), t2) = git h [] [''-C'', dir, ''worktree'', ''list'', ''--porcelain''] t1
               in if \<not> ok then (Some ''list worktrees failed'', [], t2)
                  else if \<not> registered h t2 target listing then
                    (if allowMissingLease \<and> orphanedWorktreeOf h target rootCommon t2 then
                       (case deleteWorktreeDir h dir target t2 of (e, t3) \<Rightarrow> (e, [], t3))
                     else if allowMissingLease then
                       (Some (''cannot force delete: '' @ target @ '' exists but is not a registered Git worktree''), [], t2)
                     else (Some (''refusing cleanup: '' @ target @ '' is not a registered worktree''), [], t2))
                  else
                    case common_dir h target t2 of
                      (None, t3) \<Rightarrow> (Some ''git rev-parse failed'', [], t3)
                    | (Some targetCommon, t3) \<Rightarrow>
                        if rootCommon \<noteq> targetCommon then
                          (Some ''refusing cleanup: worktree belongs to another repository'', [], t3)
                        else if \<not> allowMissingLease \<and> processesIn h target False t3 \<noteq> [] then
                          (Some (''refusing cleanup: '' @ base_name target @ '' is still in use by ''
                             @ describeProcs h (processesIn h target False t3) @ '' '' @ em_dash
                             @ '' stop it and delete again''), [], t3)
                        else git_remove h f dir target narrate t3)"

end
