(* ===== verification/WorkspaceProps.thy ===== *)
theory WorkspaceProps
  imports Workspace StoreProps
begin

text \<open>
  What the removal of a checkout is bound by, that a base is never replaced silently, and that
  what a hook writes is bounded.
\<close>

section \<open>Calls only accumulate\<close>

definition extends :: "calls \<Rightarrow> calls \<Rightarrow> (call \<Rightarrow> bool) \<Rightarrow> bool" where
  "extends t t' P \<longleftrightarrow> (\<exists>cs. t' = t @ cs \<and> list_all P cs)"

lemma extends_refl [simp]: "extends t t P"
  by (simp add: extends_def)

lemma extends_trans: "extends a b P \<Longrightarrow> extends b c P \<Longrightarrow> extends a c P"
  by (auto simp: extends_def)

lemma extends_mono: "extends a b P \<Longrightarrow> (\<And>c. P c \<Longrightarrow> Q c) \<Longrightarrow> extends a b Q"
  by (auto simp: extends_def list_all_iff)

lemma extends_one: "P c \<Longrightarrow> extends t (t @ [c]) P"
  by (simp add: extends_def)

text \<open>The directories a call deletes.\<close>

fun deletes :: "call \<Rightarrow> string option" where
  "deletes (RemoveAll p) = Some p"
| "deletes (Git dir args) = (if take 3 args = [''worktree'', ''remove'', ''--force''] \<and> length args = 4 then Some (args ! 3) else None)"
| "deletes _ = None"

lemma common_dir_calls: "extends t (snd (common_dir h dir t)) (\<lambda>c. deletes c = None)"
  by (auto simp: common_dir_def git_def Let_def case_prod_beta intro!: extends_one)

lemma prune_calls: "extends t (snd (prune h dir t)) (\<lambda>c. deletes c = None)"
  by (auto simp: prune_def gitOK_def git_def case_prod_beta intro!: extends_one)

lemma deleteWorktreeDir_calls:
  "extends t (snd (deleteWorktreeDir h dir target t)) (\<lambda>c. deletes c = None \<or> deletes c = Some target)"
proof -
  let ?P = "\<lambda>c. deletes c = None \<or> deletes c = Some target"
  have one: "extends a (a @ [RemoveAll target]) ?P" for a by (rule extends_one) simp
  then have two: "extends a ((a @ [RemoveAll target]) @ [RemoveAll target]) ?P" for a
    using extends_trans by blast
  have pr: "extends a (snd (prune h dir a)) ?P" for a by (rule extends_mono [OF prune_calls]) simp
  show ?thesis
    using extends_trans [OF one pr] extends_trans [OF two pr] one two
    by (auto simp: deleteWorktreeDir_def remove_tree_def Let_def case_prod_beta split: option.split)
qed

lemma git_remove_calls:
  "extends t (snd (snd (git_remove h f dir target narrate t))) (\<lambda>c. deletes c = None \<or> deletes c = Some target)"
proof -
  let ?P = "\<lambda>c. deletes c = None \<or> deletes c = Some target"
  let ?t = "t @ [Git (fo_path f) [''worktree'', ''remove'', ''--force'', target]]"
  have one: "extends t ?t ?P" by (rule extends_one) simp
  have pr: "extends ?t (snd (prune h d ?t)) ?P" for d by (rule extends_mono [OF prune_calls]) simp
  show ?thesis
    using extends_trans [OF one pr] extends_trans [OF one deleteWorktreeDir_calls]
    by (auto simp: git_remove_def git_def Let_def case_prod_beta split: option.split)
qed

text \<open>What must hold of a checkout before anything of it is deleted.\<close>

definition removable :: "host \<Rightarrow> thread_meta \<Rightarrow> folder \<Rightarrow> calls \<Rightarrow> string \<Rightarrow> bool" where
  "removable h m f t target \<longleftrightarrow>
     (let dir = canonicalPath h t (abs_path h (fo_path f))
      in target = canonicalPath h t (abs_path h (tm_cwd m)) \<and> target \<noteq> dir
         \<and> (\<forall>r. rel_path target dir = Some r \<longrightarrow> escapes r)
         \<and> (\<exists>rootCommon t1 t2 lines. common_dir h dir t = (Some rootCommon, t1)
              \<and> git h [] [''-C'', dir, ''worktree'', ''list'', ''--porcelain''] t1 = ((lines, True), t2)
              \<and> (registered h t2 target lines \<and> fst (common_dir h target t2) = Some rootCommon
                 \<or> orphanedWorktreeOf h target rootCommon t2)))"

lemma git_calls: "extends t (snd (git h dir args t)) P" if "P (Git dir args)"
  using that by (simp add: git_def extends_one)

definition lawful :: "host \<Rightarrow> thread_meta \<Rightarrow> folder \<Rightarrow> calls \<Rightarrow> call \<Rightarrow> bool" where
  "lawful h m f t c \<longleftrightarrow> (\<forall>p. deletes c = Some p \<longrightarrow> removable h m f t p)"

lemma removeGitWorktree_calls:
  "extends t (snd (snd (removeGitWorktree h m f narrate allow t)))
     (lawful h m f t)"
proof -
  let ?P = "lawful h m f t"
  let ?target = "canonicalPath h t (abs_path h (tm_cwd m))"
    and ?dir = "canonicalPath h t (abs_path h (fo_path f))"
  let ?list = "[''-C'', ?dir, ''worktree'', ''list'', ''--porcelain'']"
  have pr: "extends a (snd (prune h d a)) ?P" for a d by (rule extends_mono [OF prune_calls]) (simp add: lawful_def)
  have co: "extends a (snd (common_dir h d a)) ?P" for a d by (rule extends_mono [OF common_dir_calls]) (simp add: lawful_def)
  have gi: "extends a (snd (git h [] ?list a)) ?P" for a by (rule git_calls) (simp add: lawful_def)
  obtain rc t1 where c: "common_dir h ?dir t = (rc, t1)" by fastforce
  obtain lines ok t2 where g: "git h [] ?list t1 = ((lines, ok), t2)" by (metis surj_pair)
  obtain tc t3 where d: "common_dir h ?target t2 = (tc, t3)" by fastforce
  have e1: "extends t t1 ?P" using co [of t ?dir] c by simp
  have e2: "extends t t2 ?P" using extends_trans [OF e1 gi [of t1]] g by simp
  have e3: "extends t t3 ?P" using extends_trans [OF e2 co [of t2 ?target]] d by simp
  let ?ok = "removable h m f t ?target"
  have del: "extends t (snd (deleteWorktreeDir h ?dir ?target t2)) ?P" if ?ok
    by (rule extends_trans [OF e2 extends_mono [OF deleteWorktreeDir_calls]]) (use that in \<open>auto simp: lawful_def\<close>)
  have rem: "extends t (snd (snd (git_remove h f ?dir ?target narrate t3))) ?P" if ?ok
    by (rule extends_trans [OF e3 extends_mono [OF git_remove_calls]]) (use that in \<open>auto simp: lawful_def\<close>)
  have may: "?ok" if "?target \<noteq> ?dir" "\<not> (case rel_path ?target ?dir of None \<Rightarrow> False | Some r \<Rightarrow> \<not> escapes r)"
    "rc = Some R" "ok" "registered h t2 ?target lines \<and> tc = Some R \<or> orphanedWorktreeOf h ?target R t2" for R
    unfolding removable_def Let_def
  proof (intro conjI exI)
    show "\<forall>r. rel_path ?target ?dir = Some r \<longrightarrow> escapes r" using that(2) by auto
    show "common_dir h ?dir t = (Some R, t1)" using c that(3) by simp
    show "git h [] ?list t1 = ((lines, True), t2)" using g that(4) by simp
    show "registered h t2 ?target lines \<and> fst (common_dir h ?target t2) = Some R \<or> orphanedWorktreeOf h ?target R t2"
      using that(5) d by simp
  qed (use that(1) in simp_all)
  let ?r = "removeGitWorktree h m f narrate allow t"
  let ?up = "case rel_path ?target ?dir of None \<Rightarrow> False | Some r \<Rightarrow> \<not> escapes r"
  consider (here) "?target = [] \<or> ?target = ?dir"
    | (gone) "\<not> (?target = [] \<or> ?target = ?dir)" "os_missing h t ?target"
    | (above) "\<not> (?target = [] \<or> ?target = ?dir)" "\<not> os_missing h t ?target" "?up"
    | (asked) "\<not> (?target = [] \<or> ?target = ?dir)" "\<not> os_missing h t ?target" "\<not> ?up" by blast
  then show ?thesis
  proof cases
    case here
    then have "snd (snd ?r) = (if allow then snd (prune h ?dir t) else t)"
      unfolding removeGitWorktree_def Let_def by (simp add: case_prod_beta)
    then show ?thesis using pr by simp
  next
    case gone
    then have "snd (snd ?r) = snd (prune h ?dir t)"
      unfolding removeGitWorktree_def Let_def by (simp add: case_prod_beta)
    then show ?thesis using pr by simp
  next
    case above
    then have "snd (snd ?r) = t"
      unfolding removeGitWorktree_def Let_def by simp
    then show ?thesis by simp
  next
    case asked
    show ?thesis
    proof (cases "rc = None \<or> \<not> ok")
      case True
      then have "snd (snd ?r) = (if rc = None then t1 else t2)"
        using asked unfolding removeGitWorktree_def Let_def by (auto simp: c g)
      then show ?thesis using e1 e2 by simp
    next
      case False
      then obtain R where R: "rc = Some R" and ok by auto
      show ?thesis
      proof (cases "registered h t2 ?target lines")
        case True
        have "snd (snd ?r) = (if tc = Some R \<and> (allow \<or> processesIn h ?target False t3 = [])
            then snd (snd (git_remove h f ?dir ?target narrate t3)) else t3)"
          using asked True \<open>ok\<close> unfolding removeGitWorktree_def Let_def by (cases tc) (auto simp: c g d R)
        moreover have "?ok" if "tc = Some R" using may [OF _ asked(3) R \<open>ok\<close>] asked(1) True that by blast
        ultimately show ?thesis using e3 rem by simp
      next
        case unreg: False
        have "snd (snd ?r) = (if allow \<and> orphanedWorktreeOf h ?target R t2
            then snd (deleteWorktreeDir h ?dir ?target t2) else t2)"
          using asked unreg \<open>ok\<close> unfolding removeGitWorktree_def Let_def by (auto simp: c g R case_prod_beta)
        moreover have "?ok" if "orphanedWorktreeOf h ?target R t2"
          using may [OF _ asked(3) R \<open>ok\<close>] asked(1) that by blast
        ultimately show ?thesis using e2 del by simp
      qed
    qed
  qed
qed

lemma abs_path_abs: "is_abs (os_cwd h) \<Longrightarrow> is_abs (abs_path h p)"
proof -
  have clean: "is_abs q \<Longrightarrow> is_abs (clean q)" for q
    by (simp add: clean_def path_of_def is_abs_def)
  assume "is_abs (os_cwd h)"
  then have "os_cwd h \<noteq> []" "is_abs (join_with (CHR ''/'') [os_cwd h, p])"
    by (auto simp: is_abs_def join_with_def)
  then have "is_abs (join_path [os_cwd h, p])" by (simp add: join_path_def Let_def clean)
  with clean show ?thesis by (simp add: abs_path_def)
qed

lemma rel_path_abs: "is_abs b \<Longrightarrow> is_abs p \<Longrightarrow> \<exists>r. rel_path b p = Some r"
proof -
  assume abs: "is_abs b" "is_abs p"
  obtain us ds where s: "strip_common (parts_of b) (parts_of p) = (us, ds)" by fastforce
  then obtain zs where "parts_of b = zs @ us" using strip_common_split by blast
  then have "us = [] \<or> hd us \<noteq> ''..''" using parts_of_abs(1) [OF abs(1)] by (cases us) auto
  with s abs show ?thesis by (auto simp: rel_path_def)
qed

lemma removable_outside:
  assumes "removable h m f t p" and "is_abs p" and "is_abs (canonicalPath h t (abs_path h (fo_path f)))"
  shows "\<not> (\<exists>ds. parts_of (canonicalPath h t (abs_path h (fo_path f))) = parts_of p @ ds)"
proof -
  obtain r where r: "rel_path p (canonicalPath h t (abs_path h (fo_path f))) = Some r"
    using rel_path_abs [OF assms(2,3)] by blast
  then have "escapes r" using assms(1) by (simp add: removable_def Let_def)
  then show ?thesis by (rule rel_path_inside [OF assms(2,3) r])
qed

text \<open>
  C31: removing a checkout deletes nothing but the directory the thread's row names, and only when
  Git lists it as a worktree of this very repository or its own pointer file says it was one;
  the project folder and every directory above it are out of reach, whatever the row says.
\<close>

theorem removal_guarded:
  assumes "is_abs (os_cwd h)" and "\<forall>q r. os_resolve h t q = Some r \<longrightarrow> is_abs r"
  shows "\<exists>cs. snd (snd (removeGitWorktree h m f narrate allow t)) = t @ cs
    \<and> (\<forall>c\<in>set cs. \<forall>p. deletes c = Some p \<longrightarrow>
        p = canonicalPath h t (abs_path h (tm_cwd m))
        \<and> \<not> (\<exists>ds. parts_of (canonicalPath h t (abs_path h (fo_path f))) = parts_of p @ ds)
        \<and> removable h m f t p)"
proof -
  have abs: "is_abs (canonicalPath h t (abs_path h q))" for q
    using assms abs_path_abs by (auto simp: canonicalPath_def split: option.split)
  obtain cs where cs: "snd (snd (removeGitWorktree h m f narrate allow t)) = t @ cs" "list_all (lawful h m f t) cs"
    using removeGitWorktree_calls [of t h m f narrate allow] by (auto simp: extends_def)
  have "p = canonicalPath h t (abs_path h (tm_cwd m))
        \<and> \<not> (\<exists>ds. parts_of (canonicalPath h t (abs_path h (fo_path f))) = parts_of p @ ds)
        \<and> removable h m f t p" if "c \<in> set cs" "deletes c = Some p" for c p
  proof -
    have ok: "removable h m f t p" using cs(2) that by (auto simp: lawful_def list_all_iff)
    then have p: "p = canonicalPath h t (abs_path h (tm_cwd m))" by (simp add: removable_def Let_def)
    then have "is_abs p" using abs by simp
    from removable_outside [OF ok this abs] ok p show ?thesis by blast
  qed
  with cs(1) show ?thesis by blast
qed

section \<open>A sample machine\<close>

definition sample_git :: "string \<Rightarrow> string list \<Rightarrow> string \<times> bool" where
  "sample_git dir args =
     (if args = [''-C'', ''/p'', ''worktree'', ''list'', ''--porcelain'']
      then (''worktree /p'' @ [CHR 0x0A] @ ''worktree /p-copy'' @ [CHR 0x0A], True)
      else if args = [''-C'', ''/p'', ''rev-parse'', ''--git-common-dir''] then (''/p/.git'', True)
      else if args = [''-C'', ''/p-copy'', ''rev-parse'', ''--git-common-dir''] then (''/p/.git'', True)
      else if take 1 args = [''show-ref''] then ([], False)
      else ([], True))"

definition sample_host :: host where
  "sample_host =
     \<lparr>os_cwd = ''/srv'', os_resolve = \<lambda>t p. if is_abs p then Some (clean p) else None, os_isDir = \<lambda>t p. True,
      os_missing = \<lambda>t p. False, os_present = \<lambda>t p. False, os_git = \<lambda>t. sample_git,
      os_gitError = \<lambda>t a. ''exit status 1'',
      os_gitIndex = \<lambda>t i. sample_git, os_temp = \<lambda>t. Inr ''/tmp/i'', os_removeAll = \<lambda>t p. None, os_pointer = \<lambda>t p. None, os_procs = \<lambda>t. [], os_self = 1,
      os_hook = \<lambda>t. \<lparr>hk_start = None, hk_lines = [], hk_exit = 0, hk_timeout = False, hk_duration = 1\<rparr>,
      os_uuid = \<lambda>t. ''run'', os_environ = [], os_stateDir = \<lambda>i. Inr ''/s'',
      os_result = \<lambda>t p. Inl ''no result'', os_write = \<lambda>t p. None, os_mkdir = \<lambda>t p. None, os_file = \<lambda>t p. Some (False, True), os_isGit = \<lambda>p. True,
      os_quote = \<lambda>s. s, os_decimal = dec_digits\<rparr>"

definition sample_folder :: folder where
  "sample_folder =
     \<lparr>fo_id = ''f'', fo_path = ''/p'', fo_git = True, fo_baseBranch = [], fo_copiesDir = ''.copies'',
      fo_provision = [], fo_deprovision = [], fo_provisionTimeout = 60, fo_deprovisionTimeout = 60\<rparr>"

definition sample_copy :: thread_meta where
  "sample_copy = (sample_thread ''t1'')\<lparr>tm_cwd := ''/p-copy'', tm_workspaceMode := ''managed''\<rparr>"

theorem removal_guarded_witness:
  "list_ex (\<lambda>c. deletes c = Some ''/p-copy'') (snd (snd (removeGitWorktree sample_host sample_copy sample_folder False False [])))
   \<and> list_all (\<lambda>c. deletes c = None \<or> deletes c = Some ''/p-copy'')
        (snd (snd (removeGitWorktree sample_host sample_copy sample_folder False False [])))"
proof -
  have "is_abs (os_cwd sample_host)" by code_simp
  moreover have "\<forall>q r. os_resolve sample_host [] q = Some r \<longrightarrow> is_abs r"
    by (auto simp: sample_host_def clean_def path_of_def is_abs_def)
  moreover have "canonicalPath sample_host [] (abs_path sample_host (tm_cwd sample_copy)) = ''/p-copy''" by code_simp
  moreover have "list_ex (\<lambda>c. deletes c = Some ''/p-copy'')
      (snd (snd (removeGitWorktree sample_host sample_copy sample_folder False False [])))" by code_simp
  ultimately have "list_ex (\<lambda>c. deletes c = Some ''/p-copy'')
        (snd (snd (removeGitWorktree sample_host sample_copy sample_folder False False [])))"
      and only: "\<forall>c\<in>set (snd (snd (removeGitWorktree sample_host sample_copy sample_folder False False []))).
        \<forall>p. deletes c = Some p \<longrightarrow> p = ''/p-copy''"
    using removal_guarded [of sample_host "[]" sample_copy sample_folder False False] by auto
  moreover have "deletes c = None \<or> deletes c = Some ''/p-copy''"
    if "c \<in> set (snd (snd (removeGitWorktree sample_host sample_copy sample_folder False False [])))" for c
    using only that by (cases "deletes c") auto
  ultimately show ?thesis by (simp add: list_all_iff)
qed

section \<open>Bases\<close>

lemma trackRemote_note: "br_note (fst (trackRemote h dir base remote res t)) \<noteq> []"
  by (simp add: trackRemote_def Let_def case_prod_beta)

lemma fetch_from_note: "br_note (fst (fetch_from h dir base res rs t)) \<noteq> []"
  by (induction rs arbitrary: t)
    (simp_all add: fallbackBase_def trackRemote_note Let_def case_prod_beta)

text \<open>
  A branch never starts somewhere else in silence: where the resolver does not answer the
  base it was asked for (\<open>HEAD\<close> for none), there is a note for the user.
\<close>

theorem base_never_silent:
  "br_ref (fst (resolveBaseRef h dir base t)) = (if trim_space base = [] then ''HEAD'' else trim_space base)
   \<or> (\<exists>b note. br_note (fst (resolveBaseRef h dir base t)) = b # note)"
proof -
  have some: "\<exists>b note. xs = b # note" if "xs \<noteq> []" for xs :: string using that by (cases xs) auto
  have track: "\<exists>b note. br_note (fst (trackRemote h dir b' r s u)) = b # note" for b' r s u
    by (rule some [OF trackRemote_note])
  have fetch: "\<exists>b note. br_note (fst (fetch_from h dir b' s rs u)) = b # note" for b' s rs u
    by (rule some [OF fetch_from_note])
  show ?thesis
    using track fetch by (simp add: resolveBaseRef_def Let_def case_prod_beta)
qed

section \<open>Hook output\<close>

fun chunk_text :: "event_body \<Rightarrow> string" where
  "chunk_text (WorkspaceHookOutput p) = ho_chunk p"
| "chunk_text _ = []"

lemma hook_output_from:
  "n \<le> maxHookOutput \<Longrightarrow> hook_output run hook n ls = (evs, k, clipped) \<Longrightarrow>
   concat (map chunk_text evs) = take (maxHookOutput - n) (concat (map snd ls))
   \<and> k = min maxHookOutput (n + length (concat (map snd ls)))
   \<and> (clipped \<longleftrightarrow> maxHookOutput < n + length (concat (map snd ls)))"
proof (induction ls arbitrary: n evs k clipped)
  case (Cons l ls)
  obtain stream chunk where l: "l = (stream, chunk)" by (cases l)
  let ?a = "min (maxHookOutput - n) (length chunk)"
  obtain evs' k' clipped' where r: "hook_output run hook (n + ?a) ls = (evs', k', clipped')" by (metis surj_pair)
  have "n + ?a \<le> maxHookOutput" using Cons.prems(1) by simp
  note ih = Cons.IH [OF this r]
  have e: "evs = (if ?a > 0 then [output_event run hook stream (take ?a chunk)] else []) @ evs'" "k = k'"
    "clipped \<longleftrightarrow> clipped' \<or> ?a < length chunk"
    using Cons.prems(2) r by (auto simp: l Let_def)
  have t: "concat (map chunk_text evs) = take ?a chunk @ concat (map chunk_text evs')"
    by (auto simp: e(1) output_event_def)
  show ?case
  proof (cases "length chunk \<le> maxHookOutput - n")
    case True
    then have "?a = length chunk" by simp
    with t ih e True Cons.prems(1) show ?thesis by (auto simp: l)
  next
    case False
    then have "?a = maxHookOutput - n" by simp
    with t ih e False Cons.prems(1) show ?thesis by (auto simp: l)
  qed
qed simp

text \<open>
  What a hook's log holds is the front of what the hook wrote, up to four megabytes, and
  cutting is noted exactly when there was more.
\<close>

theorem hook_output_is_prefix:
  "let (evs, n, clipped) = hook_output run hook 0 ls
   in concat (map chunk_text evs) = take maxHookOutput (concat (map snd ls))
      \<and> n = length (concat (map chunk_text evs)) \<and> (clipped \<longleftrightarrow> maxHookOutput < length (concat (map snd ls)))"
proof -
  obtain evs n clipped where r: "hook_output run hook 0 ls = (evs, n, clipped)" by (metis surj_pair)
  from hook_output_from [OF _ r] show ?thesis by (simp add: r)
qed

end
