(* ===== verification/Checkpoints.thy ===== *)
theory Checkpoints
  imports Host Proto
begin

text \<open>
  Turn diffs (internal/thread/checkpoint.go, checkpointer.go, and the parsing of Git's output in
  changes.go): the snapshots that bracket a turn and the file list between them.
\<close>

section \<open>What Git prints\<close>

definition nul :: char where "nul = char_of (0 :: nat)"

definition splitNUL :: "string \<Rightarrow> string list" where
  "splitNUL raw = filter (\<lambda>f. f \<noteq> []) (split_on nul raw)"

definition statusName :: "char \<Rightarrow> string" where
  "statusName c =
     (if c = CHR ''A'' then ''added'' else if c = CHR ''D'' then ''deleted''
      else if c = CHR ''R'' then ''renamed'' else if c = CHR ''C'' then ''copied'' else ''modified'')"

definition bare_change :: "string \<Rightarrow> string \<Rightarrow> string \<Rightarrow> changed_file" where
  "bare_change path old status =
     \<lparr>cf_path = path, cf_oldPath = old, cf_status = status, cf_additions = 0, cf_deletions = 0,
      cf_binary = False, cf_untracked = False\<rparr>"

definition renames :: "string \<Rightarrow> bool" where
  "renames code \<longleftrightarrow> hd code = CHR ''R'' \<or> hd code = CHR ''C''"

text \<open>A status and one path, or two paths for a rename or a copy; what is cut short is dropped.\<close>

fun name_status :: "string list \<Rightarrow> changed_file list" where
  "name_status [] = []"
| "name_status [code] = []"
| "name_status [code, p] =
     (if code = [] then name_status [p] else if renames code then [] else [bare_change p [] (statusName (hd code))])"
| "name_status (code # p # q # fs) =
     (if code = [] then name_status (p # q # fs)
      else if renames code then bare_change q p (statusName (hd code)) # name_status fs
      else bare_change p [] (statusName (hd code)) # name_status (q # fs))"

definition parseNameStatus :: "string \<Rightarrow> changed_file list" where
  "parseNameStatus raw = name_status (splitNUL raw)"

record line_count =
  lc_additions :: int
  lc_deletions :: int
  lc_binary :: bool

text \<open>\<open>strconv.Atoi\<close> with its error ignored: zero for what is no number, the bound for what is too big.\<close>

definition digits_value :: "string \<Rightarrow> int" where
  "digits_value s = foldl (\<lambda>n b. 10 * n + int (the (dec_value b))) 0 s"

definition atoi :: "string \<Rightarrow> int" where
  "atoi s =
     (let neg = (s \<noteq> [] \<and> hd s = CHR ''-''); ds = (if neg \<or> s \<noteq> [] \<and> hd s = CHR ''+'' then tl s else s)
      in if ds = [] \<or> list_ex (\<lambda>b. dec_value b = None) ds then 0
         else max (- (2 ^ 63)) (min (2 ^ 63 - 1) (if neg then - digits_value ds else digits_value ds)))"

text \<open>The three fields of a line of \<open>--numstat\<close>: the third keeps its tabs.\<close>

definition tab :: char where "tab = char_of (9 :: nat)"

definition numstat_fields :: "string \<Rightarrow> (string \<times> string \<times> string) option" where
  "numstat_fields s =
     (let a = takeWhile (\<lambda>b. b \<noteq> tab) s; r = drop (length a) s;
          b = takeWhile (\<lambda>b. b \<noteq> tab) (tl r); r' = drop (length b) (tl r)
      in if r = [] \<or> r' = [] then None else Some (a, b, tl r'))"

definition count_of :: "string \<Rightarrow> string \<Rightarrow> line_count" where
  "count_of a d = \<lparr>lc_additions = atoi a, lc_deletions = atoi d, lc_binary = (a = ''-'' \<or> d = ''-'')\<rparr>"

function numstat :: "string list \<Rightarrow> (string \<rightharpoonup> line_count) \<Rightarrow> (string \<rightharpoonup> line_count)" where
  "numstat [] m = m"
| "numstat (f # fs) m =
     (case numstat_fields f of
        None \<Rightarrow> numstat fs m
      | Some (a, d, path) \<Rightarrow>
          if path \<noteq> [] then numstat fs (m(path \<mapsto> count_of a d))
          else case drop 1 fs of
                 [] \<Rightarrow> m
               | q # gs \<Rightarrow> numstat gs (m(q \<mapsto> count_of a d)))"
  by pat_completeness auto
termination
proof (relation "measure (length \<circ> fst)")
  fix f fs m x y a d path q gs
  assume "drop 1 fs = q # gs"
  then have "length gs < length fs"
    by (metis length_Cons length_drop diff_le_self less_eq_Suc_le)
  then show "((gs, m(q \<mapsto> count_of a d)), f # fs, m) \<in> measure (length \<circ> fst)" by simp
qed simp_all

definition parseNumstat :: "string \<Rightarrow> string \<rightharpoonup> line_count" where
  "parseNumstat raw = numstat (splitNUL raw) Map.empty"

definition counted :: "(string \<rightharpoonup> line_count) \<Rightarrow> changed_file \<Rightarrow> changed_file" where
  "counted m f =
     (case m (cf_path f) of
        None \<Rightarrow> f
      | Some c \<Rightarrow> f\<lparr>cf_additions := lc_additions c, cf_deletions := lc_deletions c, cf_binary := lc_binary c\<rparr>)"

section \<open>Snapshots\<close>

abbreviation checkpointRefPrefix :: string where "checkpointRefPrefix \<equiv> ''refs/omniplex/checkpoints''"

abbreviation maxTurnDiffFiles :: nat where "maxTurnDiffFiles \<equiv> 500"

definition checkpointRef :: "string \<Rightarrow> string \<Rightarrow> string \<Rightarrow> string" where
  "checkpointRef thread turn edge = join_text ''/'' [checkpointRefPrefix, thread, turn, edge]"

text \<open>A call after another one that did not fail.\<close>

definition git_then ::
  "(calls \<Rightarrow> (string + 'a) \<times> calls) \<Rightarrow> ('a \<Rightarrow> calls \<Rightarrow> (string + 'b) \<times> calls) \<Rightarrow> calls \<Rightarrow> (string + 'b) \<times> calls" where
  "git_then m f t = (case m t of (Inl e, t1) \<Rightarrow> (Inl e, t1) | (Inr a, t1) \<Rightarrow> f a t1)"

text \<open>Git with an index of its own (\<open>runGitEnv\<close>).\<close>

definition runGitIndex ::
  "host \<Rightarrow> string \<Rightarrow> string \<Rightarrow> string list \<Rightarrow> calls \<Rightarrow> (string + string) \<times> calls" where
  "runGitIndex h dir index args t =
     (case os_gitIndex h t dir index args of
        (out, ok) \<Rightarrow> (if ok then Inr out else Inl (''git '' @ join_text '' '' args @ '': '' @ os_gitError h t args),
                     t @ [GitIndex dir index args]))"

text \<open>A repository without commits has nothing to start the index from.\<close>

definition seed_index :: "host \<Rightarrow> string \<Rightarrow> string \<Rightarrow> calls \<Rightarrow> (string + string) \<times> calls" where
  "seed_index h dir index t =
     (case runGit h dir [''rev-parse'', ''--verify'', ''HEAD''] t of
        (Inl _, t1) \<Rightarrow> (Inr [], t1)
      | (Inr _, t1) \<Rightarrow> runGitIndex h dir index [''read-tree'', ''HEAD''] t1)"

definition commit_index :: "host \<Rightarrow> string \<Rightarrow> string \<Rightarrow> string \<Rightarrow> calls \<Rightarrow> (string + string) \<times> calls" where
  "commit_index h dir index ref =
     git_then (seed_index h dir index) (\<lambda>_.
     git_then (runGitIndex h dir index [''add'', ''-A'', ''--'', ''.'']) (\<lambda>_.
     git_then (runGitIndex h dir index [''write-tree'']) (\<lambda>tree.
     git_then (runGitIndex h dir index
       [''commit-tree'', trim_space tree, ''-m'', ''omniplex checkpoint '' @ ref]) (\<lambda>commit.
     git_then (runGitIndex h dir index [''update-ref'', ref, trim_space commit]) (\<lambda>_ t.
       (Inr (trim_space commit), t))))))"

definition captureCheckpoint :: "host \<Rightarrow> string \<Rightarrow> string \<Rightarrow> calls \<Rightarrow> (string + string) \<times> calls" where
  "captureCheckpoint h dir ref t =
     (case os_temp h t of
        Inl e \<Rightarrow> (Inl e, t)
      | Inr index \<Rightarrow>
          (case commit_index h dir index ref (t @ [RemoveFile index]) of
             (r, t1) \<Rightarrow> (r, t1 @ [RemoveFile index])))"

record turn_changes =
  tg_files :: "changed_file list"
  tg_additions :: int
  tg_deletions :: int
  tg_truncated :: bool

definition no_changes :: turn_changes where
  "no_changes = \<lparr>tg_files = [], tg_additions = 0, tg_deletions = 0, tg_truncated = False\<rparr>"

text \<open>The sums are over every file; the list is cut.\<close>

definition sum_changes :: "nat \<Rightarrow> changed_file list \<Rightarrow> turn_changes" where
  "sum_changes limit fs =
     \<lparr>tg_files = take limit fs, tg_additions = sum_list (map cf_additions fs),
      tg_deletions = sum_list (map cf_deletions fs), tg_truncated = (length fs > limit)\<rparr>"

definition diffCheckpoints ::
  "host \<Rightarrow> string \<Rightarrow> string \<Rightarrow> string \<Rightarrow> calls \<Rightarrow> (string + turn_changes) \<times> calls" where
  "diffCheckpoints h dir a b =
     git_then (runGit h dir [''diff'', ''-M'', ''--name-status'', ''-z'', a, b]) (\<lambda>names.
     git_then (runGit h dir [''diff'', ''-M'', ''--numstat'', ''-z'', a, b]) (\<lambda>nums t.
       (Inr (sum_changes maxTurnDiffFiles (map (counted (parseNumstat nums)) (parseNameStatus names))), t)))"

definition repoRoot :: "host \<Rightarrow> string \<Rightarrow> calls \<Rightarrow> string \<times> calls" where
  "repoRoot h cwd t =
     (if cwd = [] then ([], t)
      else case runGit h cwd [''rev-parse'', ''--show-toplevel''] t of
             (Inl _, t1) \<Rightarrow> ([], t1)
           | (Inr out, t1) \<Rightarrow> (trim_space out, t1))"

text \<open>Every snapshot is dropped, whichever of them fails; the first failure is what is reported.\<close>

fun drop_refs :: "host \<Rightarrow> string \<Rightarrow> string list \<Rightarrow> string option \<Rightarrow> calls \<Rightarrow> string option \<times> calls" where
  "drop_refs h dir [] failed t = (failed, t)"
| "drop_refs h dir (r # rs) failed t =
     (case runGit h dir [''update-ref'', ''-d'', r] t of
        (Inl e, t1) \<Rightarrow> drop_refs h dir rs (if failed = None then Some e else failed) t1
      | (Inr _, t1) \<Rightarrow> drop_refs h dir rs failed t1)"

definition dropCheckpoints :: "host \<Rightarrow> string \<Rightarrow> string \<Rightarrow> calls \<Rightarrow> string option \<times> calls" where
  "dropCheckpoints h dir thread t =
     (case runGit h dir [''for-each-ref'', ''--format=%(refname)'',
                         join_text ''/'' [checkpointRefPrefix, thread] @ ''/''] t of
        (Inl e, t1) \<Rightarrow> (Some e, t1)
      | (Inr out, t1) \<Rightarrow> drop_refs h dir (Host.fields out) None t1)"

definition purgeCheckpoints :: "host \<Rightarrow> string \<Rightarrow> string \<Rightarrow> calls \<Rightarrow> calls" where
  "purgeCheckpoints h cwd thread t =
     (case repoRoot h cwd t of
        (dir, t1) \<Rightarrow> if dir = [] then t1 else snd (dropCheckpoints h dir thread t1))"

section \<open>The snapshot goroutine\<close>

text \<open>
  Jobs are handled in the order they arrive; \<open>base\<close> is the snapshot the next turn's end is
  measured against, empty for none.  \<open>over\<close> says whether the context was cancelled by then.
\<close>

datatype edge = Baseline | TurnEnd

record checkpoint_job =
  cj_kind :: edge
  cj_turn :: string

fun edgeFor :: "edge \<Rightarrow> string" where
  "edgeFor Baseline = ''base''"
| "edgeFor TurnEnd = ''end''"

definition diff_report :: "string \<Rightarrow> turn_changes \<Rightarrow> string option \<Rightarrow> event_body" where
  "diff_report turn c err =
     TurnDiff \<lparr>td_turnID = turn, td_files = tg_files c, td_additions = tg_additions c,
       td_deletions = tg_deletions c, td_truncated = tg_truncated c,
       td_error = (case err of None \<Rightarrow> [] | Some e \<Rightarrow> e)\<rparr>"

record checkpoint_world =
  cw_host :: host
  cw_over :: "calls \<Rightarrow> bool"
  cw_thread :: string
  cw_root :: string

definition end_report ::
  "checkpoint_world \<Rightarrow> string \<Rightarrow> string \<Rightarrow> string \<Rightarrow> calls \<Rightarrow> event_body list \<times> calls" where
  "end_report w turn base oid t =
     (case diffCheckpoints (cw_host w) (cw_root w) base oid t of
        (r, t1) \<Rightarrow>
          (if cw_over w t1 then []
           else case r of
                  Inl e \<Rightarrow> [diff_report turn no_changes (Some e)]
                | Inr c \<Rightarrow> if tg_files c \<noteq> [] then [diff_report turn c None] else [], t1))"

definition handle_job ::
  "checkpoint_world \<Rightarrow> checkpoint_job \<Rightarrow> string \<Rightarrow> calls \<Rightarrow> string \<times> event_body list \<times> calls" where
  "handle_job w j base t =
     (case captureCheckpoint (cw_host w) (cw_root w)
             (checkpointRef (cw_thread w) (cj_turn j) (edgeFor (cj_kind j))) t of
        (Inl e, t1) \<Rightarrow>
          ([], if \<not> cw_over w t1 \<and> cj_kind j = TurnEnd then [diff_report (cj_turn j) no_changes (Some e)] else [], t1)
      | (Inr oid, t1) \<Rightarrow>
          if cj_kind j = Baseline then (oid, [], t1)
          else if base = [] then ([], [], t1)
          else case end_report w (cj_turn j) base oid t1 of (evs, t2) \<Rightarrow> ([], evs, t2))"

fun run_jobs :: "checkpoint_world \<Rightarrow> checkpoint_job list \<Rightarrow> string \<Rightarrow> calls \<Rightarrow> event_body list" where
  "run_jobs w [] base t = []"
| "run_jobs w (j # js) base t =
     (if cw_over w t then []
      else case handle_job w j base t of (base1, evs, t1) \<Rightarrow> evs @ run_jobs w js base1 t1)"

end
