(* ===== verification/CheckpointProps.thy ===== *)
theory CheckpointProps
  imports WorkspaceProps Checkpoints
begin

text \<open>
  Turn diffs (internal/thread/checkpoint.go, checkpointer.go, changes.go): what taking a snapshot
  may touch, whose work a card shows, and that the listing Git writes is read back entry by entry.
\<close>

section \<open>What a snapshot touches\<close>

text \<open>
  The calls a snapshot may make: the question whether there is a commit to start from, commands on
  an index of its own, of which one moves a reference and only the snapshot's, and the removal of
  that index.
\<close>

fun discreet :: "string \<Rightarrow> string \<Rightarrow> string \<Rightarrow> call \<Rightarrow> bool" where
  "discreet dir index ref (Git d args) \<longleftrightarrow> d = dir \<and> args = [''rev-parse'', ''--verify'', ''HEAD'']"
| "discreet dir index ref (GitIndex d i args) \<longleftrightarrow>
     d = dir \<and> i = index \<and> args \<noteq> [] \<and>
     (hd args \<in> {''read-tree'', ''add'', ''write-tree'', ''commit-tree''}
      \<or> hd args = ''update-ref'' \<and> length args = 3 \<and> args ! 1 = ref)"
| "discreet dir index ref (RemoveFile p) \<longleftrightarrow> p = index"
| "discreet dir index ref c \<longleftrightarrow> False"

lemma runGitIndex_calls:
  "P (GitIndex dir index args) \<Longrightarrow> extends t (snd (runGitIndex h dir index args t)) P"
  by (auto simp: runGitIndex_def case_prod_beta intro!: extends_one)

lemma runGit_calls: "P (Git dir args) \<Longrightarrow> extends t (snd (runGit h dir args t)) P"
  by (auto simp: runGit_def git_def case_prod_beta intro!: extends_one)

lemma git_then_calls:
  assumes "extends t (snd (m t)) P" and "\<And>a t'. extends t' (snd (f a t')) P"
  shows "extends t (snd (git_then m f t)) P"
  using assms extends_trans by (fastforce simp: git_then_def split: prod.split sum.split)

lemma git_then_Inr:
  "git_then m f t = (Inr b, t') \<longleftrightarrow> (\<exists>a t1. m t = (Inr a, t1) \<and> f a t1 = (Inr b, t'))"
  by (auto simp: git_then_def split: prod.splits sum.splits)

lemma seed_index_calls: "extends t (snd (seed_index h dir index t)) (discreet dir index ref)"
proof -
  have a: "extends t (snd (runGit h dir [''rev-parse'', ''--verify'', ''HEAD''] t)) (discreet dir index ref)"
    by (rule runGit_calls) simp
  have b: "extends t1 (snd (runGitIndex h dir index [''read-tree'', ''HEAD''] t1)) (discreet dir index ref)" for t1
    by (rule runGitIndex_calls) simp
  show ?thesis using a extends_trans [OF a b] by (auto simp: seed_index_def case_prod_beta split: sum.split)
qed

lemma commit_index_calls: "extends t (snd (commit_index h dir index ref t)) (discreet dir index ref)"
  unfolding commit_index_def by (intro git_then_calls seed_index_calls runGitIndex_calls) simp_all

lemma commit_index_last:
  assumes "commit_index h dir index ref t = (Inr oid, t')"
  shows "\<exists>t1. t' = t1 @ [GitIndex dir index [''update-ref'', ref, oid]]"
proof -
  from assms obtain c u t5 where "runGitIndex h dir index [''update-ref'', ref, trim_space c] t5 = (Inr u, t')"
      "oid = trim_space c"
    unfolding commit_index_def by (auto simp: git_then_Inr)
  then show ?thesis by (auto simp: runGitIndex_def split: prod.splits if_splits)
qed

text \<open>
  C36: taking a snapshot never touches the index or the branches of whoever works in the checkout:
  every command runs on a temporary index, which is removed before and after, the one reference
  moved is the snapshot's own, and it is moved last, to the commit that is answered.
\<close>

theorem snapshot_is_private:
  "case os_temp h t of
     Inl e \<Rightarrow> captureCheckpoint h dir ref t = (Inl e, t)
   | Inr index \<Rightarrow>
       \<exists>cs. snd (captureCheckpoint h dir ref t) = t @ RemoveFile index # cs @ [RemoveFile index]
         \<and> list_all (discreet dir index ref) cs
         \<and> (case fst (captureCheckpoint h dir ref t) of
              Inl e \<Rightarrow> True | Inr oid \<Rightarrow> cs \<noteq> [] \<and> last cs = GitIndex dir index [''update-ref'', ref, oid])"
proof (cases "os_temp h t")
  case (Inr index)
  obtain r t1 where r: "commit_index h dir index ref (t @ [RemoveFile index]) = (r, t1)" by force
  obtain cs where cs: "t1 = t @ RemoveFile index # cs" "list_all (discreet dir index ref) cs"
    using commit_index_calls [of "t @ [RemoveFile index]" h dir index ref] r by (auto simp: extends_def)
  have "cs \<noteq> [] \<and> last cs = GitIndex dir index [''update-ref'', ref, oid]" if "r = Inr oid" for oid
    using commit_index_last [of h dir index ref "t @ [RemoveFile index]" oid t1] r that cs(1)
    by (cases cs rule: rev_cases) auto
  then show ?thesis using Inr r cs by (auto simp: captureCheckpoint_def split: sum.split)
qed (simp add: captureCheckpoint_def)

section \<open>Whose work a card shows\<close>













section \<open>Git's listing\<close>

text \<open>
  What \<open>git diff --name-status -z\<close> writes for an entry: its code, the path, and for a rename or a
  copy the old path first, each ended by a zero byte.
\<close>

record listing =
  li_code :: string
  li_old :: string
  li_path :: string

definition listing_ok :: "listing \<Rightarrow> bool" where
  "listing_ok e \<longleftrightarrow> list_all (\<lambda>s. s \<noteq> [] \<and> nul \<notin> set s) [li_code e, li_old e, li_path e]"

definition listing_fields :: "listing \<Rightarrow> string list" where
  "listing_fields e = (if renames (li_code e) then [li_code e, li_old e, li_path e] else [li_code e, li_path e])"

definition written :: "string list \<Rightarrow> string" where
  "written fs = concat (map (\<lambda>s. s @ [nul]) fs)"

definition change_of :: "listing \<Rightarrow> changed_file" where
  "change_of e =
     bare_change (li_path e) (if renames (li_code e) then li_old e else []) (statusName (hd (li_code e)))"

lemma split_on_ended:
  assumes "c \<notin> set x"
  shows "split_on c (x @ c # s) = x # split_on c s"
  using assms by (induction x) auto

lemma splitNUL_written:
  "list_all (\<lambda>s. s \<noteq> [] \<and> nul \<notin> set s) fs \<Longrightarrow> splitNUL (written fs) = fs"
  unfolding written_def by (induction fs) (simp_all add: splitNUL_def split_on_ended)

lemma name_status_entry:
  assumes "listing_ok e"
  shows "name_status (listing_fields e @ fs) = change_of e # name_status fs"
proof (cases "renames (li_code e)")
  case True
  then show ?thesis using assms by (simp add: listing_ok_def listing_fields_def change_of_def)
next
  case False
  then show ?thesis
    using assms by (cases fs) (simp_all add: listing_ok_def listing_fields_def change_of_def)
qed

text \<open>
  The file list of a card is read back exactly as Git wrote it: for any listing of added,
  deleted, modified, renamed and copied paths, whatever bytes but zero the paths hold, every entry
  comes back in order with its status, its path and, for a rename or a copy, where it was.
\<close>

theorem name_status_roundtrip:
  assumes "list_all listing_ok es"
  shows "parseNameStatus (written (concat (map listing_fields es))) = map change_of es"
proof -
  have "list_all (\<lambda>s. s \<noteq> [] \<and> nul \<notin> set s) (concat (map listing_fields es))"
    using assms by (induction es) (simp_all add: listing_ok_def listing_fields_def)
  then have "parseNameStatus (written (concat (map listing_fields es))) = name_status (concat (map listing_fields es))"
    by (simp add: parseNameStatus_def splitNUL_written)
  also have "\<dots> = map change_of es"
    using assms by (induction es) (simp_all add: name_status_entry)
  finally show ?thesis .
qed

definition sample_listing :: "listing list" where
  "sample_listing =
     [\<lparr>li_code = ''R100'', li_old = ''a b'', li_path = ''c''\<rparr>, \<lparr>li_code = ''M'', li_old = ''-'', li_path = ''d''\<rparr>]"

theorem name_status_roundtrip_witness:
  "map cf_path (parseNameStatus (written (concat (map listing_fields sample_listing)))) = [''c'', ''d'']
   \<and> map cf_oldPath (parseNameStatus (written (concat (map listing_fields sample_listing)))) = [''a b'', []]"
proof -
  have ok: "list_all listing_ok sample_listing" by code_simp
  show ?thesis unfolding name_status_roundtrip [OF ok] by code_simp
qed

end
