(* ===== verification/Instances.thy ===== *)
theory Instances
  imports Database
begin

text \<open>
  The registry of provider instances (internal/thread/manager.go, internal/thread/instances.go):
  which account a thread runs under.  An adapter is its id; \<open>None\<close> stands for a driver this build does not have.  The
  messages leave out the quotation marks of \<open>%q\<close>.
\<close>

record instance_conf =
  in_id :: string
  in_driver :: string
  in_displayName :: string
  in_enabled :: bool
  in_configured :: bool

record registered_instance =
  ri_inst :: instance_conf
  ri_adapter :: "string option"

text \<open>The adapters of this build with their display names, and the instances in registration order, each id once.\<close>

record registry =
  rg_drivers :: "(string \<times> string) list"
  rg_instances :: "registered_instance list"

definition has_driver :: "registry \<Rightarrow> string \<Rightarrow> bool" where
  "has_driver g d \<longleftrightarrow> List.member (map fst (rg_drivers g)) d"

text \<open>Of two adapters with one id the later is the one that is kept.\<close>

definition driver_name :: "registry \<Rightarrow> string \<Rightarrow> string" where
  "driver_name g i = (case map_of (rev (rg_drivers g)) i of None \<Rightarrow> [] | Some n \<Rightarrow> n)"

definition instance_key :: "registered_instance \<Rightarrow> string" where
  "instance_key r = in_id (ri_inst r)"

definition lookup_instance :: "string \<Rightarrow> registry \<Rightarrow> registered_instance option" where
  "lookup_instance i g = List.find (\<lambda>r. instance_key r = i) (rg_instances g)"

definition register :: "registered_instance \<Rightarrow> registry \<Rightarrow> registry" where
  "register r g = g\<lparr>rg_instances := put_keyed instance_key r (rg_instances g)\<rparr>"

definition default_instance :: "string \<Rightarrow> string \<Rightarrow> instance_conf" where
  "default_instance i name =
     \<lparr>in_id = i, in_driver = i, in_displayName = name, in_enabled = True, in_configured = False\<rparr>"

definition default_entry :: "string \<Rightarrow> string \<Rightarrow> registered_instance" where
  "default_entry i name = \<lparr>ri_inst = default_instance i name, ri_adapter = Some i\<rparr>"

definition NewRegistry :: "(string \<times> string) list \<Rightarrow> registry" where
  "NewRegistry ads =
     foldl (\<lambda>g (i, name). register (default_entry i name) (g\<lparr>rg_drivers := rg_drivers g @ [(i, name)]\<rparr>))
       \<lparr>rg_drivers = [], rg_instances = []\<rparr> ads"

text \<open>
  An entry may override its driver's default, never an instance of another driver and never an
  entry before it.
\<close>

fun configure :: "string list \<Rightarrow> instance_conf list \<Rightarrow> registry \<Rightarrow> registry" where
  "configure seen [] g = g"
| "configure seen (i # is) g =
     (if (case lookup_instance (in_id i) g of
            None \<Rightarrow> False
          | Some r \<Rightarrow> in_driver (ri_inst r) \<noteq> in_driver i \<or> List.member seen (in_id i))
      then configure seen is g
      else configure (in_id i # seen) is
             (register \<lparr>ri_inst = i,
                ri_adapter = (if has_driver g (in_driver i) then Some (in_driver i) else None)\<rparr> g))"

definition ConfigureInstances :: "instance_conf list \<Rightarrow> registry \<Rightarrow> registry" where
  "ConfigureInstances is g = configure [] is g"

text \<open>A running server rebuilds the registry: the defaults, then the whole list it has just written.\<close>

definition applyInstances :: "instance_conf list \<Rightarrow> registry \<Rightarrow> registry" where
  "applyInstances is g =
     configure [] is
       (foldl (\<lambda>g i. register (default_entry i (driver_name g i)) g) (g\<lparr>rg_instances := []\<rparr>) (map fst (rg_drivers g)))"

definition instanceFor :: "registry \<Rightarrow> thread_meta \<Rightarrow> string + registered_instance" where
  "instanceFor g m =
     (let i = (if tm_providerInstance m = [] then tm_harness m else tm_providerInstance m)
      in case lookup_instance i g of
           None \<Rightarrow> Inl (''unknown provider instance '' @ i)
         | Some r \<Rightarrow>
             if in_driver (ri_inst r) \<noteq> tm_harness m then
               Inl (''provider instance '' @ i @ '' now runs driver '' @ in_driver (ri_inst r)
                 @ '', but this thread was created on '' @ tm_harness m)
             else if ri_adapter r = None then Inl (''no '' @ in_driver (ri_inst r) @ '' driver in this build'')
             else Inr r)"

definition resolveInstance :: "registry \<Rightarrow> string \<Rightarrow> string \<Rightarrow> string + registered_instance" where
  "resolveInstance g instanceID harness =
     (let i = (if instanceID = [] then harness else instanceID)
      in case lookup_instance i g of
           None \<Rightarrow> Inl (''unknown harness '' @ i)
         | Some r \<Rightarrow>
             if harness \<noteq> [] \<and> in_driver (ri_inst r) \<noteq> harness then
               Inl (''provider instance '' @ i @ '' runs driver '' @ in_driver (ri_inst r) @ '', not '' @ harness)
             else if \<not> in_enabled (ri_inst r) then Inl (''provider instance '' @ i @ '' is disabled'')
             else if ri_adapter r = None then
               Inl (in_displayName (ri_inst r) @ '' is not available: no '' @ in_driver (ri_inst r) @ '' driver in this build'')
             else Inr r)"

text \<open>Credentials: the overlay of an instance, or why it cannot be had (a secret is missing).\<close>

type_synonym env = "(string \<times> string) list"

definition cleanupAdapter ::
  "(instance_conf \<Rightarrow> string + env) \<Rightarrow> registry \<Rightarrow> thread_meta \<Rightarrow> string option \<times> env" where
  "cleanupAdapter envFor g m =
     (case instanceFor g m of
        Inr r \<Rightarrow> (ri_adapter r, case envFor (ri_inst r) of Inl _ \<Rightarrow> [] | Inr e \<Rightarrow> e)
      | Inl _ \<Rightarrow> (if has_driver g (tm_harness m) then Some (tm_harness m) else None, []))"

section \<open>What it keeps\<close>

text \<open>An instance has the adapter of its driver exactly when this build has the driver.\<close>

definition adapter_ok :: "registry \<Rightarrow> registered_instance \<Rightarrow> bool" where
  "adapter_ok g r \<longleftrightarrow>
     ri_adapter r = (if has_driver g (in_driver (ri_inst r)) then Some (in_driver (ri_inst r)) else None)"

definition registry_ok :: "registry \<Rightarrow> bool" where
  "registry_ok g \<longleftrightarrow> distinct (map instance_key (rg_instances g)) \<and> list_all (adapter_ok g) (rg_instances g)"

lemma lookup_register:
  "lookup_instance i (register r g) = (if i = instance_key r then Some r else lookup_instance i g)"
  by (simp add: lookup_instance_def register_def find_put_keyed)

lemma set_update_first: "set (update_first P (\<lambda>_. a) xs) \<subseteq> insert a (set xs)"
  by (induction xs) auto

lemma put_keyed_members: "set (put_keyed key a xs) \<subseteq> insert a (set xs)"
  using set_update_first [of "\<lambda>x. key x = key a" a xs] by (auto simp: put_keyed_def)

lemma registry_ok_register:
  assumes "registry_ok g" and "adapter_ok g r"
  shows "registry_ok (register r g)"
proof -
  have same: "adapter_ok (register r g) q = adapter_ok g q" for q
    by (simp add: adapter_ok_def register_def has_driver_def)
  have "list_all (adapter_ok g) (put_keyed instance_key r (rg_instances g))"
    using assms put_keyed_members [of instance_key r "rg_instances g"] by (auto simp: registry_ok_def list_all_iff)
  then show ?thesis
    using assms(1) by (simp add: registry_ok_def same list_all_iff) (simp add: register_def distinct_put_keyed)
qed

lemma drivers_register [simp]: "rg_drivers (register r g) = rg_drivers g"
  by (simp add: register_def)

lemma drivers_configure [simp]: "rg_drivers (configure seen is g) = rg_drivers g"
  by (induction seen "is" g rule: configure.induct) auto

lemma has_driver_same [simp]:
  "has_driver (register r g) d = has_driver g d" "has_driver (configure seen is g) d = has_driver g d"
  by (simp_all add: has_driver_def)

lemma registry_ok_configure: "registry_ok g \<Longrightarrow> registry_ok (configure seen is g)"
  by (induction seen "is" g rule: configure.induct)
    (auto simp: registry_ok_register adapter_ok_def)

lemma adapters_register:
  assumes "list_all (\<lambda>q. ri_adapter q \<noteq> None) (rg_instances g)" and "ri_adapter r \<noteq> None"
  shows "list_all (\<lambda>q. ri_adapter q \<noteq> None) (rg_instances (register r g))"
  using assms put_keyed_members [of instance_key r "rg_instances g"]
  by (auto simp: register_def list_all_iff)

text \<open>While the drivers come in, no instance is without its adapter.\<close>

lemma NewRegistry_ok: "registry_ok (NewRegistry ads)" and drivers_NewRegistry: "rg_drivers (NewRegistry ads) = ads"
proof -
  let ?add = "\<lambda>g (i, name). register (default_entry i name) (g\<lparr>rg_drivers := rg_drivers g @ [(i, name)]\<rparr>)"
  have "registry_ok g \<and> list_all (\<lambda>q. ri_adapter q \<noteq> None) (rg_instances g)
      \<Longrightarrow> registry_ok (foldl ?add g ads) \<and> rg_drivers (foldl ?add g ads) = rg_drivers g @ ads" for g
  proof (induction ads arbitrary: g)
    case (Cons a ads)
    obtain i name where a: "a = (i, name)" by (cases a)
    let ?g = "g\<lparr>rg_drivers := rg_drivers g @ [(i, name)]\<rparr>"
    let ?r = "default_entry i name"
    have "registry_ok ?g"
      using Cons.prems by (fastforce simp: registry_ok_def list_all_iff adapter_ok_def has_driver_def split: if_splits)
    then have "registry_ok (register ?r ?g)"
      by (rule registry_ok_register) (simp add: default_entry_def default_instance_def adapter_ok_def has_driver_def)
    moreover have "list_all (\<lambda>q. ri_adapter q \<noteq> None) (rg_instances (register ?r ?g))"
      by (rule adapters_register) (use Cons.prems in \<open>simp_all add: default_entry_def\<close>)
    ultimately show ?case using Cons.IH [of "register ?r ?g"] by (simp add: a)
  qed simp
  then show "registry_ok (NewRegistry ads)" and "rg_drivers (NewRegistry ads) = ads"
    by (simp_all add: NewRegistry_def registry_ok_def)
qed

text \<open>The defaults of a rebuilt registry are those of a new one.\<close>

lemma entry_key [simp]: "instance_key (default_entry i name) = i"
  by (simp add: default_entry_def default_instance_def instance_key_def)

lemma put_keyed_map:
  assumes "\<And>j. key (f j) = j" and "\<And>j. key (g j) = j" and "\<And>j. j \<noteq> i \<Longrightarrow> f j = g j" and "distinct xs"
  shows "put_keyed key (g i) (map f xs) = map g (put_keyed (\<lambda>j. j) i xs)"
proof -
  have put: "update_first (\<lambda>x. key x = i) (\<lambda>_. g i) (map f ys) = map g (update_first (\<lambda>x. x = i) (\<lambda>_. i) ys)"
    if "i \<in> set ys" "distinct ys" for ys
    using that by (induction ys) (auto simp: assms intro!: assms(3))
  have same: "map f xs = map g xs" if "i \<notin> set xs" by (intro map_cong refl assms(3)) (use that in auto)
  show ?thesis using put same assms(1,2,4) by (auto simp: put_keyed_def)
qed

lemma rebuilt_defaults:
  "rg_instances (foldl (\<lambda>g i. register (default_entry i (driver_name g i)) g) (g\<lparr>rg_instances := rs\<rparr>) is)
    = foldl (\<lambda>rs i. put_keyed instance_key (default_entry i (driver_name g i)) rs) rs is
  \<and> rg_drivers (foldl (\<lambda>g i. register (default_entry i (driver_name g i)) g) (g\<lparr>rg_instances := rs\<rparr>) is) = rg_drivers g"
  by (induction "is" rule: rev_induct) (simp_all add: register_def driver_name_def)

lemma defaults_ordered:
  "foldl (\<lambda>rs i. put_keyed instance_key (default_entry i (n i)) rs) [] is
    = map (\<lambda>i. default_entry i (n i)) (foldl (\<lambda>js i. put_keyed (\<lambda>j. j) i js) [] is)
   \<and> distinct (foldl (\<lambda>js i. put_keyed (\<lambda>j. j) i js) [] is)"
proof (induction "is" rule: rev_induct)
  case (snoc i "is")
  let ?js = "foldl (\<lambda>js i. put_keyed (\<lambda>j. j) i js) [] is"
  have "put_keyed instance_key (default_entry i (n i)) (map (\<lambda>i. default_entry i (n i)) ?js)
      = map (\<lambda>i. default_entry i (n i)) (put_keyed (\<lambda>j. j) i ?js)"
    using snoc by (intro put_keyed_map) simp_all
  moreover have "distinct (put_keyed (\<lambda>j. j) i ?js)" using snoc distinct_put_keyed [of "\<lambda>j. j" ?js i] by simp
  ultimately show ?case using snoc by simp
qed simp

lemma new_defaults:
  "rg_instances (NewRegistry ads)
    = map (\<lambda>i. default_entry i (driver_name (NewRegistry ads) i)) (foldl (\<lambda>js i. put_keyed (\<lambda>j. j) i js) [] (map fst ads))"
proof (induction ads rule: rev_induct)
  case (snoc a ads)
  obtain i name where a: "a = (i, name)" by (cases a)
  let ?f = "\<lambda>i. default_entry i (driver_name (NewRegistry ads) i)"
  let ?g = "\<lambda>i. default_entry i (driver_name (NewRegistry (ads @ [a])) i)"
  let ?js = "foldl (\<lambda>js i. put_keyed (\<lambda>j. j) i js) [] (map fst ads)"
  have "rg_instances (NewRegistry (ads @ [a])) = put_keyed instance_key (default_entry i name) (rg_instances (NewRegistry ads))"
    by (simp add: NewRegistry_def a register_def)
  moreover have "default_entry i name = ?g i" by (simp add: a driver_name_def drivers_NewRegistry)
  moreover have "put_keyed instance_key (?g i) (map ?f ?js) = map ?g (put_keyed (\<lambda>j. j) i ?js)"
    using defaults_ordered by (intro put_keyed_map) (simp_all add: a driver_name_def drivers_NewRegistry)
  ultimately show ?case using snoc by (simp add: a)
qed (simp add: NewRegistry_def)

text \<open>A running server ends with the registry a restart on the same list would have.\<close>

lemma applied_registry: "applyInstances is g = ConfigureInstances is (NewRegistry (rg_drivers g))"
proof -
  let ?b = "foldl (\<lambda>g i. register (default_entry i (driver_name g i)) g) (g\<lparr>rg_instances := []\<rparr>) (map fst (rg_drivers g))"
  have names: "driver_name (NewRegistry (rg_drivers g)) i = driver_name g i" for i
    by (simp add: driver_name_def drivers_NewRegistry)
  have "rg_instances ?b = rg_instances (NewRegistry (rg_drivers g))" "rg_drivers ?b = rg_drivers (NewRegistry (rg_drivers g))"
    using rebuilt_defaults [where g=g and rs="[]"]
      defaults_ordered [of "driver_name g" "map fst (rg_drivers g)"]
    by (simp_all add: new_defaults names drivers_NewRegistry)
  then have "?b = NewRegistry (rg_drivers g)" by simp
  then show ?thesis by (simp add: applyInstances_def ConfigureInstances_def)
qed

text \<open>
  What a configured id stands for: its first entry that names the driver the id already has; where
  the id is new, its first entry.
\<close>

definition entry_of :: "registry \<Rightarrow> instance_conf \<Rightarrow> registered_instance" where
  "entry_of g c = \<lparr>ri_inst = c, ri_adapter = (if has_driver g (in_driver c) then Some (in_driver c) else None)\<rparr>"

lemma entry_of_same: "rg_drivers g = rg_drivers g' \<Longrightarrow> entry_of g = entry_of g'"
  by (simp add: fun_eq_iff entry_of_def has_driver_def)

lemma configure_lookup:
  assumes "\<And>j. j \<in> set seen \<Longrightarrow> lookup_instance j g \<noteq> None"
  shows "lookup_instance i (configure seen is g) =
    (case lookup_instance i g of
       Some r \<Rightarrow>
         if i \<in> set seen then Some r
         else (case List.find (\<lambda>c. in_id c = i \<and> in_driver c = in_driver (ri_inst r)) is of
                 None \<Rightarrow> Some r | Some c \<Rightarrow> Some (entry_of g c))
     | None \<Rightarrow> map_option (entry_of g) (List.find (\<lambda>c. in_id c = i) is))"
  using assms
proof (induction "is" arbitrary: seen g)
  case Nil
  then show ?case by (simp split: option.split)
next
  case (Cons c cs)
  let ?skip = "case lookup_instance (in_id c) g of None \<Rightarrow> False
      | Some r \<Rightarrow> in_driver (ri_inst r) \<noteq> in_driver c \<or> List.member seen (in_id c)"
  let ?g = "register (entry_of g c) g"
  have step: "configure seen (c # cs) g = (if ?skip then configure seen cs g else configure (in_id c # seen) cs ?g)"
    by (simp add: entry_of_def)
  have key: "instance_key (entry_of g c) = in_id c" by (simp add: entry_of_def instance_key_def)
  have entries: "entry_of ?g = entry_of g" by (rule entry_of_same) simp
  show ?case
  proof (cases ?skip)
    case True
    then obtain q where q: "lookup_instance (in_id c) g = Some q" "in_driver (ri_inst q) \<noteq> in_driver c \<or> in_id c \<in> set seen"
      by (auto split: option.splits)
    have "lookup_instance i (configure seen (c # cs) g) = lookup_instance i (configure seen cs g)" unfolding step using True by simp
    with Cons.IH [OF Cons.prems] q show ?thesis
      by (cases "in_id c = i") (auto split: option.split)
  next
    case False
    have seen: "lookup_instance j ?g \<noteq> None" if "j \<in> set (in_id c # seen)" for j
      using that Cons.prems by (auto simp: lookup_register key)
    have fresh: "in_id c \<notin> set seen" using False Cons.prems [of "in_id c"] by (auto split: option.splits)
    have "lookup_instance i (configure seen (c # cs) g) = lookup_instance i (configure (in_id c # seen) cs ?g)"
      unfolding step using False by simp
    also have "\<dots> = (case lookup_instance i ?g of
       Some r \<Rightarrow>
         if i \<in> set (in_id c # seen) then Some r
         else (case List.find (\<lambda>c. in_id c = i \<and> in_driver c = in_driver (ri_inst r)) cs of
                 None \<Rightarrow> Some r | Some c \<Rightarrow> Some (entry_of g c))
     | None \<Rightarrow> map_option (entry_of g) (List.find (\<lambda>c. in_id c = i) cs))"
      using Cons.IH [of "in_id c # seen" ?g] seen unfolding entries by blast
    finally have later: "lookup_instance i (configure seen (c # cs) g) =
     (case if i = in_id c then Some (entry_of g c) else lookup_instance i g of
       Some r \<Rightarrow>
         if i \<in> set (in_id c # seen) then Some r
         else (case List.find (\<lambda>c. in_id c = i \<and> in_driver c = in_driver (ri_inst r)) cs of
                 None \<Rightarrow> Some r | Some c \<Rightarrow> Some (entry_of g c))
     | None \<Rightarrow> map_option (entry_of g) (List.find (\<lambda>c. in_id c = i) cs))"
      unfolding lookup_register key .
    show ?thesis
    proof (cases "in_id c = i")
      case True
      have "lookup_instance i (configure seen (c # cs) g) = Some (entry_of g c)" unfolding later using True by simp
      with False fresh True show ?thesis by (auto split: option.splits)
    next
      case other: False
      then show ?thesis unfolding later by (auto split: option.split)
    qed
  qed
qed

end
