(* ===== verification/Manager.thy ===== *)
theory Manager
  imports ActorStart Instances Workspace Checkpoints
begin

text \<open>
  The manager (internal/thread/manager.go): the live actors over one store, how they come and go,
  and the listing of threads.  Each actor is given a serial number when it is adopted; the world
  an actor talks to is a function of it, so no two actors draw the same fresh ids.  The store and
  the set of schedules picked up are shared: they are handed to an actor for each command and
  taken back after it.  Every definition here runs under the manager's lifecycle lock or is one
  step of a goroutine it starts; what runs in the background is a list of jobs.
\<close>

section \<open>State\<close>

datatype task =
    RecoverJob nat
  | ProvisionJob thread_meta folder nat
  | ProvisionEnd thread_meta folder nat "string + provision_result"
  | CleanupJob thread_meta folder nat bool bool
  | CleanupRun thread_meta folder nat bool bool
  | CleanupEnd thread_meta nat bool string "string option"

record manager =
  mg_store :: db
  mg_registry :: registry
  mg_actors :: "(nat \<times> actor) list"
  mg_serial :: nat
  mg_ready :: "string list"
  mg_calls :: calls
  mg_jobs :: "task list"
  mg_tick :: nat

text \<open>
  What surrounds the manager: the clock and fresh ids, credentials, readiness probes, the machine,
  the harness worlds of the actors, the configured projects folder, and what moves a conversation
  between two accounts of an adapter, where the adapter can.
\<close>

record surroundings =
  su_now :: "nat \<Rightarrow> int"
  su_uuid :: "nat \<Rightarrow> string"
  su_env :: "instance_conf \<Rightarrow> string + env"
  su_probe :: "nat \<Rightarrow> string \<Rightarrow> env \<Rightarrow> string option"
  su_host :: host
  su_actor :: "nat \<Rightarrow> world"
  su_projectsDir :: "string + string"
  su_move :: "nat \<Rightarrow> string \<Rightarrow> (env \<Rightarrow> env \<Rightarrow> string \<Rightarrow> string \<Rightarrow> string option) option"

definition pass :: "manager \<Rightarrow> manager" where
  "pass m = m\<lparr>mg_tick := Suc (mg_tick m)\<rparr>"

definition with_store :: "(int \<Rightarrow> db \<Rightarrow> db) \<Rightarrow> surroundings \<Rightarrow> manager \<Rightarrow> manager" where
  "with_store f su m = pass (m\<lparr>mg_store := f (su_now su (mg_tick m)) (mg_store m)\<rparr>)"

definition set_phase :: "surroundings \<Rightarrow> string \<Rightarrow> string \<Rightarrow> manager \<Rightarrow> manager" where
  "set_phase su i phase m = with_store (\<lambda>now. SetPhase now i phase) su m"

definition spawn :: "task \<Rightarrow> manager \<Rightarrow> manager" where
  "spawn j m = m\<lparr>mg_jobs := mg_jobs m @ [j]\<rparr>"

definition did :: "call \<Rightarrow> manager \<Rightarrow> manager" where
  "did c m = m\<lparr>mg_calls := mg_calls m @ [c]\<rparr>"

definition purge :: "surroundings \<Rightarrow> string \<Rightarrow> string \<Rightarrow> manager \<Rightarrow> manager" where
  "purge su cwd i m = m\<lparr>mg_calls := purgeCheckpoints (su_host su) cwd i (mg_calls m)\<rparr>"

section \<open>Live actors\<close>

text \<open>\<open>Peek\<close>: the live actor of a thread.\<close>

definition Peek :: "string \<Rightarrow> manager \<Rightarrow> nat option" where
  "Peek i m = map_option fst (List.find (\<lambda>(k, a). a_id a = i) (mg_actors m))"

definition lend :: "manager \<Rightarrow> actor \<Rightarrow> actor" where
  "lend m a = a\<lparr>a_store := mg_store m, a_scheduleReady := mg_ready m\<rparr>"

text \<open>An actor whose loop has ended is forgotten (\<open>forgetFn\<close>).\<close>

definition settle :: "nat \<Rightarrow> actor \<Rightarrow> manager \<Rightarrow> manager" where
  "settle k b m =
     m\<lparr>mg_store := a_store b, mg_ready := a_scheduleReady b,
       mg_actors := (if a_stopped b then filter (\<lambda>(i, a). i \<noteq> k) (mg_actors m)
                     else map (\<lambda>(i, a). if i = k then (i, b) else (i, a)) (mg_actors m))\<rparr>"

definition on_actor :: "surroundings \<Rightarrow> nat \<Rightarrow> command \<Rightarrow> manager \<Rightarrow> reply \<times> manager" where
  "on_actor su k c m =
     (case map_of (mg_actors m) k of
        None \<Rightarrow> (Some (NoValue, Some ErrClosed), m)
      | Some a \<Rightarrow> (case run_command (su_actor su k) c (lend m a) of (r, b) \<Rightarrow> (r, settle k b m)))"

definition emit_to :: "surroundings \<Rightarrow> nat \<Rightarrow> event_body list \<Rightarrow> manager \<Rightarrow> manager" where
  "emit_to su k ems m = foldl (\<lambda>m em. snd (on_actor su k (Emit em) m)) m ems"

text \<open>\<open>adopt\<close> registers an actor under its thread's id.\<close>

definition adopt :: "actor \<Rightarrow> manager \<Rightarrow> nat \<times> manager" where
  "adopt a m =
     (let k = mg_serial m
      in (k, m\<lparr>mg_serial := Suc k, mg_store := a_store a,
               mg_actors := filter (\<lambda>(i, b). a_id b \<noteq> a_id a) (mg_actors m)
                 @ (if a_stopped a then [] else [(k, a)])\<rparr>))"

text \<open>Commands an actor runs before anyone else knows it, in the world of its coming serial.\<close>

definition run_new :: "surroundings \<Rightarrow> manager \<Rightarrow> command list \<Rightarrow> actor \<Rightarrow> actor" where
  "run_new su m cs a = run_commands (su_actor su (mg_serial m)) cs (lend m a)"

definition error_of :: "reply \<Rightarrow> actor_error option" where
  "error_of r = (case r of None \<Rightarrow> None | Some (v, e) \<Rightarrow> e)"

section \<open>Errors\<close>

datatype manager_error =
    StoreFailed store_error
  | ActorFailed actor_error
  | HarnessFailed harness_error
  | Refused string
  | NeverReturns

section \<open>Get and View\<close>

definition pending_phase :: "string \<Rightarrow> bool" where
  "pending_phase p \<longleftrightarrow>
     p = ''creating'' \<or> p = ''provisioning'' \<or> p = ''provision_failed'' \<or> p = ''cleaning'' \<or> p = ''cleanup_failed''"

definition workspace_failed :: "string \<Rightarrow> string \<Rightarrow> workspace_failed_payload" where
  "workspace_failed hook e = \<lparr>wf_hook = hook, wf_error = e, wf_exitCode = 0\<rparr>"

text \<open>What a restart makes of a thread that was being prepared or cleaned up.\<close>

definition restart_notes :: "string \<Rightarrow> (string \<times> event_body) list" where
  "restart_notes phase =
     (if phase = ''creating'' \<or> phase = ''provisioning'' then
        [(''provision_failed'', WorkspaceFailed
           (workspace_failed ''provision'' ''server restarted while provisioning; retry is safe''))]
      else if phase = ''cleaning'' then
        [(''cleanup_failed'', WorkspaceCleanupFailed
           (workspace_failed ''deprovision'' ''server restarted while cleaning up; retry is safe''))]
      else [])"

definition restore_pending :: "surroundings \<Rightarrow> thread_meta \<Rightarrow> manager \<Rightarrow> nat \<times> manager" where
  "restore_pending su meta m =
     (let (ad, env) = cleanupAdapter (su_env su) (mg_registry m) meta;
          a = RestorePending (mg_store m) ad meta env;
          m1 = foldl (\<lambda>m (ph, em). set_phase su (tm_id meta) ph m) m (restart_notes (tm_phase meta))
      in adopt (run_new su m1 (map (\<lambda>(ph, em). Emit em) (restart_notes (tm_phase meta))) a) m1)"

text \<open>The account of a thread: its adapter and credentials, or why it cannot run.\<close>

definition account :: "surroundings \<Rightarrow> registry \<Rightarrow> thread_meta \<Rightarrow> string + (string option \<times> env)" where
  "account su g meta =
     (case instanceFor g meta of
        Inl e \<Rightarrow> Inl e
      | Inr r \<Rightarrow> (case su_env su (ri_inst r) of Inl e \<Rightarrow> Inl e | Inr env \<Rightarrow> Inr (ri_adapter r, env)))"

definition restore ::
  "surroundings \<Rightarrow> thread_meta \<Rightarrow> bool \<Rightarrow> manager \<Rightarrow> (manager_error + nat) \<times> manager" where
  "restore su meta activate_it m =
     (if tm_phase meta = ''closed'' then
        (case RestoreClosed (su_now su (mg_tick m)) (mg_store m) meta of
           Inl e \<Rightarrow> (Inl (StoreFailed e), pass m)
         | Inr a \<Rightarrow> (case adopt a (pass m) of (k, m1) \<Rightarrow> (Inr k, m1)))
      else if pending_phase (tm_phase meta) then
        (case restore_pending su meta m of (k, m1) \<Rightarrow> (Inr k, m1))
      else
        case account su (mg_registry m) meta of
          Inl e \<Rightarrow>
            if activate_it then (Inl (Refused e), m)
            else (case adopt ((RestoreIdle (mg_store m) None meta [])\<lparr>a_activationError := Some e\<rparr>) m of
                    (k, m1) \<Rightarrow> (Inr k, m1))
        | Inr (ad, env) \<Rightarrow>
            (case adopt (RestoreIdle (mg_store m) ad meta env) m of (k, m1) \<Rightarrow> (Inr k, m1)))"

definition finishGet ::
  "surroundings \<Rightarrow> nat \<Rightarrow> thread_meta \<Rightarrow> bool \<Rightarrow> manager \<Rightarrow> (manager_error + nat) \<times> manager" where
  "finishGet su k meta activate_it m =
     (if \<not> activate_it \<or> tm_phase meta \<noteq> ''idle'' \<and> tm_phase meta \<noteq> ''turn'' then (Inr k, m)
      else case on_actor su k (Activate [] [] [] [] True) m of
             (r, m1) \<Rightarrow>
               (case error_of r of
                  Some e \<Rightarrow> (Inl (ActorFailed e), m1)
                | None \<Rightarrow> (Inr k, if tm_phase meta = ''turn'' then spawn (RecoverJob k) m1 else m1)))"

definition get ::
  "surroundings \<Rightarrow> string \<Rightarrow> bool \<Rightarrow> manager \<Rightarrow> (manager_error + nat) \<times> manager" where
  "get su i activate_it m =
     (case Thread i (mg_store m) of
        Inl e \<Rightarrow> (Inl (StoreFailed e), m)
      | Inr meta \<Rightarrow>
          (case Peek i m of
             Some k \<Rightarrow> finishGet su k meta activate_it m
           | None \<Rightarrow>
               (case restore su meta activate_it m of
                  (Inl e, m1) \<Rightarrow> (Inl e, m1)
                | (Inr k, m1) \<Rightarrow> finishGet su k meta activate_it m1)))"

definition Get :: "surroundings \<Rightarrow> string \<Rightarrow> manager \<Rightarrow> (manager_error + nat) \<times> manager" where
  "Get su i m = get su i True m"

definition View :: "surroundings \<Rightarrow> string \<Rightarrow> manager \<Rightarrow> (manager_error + nat) \<times> manager" where
  "View su i m = get su i False m"

text \<open>\<open>recoverActor\<close>: the plan may have been taken by the time it runs.\<close>

definition recoverActor :: "surroundings \<Rightarrow> nat \<Rightarrow> manager \<Rightarrow> manager" where
  "recoverActor su k m =
     (case map_of (mg_actors m) k of
        None \<Rightarrow> m
      | Some a \<Rightarrow> (case Recover a of None \<Rightarrow> m | Some c \<Rightarrow> snd (on_actor su k c m)))"

text \<open>\<open>recoverAll\<close> (internal/thread/recovery.go): every row that says a turn was running.\<close>

definition recoverAll :: "surroundings \<Rightarrow> manager \<Rightarrow> manager" where
  "recoverAll su m =
     foldl (\<lambda>m i. snd (Get su i m)) m
       (map tm_id (filter (\<lambda>meta. tm_phase meta = ''turn'') (ListThreads (mg_store m))))"

section \<open>The thread list\<close>

definition shown_thread :: "manager \<Rightarrow> thread_meta \<Rightarrow> thread_meta" where
  "shown_thread m meta =
     meta\<lparr>tm_attention := (case List.find (\<lambda>(k, a). a_id a = tm_id meta) (mg_actors m) of
                             Some (k, a) \<Rightarrow> a_attention a
                           | None \<Rightarrow> AttentionForPhase (tm_phase meta)),
          tm_scheduledCount := (case ScheduleCounts (mg_store m) (tm_id meta) of None \<Rightarrow> 0 | Some n \<Rightarrow> int n)\<rparr>"

definition List_threads :: "manager \<Rightarrow> thread_meta list" where
  "List_threads m = map (shown_thread m) (ListThreads (mg_store m))"

section \<open>Closing\<close>

definition closeLocked :: "surroundings \<Rightarrow> string \<Rightarrow> string \<Rightarrow> manager \<Rightarrow> manager_error option \<times> manager" where
  "closeLocked su i reason m =
     (case Thread i (mg_store m) of
        Inl e \<Rightarrow> (Some (StoreFailed e), m)
      | Inr meta \<Rightarrow>
          (case Peek i m of
             Some k \<Rightarrow> (None, snd (on_actor su k (Close (tm_phase meta \<noteq> ''closed'') reason) m))
           | None \<Rightarrow>
               if tm_phase meta = ''closed'' then (None, purge su (tm_cwd meta) i m)
               else (case Append (su_now su (mg_tick m)) i (ThreadClosed reason) (mg_store m) of
                       Inl e \<Rightarrow> (Some (StoreFailed e), pass m)
                     | Inr (ev, d) \<Rightarrow>
                         (None, purge su (tm_cwd meta) i
                            (set_phase su i ''closed'' (pass (m\<lparr>mg_store := d\<rparr>)))))))"

definition Close_thread :: "surroundings \<Rightarrow> string \<Rightarrow> string \<Rightarrow> manager \<Rightarrow> manager_error option \<times> manager" where
  "Close_thread su i reason m = closeLocked su i reason m"

definition Dispose :: "surroundings \<Rightarrow> nat \<Rightarrow> string \<Rightarrow> manager \<Rightarrow> manager" where
  "Dispose su k reason m = snd (on_actor su k (Close False reason) m)"

definition Shutdown :: "surroundings \<Rightarrow> manager \<Rightarrow> manager" where
  "Shutdown su m = foldl (\<lambda>m k. Dispose su k ''server shutdown'' m) m (map fst (mg_actors m))"

end
