(* ===== verification/Lifecycle.thy ===== *)
theory Lifecycle
  imports Manager
begin

text \<open>
  A thread's workspace from creation to removal (internal/thread/manager.go, lifecycle.go,
  artefacts.go, switchaccount.go): the operations a presenter asks for, and the two background
  tasks, provisioning and cleanup, cut where other operations can come between their steps.
\<close>

section \<open>Folders and homes\<close>

definition folder_in ::
  "surroundings \<Rightarrow> string \<Rightarrow> string \<Rightarrow> db \<Rightarrow> manager_error + (project \<times> folder)" where
  "folder_in su pid fid d =
     (case Project (os_isGit (su_host su)) pid d of
        Inl e \<Rightarrow> Inl (StoreFailed e)
      | Inr p \<Rightarrow>
          if fid = [] then
            (case pj_folders p of
               [f] \<Rightarrow> Inr (p, f)
             | fs \<Rightarrow> Inl (Refused (pj_name p @ '' has '' @ format_int (int (length fs)) @ '' folders; choose one'')))
          else case project_folder p fid of
                 None \<Rightarrow> Inl (StoreFailed NotFound)
               | Some f \<Rightarrow> Inr (p, f))"

definition bare_folder :: "string \<Rightarrow> folder" where
  "bare_folder path =
     \<lparr>fo_id = [], fo_path = path, fo_git = False, fo_baseBranch = [], fo_copiesDir = [],
      fo_provision = [], fo_deprovision = [], fo_provisionTimeout = 0, fo_deprovisionTimeout = 0\<rparr>"

definition threadFolder :: "surroundings \<Rightarrow> thread_meta \<Rightarrow> db \<Rightarrow> manager_error + folder" where
  "threadFolder su meta d =
     (if tm_folderID meta = [] then Inr (bare_folder (tm_cwd meta))
      else map_sum id snd (folder_in su (tm_projectID meta) (tm_folderID meta) d))"

text \<open>\<open>slug\<close>: runs of anything but small letters and digits become one dash, none at the ends.\<close>

definition slug_byte :: "char \<Rightarrow> bool" where
  "slug_byte b = (let n = of_char b :: nat in 97 \<le> n \<and> n \<le> 122 \<or> 48 \<le> n \<and> n \<le> 57)"

fun dashed :: "string \<Rightarrow> string" where
  "dashed [] = []"
| "dashed (b # s) =
     (if slug_byte b then b # dashed s
      else if s \<noteq> [] \<and> \<not> slug_byte (hd s) then dashed s
      else CHR ''-'' # dashed s)"

definition trim_dashes :: "string \<Rightarrow> string" where
  "trim_dashes s =
     rev (dropWhile (\<lambda>b. b = CHR ''-'') (rev (dropWhile (\<lambda>b. b = CHR ''-'') s)))"

definition slug :: "string \<Rightarrow> string" where
  "slug s = trim_dashes (dashed (lower_text s))"

definition home_name :: "string \<Rightarrow> nat \<Rightarrow> string" where
  "home_name base i = (if i > 1 then base @ ''-'' @ format_int (int i) else base)"

text \<open>The loop ends at the first name that is free: \<open>None\<close> is a loop that never does.\<close>

partial_function (option) free_home :: "(string \<Rightarrow> bool) \<Rightarrow> string \<Rightarrow> string \<Rightarrow> nat \<Rightarrow> string option" where
  "free_home used dir base i =
     (if used (join_path [dir, home_name base i]) then free_home used dir base (Suc i)
      else Some (join_path [dir, home_name base i]))"

declare free_home.simps [code]

definition newHome :: "surroundings \<Rightarrow> string \<Rightarrow> manager \<Rightarrow> manager_error + string" where
  "newHome su name m =
     (case su_projectsDir su of
        Inl e \<Rightarrow> Inl (Refused e)
      | Inr dir \<Rightarrow>
          let taken = filter (\<lambda>x. x \<noteq> []) (map pj_home (ListProjects (os_isGit (su_host su)) (mg_store m)));
              base = (if slug name = [] then ''project'' else slug name);
              used = (\<lambda>p. p \<in> set taken \<or> os_present (su_host su) (mg_calls m) p)
          in case free_home used dir base 1 of None \<Rightarrow> Inl NeverReturns | Some p \<Rightarrow> Inr p)"

definition make_home :: "surroundings \<Rightarrow> string \<Rightarrow> manager \<Rightarrow> (manager_error + string) \<times> manager" where
  "make_home su home m =
     (case os_mkdir (su_host su) (mg_calls m) home of
        None \<Rightarrow> (Inr home, did (MakeDir home) m)
      | Some e \<Rightarrow> (Inl (Refused e), did (MakeDir home) m))"

definition ProjectHome :: "surroundings \<Rightarrow> string \<Rightarrow> manager \<Rightarrow> (manager_error + string) \<times> manager" where
  "ProjectHome su pid m =
     (case Project (os_isGit (su_host su)) pid (mg_store m) of
        Inl e \<Rightarrow> (Inl (StoreFailed e), m)
      | Inr p \<Rightarrow>
          if pj_home p \<noteq> [] then make_home su (pj_home p) m
          else
            case (case pj_folders p of
                    [f] \<Rightarrow> if \<not> fo_git f then Inr (fo_path f) else newHome su (pj_name p) m
                  | _ \<Rightarrow> newHome su (pj_name p) m) of
              Inl e \<Rightarrow> (Inl e, m)
            | Inr home \<Rightarrow>
                (case SetProjectHome pid home (mg_store m) of
                   Inl e \<Rightarrow> (Inl (StoreFailed e), m)
                 | Inr d \<Rightarrow> make_home su home (m\<lparr>mg_store := d\<rparr>)))"

section \<open>Who else is in a checkout\<close>

definition otherThreadIn :: "surroundings \<Rightarrow> string \<Rightarrow> string \<Rightarrow> manager \<Rightarrow> string option" where
  "otherThreadIn su i cwd m =
     (if trim_space cwd = [] then None
      else let h = su_host su; t = mg_calls m; target = canonicalPath h t cwd
           in map_option thread_title
                (List.find (\<lambda>s. tm_id s \<noteq> i \<and> tm_cwd s \<noteq> [] \<and> canonicalPath h t (tm_cwd s) = target)
                  (ListThreads (mg_store m))))"

definition cleaningThreadIn :: "surroundings \<Rightarrow> string \<Rightarrow> manager \<Rightarrow> string option" where
  "cleaningThreadIn su cwd m =
     (let h = su_host su; t = mg_calls m; target = canonicalPath h t cwd
      in map_option thread_title
           (List.find (\<lambda>s. tm_phase s = ''cleaning'' \<and> tm_cwd s \<noteq> [] \<and> canonicalPath h t (tm_cwd s) = target)
             (ListThreads (mg_store m))))"

definition still_used :: "surroundings \<Rightarrow> string \<Rightarrow> string \<Rightarrow> manager_error" where
  "still_used su cwd holder = Refused (base_name cwd @ '' is still used by '' @ os_quote (su_host su) holder)"

section \<open>Accounts\<close>

text \<open>Resolve the instance, its credentials, and ask the adapter afresh whether it can run.\<close>

definition account_for ::
  "surroundings \<Rightarrow> manager \<Rightarrow> string \<Rightarrow> string \<Rightarrow> string + (instance_conf \<times> string \<times> env)" where
  "account_for su m inst harness =
     (case resolveInstance (mg_registry m) inst harness of
        Inl e \<Rightarrow> Inl e
      | Inr r \<Rightarrow>
          (case su_env su (ri_inst r) of
             Inl e \<Rightarrow> Inl e
           | Inr env \<Rightarrow>
               (case ri_adapter r of
                  None \<Rightarrow> Inl []
                | Some ad \<Rightarrow>
                    (case su_probe su (mg_tick m) ad env of
                       Some reason \<Rightarrow> Inl (in_displayName (ri_inst r) @ '' is not available: '' @ reason)
                     | None \<Rightarrow> Inr (ri_inst r, ad, env)))))"

definition new_meta :: "surroundings \<Rightarrow> manager \<Rightarrow> instance_conf \<Rightarrow> string \<Rightarrow> string \<Rightarrow> thread_meta" where
  "new_meta su m inst cwd phase =
     \<lparr>tm_scheduledCount = 0, tm_id = su_uuid su (mg_tick m), tm_cwd = cwd, tm_harness = in_driver inst,
      tm_providerInstance = in_id inst, tm_title = [], tm_createdAt = su_now su (mg_tick m),
      tm_updatedAt = su_now su (mg_tick m), tm_headSeq = 0, tm_phase = phase, tm_attention = [],
      tm_projectID = [], tm_folderID = [], tm_branch = [], tm_model = [], tm_mode = [], tm_effort = [],
      tm_workspaceMode = [], tm_baseRef = [], tm_pinned = False, tm_lastViewedSeq = 0, tm_position = 0,
      tm_provisionScript = [], tm_deprovisionScript = [], tm_provisionResult = None\<rparr>"

section \<open>Create\<close>

definition Create ::
  "surroundings \<Rightarrow> string \<Rightarrow> string \<Rightarrow> string \<Rightarrow> string \<Rightarrow> string \<Rightarrow> manager \<Rightarrow> (manager_error + nat) \<times> manager" where
  "Create su harness inst cwd model mode m =
     (case account_for su m inst harness of
        Inl e \<Rightarrow> (Inl (Refused e), pass m)
      | Inr (conf, ad, env) \<Rightarrow>
          let meta = new_meta su m conf cwd ''idle''; m1 = pass m
          in case CreateThread meta (mg_store m1) of
               Inl e \<Rightarrow> (Inl (StoreFailed e), m1)
             | Inr d \<Rightarrow>
                 (case Start (su_actor su (mg_serial m1)) d ad meta model mode env of
                    Inl e \<Rightarrow> (Inl (HarnessFailed e), m1\<lparr>mg_store := DeleteThread (tm_id meta) d\<rparr>)
                  | Inr (a, cs) \<Rightarrow>
                      (case adopt (run_new su (m1\<lparr>mg_store := d\<rparr>) cs a) (m1\<lparr>mg_store := d\<rparr>) of
                         (k, m2) \<Rightarrow> (Inr k, m2))))"

section \<open>CreateProject\<close>

record project_options =
  op_projectID :: string
  op_harness :: string
  op_instance :: string
  op_model :: string
  op_mode :: string
  op_effort :: string
  op_explicit :: bool
  op_branch :: string
  op_workspace :: string
  op_folderID :: string
  op_baseRef :: string
  op_workspacePath :: string
  op_pinned :: bool

definition harness_defaults_of :: "defaults \<Rightarrow> string \<Rightarrow> harness_defaults" where
  "harness_defaults_of d h =
     (case de_harnesses d of
        None \<Rightarrow> \<lparr>hd_model = [], hd_effort = [], hd_mode = []\<rparr>
      | Some ms \<Rightarrow> (case map_of ms h of
                      None \<Rightarrow> \<lparr>hd_model = [], hd_effort = [], hd_mode = []\<rparr>
                    | Some v \<Rightarrow> v))"

definition or_default :: "string \<Rightarrow> string \<Rightarrow> string" where
  "or_default s d = (if s = [] then d else s)"

definition with_defaults :: "defaults \<Rightarrow> project_options \<Rightarrow> project_options" where
  "with_defaults d o1 =
     (let o2 = o1\<lparr>op_harness := or_default (op_harness o1) (de_harness d)\<rparr>;
          hd = harness_defaults_of d (op_harness o2);
          o3 = (if op_explicit o2 then o2
                else o2\<lparr>op_model := or_default (op_model o2) (hd_model hd),
                        op_mode := or_default (op_mode o2) (hd_mode hd),
                        op_effort := or_default (op_effort o2) (hd_effort hd)\<rparr>)
      in o3\<lparr>op_workspace := or_default (op_workspace o3) (de_workspace d)\<rparr>)"

text \<open>The scope: one folder, or the whole project in its home.\<close>

definition scoped :: "project \<Rightarrow> project_options \<Rightarrow> bool" where
  "scoped p ops \<longleftrightarrow> op_folderID ops \<noteq> [] \<or> length (pj_folders p) = 1"

definition wants_path :: "project_options \<Rightarrow> bool" where
  "wants_path ops \<longleftrightarrow> trim_space (op_workspacePath ops) \<noteq> []"

definition choose_scope ::
  "surroundings \<Rightarrow> project \<Rightarrow> project_options \<Rightarrow> manager \<Rightarrow> (manager_error + (folder \<times> project_options)) \<times> manager" where
  "choose_scope su p ops m =
     (if scoped p ops then
        (case folder_in su (pj_id p) (op_folderID ops) (mg_store m) of
           Inl e \<Rightarrow> (Inl e, m)
         | Inr (_, f) \<Rightarrow>
             if fo_git f then (Inr (f, ops), m)
             else if wants_path ops then
               (Inl (Refused (base_name (fo_path f) @ '' is not a git folder, so it has no copies to attach to'')), m)
             else (Inr (f, ops\<lparr>op_workspace := ''local''\<rparr>), m))
      else if op_workspace ops = ''managed'' \<or> wants_path ops then
        (Inl (Refused ''a thread across the whole project works in its folders directly; choose one folder to work on a copy''), m)
      else case ProjectHome su (pj_id p) m of
             (Inl e, m1) \<Rightarrow> (Inl e, m1)
           | (Inr home, m1) \<Rightarrow> (Inr (bare_folder home, ops), m1))"

text \<open>\<open>ResolveWorkspace\<close> reads the folder again.\<close>

definition resolve_workspace ::
  "surroundings \<Rightarrow> string \<Rightarrow> string \<Rightarrow> string \<Rightarrow> manager \<Rightarrow> (manager_error + workspace) \<times> manager" where
  "resolve_workspace su pid fid path m =
     (if trim_space path = [] then (Inl (Refused ''workspace path is empty''), m)
      else case folder_in su pid fid (mg_store m) of
             Inl e \<Rightarrow> (Inl e, m)
           | Inr (_, f) \<Rightarrow>
               (case ResolveWorkspace (su_host su) f path (mg_store m) (mg_calls m) of
                  (r, t) \<Rightarrow> (map_sum Refused id r, m\<lparr>mg_calls := t\<rparr>)))"

text \<open>Where the thread works, whose checkout that is, and on which branch.\<close>

definition choose_place ::
  "surroundings \<Rightarrow> project \<Rightarrow> folder \<Rightarrow> project_options \<Rightarrow> manager
   \<Rightarrow> (manager_error + (string \<times> string \<times> string)) \<times> manager" where
  "choose_place su p f ops m =
     (if \<not> scoped p ops then (Inr (fo_path f, op_workspace ops, op_branch ops), m)
      else if wants_path ops then
        (case resolve_workspace su (pj_id p) (fo_id f) (op_workspacePath ops) m of
           (Inl e, m1) \<Rightarrow> (Inl e, m1)
         | (Inr w, m1) \<Rightarrow>
             (case cleaningThreadIn su (ws_path w) m1 of
                Some holder \<Rightarrow>
                  (Inl (Refused (base_name (ws_path w) @ '' is being cleaned up by '' @ os_quote (su_host su) holder)), m1)
              | None \<Rightarrow> (Inr (ws_path w, ''borrowed'', or_default (op_branch ops) (ws_branch w)), m1)))
      else if op_workspace ops = ''local'' then
        (case resolve_workspace su (pj_id p) (fo_id f) (fo_path f) m of
           (Inl e, m1) \<Rightarrow> (Inl e, m1)
         | (Inr w, m1) \<Rightarrow> (Inr (ws_path w, ''local'', ws_branch w), m1))
      else (Inr (fo_path f, op_workspace ops, op_branch ops), m))"

definition relHook :: "string \<Rightarrow> string \<Rightarrow> string" where
  "relHook dir path =
     (if path = [] then [] else case rel_path dir path of None \<Rightarrow> [] | Some r \<Rightarrow> r)"

definition resolve_hooks ::
  "surroundings \<Rightarrow> folder \<Rightarrow> string \<Rightarrow> manager \<Rightarrow> manager_error + (string \<times> string)" where
  "resolve_hooks su f workspace m =
     (if workspace \<noteq> ''managed'' then Inr ([], [])
      else case ResolveHook (su_host su) (mg_calls m) (fo_path f) (fo_provision f) of
             Inl e \<Rightarrow> Inl (Refused (''provision hook: '' @ e))
           | Inr prov \<Rightarrow>
               (case ResolveHook (su_host su) (mg_calls m) (fo_path f) (fo_deprovision f) of
                  Inl e \<Rightarrow> Inl (Refused (''deprovision hook: '' @ e))
                | Inr deprov \<Rightarrow> Inr (relHook (fo_path f) prov, relHook (fo_path f) deprov)))"

definition project_meta ::
  "surroundings \<Rightarrow> manager \<Rightarrow> instance_conf \<Rightarrow> project \<Rightarrow> folder \<Rightarrow> project_options
   \<Rightarrow> string \<times> string \<times> string \<Rightarrow> string \<times> string \<Rightarrow> thread_meta" where
  "project_meta su m conf p f ops place hooks =
     (new_meta su m conf (fst place) ''creating'')
       \<lparr>tm_projectID := pj_id p, tm_folderID := fo_id f, tm_branch := snd (snd place),
        tm_model := op_model ops, tm_mode := op_mode ops, tm_effort := op_effort ops,
        tm_workspaceMode := fst (snd place), tm_baseRef := op_baseRef ops, tm_pinned := op_pinned ops,
        tm_provisionScript := fst hooks, tm_deprovisionScript := snd hooks\<rparr>"

definition start_pending ::
  "surroundings \<Rightarrow> thread_meta \<Rightarrow> folder \<Rightarrow> string \<Rightarrow> env \<Rightarrow> manager \<Rightarrow> (manager_error + nat) \<times> manager" where
  "start_pending su meta f ad env m =
     (case CreateThread meta (mg_store m) of
        Inl e \<Rightarrow> (Inl (StoreFailed e), m)
      | Inr d \<Rightarrow>
          let m1 = m\<lparr>mg_store := d\<rparr>; (a, cs) = StartPending d (Some ad) meta env;
              (k, m2) = adopt (run_new su m1 cs a) m1
          in (Inr k, spawn (ProvisionJob meta f k) m2))"

definition CreateProject_thread ::
  "surroundings \<Rightarrow> project_options \<Rightarrow> manager \<Rightarrow> (manager_error + nat) \<times> manager" where
  "CreateProject_thread su o0 m =
     (case Project (os_isGit (su_host su)) (op_projectID o0) (mg_store m) of
        Inl e \<Rightarrow> (Inl (StoreFailed e), m)
      | Inr p \<Rightarrow>
          let o1 = with_defaults (NormalizeDefaults (pj_defaults p)) o0
          in if op_workspace o1 \<noteq> ''local'' \<and> op_workspace o1 \<noteq> ''managed'' then
               (Inl (Refused (''unknown workspace mode '' @ os_quote (su_host su) (op_workspace o1))), m)
             else
               case choose_scope su p o1 m of
                 (Inl e, m1) \<Rightarrow> (Inl e, m1)
               | (Inr (f, ops), m1) \<Rightarrow>
                   (case account_for su m1 (op_instance ops) (op_harness ops) of
                      Inl e \<Rightarrow> (Inl (Refused e), pass m1)
                    | Inr (conf, ad, env) \<Rightarrow>
                        (case choose_place su p f ops (pass m1) of
                           (Inl e, m2) \<Rightarrow> (Inl e, m2)
                         | (Inr place, m2) \<Rightarrow>
                             (case resolve_hooks su f (fst (snd place)) m2 of
                                Inl e \<Rightarrow> (Inl e, m2)
                              | Inr hooks \<Rightarrow>
                                  start_pending su (project_meta su m2 conf p f ops place hooks) f ad env (pass m2)))))"


section \<open>Provisioning\<close>

definition base_cwd :: "thread_meta \<Rightarrow> folder \<Rightarrow> string" where
  "base_cwd meta f = (if tm_cwd meta = [] then fo_path f else tm_cwd meta)"

definition result_json :: "provision_result \<Rightarrow> raw_message" where
  "result_json r =
     Some (JObj ([(''cwd'', JStr (pv_cwd r))]
       @ (if pv_branch r = [] then [] else [(''branch'', JStr (pv_branch r))])
       @ (if pv_resources r = [] then [] else [(''resources'', JObj (pv_resources r))])))"

text \<open>The context file of a hook: fields that are empty are left out.\<close>

definition text_field :: "string \<Rightarrow> string \<Rightarrow> (string \<times> json) list" where
  "text_field name v = (if v = [] then [] else [(name, JStr v)])"

definition context_json ::
  "thread_meta \<Rightarrow> folder \<Rightarrow> string \<Rightarrow> string \<Rightarrow> raw_message \<Rightarrow> json" where
  "context_json meta f baseRef suggested result =
     JObj ([(''version'', JNum 1), (''threadId'', JStr (tm_id meta)), (''projectRoot'', JStr (fo_path f))]
       @ text_field ''requestedBranch'' (tm_branch meta) @ text_field ''baseRef'' baseRef
       @ text_field ''suggestedWorktreePath'' suggested
       @ (case result of None \<Rightarrow> [] | Some j \<Rightarrow> [(''provisionResult'', j)]))"

definition write_json :: "surroundings \<Rightarrow> string \<Rightarrow> json \<Rightarrow> manager \<Rightarrow> string option \<times> manager" where
  "write_json su path v m =
     (os_write (su_host su) (mg_calls m) path, did (WriteFile path v) m)"

definition run_hook ::
  "surroundings \<Rightarrow> nat \<Rightarrow> string \<Rightarrow> string \<Rightarrow> string \<Rightarrow> string list \<Rightarrow> (string \<times> string) list \<Rightarrow> int
   \<Rightarrow> manager \<Rightarrow> string option \<times> manager" where
  "run_hook su k kind cwd hook args env seconds m =
     (case runHook (su_host su) kind cwd hook args env seconds (mg_calls m) of
        (err, evs, t) \<Rightarrow> (err, emit_to su k evs (m\<lparr>mg_calls := t\<rparr>)))"

definition make_copy ::
  "surroundings \<Rightarrow> thread_meta \<Rightarrow> folder \<Rightarrow> base_resolution option \<Rightarrow> nat \<Rightarrow> manager
   \<Rightarrow> (string + provision_result) \<times> manager" where
  "make_copy su meta f resolved k m =
     (case createWorktreeFrom (su_host su) meta f resolved (mg_calls m) of
        (r, evs, t) \<Rightarrow> (r, emit_to su k evs (m\<lparr>mg_calls := t\<rparr>)))"

definition save_workspace :: "surroundings \<Rightarrow> string \<Rightarrow> provision_result \<Rightarrow> manager \<Rightarrow> manager" where
  "save_workspace su i r m =
     with_store (\<lambda>now. UpdateWorkspace now i (pv_cwd r) (pv_branch r) ''provisioning'' (result_json r)) su m"

text \<open>What the result file means; a hook from before there was one leaves the copy it was given.\<close>

definition read_result ::
  "folder \<Rightarrow> provision_result option \<Rightarrow> string + (string \<times> string \<times> (string \<times> json) list) option
   \<Rightarrow> string + provision_result" where
  "read_result f given ans =
     (case ans of
        Inl e \<Rightarrow> Inl e
      | Inr None \<Rightarrow>
          (case given of
             Some r \<Rightarrow> Inr r
           | None \<Rightarrow> Inl ''provision did not write OMNIPLEX_RESULT_FILE'')
      | Inr (Some (cwd, branch, res)) \<Rightarrow>
          if cwd = [] then Inl ''provision result must contain cwd''
          else Inr \<lparr>pv_cwd = (if is_abs cwd then cwd else join_path [fo_path f, cwd]), pv_branch = branch,
                     pv_resources = res\<rparr>)"

definition provision_hook ::
  "surroundings \<Rightarrow> thread_meta \<Rightarrow> folder \<Rightarrow> nat \<Rightarrow> string \<Rightarrow> string \<Rightarrow> string \<Rightarrow> string \<Rightarrow> provision_result option
   \<Rightarrow> manager \<Rightarrow> (string + provision_result) \<times> manager" where
  "provision_hook su meta f k stateDir hook suggested ref given m =
     (let context = join_path [stateDir, ''context.json'']; result = join_path [stateDir, ''result.json''];
          args = (case given of None \<Rightarrow> [] | Some r \<Rightarrow> [pv_branch r])
      in case write_json su context (context_json meta f ref suggested None) m of
           (Some e, m1) \<Rightarrow> (Inl e, m1)
         | (None, m1) \<Rightarrow>
             (case run_hook su k ''provision'' (fo_path f) hook args
                     (hook_env ''provision'' (tm_id meta) (fo_path f) context result stateDir ref)
                     (fo_provisionTimeout f) (did (RemoveFile result) m1) of
                (Some e, m2) \<Rightarrow> (Inl e, m2)
              | (None, m2) \<Rightarrow> (read_result f given (os_result (su_host su) (mg_calls m2) result), m2)))"

definition runProvisionHook ::
  "surroundings \<Rightarrow> thread_meta \<Rightarrow> folder \<Rightarrow> nat \<Rightarrow> manager \<Rightarrow> (string + provision_result) \<times> manager" where
  "runProvisionHook su meta0 f k m =
     (case os_stateDir (su_host su) (tm_id meta0) of
        Inl e \<Rightarrow> (Inl e, m)
      | Inr stateDir \<Rightarrow>
          (case ResolveHook (su_host su) (mg_calls m) (fo_path f) (tm_provisionScript meta0) of
             Inl e \<Rightarrow> (Inl e, m)
           | Inr hook \<Rightarrow>
               let (branch, suggested) = workspaceTarget meta0 f;
                   meta = meta0\<lparr>tm_branch := branch\<rparr>;
                   (res, t) = resolveBaseRef (su_host su) (fo_path f) (baseRefFor meta f) (mg_calls m);
                   m1 = emit_to su k (base_note res) (m\<lparr>mg_calls := t\<rparr>)
               in if isCompatibilityHook hook ''setup'' then
                    (case make_copy su meta f (Some res) k m1 of
                       (Inl e, m2) \<Rightarrow> (Inl e, m2)
                     | (Inr r, m2) \<Rightarrow>
                         provision_hook su meta f k stateDir hook suggested (br_ref res) (Some r)
                           (save_workspace su (tm_id meta) r m2))
                  else provision_hook su meta f k stateDir hook suggested (br_ref res) None m1))"

text \<open>\<open>provision\<close>, up to the result; then what becomes of it.\<close>

definition provision :: "surroundings \<Rightarrow> thread_meta \<Rightarrow> folder \<Rightarrow> nat \<Rightarrow> manager \<Rightarrow> manager" where
  "provision su meta f k m =
     (let m1 = set_phase su (tm_id meta) ''provisioning''
            (emit_to su k [WorkspaceRequested \<lparr>wr_projectID = tm_projectID meta, wr_projectRoot = fo_path f,
               wr_mode = tm_workspaceMode meta, wr_branch = tm_branch meta, wr_baseRef = baseRefFor meta f\<rparr>] m);
          (r, m2) =
            (if tm_provisionScript meta \<noteq> [] then runProvisionHook su meta f k m1
             else if tm_workspaceMode meta = ''managed'' then make_copy su meta f None k m1
             else (Inr (copy_result (base_cwd meta f) (tm_branch meta)), m1))
      in spawn (ProvisionEnd meta f k r) m2)"

definition provisionFailed :: "surroundings \<Rightarrow> string \<Rightarrow> nat \<Rightarrow> string \<Rightarrow> manager \<Rightarrow> manager" where
  "provisionFailed su i k e m =
     emit_to su k [WorkspaceFailed (workspace_failed ''provision'' e)] (set_phase su i ''provision_failed'' m)"

definition set_cwd :: "nat \<Rightarrow> string \<Rightarrow> manager \<Rightarrow> manager" where
  "set_cwd k cwd m =
     m\<lparr>mg_actors := map (\<lambda>(i, a). if i = k then (i, a\<lparr>a_cwd := cwd\<rparr>) else (i, a)) (mg_actors m)\<rparr>"

definition provision_end ::
  "surroundings \<Rightarrow> thread_meta \<Rightarrow> folder \<Rightarrow> nat \<Rightarrow> string + provision_result \<Rightarrow> manager \<Rightarrow> manager" where
  "provision_end su meta f k r m =
     (case r of
        Inl e \<Rightarrow> provisionFailed su (tm_id meta) k e m
      | Inr p \<Rightarrow>
          if \<not> os_isDir (su_host su) (mg_calls m) (pv_cwd p) then
            provisionFailed su (tm_id meta) k (''provision result cwd is not a directory: '' @ pv_cwd p) m
          else
            case on_actor su k (Activate (pv_cwd p) (tm_model meta) (tm_mode meta) (tm_effort meta) False)
                   (set_cwd k (pv_cwd p) (save_workspace su (tm_id meta) p m)) of
              (rep, m1) \<Rightarrow>
                (case error_of rep of
                   Some e \<Rightarrow> provisionFailed su (tm_id meta) k (''start harness: '' @ error_text (su_actor su k) e) m1
                 | None \<Rightarrow>
                     emit_to su k [WorkspaceReady \<lparr>wy_cwd = pv_cwd p, wy_branch = pv_branch p, wy_resources = pv_resources p\<rparr>]
                       (set_phase su (tm_id meta) ''ready'' m1)))"


section \<open>RetryProvision\<close>

definition RetryProvision :: "surroundings \<Rightarrow> string \<Rightarrow> manager \<Rightarrow> manager_error option \<times> manager" where
  "RetryProvision su i m =
     (case (case Peek i m of Some k \<Rightarrow> (Inr k, m) | None \<Rightarrow> Get su i m) of
        (Inl e, m1) \<Rightarrow> (Some e, m1)
      | (Inr k, m1) \<Rightarrow>
          (case Thread i (mg_store m1) of
             Inl e \<Rightarrow> (Some (StoreFailed e), m1)
           | Inr meta \<Rightarrow>
               if tm_phase meta \<noteq> ''provision_failed'' then
                 (Some (Refused ''thread is not awaiting provisioning''), m1)
               else case threadFolder su meta (mg_store m1) of
                      Inl e \<Rightarrow> (Some e, m1)
                    | Inr f \<Rightarrow> (None, spawn (ProvisionJob meta f k) (set_phase su i ''provisioning'' m1))))"

section \<open>Cleanup\<close>

definition Dispose_live :: "surroundings \<Rightarrow> string \<Rightarrow> string \<Rightarrow> manager \<Rightarrow> manager" where
  "Dispose_live su i reason m =
     (case Peek i m of None \<Rightarrow> m | Some k \<Rightarrow> Dispose su k reason m)"

text \<open>A process-less actor that keeps the output of the cleanup attachable.\<close>

definition cleanup_actor :: "surroundings \<Rightarrow> thread_meta \<Rightarrow> manager \<Rightarrow> nat \<times> manager" where
  "cleanup_actor su meta m =
     (case cleanupAdapter (su_env su) (mg_registry m) meta of
        (ad, env) \<Rightarrow> adopt (RestorePending (mg_store m) ad meta env) m)"

definition Cleanup :: "surroundings \<Rightarrow> string \<Rightarrow> manager \<Rightarrow> manager_error option \<times> manager" where
  "Cleanup su i m =
     (case Thread i (mg_store m) of
        Inl e \<Rightarrow> (Some (StoreFailed e), m)
      | Inr meta \<Rightarrow>
          if tm_projectID meta = [] then closeLocked su i ''closed by user'' m
          else if tm_phase meta = ''cleaning'' then (Some (Refused ''workspace cleanup is already running''), m)
          else if tm_phase meta = ''closed'' then (None, m)
          else case threadFolder su meta (mg_store m) of
                 Inl e \<Rightarrow> (Some e, m)
               | Inr f \<Rightarrow>
                   (case cleanup_actor su meta (set_phase su i ''cleaning'' (Dispose_live su i ''cleaning workspace'' m)) of
                      (k, m1) \<Rightarrow>
                        (None, spawn (CleanupJob meta f k False (tm_workspaceMode meta = ''managed'')) m1)))"

text \<open>\<open>cleanup\<close>: up to the last look at who else is in the checkout; the removal; what becomes of it.\<close>

definition cleanup :: "surroundings \<Rightarrow> thread_meta \<Rightarrow> folder \<Rightarrow> nat \<Rightarrow> bool \<Rightarrow> bool \<Rightarrow> manager \<Rightarrow> manager" where
  "cleanup su meta f k purge_it remove m =
     (let m1 = purge su (tm_cwd meta) (tm_id meta) (set_phase su (tm_id meta) ''cleaning''
                 (emit_to su k [WorkspaceCleanupStarted purge_it remove] m));
          remove1 = (remove \<and> tm_workspaceMode meta \<noteq> ''local''
                     \<and> otherThreadIn su (tm_id meta) (tm_cwd meta) m1 = None)
      in spawn (CleanupRun meta f k purge_it remove1) m1)"

definition runDeprovisionHook ::
  "surroundings \<Rightarrow> thread_meta \<Rightarrow> folder \<Rightarrow> nat \<Rightarrow> manager \<Rightarrow> string option \<times> manager" where
  "runDeprovisionHook su meta f k m =
     (case os_stateDir (su_host su) (tm_id meta) of
        Inl e \<Rightarrow> (Some e, m)
      | Inr stateDir \<Rightarrow>
          (case ResolveHook (su_host su) (mg_calls m) (fo_path f) (tm_deprovisionScript meta) of
             Inl e \<Rightarrow> (Some e, m)
           | Inr hook \<Rightarrow>
               let context = join_path [stateDir, ''deprovision-context.json''];
                   result = join_path [stateDir, ''deprovision-result.json''];
                   args = (if isCompatibilityHook hook ''teardown''
                           then [if tm_branch meta = [] then base_name (tm_cwd meta) else tm_branch meta] else [])
               in case write_json su context
                         (context_json meta f (baseRefFor meta f) [] (tm_provisionResult meta)) m of
                    (Some e, m1) \<Rightarrow> (Some e, m1)
                  | (None, m1) \<Rightarrow>
                      run_hook su k ''deprovision'' (fo_path f) hook args
                        (hook_env ''deprovision'' (tm_id meta) (fo_path f) context result stateDir (baseRefFor meta f))
                        (fo_deprovisionTimeout f) m1))"

definition remove_checkout ::
  "surroundings \<Rightarrow> thread_meta \<Rightarrow> folder \<Rightarrow> nat option \<Rightarrow> bool \<Rightarrow> manager \<Rightarrow> string option \<times> manager" where
  "remove_checkout su meta f actor allow m =
     (case removeGitWorktree (su_host su) meta f (actor \<noteq> None) allow (mg_calls m) of
        (err, evs, t) \<Rightarrow>
          (err, case actor of None \<Rightarrow> m\<lparr>mg_calls := t\<rparr> | Some k \<Rightarrow> emit_to su k evs (m\<lparr>mg_calls := t\<rparr>)))"

definition cleanup_run ::
  "surroundings \<Rightarrow> thread_meta \<Rightarrow> folder \<Rightarrow> nat \<Rightarrow> bool \<Rightarrow> bool \<Rightarrow> manager \<Rightarrow> manager" where
  "cleanup_run su meta f k purge_it remove m =
     (if \<not> remove then spawn (CleanupEnd meta k purge_it ''deprovision'' None) m
      else if tm_deprovisionScript meta \<noteq> [] then
        (case runDeprovisionHook su meta f k m of
           (err, m1) \<Rightarrow> spawn (CleanupEnd meta k purge_it ''deprovision'' err) m1)
      else case remove_checkout su meta f (Some k) False m of
             (err, m1) \<Rightarrow> spawn (CleanupEnd meta k purge_it ''worktree-remove'' err) m1)"

definition delete_row :: "string \<Rightarrow> manager \<Rightarrow> manager" where
  "delete_row i m = did (PurgeThread i) (m\<lparr>mg_store := DeleteThread i (mg_store m)\<rparr>)"

definition cleanup_end ::
  "surroundings \<Rightarrow> thread_meta \<Rightarrow> nat \<Rightarrow> bool \<Rightarrow> string \<Rightarrow> string option \<Rightarrow> manager \<Rightarrow> manager" where
  "cleanup_end su meta k purge_it stage err m =
     (case err of
        Some e \<Rightarrow>
          emit_to su k [WorkspaceCleanupFailed (workspace_failed stage e)]
            (set_phase su (tm_id meta) ''cleanup_failed'' m)
      | None \<Rightarrow>
          let m1 = snd (on_actor su k (Close True ''workspace released'')
                     (emit_to su k [WorkspaceCleanupFinished, WorkspaceReleased] m))
          in if purge_it then delete_row (tm_id meta) m1 else m1)"

section \<open>Deleting\<close>

text \<open>May the checkout go with the thread?\<close>

definition removal_refused :: "surroundings \<Rightarrow> thread_meta \<Rightarrow> manager \<Rightarrow> manager_error option" where
  "removal_refused su meta m =
     (if tm_workspaceMode meta = ''local'' then Some (Refused ''the main checkout is not omniplex's to remove'')
      else map_option (still_used su (tm_cwd meta)) (otherThreadIn su (tm_id meta) (tm_cwd meta) m))"

definition delete_closed ::
  "surroundings \<Rightarrow> thread_meta \<Rightarrow> bool \<Rightarrow> manager \<Rightarrow> manager_error option \<times> manager" where
  "delete_closed su meta remove m =
     (if remove \<and> tm_workspaceMode meta \<noteq> ''local'' then
        (case threadFolder su meta (mg_store m) of
           Inl e \<Rightarrow> (Some e, m)
         | Inr f \<Rightarrow>
             (case remove_checkout su meta f None True m of
                (Some e, m1) \<Rightarrow> (Some (Refused e), m1)
              | (None, m1) \<Rightarrow> (None, delete_row (tm_id meta) m1)))
      else (None, delete_row (tm_id meta) m))"

definition Delete :: "surroundings \<Rightarrow> string \<Rightarrow> bool \<Rightarrow> manager \<Rightarrow> manager_error option \<times> manager" where
  "Delete su i remove m =
     (case Thread i (mg_store m) of
        Inl e \<Rightarrow> (Some (StoreFailed e), m)
      | Inr meta \<Rightarrow>
          if remove \<and> removal_refused su meta m \<noteq> None then (removal_refused su meta m, m)
          else if tm_phase meta = ''closed'' then delete_closed su meta remove m
          else if tm_projectID meta = [] then
            (case closeLocked su i ''deleted'' m of
               (Some e, m1) \<Rightarrow> (Some e, m1)
             | (None, m1) \<Rightarrow> (None, delete_row i m1))
          else if tm_phase meta = ''cleaning'' then (Some (Refused ''workspace cleanup is already running''), m)
          else case threadFolder su meta (mg_store m) of
                 Inl e \<Rightarrow> (Some e, m)
               | Inr f \<Rightarrow>
                   (case cleanup_actor su meta (set_phase su i ''cleaning''
                           (purge su (tm_cwd meta) i (Dispose_live su i ''deleting thread'' m))) of
                      (k, m1) \<Rightarrow> (None, spawn (CleanupJob meta f k True remove) m1)))"

definition ForceDelete :: "surroundings \<Rightarrow> string \<Rightarrow> manager \<Rightarrow> manager_error option \<times> manager" where
  "ForceDelete su i m =
     (case Thread i (mg_store m) of
        Inl e \<Rightarrow> (Some (StoreFailed e), m)
      | Inr meta \<Rightarrow>
          if tm_phase meta \<noteq> ''cleanup_failed'' then
            (Some (Refused ''force delete is only available after teardown fails''), m)
          else case threadFolder su meta (mg_store m) of
                 Inl e \<Rightarrow> (Some e, m)
               | Inr f \<Rightarrow>
                   (case (if tm_workspaceMode meta \<noteq> ''managed'' then (None, m)
                          else case otherThreadIn su i (tm_cwd meta) m of
                                 Some holder \<Rightarrow> (Some (still_used su (tm_cwd meta) holder), m)
                               | None \<Rightarrow>
                                   (case remove_checkout su meta f None True m of
                                      (err, m1) \<Rightarrow> (map_option Refused err, m1))) of
                      (Some e, m1) \<Rightarrow> (Some e, m1)
                    | (None, m1) \<Rightarrow> (None, delete_row i (Dispose_live su i ''force deleted'' m1))))"


section \<open>Switching account\<close>

definition switch_target ::
  "surroundings \<Rightarrow> manager \<Rightarrow> thread_meta \<Rightarrow> string
   \<Rightarrow> string + (instance_conf \<times> string \<times> (env \<Rightarrow> env \<Rightarrow> string \<Rightarrow> string \<Rightarrow> string option))" where
  "switch_target su m meta i =
     (case lookup_instance i (mg_registry m) of
        None \<Rightarrow> Inl (''unknown account '' @ os_quote (su_host su) i)
      | Some r \<Rightarrow>
          if in_driver (ri_inst r) \<noteq> tm_harness meta then
            Inl (in_displayName (ri_inst r) @ '' is not a '' @ tm_harness meta
              @ '' account; a thread can only switch between accounts of its own harness'')
          else if \<not> in_enabled (ri_inst r) then Inl (in_displayName (ri_inst r) @ '' is disabled'')
          else case ri_adapter r of
                 None \<Rightarrow> Inl (''no '' @ os_quote (su_host su) (in_driver (ri_inst r)) @ '' driver in this build'')
               | Some ad \<Rightarrow>
                   (case su_move su (mg_tick m) ad of
                      None \<Rightarrow> Inl ''this harness cannot move a conversation to another account''
                    | Some mv \<Rightarrow> Inr (ri_inst r, ad, mv)))"

text \<open>
  The row is given the new account once the conversation has moved, before the log hears of it:
  when the actor answers without an error it ran with the row already written.
\<close>

definition ask_switch ::
  "surroundings \<Rightarrow> nat \<Rightarrow> string \<Rightarrow> string \<Rightarrow> account_switch \<Rightarrow> manager \<Rightarrow> manager_error option \<times> manager" where
  "ask_switch su k i inst sw m =
     (case on_actor su k (SwitchAccount sw) (with_store (\<lambda>now. SetProviderInstance now i inst) su m) of
        (rep, m1) \<Rightarrow>
          (case error_of rep of
             None \<Rightarrow> (None, m1)
           | Some e \<Rightarrow> (Some (ActorFailed e), snd (on_actor su k (SwitchAccount sw) m))))"

definition SwitchAccount_thread ::
  "surroundings \<Rightarrow> string \<Rightarrow> string \<Rightarrow> manager \<Rightarrow> manager_error option \<times> manager" where
  "SwitchAccount_thread su i inst m =
     (case Thread i (mg_store m) of
        Inl e \<Rightarrow> (Some (StoreFailed e), m)
      | Inr meta \<Rightarrow>
          if tm_phase meta \<noteq> ''idle'' then
            (Some (Refused (''a thread can only switch account while idle (it is '' @ tm_phase meta @ '')'')), m)
          else case instanceFor (mg_registry m) meta of
                 Inl e \<Rightarrow> (Some (Refused e), m)
               | Inr from_it \<Rightarrow>
                   if in_id (ri_inst from_it) = inst then (None, m)
                   else case switch_target su m meta inst of
                          Inl e \<Rightarrow> (Some (Refused e), m)
                        | Inr (conf, ad, mv) \<Rightarrow>
                            (case (su_env su (ri_inst from_it), su_env su conf) of
                               (Inr fromEnv, Inr toEnv) \<Rightarrow>
                                 (case View su i m of
                                    (Inl e, m1) \<Rightarrow> (Some e, m1)
                                  | (Inr k, m1) \<Rightarrow>
                                      ask_switch su k i inst
                                        \<lparr>sw_adapter = ad, sw_env = toEnv, sw_move = mv fromEnv toEnv (tm_cwd meta),
                                         sw_changed = \<lparr>ac_from = in_id (ri_inst from_it), ac_to = in_id conf,
                                           ac_fromName = in_displayName (ri_inst from_it),
                                           ac_toName = in_displayName conf\<rparr>\<rparr> m1)
                             | (Inl e, _) \<Rightarrow> (Some (Refused e), m)
                             | (Inr _, Inl e) \<Rightarrow> (Some (Refused e), m)))"

section \<open>Projects\<close>

definition hook_outside :: "string \<Rightarrow> bool" where
  "hook_outside hook \<longleftrightarrow> hook \<noteq> [] \<and> (is_abs hook \<or> cut_prefix ''..'' (clean hook) \<noteq> None)"

definition ValidateFolder :: "folder \<Rightarrow> string option" where
  "ValidateFolder f =
     (if hook_outside (fo_provision f) then
        Some (''provision hook must be a path inside '' @ base_name (fo_path f))
      else if hook_outside (fo_deprovision f) then
        Some (''deprovision hook must be a path inside '' @ base_name (fo_path f))
      else None)"

definition SaveProject ::
  "surroundings \<Rightarrow> string \<Rightarrow> string \<Rightarrow> defaults \<Rightarrow> manager \<Rightarrow> (manager_error + project) \<times> manager" where
  "SaveProject su i name d m =
     (case Project (os_isGit (su_host su)) i (mg_store m) of
        Inl e \<Rightarrow> (Inl (StoreFailed e), m)
      | Inr p \<Rightarrow>
          let now = su_now su (mg_tick m);
              p1 = p\<lparr>pj_name := or_default (trim_space name) (pj_name p), pj_defaults := NormalizeDefaults d,
                     pj_updatedAt := now\<rparr>
          in case UpdateProject now p1 (mg_store m) of
               Inl e \<Rightarrow> (Inl (StoreFailed e), pass m)
             | Inr st \<Rightarrow>
                 (map_sum StoreFailed id (Project (os_isGit (su_host su)) i st), pass (m\<lparr>mg_store := st\<rparr>)))"

definition SaveFolder ::
  "surroundings \<Rightarrow> string \<Rightarrow> folder \<Rightarrow> manager \<Rightarrow> (manager_error + project) \<times> manager" where
  "SaveFolder su pid f m =
     (case folder_in su pid (fo_id f) (mg_store m) of
        Inl e \<Rightarrow> (Inl e, m)
      | Inr (_, current) \<Rightarrow>
          let f1 = NormalizeFolder (f\<lparr>fo_path := fo_path current\<rparr>)
          in case ValidateFolder f1 of
               Some e \<Rightarrow> (Inl (Refused e), m)
             | None \<Rightarrow>
                 (case UpdateFolder pid f1 (mg_store m) of
                    Inl e \<Rightarrow> (Inl (StoreFailed e), m)
                  | Inr st \<Rightarrow>
                      (map_sum StoreFailed id (Project (os_isGit (su_host su)) pid st), m\<lparr>mg_store := st\<rparr>)))"

definition DeleteProject_named :: "string \<Rightarrow> manager \<Rightarrow> manager_error option \<times> manager" where
  "DeleteProject_named i m =
     (case DeleteProject i (mg_store m) of
        Inl e \<Rightarrow> (Some (StoreFailed e), m)
      | Inr st \<Rightarrow> (None, m\<lparr>mg_store := st\<rparr>))"

section \<open>Schedules\<close>

text \<open>One round of the scheduler: every thread with a prompt that is due.\<close>

definition tick_thread :: "surroundings \<Rightarrow> string \<Rightarrow> manager \<Rightarrow> manager" where
  "tick_thread su i m =
     (case View su i m of
        (Inl e, m1) \<Rightarrow> m1
      | (Inr k, m1) \<Rightarrow> snd (on_actor su k (ScheduleTick (su_now su (mg_tick m1))) (pass m1)))"

definition scheduler_round :: "surroundings \<Rightarrow> manager \<Rightarrow> manager" where
  "scheduler_round su m =
     foldl (\<lambda>m i. tick_thread su i m) (pass m) (DueScheduleThreads (su_now su (mg_tick m)) (mg_store m))"

section \<open>The program\<close>

definition run_task :: "surroundings \<Rightarrow> task \<Rightarrow> manager \<Rightarrow> manager" where
  "run_task su j m =
     (case j of
        RecoverJob k \<Rightarrow> recoverActor su k m
      | ProvisionJob meta f k \<Rightarrow> provision su meta f k m
      | ProvisionEnd meta f k r \<Rightarrow> provision_end su meta f k r m
      | CleanupJob meta f k purge_it remove \<Rightarrow> cleanup su meta f k purge_it remove m
      | CleanupRun meta f k purge_it remove \<Rightarrow> cleanup_run su meta f k purge_it remove m
      | CleanupEnd meta k purge_it stage err \<Rightarrow> cleanup_end su meta k purge_it stage err m)"

definition take_task :: "nat \<Rightarrow> manager \<Rightarrow> manager" where
  "take_task n m = m\<lparr>mg_jobs := take n (mg_jobs m) @ drop (Suc n) (mg_jobs m)\<rparr>"

definition NewManager :: "db \<Rightarrow> registry \<Rightarrow> manager" where
  "NewManager d g =
     \<lparr>mg_store = d, mg_registry = g, mg_actors = [], mg_serial = 0, mg_ready = [], mg_calls = [],
      mg_jobs = [], mg_tick = 0\<rparr>"

end
