(* ===== verification/InstanceProps.thy ===== *)
theory InstanceProps
  imports Lifecycle StoreProps
begin

text \<open>
  What a thread may count on from the registry of accounts (internal/thread/manager.go,
  internal/thread/instances.go): however the configuration changes, its account stays one of its
  own harness, or is missing.
\<close>

lemma lookup_key: "lookup_instance i g = Some r \<Longrightarrow> in_id (ri_inst r) = i \<and> r \<in> set (rg_instances g)"
  by (auto simp: lookup_instance_def instance_key_def dest: find_SomeD)

lemma lookup_adapter: "registry_ok g \<Longrightarrow> lookup_instance i g = Some r \<Longrightarrow> adapter_ok g r"
  using lookup_key [of i g r] by (simp add: registry_ok_def list_all_iff)

text \<open>The registry of a server started on one list of accounts, after it has written others.\<close>

definition configured :: "(string \<times> string) list \<Rightarrow> instance_conf list \<Rightarrow> instance_conf list list \<Rightarrow> registry" where
  "configured ads first iss = foldl (\<lambda>g is. applyInstances is g) (ConfigureInstances first (NewRegistry ads)) iss"

lemma configured_last: "configured ads first iss = ConfigureInstances (last (first # iss)) (NewRegistry ads)"
proof (induction iss rule: rev_induct)
  case (snoc "is" iss)
  have "rg_drivers (configured ads first iss) = ads"
    unfolding snoc.IH by (simp add: ConfigureInstances_def drivers_NewRegistry)
  then show ?case by (simp add: configured_def applied_registry)
qed (simp add: configured_def)

lemma configured_ok: "registry_ok (configured ads first iss) \<and> rg_drivers (configured ads first iss) = ads"
  by (simp add: configured_last ConfigureInstances_def registry_ok_configure NewRegistry_ok drivers_NewRegistry)

lemma lookup_new:
  "lookup_instance i (NewRegistry ads)
    = (if i \<in> fst ` set ads then Some (default_entry i (driver_name (NewRegistry ads) i)) else None)"
proof (induction ads rule: rev_induct)
  case (snoc a ads)
  obtain j n where a: "a = (j, n)" by (cases a)
  have same: "lookup_instance i (g\<lparr>rg_drivers := d\<rparr>) = lookup_instance i g" for g d by (simp add: lookup_instance_def)
  have "NewRegistry (ads @ [a]) = register (default_entry j n)
      ((NewRegistry ads)\<lparr>rg_drivers := rg_drivers (NewRegistry ads) @ [(j, n)]\<rparr>)"
    by (simp add: NewRegistry_def a)
  then have "lookup_instance i (NewRegistry (ads @ [a]))
      = (if i = j then Some (default_entry j n) else lookup_instance i (NewRegistry ads))"
    by (simp add: lookup_register same)
  moreover have "driver_name (NewRegistry (ads @ [a])) i = (if i = j then n else driver_name (NewRegistry ads) i)"
    by (simp add: driver_name_def drivers_NewRegistry a)
  ultimately show ?case using snoc by (auto simp: a)
qed (simp add: NewRegistry_def lookup_instance_def)

text \<open>What an id stands for after a list has been applied.\<close>

lemma configured_lookup:
  "lookup_instance i (configured ads first iss) =
    (if i \<in> fst ` set ads
     then (case List.find (\<lambda>c. in_id c = i \<and> in_driver c = i) (last (first # iss)) of
             None \<Rightarrow> Some (default_entry i (driver_name (NewRegistry ads) i))
           | Some c \<Rightarrow> Some (entry_of (NewRegistry ads) c))
     else map_option (entry_of (NewRegistry ads)) (List.find (\<lambda>c. in_id c = i) (last (first # iss))))"
  unfolding configured_last ConfigureInstances_def
  by (subst configure_lookup) (simp_all add: lookup_new default_entry_def default_instance_def split: option.split)

text \<open>
  C37: an account a thread resolves to is typed by the thread's harness: it has the thread's account
  id and the adapter of that harness, which this build has.  After any list of accounts the server
  writes and applies, and equally after a restart on that list, the thread resolves to an account of
  the same id and the same harness, the default account of the harness always among them; or it is
  refused, and that only where the list's first entry of that id is of another driver, or there is
  none and the account is reported missing.  A switch of account, from whatever account, only ever
  leads to another of that harness.
\<close>

theorem instance_keeps_harness:
  assumes "instanceFor (configured ads first iss) meta = Inr r"
    and "i = (if tm_providerInstance meta = [] then tm_harness meta else tm_providerInstance meta)"
    and "g' = applyInstances insts (configured ads first iss)"
  shows "in_id (ri_inst r) = i \<and> ri_adapter r = Some (tm_harness meta) \<and> tm_harness meta \<in> fst ` set ads
    \<and> g' = ConfigureInstances insts (NewRegistry ads)
    \<and> (case instanceFor g' meta of
         Inr r' \<Rightarrow> in_id (ri_inst r') = i \<and> ri_adapter r' = Some (tm_harness meta)
           \<and> (if i = tm_harness meta then True else List.find (\<lambda>c. in_id c = i) insts = Some (ri_inst r'))
       | Inl e \<Rightarrow> i \<noteq> tm_harness meta
           \<and> (case List.find (\<lambda>c. in_id c = i) insts of
                None \<Rightarrow> e = ''unknown provider instance '' @ i
              | Some c \<Rightarrow> in_driver c \<noteq> tm_harness meta
                  \<and> e = ''provider instance '' @ i @ '' now runs driver '' @ in_driver c
                         @ '', but this thread was created on '' @ tm_harness meta))
    \<and> (case switch_target su (m\<lparr>mg_registry := configured ads first iss\<rparr>) meta j of
         Inl e \<Rightarrow> True
       | Inr (conf, ad, mv) \<Rightarrow> in_id conf = j \<and> in_enabled conf \<and> in_driver conf = tm_harness meta \<and> ad = tm_harness meta)"
proof -
  let ?g = "configured ads first iss" and ?h = "tm_harness meta"
  have ok: "registry_ok ?g" and drivers: "rg_drivers ?g = ads" using configured_ok by auto
  from assms(1,2) have r: "lookup_instance i ?g = Some r" "in_driver (ri_inst r) = ?h" "ri_adapter r \<noteq> None"
    by (auto simp: instanceFor_def Let_def split: option.splits if_splits)
  have id: "in_id (ri_inst r) = i" using lookup_key [OF r(1)] by simp
  have adapter: "ri_adapter r = Some ?h" "?h \<in> fst ` set ads"
    using lookup_adapter [OF ok r(1)] r(2,3) drivers by (auto simp: adapter_ok_def has_driver_def split: if_splits)
  have own: "i = ?h" if "i \<in> fst ` set ads"
    using r(1,2) that
    by (auto simp: configured_lookup entry_of_def default_entry_def default_instance_def dest: find_SomeD split: option.splits)
  have again: "g' = configured ads insts []" "g' = ConfigureInstances insts (NewRegistry ads)"
    unfolding assms(3) applied_registry drivers by (simp_all add: configured_last)
  have has: "has_driver (NewRegistry ads) d \<longleftrightarrow> d \<in> fst ` set ads" for d
    by (simp add: has_driver_def drivers_NewRegistry)
  have resolved: "case instanceFor g' meta of
         Inr r' \<Rightarrow> in_id (ri_inst r') = i \<and> ri_adapter r' = Some ?h
           \<and> (if i = ?h then True else List.find (\<lambda>c. in_id c = i) insts = Some (ri_inst r'))
       | Inl e \<Rightarrow> i \<noteq> ?h
           \<and> (case List.find (\<lambda>c. in_id c = i) insts of
                None \<Rightarrow> e = ''unknown provider instance '' @ i
              | Some c \<Rightarrow> in_driver c \<noteq> ?h
                  \<and> e = ''provider instance '' @ i @ '' now runs driver '' @ in_driver c
                         @ '', but this thread was created on '' @ ?h)"
  proof (cases "i = ?h")
    case True
    have "i \<in> fst ` set ads" using adapter(2) True by simp
    then have look: "lookup_instance i g' = (case List.find (\<lambda>c. in_id c = i \<and> in_driver c = i) insts of
        None \<Rightarrow> Some (default_entry i (driver_name (NewRegistry ads) i)) | Some c \<Rightarrow> Some (entry_of (NewRegistry ads) c))"
      by (simp add: again(1) configured_lookup)
    obtain r' where "lookup_instance i g' = Some r'" "in_id (ri_inst r') = i" "in_driver (ri_inst r') = ?h"
      "ri_adapter r' = Some ?h"
    proof (cases "List.find (\<lambda>c. in_id c = i \<and> in_driver c = i) insts")
      case None
      with look that [of "default_entry i (driver_name (NewRegistry ads) i)"] True show ?thesis
        by (simp add: default_entry_def default_instance_def)
    next
      case (Some c)
      then have "in_id c = i" "in_driver c = i" by (auto dest: find_SomeD)
      with look Some that [of "entry_of (NewRegistry ads) c"] True adapter(2) show ?thesis by (simp add: entry_of_def has)
    qed
    with True show ?thesis unfolding instanceFor_def Let_def assms(2) [symmetric] by simp
  next
    case False
    then have look: "lookup_instance i g' = map_option (entry_of (NewRegistry ads)) (List.find (\<lambda>c. in_id c = i) insts)"
      using own by (auto simp: again(1) configured_lookup)
    show ?thesis
      unfolding instanceFor_def Let_def assms(2) [symmetric] look
      using False adapter(2) by (auto simp: entry_of_def has dest: find_SomeD split: option.split)
  qed
  have switch: "case switch_target su (m\<lparr>mg_registry := ?g\<rparr>) meta j of
         Inl e \<Rightarrow> True
       | Inr (conf, ad, mv) \<Rightarrow> in_id conf = j \<and> in_enabled conf \<and> in_driver conf = ?h \<and> ad = ?h"
    using lookup_key [of j ?g] lookup_adapter [OF ok, of j]
    by (auto simp: switch_target_def adapter_ok_def split: sum.splits option.splits if_splits)
  from id adapter again(2) resolved switch show ?thesis by blast
qed

definition sample_account :: instance_conf where
  "sample_account =
     \<lparr>in_id = ''work'', in_driver = ''pi'', in_displayName = ''Work'', in_enabled = True, in_configured = True\<rparr>"

definition sample_member :: thread_meta where
  "sample_member = (sample_thread ''t1'')\<lparr>tm_providerInstance := ''work''\<rparr>"

text \<open>The account is removed from the list while the server runs.\<close>

theorem instance_keeps_harness_witness:
  "instanceFor (applyInstances [] (configured [(''pi'', ''Pi'')] [sample_account] [])) sample_member
     = Inl ''unknown provider instance work''
   \<and> (case instanceFor (applyInstances [sample_account] (configured [(''pi'', ''Pi'')] [sample_account] [])) sample_member of
        Inl e \<Rightarrow> False | Inr r \<Rightarrow> ri_adapter r = Some ''pi'')"
proof -
  let ?g = "configured [(''pi'', ''Pi'')] [sample_account] []"
  have "case instanceFor ?g sample_member of Inl e \<Rightarrow> False | Inr r \<Rightarrow> in_id (ri_inst r) = ''work''" by code_simp
  then obtain r where r: "instanceFor ?g sample_member = Inr r" by (auto split: sum.splits)
  have member: "tm_harness sample_member = ''pi''" "tm_providerInstance sample_member = ''work''"
    "in_id sample_account = ''work''" "in_driver sample_account = ''pi''" by code_simp+
  have gone: "case instanceFor (applyInstances [] ?g) sample_member of Inl e \<Rightarrow> True | Inr q \<Rightarrow> False" by code_simp
  note kept = instance_keeps_harness [OF r refl refl, THEN conjunct2, THEN conjunct2, THEN conjunct2, THEN conjunct2,
      THEN conjunct1, unfolded member]
  from kept [of "[]"] gone have "instanceFor (applyInstances [] ?g) sample_member = Inl ''unknown provider instance work''"
    by (auto split: sum.splits)
  moreover from kept [of "[sample_account]"] member(3,4)
  have "case instanceFor (applyInstances [sample_account] ?g) sample_member of Inl e \<Rightarrow> False | Inr q \<Rightarrow> ri_adapter q = Some ''pi''"
    by (auto split: sum.splits)
  ultimately show ?thesis by simp
qed

end
