(* ===== verification/ManagerInv.thy ===== *)
theory ManagerInv
  imports Lifecycle ActorInv
begin

text \<open>
  What holds of the manager between any two operations: the store is one the server can have, no
  thread has two live actors, and every live actor whose thread still has a row mirrors that
  thread's log in the one shared store, whatever the other actors wrote to it meanwhile.
\<close>

section \<open>Who writes what\<close>

definition thread_ids :: "db \<Rightarrow> string set" where
  "thread_ids d = tm_id ` set (db_threads d)"

definition sound :: "db \<Rightarrow> bool" where
  "sound d \<longleftrightarrow> store_reachable d \<and> snapshots_ok d"

text \<open>From \<open>d\<close> to \<open>d'\<close> only thread \<open>i\<close> gained or lost a log or a row.\<close>

definition writes :: "string \<Rightarrow> db \<Rightarrow> db \<Rightarrow> bool" where
  "writes i d d' \<longleftrightarrow> sound d'
     \<and> (\<forall>t. t \<noteq> i \<longrightarrow> log_of t d' = log_of t d \<and> (t \<in> thread_ids d' \<longrightarrow> t \<in> thread_ids d))"

text \<open>No log changed and no thread came or went.\<close>

definition beside :: "db \<Rightarrow> db \<Rightarrow> bool" where
  "beside d d' \<longleftrightarrow> sound d' \<and> (\<forall>t. log_of t d' = log_of t d) \<and> thread_ids d' = thread_ids d"

lemma writes_refl: "sound d \<Longrightarrow> writes i d d"
  by (simp add: writes_def)

lemma writes_trans: "writes i a b \<Longrightarrow> writes i b c \<Longrightarrow> writes i a c"
  by (auto simp: writes_def)

lemma writes_sound: "writes i d d' \<Longrightarrow> sound d'"
  by (simp add: writes_def)

lemma beside_writes: "beside d d' \<Longrightarrow> writes i d d'"
  by (simp add: writes_def beside_def)

lemma snapshots_ok_logs:
  "db_snapshots d' = db_snapshots d \<Longrightarrow> (\<And>t. log_of t d' = log_of t d) \<Longrightarrow> snapshots_ok d' = snapshots_ok d"
  by (simp add: snapshots_ok_def snapshot_ok_def)

lemma thread_ids_map: "map tm_id (db_threads d') = map tm_id (db_threads d) \<Longrightarrow> thread_ids d' = thread_ids d"
  unfolding thread_ids_def by (metis list.set_map)

lemma besideI:
  assumes "sound d" and "store_step d d'" and "db_events d' = db_events d"
    and "db_snapshots d' = db_snapshots d" and "map tm_id (db_threads d') = map tm_id (db_threads d)"
  shows "beside d d'"
proof -
  have log: "log_of t d' = log_of t d" for t using assms(3) by (simp add: log_of_def)
  have "store_reachable d'" using assms(1,2) by (auto simp: sound_def intro: store_reachable.step)
  moreover have "snapshots_ok d'" using assms(1) snapshots_ok_logs [OF assms(4) log] by (simp add: sound_def)
  ultimately show ?thesis using log thread_ids_map [OF assms(5)] by (simp add: beside_def sound_def)
qed

lemma beside_rows:
  assumes "sound d"
  shows "beside d (SetPhase now i ph d)" "beside d (SetTitle i t d)" "beside d (SetProviderInstance now i inst d)"
    "beside d (UpdateWorkspace now i cwd branch ph r d)"
proof -
  show "beside d (SetPhase now i ph d)"
    by (rule besideI [OF assms store_step.set_phase]) (simp_all add: SetPhase_def thread_ids_update update_thread_def update_where_def)
  show "beside d (SetTitle i t d)"
    by (rule besideI [OF assms store_step.set_title]) (simp_all add: SetTitle_def update_thread_def update_where_def)
  show "beside d (SetProviderInstance now i inst d)"
    by (rule besideI [OF assms store_step.set_instance]) (simp_all add: SetProviderInstance_def update_thread_def update_where_def)
  show "beside d (UpdateWorkspace now i cwd branch ph r d)"
    by (rule besideI [OF assms store_step.update_workspace]) (simp_all add: UpdateWorkspace_def update_thread_def update_where_def)
qed

lemma beside_projects:
  assumes "sound d"
  shows "SetProjectHome i home d = Inr d' \<Longrightarrow> beside d d'" "UpdateProject now p d = Inr d' \<Longrightarrow> beside d d'"
    "UpdateFolder pid f d = Inr d' \<Longrightarrow> beside d d'" "DeleteProject i d = Inr d' \<Longrightarrow> beside d d'"
proof -
  show "beside d d'" if "SetProjectHome i home d = Inr d'"
    by (rule besideI [OF assms store_step.set_home [OF that]])
      (use that in \<open>auto simp: SetProjectHome_def update_project_found_def map_sum_def split: sum.splits\<close>)
  show "beside d d'" if "UpdateProject now p d = Inr d'"
    by (rule besideI [OF assms store_step.update_project [OF that]])
      (use that in \<open>auto simp: UpdateProject_def update_project_found_def map_sum_def split: sum.splits\<close>)
  show "beside d d'" if "UpdateFolder pid f d = Inr d'"
    by (rule besideI [OF assms store_step.update_folder [OF that]])
      (use that in \<open>auto simp: UpdateFolder_def map_sum_def Let_def split: sum.splits\<close>)
  show "beside d d'" if "DeleteProject i d = Inr d'"
    by (rule besideI [OF assms store_step.delete_project [OF that]])
      (use that in \<open>auto simp: DeleteProject_def Let_def split: if_splits\<close>)
qed

lemma writes_DeleteThread:
  assumes "sound d"
  shows "writes i d (DeleteThread i d)" and "i \<notin> thread_ids (DeleteThread i d)"
proof -
  have log: "log_of t (DeleteThread i d) = log_of t d" if "t \<noteq> i" for t
    using that by (auto simp: DeleteThread_def log_of_def filter_filter intro!: filter_cong)
  have "snapshots_ok (DeleteThread i d)"
    using assms log by (auto simp: sound_def snapshots_ok_def snapshot_ok_def) (auto simp: DeleteThread_def log)
  moreover have "store_reachable (DeleteThread i d)"
    using assms by (auto simp: sound_def intro: store_reachable.step store_step.delete_thread)
  moreover have ids: "thread_ids (DeleteThread i d) = thread_ids d - {i}"
    by (auto simp: thread_ids_def DeleteThread_def)
  ultimately show "writes i d (DeleteThread i d)" using log by (simp add: writes_def sound_def)
  show "i \<notin> thread_ids (DeleteThread i d)" by (simp add: ids)
qed

lemma writes_CreateThread:
  assumes "sound d" and "CreateThread m d = Inr d'"
  shows "writes (tm_id m) d d'" and "tm_id m \<in> thread_ids d'" and "log_of (tm_id m) d' = []"
proof -
  have d': "d' = d\<lparr>db_threads := db_threads d @ [inserted_thread m (db_threads d)]\<rparr>" and new: "tm_id m \<notin> thread_ids d"
    using assms(2) by (auto simp: CreateThread_def thread_ids_def list_ex_iff split: if_splits)
  have log: "log_of t d' = log_of t d" for t by (simp add: d' log_of_def)
  have "snapshots_ok d'" using assms(1) log by (simp add: sound_def snapshots_ok_def snapshot_ok_def) (simp add: d')
  moreover have "store_reachable d'"
    using assms by (auto simp: sound_def intro: store_reachable.step store_step.create_thread)
  moreover have ids: "thread_ids d' = insert (tm_id m) (thread_ids d)"
    by (auto simp: thread_ids_def d' inserted_thread_def)
  ultimately show "writes (tm_id m) d d'" "tm_id m \<in> thread_ids d'"
    using log by (simp_all add: writes_def sound_def)
  show "log_of (tm_id m) d' = []"
    using log log_of_unknown [of d "tm_id m"] new assms(1)
    by (simp add: sound_def thread_ids_def reachable_threads)
qed

section \<open>An actor writes to its own thread\<close>

definition live_ok :: "actor \<Rightarrow> bool" where
  "live_ok a \<longleftrightarrow> (a_id a \<in> thread_ids (a_store a) \<longrightarrow> core_ok a)"

lemma core_ok_sound: "core_ok a \<Longrightarrow> sound (a_store a)"
  by (simp add: core_ok_def store_good_def sound_def)

lemma noticed_ids: "thread_ids (a_store (noticed w prev em ev a)) = thread_ids (a_store a)"
proof -
  have snap: "thread_ids (a_store (snapshot em ev x)) = thread_ids (a_store x)" for x
    by (simp add: snapshot_def thread_ids_def thread_ids_stay)
  have sync: "thread_ids (a_store (sync_phase w prev em x)) = thread_ids (a_store x)" for x
    by (simp add: sync_phase_def Let_def tick_def thread_ids_def thread_ids_stay)
  have told: "a_store (notify_schedule em (notify_attention x)) = a_store x" for x
    by (cases em) (simp_all add: notify_attention_def emit_def)
  show ?thesis by (simp add: noticed_def snap sync told fanout_def Let_def)
qed

lemma append_others:
  shows "t \<noteq> a_id a \<Longrightarrow> log_of t (a_store (snd (append w em a))) = log_of t (a_store a)"
    and "thread_ids (a_store (snd (append w em a))) = thread_ids (a_store a)"
    and "a_id a \<notin> thread_ids (a_store a) \<Longrightarrow> a_store (snd (append w em a)) = a_store a"
proof -
  have track: "a_store (track b x) = a_store x" for b x
    by (cases b) (simp_all add: unsend_def Let_def emit_def)
  show "t \<noteq> a_id a \<Longrightarrow> log_of t (a_store (snd (append w em a))) = log_of t (a_store a)"
    by (auto simp: append_eq track tick_def Append_log_of split: sum.split)
  have ids: "thread_ids d = thread_ids (a_store a)" if "Append now (a_id a) b (a_store a) = Inr (ev, d)" for now b ev d
    using that unfolding Append_Inr by (auto simp: thread_ids_update intro!: thread_ids_map)
  then show "thread_ids (a_store (snd (append w em a))) = thread_ids (a_store a)"
    by (auto simp: append_eq track tick_def noticed_ids split: sum.split)
  show "a_store (snd (append w em a)) = a_store a" if "a_id a \<notin> thread_ids (a_store a)"
  proof -
    have "thread_row (a_store a) (a_id a) = None"
      using that thread_row_None [of "a_store a" "a_id a"] by (simp add: thread_ids_def)
    then show ?thesis by (simp add: append_eq Append_def tick_def)
  qed
qed

lemma append_id [simp]: "a_id (snd (append w em a)) = a_id a"
proof -
  have "a_id (track b x) = a_id x" for b x by (cases b) (simp_all add: unsend_def Let_def emit_def)
  then show ?thesis by (auto simp: append_eq tick_def split: sum.split)
qed

definition steady :: "actor \<Rightarrow> actor \<Rightarrow> bool" where
  "steady a b \<longleftrightarrow> a_id b = a_id a \<and> writes (a_id a) (a_store a) (a_store b)
     \<and> thread_ids (a_store b) = thread_ids (a_store a) \<and> live_ok b"

lemma steadyI:
  assumes "sound (a_store a)" and "live_ok a" and "a_id b = a_id a" and "core_ok a \<Longrightarrow> core_ok b"
    and "\<And>t. t \<noteq> a_id a \<Longrightarrow> log_of t (a_store b) = log_of t (a_store a)"
    and "thread_ids (a_store b) = thread_ids (a_store a)"
    and "a_id a \<notin> thread_ids (a_store a) \<Longrightarrow> sound (a_store b)"
  shows "steady a b"
proof (cases "a_id a \<in> thread_ids (a_store a)")
  case True
  then have "core_ok b" using assms by (simp add: live_ok_def)
  with assms show ?thesis by (auto simp: steady_def writes_def live_ok_def intro: core_ok_sound)
next
  case False
  with assms show ?thesis by (auto simp: steady_def writes_def live_ok_def)
qed

lemma steady_same:
  assumes "sound (a_store a)" and "live_ok a" and "a_id b = a_id a" and "a_store b = a_store a"
    and "core_ok a \<Longrightarrow> core_ok b"
  shows "steady a b"
  by (rule steadyI) (use assms in auto)

lemma steady_move:
  assumes "move w b a a'" and "sound (a_store a)" and "live_ok a"
  shows "steady a a'"
  using assms
proof (induction rule: move.induct)
  case (inner a a')
  then show ?case using core_ok_move [OF move.inner [OF inner(1,2,3)]]
    by (intro steady_same) (simp_all add: same_core_def)
next
  case (phase a now ph)
  show ?case
    by (rule steadyI [OF phase.prems]) (use beside_rows(1) [OF phase.prems(1), of now "a_id a" ph] in
      \<open>auto simp: beside_def intro: core_ok_move [OF move.phase]\<close>)
next
  case (title a t)
  show ?case
    by (rule steadyI [OF title.prems]) (use beside_rows(2) [OF title.prems(1), of "a_id a" t] in
      \<open>auto simp: beside_def intro: core_ok_move [OF move.title]\<close>)
next
  case (append em a)
  then show ?case
    by (intro steadyI) (auto simp: append_others intro: core_ok_move [OF move.append])
next
  case (open_turn a p)
  let ?x = "a\<lparr>a_turnActive := ts_turnID p\<rparr>"
  show ?case
    by (rule steadyI [OF open_turn.prems]) (use open_turn append_others [where a = ?x and w = w and em = "TurnStarted p"] in
      \<open>auto intro: core_ok_move [OF move.open_turn]\<close>)
next
  case (abandon now a em e)
  then show ?case by (intro steady_same) (auto intro: core_ok_move [OF move.abandon])
qed

lemma steady_life:
  assumes "life w a a'" and "sound (a_store a)" and "live_ok a"
  shows "steady a a'"
proof -
  have core: "core_ok a \<Longrightarrow> core_ok a'" by (rule core_ok_life [OF assms(1)])
  from assms(1) show ?thesis
  proof cases
    case moved
    then show ?thesis using assms by (blast intro: steady_move)
  next
    case waited
    then show ?thesis using assms core by (intro steady_same) auto
  next
    case stopped
    then show ?thesis using assms core by (intro steady_same) auto
  next
    case hung_up
    then show ?thesis using assms core by (intro steady_same) (auto simp: close_subscribers_def)
  qed
qed

lemma steady_trans: "steady a b \<Longrightarrow> steady b c \<Longrightarrow> steady a c"
  by (auto simp: steady_def intro: writes_trans)

lemma steady_lives:
  assumes "lives w a a'" and "sound (a_store a)" and "live_ok a"
  shows "steady a a'"
  using assms
proof (induction rule: rtranclp_induct)
  case base
  then show ?case by (intro steady_same) auto
next
  case (step b c)
  then have ab: "steady a b" by simp
  then have "sound (a_store b)" "live_ok b" by (auto simp: steady_def intro: writes_sound)
  with step.hyps(2) have "steady b c" by (rule steady_life)
  with ab show ?case by (rule steady_trans)
qed

lemma lives_run_commands: "lives w a (run_commands w cs a)"
proof (induction cs arbitrary: a)
  case (Cons c cs)
  have "lives w a (snd (run_command w c a))" by (rule lives_run_command)
  also have "lives w \<dots> (run_commands w cs (snd (run_command w c a)))" by (rule Cons.IH)
  finally show ?case by (simp add: run_commands_def)
qed (simp add: run_commands_def)


section \<open>The manager\<close>

definition manager_ok :: "manager \<Rightarrow> bool" where
  "manager_ok m \<longleftrightarrow> sound (mg_store m)
     \<and> distinct (map fst (mg_actors m)) \<and> distinct (map (a_id \<circ> snd) (mg_actors m))
     \<and> (\<forall>k a. (k, a) \<in> set (mg_actors m) \<longrightarrow>
          k < mg_serial m \<and> \<not> a_stopped a \<and> live_ok (a\<lparr>a_store := mg_store m\<rparr>))"

named_theorems manager_intro \<open>operations that keep the manager's invariant\<close>

lemma manager_ok_sound: "manager_ok m \<Longrightarrow> sound (mg_store m)"
  by (simp add: manager_ok_def)

lemma manager_ok_cong:
  assumes "mg_store m' = mg_store m" and "mg_actors m' = mg_actors m" and "mg_serial m' = mg_serial m"
  shows "manager_ok m' = manager_ok m"
  using assms by (simp add: manager_ok_def)

lemma manager_ok_fields [simp]:
  "manager_ok (m\<lparr>mg_calls := t\<rparr>) = manager_ok m" "manager_ok (m\<lparr>mg_jobs := js\<rparr>) = manager_ok m"
  "manager_ok (m\<lparr>mg_tick := n\<rparr>) = manager_ok m" "manager_ok (m\<lparr>mg_registry := g\<rparr>) = manager_ok m"
  "manager_ok (pass m) = manager_ok m" "manager_ok (spawn j m) = manager_ok m"
  "manager_ok (did c m) = manager_ok m" "manager_ok (purge su cwd i m) = manager_ok m"
  "manager_ok (take_task n m) = manager_ok m"
  by (rule manager_ok_cong; simp add: pass_def spawn_def did_def purge_def take_task_def)+

lemma manager_stores [simp]:
  "mg_store (pass m) = mg_store m" "mg_store (spawn j m) = mg_store m" "mg_store (did c m) = mg_store m"
  "mg_store (purge su cwd i m) = mg_store m"
  by (simp_all add: pass_def spawn_def did_def purge_def)

text \<open>What another thread's writes leave of an actor.\<close>

lemma live_ok_ready [simp]: "live_ok (a\<lparr>a_store := d, a_scheduleReady := r\<rparr>) = live_ok (a\<lparr>a_store := d\<rparr>)"
proof -
  have "core_ok (a\<lparr>a_store := d, a_scheduleReady := r\<rparr>) = core_ok (a\<lparr>a_store := d\<rparr>)"
    by (rule core_ok_cong) simp_all
  then show ?thesis by (simp add: live_ok_def)
qed

lemma live_ok_moved:
  assumes "live_ok (a\<lparr>a_store := d\<rparr>)" and "sound d'" and "log_of (a_id a) d' = log_of (a_id a) d"
    and "a_id a \<in> thread_ids d' \<Longrightarrow> a_id a \<in> thread_ids d"
  shows "live_ok (a\<lparr>a_store := d'\<rparr>)"
proof (cases "a_id a \<in> thread_ids d'")
  case True
  with assms have "core_ok (a\<lparr>a_store := d\<rparr>)" by (simp add: live_ok_def)
  with assms True show ?thesis
    by (auto simp: live_ok_def core_ok_def store_good_def state_ok_def guard_ok_def subs_ok_def sound_def thread_ids_def)
qed (simp add: live_ok_def)

lemma live_ok_writes:
  "live_ok (a\<lparr>a_store := d\<rparr>) \<Longrightarrow> writes i d d' \<Longrightarrow> a_id a \<noteq> i \<Longrightarrow> live_ok (a\<lparr>a_store := d'\<rparr>)"
  by (erule live_ok_moved) (auto simp: writes_def)

lemma live_ok_beside: "live_ok (a\<lparr>a_store := d\<rparr>) \<Longrightarrow> beside d d' \<Longrightarrow> live_ok (a\<lparr>a_store := d'\<rparr>)"
  by (erule live_ok_moved) (auto simp: beside_def)

lemma manager_ok_beside [manager_intro]:
  "manager_ok m \<Longrightarrow> beside (mg_store m) d \<Longrightarrow> manager_ok (m\<lparr>mg_store := d\<rparr>)"
  using live_ok_beside unfolding manager_ok_def by (auto simp: beside_def) blast

lemma manager_ok_gone:
  assumes "manager_ok m" and "writes i (mg_store m) d" and "i \<notin> thread_ids d"
  shows "manager_ok (m\<lparr>mg_store := d\<rparr>)"
proof -
  have "live_ok (a\<lparr>a_store := d\<rparr>)" if "(k, a) \<in> set (mg_actors m)" for k a
  proof (cases "a_id a = i")
    case True
    with assms(3) show ?thesis by (simp add: live_ok_def)
  next
    case False
    have "live_ok (a\<lparr>a_store := mg_store m\<rparr>)" using assms(1) that by (simp add: manager_ok_def)
    then show ?thesis using assms(2) False by (rule live_ok_writes)
  qed
  with assms show ?thesis by (auto simp: manager_ok_def writes_def)
qed

lemma actor_unique:
  assumes "manager_ok m" and "(k, a) \<in> set (mg_actors m)" and "(k', b) \<in> set (mg_actors m)"
  shows "a_id a = a_id b \<longleftrightarrow> k = k'" and "k = k' \<Longrightarrow> a = b"
proof -
  have "inj_on fst (set (mg_actors m))" "inj_on (a_id \<circ> snd) (set (mg_actors m))"
    using assms(1) by (simp_all add: manager_ok_def distinct_map)
  then show "a_id a = a_id b \<longleftrightarrow> k = k'" "k = k' \<Longrightarrow> a = b"
    using inj_onD [of fst "set (mg_actors m)" "(k, a)" "(k', b)"]
      inj_onD [of "a_id \<circ> snd" "set (mg_actors m)" "(k, a)" "(k', b)"] assms(2,3) by auto
qed

end
