(* ===== verification/ManagerSteps.thy ===== *)
theory ManagerSteps
  imports ManagerInv
begin

text \<open>
  Every operation of the manager keeps its invariant: first the pieces they are built from, then
  the operations, then the program as a step relation over requests and background tasks in any
  order.
\<close>

section \<open>Actors of the manager\<close>

lemma lend_fields [simp]: "a_id (lend m a) = a_id a" "a_store (lend m a) = mg_store m"
  by (simp_all add: lend_def)

lemma live_ok_lend [simp]: "live_ok (lend m a) = live_ok (a\<lparr>a_store := mg_store m\<rparr>)"
  by (simp add: lend_def)

lemma manager_live: "manager_ok m \<Longrightarrow> (k, a) \<in> set (mg_actors m) \<Longrightarrow> live_ok (a\<lparr>a_store := mg_store m\<rparr>)"
  by (simp add: manager_ok_def)

lemma manager_ok_settle:
  assumes ok: "manager_ok m" and a: "(k, a) \<in> set (mg_actors m)" and b: "steady (lend m a) b"
  shows "manager_ok (settle k b m)"
proof -
  have id: "a_id b = a_id a" and w: "writes (a_id a) (mg_store m) (a_store b)" and live: "live_ok b"
    using b by (simp_all add: steady_def)
  have sb: "b\<lparr>a_store := a_store b\<rparr> = b" by simp
  have other: "live_ok (x\<lparr>a_store := a_store b\<rparr>)" if x: "(i, x) \<in> set (mg_actors m)" "i \<noteq> k" for i x
  proof (rule live_ok_writes [OF manager_live [OF ok x(1)] w])
    show "a_id x \<noteq> a_id a" using actor_unique(1) [OF ok x(1) a] x(2) by simp
  qed
  have same: "x = a" if "(k, x) \<in> set (mg_actors m)" for x
    using actor_unique(2) [OF ok that a] by simp
  let ?set = "\<lambda>(i, x). if i = k then (i, b) else (i, x)"
  obtain ys where ys: "ys = map ?set (mg_actors m)" by simp
  have fsts: "map fst ys = map fst (mg_actors m)" by (auto simp: ys case_prod_beta)
  have ids: "map (a_id \<circ> snd) ys = map (a_id \<circ> snd) (mg_actors m)"
    using same id by (auto simp: ys case_prod_beta)
  show ?thesis
  proof (cases "a_stopped b")
    case True
    then show ?thesis
      using ok w other by (auto simp: manager_ok_def settle_def writes_def distinct_map_filter)
  next
    case False
    have "i < mg_serial m \<and> \<not> a_stopped x \<and> live_ok (x\<lparr>a_store := a_store b\<rparr>)"
      if "(i, x) \<in> set ys" for i x
    proof (cases "i = k")
      case True
      with that have "x = b" by (auto simp: ys split: if_splits)
      with True False live a ok show ?thesis by (simp add: manager_ok_def sb)
    next
      case diff: False
      with that have "(i, x) \<in> set (mg_actors m)" by (auto simp: ys split: if_splits)
      with diff other ok show ?thesis by (simp add: manager_ok_def)
    qed
    moreover have "mg_actors (settle k b m) = ys" "mg_serial (settle k b m) = mg_serial m"
      "mg_store (settle k b m) = a_store b"
      using False by (simp_all add: settle_def ys)
    ultimately show ?thesis using ok w fsts ids by (simp add: manager_ok_def writes_def)
  qed
qed

lemma steady_run_command:
  "sound (a_store a) \<Longrightarrow> live_ok a \<Longrightarrow> steady a (snd (run_command w c a))"
  by (rule steady_lives [OF lives_run_command])

lemma manager_ok_on_actor [manager_intro]: "manager_ok m \<Longrightarrow> manager_ok (snd (on_actor su k c m))"
proof (cases "map_of (mg_actors m) k")
  case (Some a)
  assume ok: "manager_ok m"
  have a: "(k, a) \<in> set (mg_actors m)" using Some by (rule map_of_SomeD)
  have "steady (lend m a) (snd (run_command (su_actor su k) c (lend m a)))"
    by (rule steady_run_command) (simp_all add: manager_ok_sound ok manager_live [OF ok a])
  from manager_ok_settle [OF ok a this] Some show ?thesis by (simp add: on_actor_def case_prod_beta)
qed (simp add: on_actor_def)

lemma manager_ok_emit [manager_intro]: "manager_ok m \<Longrightarrow> manager_ok (emit_to su k ems m)"
  by (induction ems arbitrary: m) (simp_all add: emit_to_def manager_ok_on_actor)

lemma manager_ok_adopt:
  assumes ok: "manager_ok m" and w: "writes (a_id a) (mg_store m) (a_store a)" and live: "live_ok a"
  shows "manager_ok (snd (adopt a (m\<lparr>mg_store := d\<rparr>)))"
proof -
  have sa: "a\<lparr>a_store := a_store a\<rparr> = a" by simp
  have "live_ok (x\<lparr>a_store := a_store a\<rparr>)" if "(i, x) \<in> set (mg_actors m)" "a_id x \<noteq> a_id a" for i x
    by (rule live_ok_writes [OF manager_live [OF ok that(1)] w that(2)])
  moreover have "mg_serial m \<notin> fst ` set (mg_actors m)" using ok by (force simp: manager_ok_def)
  ultimately show ?thesis
    using ok w live by (auto simp: manager_ok_def adopt_def Let_def writes_def distinct_map_filter sa
        less_Suc_eq simp flip: image_set)
qed

lemma adopt_fields [simp]:
  "mg_calls (snd (adopt a m)) = mg_calls m" "mg_jobs (snd (adopt a m)) = mg_jobs m"
  by (simp_all add: adopt_def Let_def)

lemma manager_ok_adopt_new:
  assumes ok: "manager_ok m" and w: "writes (a_id a) (mg_store m) d" and live: "live_ok (a\<lparr>a_store := d\<rparr>)"
  shows "manager_ok (snd (adopt (run_new su (m\<lparr>mg_store := d\<rparr>) cs a) (m\<lparr>mg_store := d\<rparr>)))"
proof -
  let ?x = "lend (m\<lparr>mg_store := d\<rparr>) a"
  have "steady ?x (run_commands (su_actor su (mg_serial m)) cs ?x)"
    by (rule steady_lives [OF lives_run_commands]) (use w live in \<open>simp_all add: writes_def\<close>)
  then have s: "steady ?x (run_new su (m\<lparr>mg_store := d\<rparr>) cs a)" by (simp add: run_new_def)
  show ?thesis
    by (rule manager_ok_adopt [OF ok]) (use s writes_trans [OF w] in \<open>auto simp: steady_def\<close>)
qed

lemma thread_found:
  assumes "Thread i d = Inr meta"
  shows "tm_id meta = i" and "i \<in> thread_ids d"
  using assms thread_row_Some [of d i]
  by (auto simp: Thread_def thread_ids_def split: option.splits)

lemma honest_found: "sound d \<Longrightarrow> tm_id meta \<in> thread_ids d \<Longrightarrow> honest d meta"
  by (simp add: honest_def sound_def thread_ids_def)

lemma live_ok_core: "core_ok a \<Longrightarrow> live_ok a"
  by (simp add: live_ok_def)

lemma restored_fields [simp]:
  "a_id (RestoreIdle d ad meta env) = tm_id meta" "a_store (RestoreIdle d ad meta env) = d"
  "a_id (RestorePending d ad meta env) = tm_id meta" "a_store (RestorePending d ad meta env) = d"
  by (simp_all add: RestoreIdle_def RestorePending_def Let_def running_def bare_actor_def)

lemma manager_ok_adopt_restored:
  assumes ok: "manager_ok m" and id: "tm_id meta \<in> thread_ids (mg_store m)"
  shows "manager_ok (snd (adopt (RestoreIdle (mg_store m) ad meta env) m))"
    and "manager_ok (snd (adopt ((RestoreIdle (mg_store m) ad meta env)\<lparr>a_activationError := e\<rparr>) m))"
    and "manager_ok (snd (adopt (RestorePending (mg_store m) ad meta env) m))"
    and "RestoreClosed now (mg_store m) meta = Inr a \<Longrightarrow> manager_ok (snd (adopt a m))"
proof -
  let ?d = "mg_store m" and ?i = "RestoreIdle (mg_store m) ad meta env"
  have h: "honest ?d meta" by (rule honest_found [OF manager_ok_sound [OF ok] id])
  have w: "writes i ?d ?d" for i by (rule writes_refl [OF manager_ok_sound [OF ok]])
  have m: "m\<lparr>mg_store := mg_store m\<rparr> = m" by simp
  note adopt = manager_ok_adopt [OF ok, where d = "mg_store m", unfolded m]
  show "manager_ok (snd (adopt ?i m))"
    by (rule adopt) (simp_all add: w live_ok_core core_ok_boots(4) [OF h])
  have "core_ok (?i\<lparr>a_activationError := e\<rparr>) = core_ok ?i" by (rule core_ok_cong) simp_all
  then show "manager_ok (snd (adopt (?i\<lparr>a_activationError := e\<rparr>) m))"
    by (intro adopt) (simp_all add: w live_ok_core core_ok_boots(4) [OF h])
  show "manager_ok (snd (adopt (RestorePending ?d ad meta env) m))"
    by (rule adopt) (simp_all add: w live_ok_core core_ok_boots(5) [OF h])
  show "manager_ok (snd (adopt a m))" if r: "RestoreClosed now ?d meta = Inr a"
  proof (rule adopt [OF _ live_ok_core])
    show core: "core_ok a" by (rule core_ok_RestoreClosed [OF h r])
    have "thread_ids d' = thread_ids ?d" if "Append now (tm_id meta) b ?d = Inr (ev, d')" for b ev d'
      using that unfolding Append_Inr by (auto simp: thread_ids_update intro!: thread_ids_map)
    then show "writes (a_id a) ?d (a_store a)"
      using r core_ok_sound [OF core] Append_log_of
      by (auto simp: RestoreClosed_def Let_def writes_def split: if_splits sum.splits)
  qed
qed

section \<open>Restoring and closing\<close>

lemma manager_ok_with_store:
  "manager_ok m \<Longrightarrow> beside (mg_store m) (f (su_now su (mg_tick m)) (mg_store m)) \<Longrightarrow> manager_ok (with_store f su m)"
  by (simp add: with_store_def manager_ok_beside)

lemma manager_ok_set_phase [manager_intro]: "manager_ok m \<Longrightarrow> manager_ok (set_phase su i ph m)"
  by (simp add: set_phase_def manager_ok_with_store beside_rows manager_ok_sound)

lemma set_phase_store: "beside d (mg_store m) \<Longrightarrow> beside d (mg_store (set_phase su i ph m))"
  using beside_rows(1) [of "mg_store m"] by (simp add: set_phase_def with_store_def beside_def)

lemma notes_store:
  "beside d (mg_store m) \<Longrightarrow> manager_ok m \<Longrightarrow>
   beside d (mg_store (foldl (\<lambda>m (ph, em). set_phase su i ph m) m ns))
   \<and> manager_ok (foldl (\<lambda>m (ph, em). set_phase su i ph m) m ns)"
  by (induction ns arbitrary: m) (auto simp: set_phase_store manager_ok_set_phase)

lemma manager_ok_restore_pending:
  assumes ok: "manager_ok m" and id: "tm_id meta \<in> thread_ids (mg_store m)"
  shows "manager_ok (snd (restore_pending su meta m))"
proof -
  obtain ad env where ce: "cleanupAdapter (su_env su) (mg_registry m) meta = (ad, env)" by (metis surj_pair)
  let ?a = "RestorePending (mg_store m) ad meta env"
  let ?m1 = "foldl (\<lambda>m (ph, em). set_phase su (tm_id meta) ph m) m (restart_notes (tm_phase meta))"
  have "beside (mg_store m) (mg_store m)" using manager_ok_sound [OF ok] by (simp add: beside_def)
  then have b: "beside (mg_store m) (mg_store ?m1)" and ok1: "manager_ok ?m1"
    using notes_store [OF _ ok, of "mg_store m" su "tm_id meta" "restart_notes (tm_phase meta)"] by simp_all
  have "live_ok (?a\<lparr>a_store := mg_store m\<rparr>)"
    using core_ok_boots(5) [OF honest_found [OF manager_ok_sound [OF ok] id]] live_ok_core [of ?a]
    by (simp add: RestorePending_def running_def bare_actor_def)
  then have "live_ok (?a\<lparr>a_store := mg_store ?m1\<rparr>)" using b by (rule live_ok_beside)
  then have "manager_ok (snd (adopt (run_new su ?m1 cs ?a) ?m1))" for cs
    using manager_ok_adopt_new [OF ok1 writes_refl [OF manager_ok_sound [OF ok1]]] by simp
  then show ?thesis by (simp add: restore_pending_def ce Let_def)
qed

lemma manager_ok_restore:
  assumes "manager_ok m" and "tm_id meta \<in> thread_ids (mg_store m)"
  shows "manager_ok (snd (restore su meta act m))"
proof -
  have p: "manager_ok (pass m)" "tm_id meta \<in> thread_ids (mg_store (pass m))" using assms by simp_all
  show ?thesis
    using assms manager_ok_adopt_restored(1,2) [OF assms] manager_ok_restore_pending [OF assms]
      manager_ok_adopt_restored(4) [OF p]
    by (auto simp: restore_def case_prod_beta split: sum.split)
qed

lemma manager_ok_finishGet [manager_intro]: "manager_ok m \<Longrightarrow> manager_ok (snd (finishGet su k meta act m))"
  using manager_ok_on_actor [of m su k] by (auto simp: finishGet_def case_prod_beta split: option.split)

lemma manager_ok_get [manager_intro]: "manager_ok m \<Longrightarrow> manager_ok (snd (get su i act m))"
  using manager_ok_restore [of m _ su act] thread_found [of i "mg_store m"]
  by (fastforce simp: get_def case_prod_beta split: sum.split option.split intro: manager_intro
      dest: thread_found)


lemma manager_ok_foldl:
  "manager_ok m \<Longrightarrow> (\<And>m x. manager_ok m \<Longrightarrow> manager_ok (f m x)) \<Longrightarrow> manager_ok (foldl f m xs)"
  by (induction xs arbitrary: m) simp_all

lemma manager_ok_recoverActor [manager_intro]: "manager_ok m \<Longrightarrow> manager_ok (recoverActor su k m)"
  by (auto simp: recoverActor_def split: option.split intro: manager_intro)

lemma manager_ok_recoverAll [manager_intro]: "manager_ok m \<Longrightarrow> manager_ok (recoverAll su m)"
  unfolding recoverAll_def Get_def by (rule manager_ok_foldl) (auto intro: manager_intro)

lemma manager_ok_Dispose [manager_intro]:
  "manager_ok m \<Longrightarrow> manager_ok (Dispose su k reason m)" "manager_ok m \<Longrightarrow> manager_ok (Dispose_live su i reason m)"
  by (auto simp: Dispose_def Dispose_live_def split: option.split intro: manager_intro)

lemma manager_ok_Shutdown [manager_intro]: "manager_ok m \<Longrightarrow> manager_ok (Shutdown su m)"
  unfolding Shutdown_def by (rule manager_ok_foldl) (auto intro: manager_intro)

lemma Peek_None: "Peek i m = None \<Longrightarrow> (k, a) \<in> set (mg_actors m) \<Longrightarrow> a_id a \<noteq> i"
  by (auto simp: Peek_def find_None_iff)

lemma manager_ok_unattended:
  assumes ok: "manager_ok m" and "Peek i m = None" and w: "writes i (mg_store m) d"
  shows "manager_ok (m\<lparr>mg_store := d\<rparr>)"
proof -
  have "live_ok (a\<lparr>a_store := d\<rparr>)" if "(k, a) \<in> set (mg_actors m)" for k a
    by (rule live_ok_writes [OF manager_live [OF ok that] w Peek_None [OF assms(2) that]])
  with ok w show ?thesis by (auto simp: manager_ok_def writes_def)
qed

lemma writes_Append:
  assumes "sound d" and "Append now i b d = Inr (ev, d')"
  shows "writes i d d'"
proof -
  have "thread_ids d' = thread_ids d"
    using assms(2) unfolding Append_Inr by (auto simp: thread_ids_update intro!: thread_ids_map)
  moreover have "store_reachable d'"
    using assms by (auto simp: sound_def intro: store_reachable.step store_step.append)
  moreover have "snapshots_ok d'" using assms snapshots_ok_Append by (auto simp: sound_def)
  ultimately show ?thesis using Append_log_of [OF assms(2)] by (simp add: writes_def sound_def)
qed

lemma Peek_pass [simp]: "Peek i (pass m) = Peek i m"
  by (simp add: Peek_def pass_def)

lemma manager_ok_closeLocked [manager_intro]: "manager_ok m \<Longrightarrow> manager_ok (snd (closeLocked su i reason m))"
proof -
  assume ok: "manager_ok m"
  have "manager_ok (pass (m\<lparr>mg_store := d\<rparr>))"
    if "Peek i m = None" "Append now i b (mg_store m) = Inr (ev, d)" for now b ev d
    using manager_ok_unattended [OF ok that(1) writes_Append [OF manager_ok_sound [OF ok] that(2)]] by simp
  with ok show ?thesis
    by (auto simp: closeLocked_def split: sum.split option.split intro!: manager_intro)
qed

lemma manager_ok_delete_row [manager_intro]: "manager_ok m \<Longrightarrow> manager_ok (delete_row i m)"
  using manager_ok_gone [OF _ writes_DeleteThread [OF manager_ok_sound]] by (simp add: delete_row_def)

section \<open>Creating\<close>

lemma manager_ok_ProjectHome [manager_intro]:
  assumes ok: "manager_ok m"
  shows "manager_ok (snd (ProjectHome su pid m))"
proof -
  have home: "manager_ok (snd (make_home su home x))" if "manager_ok x" for home x
    using that by (auto simp: make_home_def split: option.split)
  have set: "manager_ok (m\<lparr>mg_store := d\<rparr>)" if "SetProjectHome pid home (mg_store m) = Inr d" for home d
    using manager_ok_beside [OF ok beside_projects(1) [OF manager_ok_sound [OF ok] that]] .
  show ?thesis
    using ok by (auto simp: ProjectHome_def home set split: sum.split list.split)
qed

lemma manager_ok_new_thread:
  assumes ok: "manager_ok m" and new: "CreateThread meta (mg_store m) = Inr d"
    and id: "a_id a = tm_id meta" and core: "honest d meta \<Longrightarrow> log_of (tm_id meta) d = [] \<Longrightarrow> core_ok a"
    and store: "a_store a = d"
  shows "manager_ok (snd (adopt (run_new su (m\<lparr>mg_store := d\<rparr>) cs a) (m\<lparr>mg_store := d\<rparr>)))"
proof (rule manager_ok_adopt_new [OF ok])
  note w = writes_CreateThread [OF manager_ok_sound [OF ok] new]
  show "writes (a_id a) (mg_store m) d" using w(1) by (simp add: id)
  have "core_ok a" using w by (intro core honest_found) (simp_all add: writes_def)
  moreover have "a\<lparr>a_store := d\<rparr> = a" using store by (metis actor.surjective actor.update_convs(4))
  ultimately show "live_ok (a\<lparr>a_store := d\<rparr>)" by (simp add: live_ok_core)
qed

lemma start_fields:
  "Start w d ad m model mode env = Inr (a, cs) \<Longrightarrow> a_id a = tm_id m \<and> a_store a = d"
  "StartPending d ado m env = (a, cs) \<Longrightarrow> a_id a = tm_id m \<and> a_store a = d"
  by (auto simp: Start_def StartPending_def Let_def tick_def split: sum.splits)

lemma manager_ok_Create [manager_intro]:
  assumes ok: "manager_ok m"
  shows "manager_ok (snd (Create su harness inst cwd model mode m))"
proof -
  have ok1: "manager_ok (pass m)" using ok by simp
  have gone: "manager_ok ((pass m)\<lparr>mg_store := DeleteThread (tm_id meta) d\<rparr>)"
    if new: "CreateThread meta (mg_store (pass m)) = Inr d" for meta d
  proof -
    note w = writes_CreateThread(1) [OF manager_ok_sound [OF ok1] new]
    note d = writes_DeleteThread [OF writes_sound [OF w], of "tm_id meta"]
    show ?thesis by (rule manager_ok_gone [OF ok1 writes_trans [OF w d(1)] d(2)])
  qed
  have adopted: "manager_ok (snd (adopt (run_new su ((pass m)\<lparr>mg_store := d\<rparr>) cs a) ((pass m)\<lparr>mg_store := d\<rparr>)))"
    if "CreateThread meta (mg_store (pass m)) = Inr d" "Start w d ad meta model mode env = Inr (a, cs)" for meta d w ad env a cs
    using start_fields(1) [OF that(2)] core_ok_boots(1) [OF _ _ that(2)]
    by (intro manager_ok_new_thread [OF ok1 that(1)]) simp_all
  show ?thesis
    using ok1 gone adopted
    by (auto simp: Create_def Let_def case_prod_beta split: sum.split)
qed

lemma manager_ok_start_pending [manager_intro]:
  assumes ok: "manager_ok m"
  shows "manager_ok (snd (start_pending su meta f ad env m))"
proof (cases "CreateThread meta (mg_store m)")
  case (Inr d)
  obtain a cs where a: "StartPending d (Some ad) meta env = (a, cs)" by (metis surj_pair)
  have "manager_ok (snd (adopt (run_new su (m\<lparr>mg_store := d\<rparr>) cs a) (m\<lparr>mg_store := d\<rparr>)))"
    using start_fields(2) [OF a] core_ok_boots(2) [OF _ _ a]
    by (intro manager_ok_new_thread [OF ok Inr]) simp_all
  then show ?thesis by (simp add: start_pending_def Inr a Let_def case_prod_beta)
qed (simp add: start_pending_def ok)

lemma manager_ok_choose_scope [manager_intro]: "manager_ok m \<Longrightarrow> manager_ok (snd (choose_scope su p ops m))"
  using manager_ok_ProjectHome [of m su "pj_id p"]
  by (auto simp: choose_scope_def case_prod_beta split: sum.split)

lemma manager_ok_resolve_workspace [manager_intro]:
  "manager_ok m \<Longrightarrow> manager_ok (snd (resolve_workspace su pid fid path m))"
  by (auto simp: resolve_workspace_def case_prod_beta split: sum.split)

lemma manager_ok_choose_place [manager_intro]: "manager_ok m \<Longrightarrow> manager_ok (snd (choose_place su p f ops m))"
  using manager_ok_resolve_workspace [of m su "pj_id p" "fo_id f"]
  by (auto simp: choose_place_def case_prod_beta split: sum.split option.split)

lemma manager_ok_CreateProject [manager_intro]:
  "manager_ok m \<Longrightarrow> manager_ok (snd (CreateProject_thread su ops m))"
  by (auto simp: CreateProject_thread_def case_prod_beta Let_def split: sum.split intro!: manager_intro)


section \<open>Provisioning\<close>

lemma manager_ok_run_hook [manager_intro]:
  "manager_ok m \<Longrightarrow> manager_ok (snd (run_hook su k kind cwd hook args env seconds m))"
  "manager_ok m \<Longrightarrow> manager_ok (snd (make_copy su meta f res k m))"
  "manager_ok m \<Longrightarrow> manager_ok (snd (write_json su path v m))"
  by (auto simp: run_hook_def make_copy_def write_json_def case_prod_beta intro!: manager_intro)

lemma manager_ok_save_workspace [manager_intro]: "manager_ok m \<Longrightarrow> manager_ok (save_workspace su i r m)"
  by (simp add: save_workspace_def manager_ok_with_store beside_rows manager_ok_sound)

lemma manager_ok_provision_hook [manager_intro]:
  "manager_ok m \<Longrightarrow> manager_ok (snd (provision_hook su meta f k dir hook suggested ref given m))"
  by (auto simp: provision_hook_def Let_def case_prod_beta split: option.split intro!: manager_intro)

lemma manager_ok_runProvisionHook [manager_intro]:
  "manager_ok m \<Longrightarrow> manager_ok (snd (runProvisionHook su meta f k m))"
  by (auto simp: runProvisionHook_def Let_def case_prod_beta split: sum.split intro!: manager_intro)

lemma manager_ok_provision [manager_intro]: "manager_ok m \<Longrightarrow> manager_ok (provision su meta f k m)"
  by (auto simp: provision_def Let_def case_prod_beta intro!: manager_intro)

lemma manager_ok_provisionFailed [manager_intro]: "manager_ok m \<Longrightarrow> manager_ok (provisionFailed su i k e m)"
  by (auto simp: provisionFailed_def intro!: manager_intro)

lemma manager_ok_set_cwd [manager_intro]:
  assumes ok: "manager_ok m"
  shows "manager_ok (set_cwd k cwd m)"
proof -
  let ?set = "\<lambda>(i, a). if i = k then (i, a\<lparr>a_cwd := cwd\<rparr>) else (i, a)"
  obtain ys where ys: "ys = map ?set (mg_actors m)" by simp
  have "core_ok (a\<lparr>a_cwd := cwd, a_store := d\<rparr>) = core_ok (a\<lparr>a_store := d\<rparr>)" for a d
    by (rule core_ok_cong) simp_all
  then have "live_ok (a\<lparr>a_cwd := cwd, a_store := d\<rparr>) = live_ok (a\<lparr>a_store := d\<rparr>)" for a d
    by (simp add: live_ok_def)
  then have "i < mg_serial m \<and> \<not> a_stopped x \<and> live_ok (x\<lparr>a_store := mg_store m\<rparr>)" if "(i, x) \<in> set ys" for i x
    using that ok by (auto simp: ys manager_ok_def split: if_splits)
  moreover have "map fst ys = map fst (mg_actors m)" "map (a_id \<circ> snd) ys = map (a_id \<circ> snd) (mg_actors m)"
    by (auto simp: ys case_prod_beta)
  moreover have "mg_actors (set_cwd k cwd m) = ys" "mg_serial (set_cwd k cwd m) = mg_serial m"
    "mg_store (set_cwd k cwd m) = mg_store m"
    by (simp_all add: set_cwd_def ys)
  ultimately show ?thesis using ok by (simp add: manager_ok_def)
qed

lemma manager_ok_provision_end [manager_intro]: "manager_ok m \<Longrightarrow> manager_ok (provision_end su meta f k r m)"
  by (auto simp: provision_end_def case_prod_beta split: sum.split option.split intro!: manager_intro)

lemma manager_ok_RetryProvision [manager_intro]: "manager_ok m \<Longrightarrow> manager_ok (snd (RetryProvision su i m))"
  by (auto simp: RetryProvision_def Get_def case_prod_beta split: sum.split option.split intro!: manager_intro)

section \<open>Cleaning up and deleting\<close>

text \<open>A row stays where it is while its actor is disposed of and its phase is set.\<close>

lemma on_actor_ids: "manager_ok m \<Longrightarrow> thread_ids (mg_store (snd (on_actor su k c m))) = thread_ids (mg_store m)"
proof (cases "map_of (mg_actors m) k")
  case (Some a)
  assume ok: "manager_ok m"
  have "live_ok (a\<lparr>a_store := mg_store m\<rparr>)" using manager_live [OF ok map_of_SomeD [OF Some]] .
  then have "steady (lend m a) (snd (run_command (su_actor su k) c (lend m a)))"
    by (intro steady_run_command) (simp_all add: manager_ok_sound ok)
  with Some show ?thesis by (simp add: on_actor_def case_prod_beta settle_def steady_def)
qed (simp add: on_actor_def)

lemma set_phase_ids [simp]: "thread_ids (mg_store (set_phase su i ph m)) = thread_ids (mg_store m)"
  by (simp add: set_phase_def with_store_def thread_ids_def thread_ids_stay(1))

lemma dispose_ids: "manager_ok m \<Longrightarrow> thread_ids (mg_store (Dispose_live su i reason m)) = thread_ids (mg_store m)"
  by (auto simp: Dispose_live_def Dispose_def on_actor_ids split: option.split)

lemma manager_ok_cleanup_actor [manager_intro]:
  "manager_ok m \<Longrightarrow> tm_id meta \<in> thread_ids (mg_store m) \<Longrightarrow> manager_ok (snd (cleanup_actor su meta m))"
  using manager_ok_adopt_restored(3) [of m meta] by (simp add: cleanup_actor_def case_prod_beta)

lemma manager_ok_Cleanup [manager_intro]: "manager_ok m \<Longrightarrow> manager_ok (snd (Cleanup su i m))"
  by (auto simp: Cleanup_def case_prod_beta dispose_ids thread_found split: sum.split intro!: manager_intro)

lemma manager_ok_cleanup [manager_intro]: "manager_ok m \<Longrightarrow> manager_ok (cleanup su meta f k p r m)"
  by (auto simp: cleanup_def Let_def intro!: manager_intro)

lemma manager_ok_runDeprovisionHook [manager_intro]:
  "manager_ok m \<Longrightarrow> manager_ok (snd (runDeprovisionHook su meta f k m))"
  by (auto simp: runDeprovisionHook_def Let_def case_prod_beta split: sum.split option.split intro!: manager_intro)

lemma manager_ok_remove_checkout [manager_intro]:
  "manager_ok m \<Longrightarrow> manager_ok (snd (remove_checkout su meta f actor allow_it m))"
  by (auto simp: remove_checkout_def case_prod_beta split: option.split intro!: manager_intro)

lemma manager_ok_cleanup_run [manager_intro]: "manager_ok m \<Longrightarrow> manager_ok (cleanup_run su meta f k p r m)"
  by (auto simp: cleanup_run_def case_prod_beta intro!: manager_intro)

lemma manager_ok_cleanup_end [manager_intro]: "manager_ok m \<Longrightarrow> manager_ok (cleanup_end su meta k p stage err m)"
  by (auto simp: cleanup_end_def Let_def split: option.split intro!: manager_intro)

lemma manager_ok_delete_closed [manager_intro]: "manager_ok m \<Longrightarrow> manager_ok (snd (delete_closed su meta r m))"
  by (auto simp: delete_closed_def case_prod_beta split: sum.split option.split intro!: manager_intro)

lemma manager_ok_Delete [manager_intro]: "manager_ok m \<Longrightarrow> manager_ok (snd (Delete su i r m))"
  by (auto simp: Delete_def case_prod_beta dispose_ids thread_found split: sum.split option.split intro!: manager_intro)

lemma manager_ok_ForceDelete [manager_intro]: "manager_ok m \<Longrightarrow> manager_ok (snd (ForceDelete su i m))"
  by (auto simp: ForceDelete_def case_prod_beta split: sum.split option.split intro!: manager_intro)

section \<open>Accounts, projects, schedules\<close>

lemma manager_ok_ask_switch [manager_intro]: "manager_ok m \<Longrightarrow> manager_ok (snd (ask_switch su k i inst sw m))"
  by (auto simp: ask_switch_def case_prod_beta beside_rows manager_ok_sound split: option.split
      intro!: manager_intro manager_ok_with_store)

lemma manager_ok_SwitchAccount [manager_intro]: "manager_ok m \<Longrightarrow> manager_ok (snd (SwitchAccount_thread su i inst m))"
  by (auto simp: SwitchAccount_thread_def View_def case_prod_beta split: sum.split intro!: manager_intro)

lemma manager_ok_projects [manager_intro]:
  assumes ok: "manager_ok m"
  shows "manager_ok (snd (SaveProject su i name d m))" "manager_ok (snd (SaveFolder su i f m))"
    "manager_ok (snd (DeleteProject_named i m))"
proof -
  note rows = beside_projects [OF manager_ok_sound [OF ok]]
  have "manager_ok (m\<lparr>mg_store := st\<rparr>)" if "UpdateProject now p (mg_store m) = Inr st" for now p st
    using manager_ok_beside [OF ok rows(2) [OF that]] .
  with ok show "manager_ok (snd (SaveProject su i name d m))"
    by (auto simp: SaveProject_def Let_def split: sum.split)
  have "manager_ok (m\<lparr>mg_store := st\<rparr>)" if "UpdateFolder pid g (mg_store m) = Inr st" for pid g st
    using manager_ok_beside [OF ok rows(3) [OF that]] .
  with ok show "manager_ok (snd (SaveFolder su i f m))"
    by (auto simp: SaveFolder_def Let_def split: sum.split option.split)
  have "manager_ok (m\<lparr>mg_store := st\<rparr>)" if "DeleteProject i (mg_store m) = Inr st" for st
    using manager_ok_beside [OF ok rows(4) [OF that]] .
  with ok show "manager_ok (snd (DeleteProject_named i m))"
    by (auto simp: DeleteProject_named_def split: sum.split)
qed

lemma manager_ok_scheduler [manager_intro]:
  "manager_ok m \<Longrightarrow> manager_ok (tick_thread su i m)" "manager_ok m \<Longrightarrow> manager_ok (scheduler_round su m)"
proof -
  have tick: "manager_ok (tick_thread su i m)" if "manager_ok m" for i m
    using that by (auto simp: tick_thread_def View_def case_prod_beta split: sum.split intro!: manager_intro)
  then show "manager_ok m \<Longrightarrow> manager_ok (tick_thread su i m)" .
  show "manager_ok m \<Longrightarrow> manager_ok (scheduler_round su m)"
    unfolding scheduler_round_def by (rule manager_ok_foldl) (auto intro: tick)
qed

section \<open>The program\<close>

lemma manager_ok_run_task [manager_intro]: "manager_ok m \<Longrightarrow> manager_ok (run_task su j m)"
  by (cases j) (simp_all add: run_task_def manager_intro)

text \<open>
  One request, or one background task, at a time; \<open>beside\<close> is any write of the server to the
  store that is not the manager's: devices, pins, titles, command ids.
\<close>

inductive manager_step :: "surroundings \<Rightarrow> manager \<Rightarrow> manager \<Rightarrow> bool" for su :: surroundings where
  command: "manager_step su m (snd (on_actor su k c m))"
| get: "manager_step su m (snd (get su i act m))"
| create: "manager_step su m (snd (Create su harness inst cwd model mode m))"
| create_project: "manager_step su m (snd (CreateProject_thread su ops m))"
| project_home: "manager_step su m (snd (ProjectHome su pid m))"
| retry: "manager_step su m (snd (RetryProvision su i m))"
| clean_up: "manager_step su m (snd (Cleanup su i m))"
| close: "manager_step su m (snd (Close_thread su i reason m))"
| delete: "manager_step su m (snd (Delete su i remove m))"
| force_delete: "manager_step su m (snd (ForceDelete su i m))"
| switch_account: "manager_step su m (snd (SwitchAccount_thread su i inst m))"
| save_project: "manager_step su m (snd (SaveProject su i name d m))"
| save_folder: "manager_step su m (snd (SaveFolder su pid f m))"
| delete_project: "manager_step su m (snd (DeleteProject_named i m))"
| configure: "manager_step su m (m\<lparr>mg_registry := applyInstances insts (mg_registry m)\<rparr>)"
| tick: "manager_step su m (tick_thread su i m)"
| recover: "manager_step su m (recoverAll su m)"
| shutdown: "manager_step su m (Shutdown su m)"
| background: "n < length (mg_jobs m) \<Longrightarrow> manager_step su m (run_task su (mg_jobs m ! n) (take_task n m))"
| elsewhere: "beside (mg_store m) d \<Longrightarrow> manager_step su m (m\<lparr>mg_store := d\<rparr>)"

inductive manager_reachable :: "surroundings \<Rightarrow> manager \<Rightarrow> bool" for su :: surroundings where
  start: "sound d \<Longrightarrow> manager_reachable su (NewManager d (ConfigureInstances insts (NewRegistry ads)))"
| step: "manager_reachable su m \<Longrightarrow> manager_step su m m' \<Longrightarrow> manager_reachable su m'"

lemma reachable_new: "sound d \<Longrightarrow> manager_reachable su (NewManager d (NewRegistry ads))"
  using manager_reachable.start [of d su "[]" ads] by (simp add: ConfigureInstances_def)

text \<open>The states of a run, the latest first.\<close>

inductive manager_path :: "surroundings \<Rightarrow> manager list \<Rightarrow> bool" for su :: surroundings where
  first: "sound d \<Longrightarrow> manager_path su [NewManager d (ConfigureInstances insts (NewRegistry ads))]"
| next_step: "manager_path su (m # ms) \<Longrightarrow> manager_step su m m' \<Longrightarrow> manager_path su (m' # m # ms)"

inductive_cases path_step: "manager_path su (m' # m # ms)"

lemma path_reachable: "manager_path su ms \<Longrightarrow> ms \<noteq> [] \<and> list_all (manager_reachable su) ms"
  by (induction rule: manager_path.induct) (auto intro: manager_reachable.intros)

lemma reachable_path: "manager_reachable su m \<Longrightarrow> \<exists>ms. manager_path su (m # ms)"
  by (induction rule: manager_reachable.induct) (blast intro: manager_path.intros)+

lemma manager_ok_step: "manager_step su m m' \<Longrightarrow> manager_ok m \<Longrightarrow> manager_ok m'"
  by (induction rule: manager_step.induct) (auto simp: Close_thread_def intro!: manager_intro)

lemma manager_ok_reachable: "manager_reachable su m \<Longrightarrow> manager_ok m"
  by (induction rule: manager_reachable.induct)
    (simp_all add: manager_ok_def NewManager_def manager_ok_step [unfolded manager_ok_def])

end
