(* ===== verification/ManagerLease.thy ===== *)
theory ManagerLease
  imports ManagerSteps WorkspaceProps
begin

text \<open>
  Who may delete a checkout.  Over any run, a directory is only ever deleted for a thread whose
  row named it while its lease was not the folder itself, and under the guards of
  \<open>removeGitWorktree\<close>; everything else the manager asks of the machine deletes nothing.
\<close>

section \<open>Calls that delete nothing\<close>

named_theorems calm_intro \<open>operations whose calls delete nothing\<close>

definition calm :: "calls \<Rightarrow> calls \<Rightarrow> bool" where
  "calm t t' \<longleftrightarrow> extends t t' (\<lambda>c. deletes c = None)"

lemma calm_refl [calm_intro]: "calm t t"
  by (simp add: calm_def)

lemma calm_trans: "calm a b \<Longrightarrow> calm b c \<Longrightarrow> calm a c"
  unfolding calm_def by (rule extends_trans)

lemma calm_call [calm_intro]: "calm a t \<Longrightarrow> deletes c = None \<Longrightarrow> calm a (t @ [c])"
  by (erule calm_trans) (simp add: calm_def extends_one)

lemma calm_git [calm_intro]: "calm a t \<Longrightarrow> deletes (Git dir args) = None \<Longrightarrow> calm a (snd (git h dir args t))"
  by (simp add: git_def calm_call)

lemma calm_git_forms [calm_intro]:
  assumes "calm a t" and "deletes (Git dir args) = None"
  shows "calm a (snd (gitOK h dir args t))" "calm a (snd (gitCapture h dir args t))" "calm a (snd (runGit h dir args t))"
  using calm_git [OF assms] by (simp_all add: gitOK_def gitCapture_def runGit_def case_prod_beta)

lemma calm_refs [calm_intro]:
  assumes "calm a t"
  shows "calm a (snd (hasLocalBranch h dir name t))" "calm a (snd (hasRemoteRef h dir name t))"
    "calm a (snd (fetchBase h dir remote base t))"
  using assms by (simp_all add: hasLocalBranch_def hasRemoteRef_def fetchBase_def calm_intro)

lemma calm_remotes [calm_intro]: "calm a t \<Longrightarrow> calm a (snd (remotes h dir t))"
  using calm_git_forms(2) [of a t dir "[''remote'']" h]
  by (auto simp: remotes_def case_prod_beta split: option.split)

lemma calm_holding [calm_intro]: "calm a t \<Longrightarrow> calm a (snd (holding h dir base rs t))"
  by (induction rs arbitrary: t) (simp_all add: case_prod_beta Let_def calm_intro)

lemma calm_remoteHolding [calm_intro]: "calm a t \<Longrightarrow> calm a (snd (remoteHolding h dir base rs t))"
  by (simp add: remoteHolding_def case_prod_beta Let_def calm_intro)

lemma calm_remote_named [calm_intro]: "calm a t \<Longrightarrow> calm a (snd (remote_named h dir base rs t))"
  by (induction rs arbitrary: t) (simp_all add: case_prod_beta Let_def calm_intro)

lemma calm_default_remote [calm_intro]: "calm a t \<Longrightarrow> calm a (snd (default_remote h dir rs t))"
proof (induction rs arbitrary: t)
  case (Cons r rs)
  let ?g = "gitCapture h dir [''symbolic-ref'', ''--quiet'', ''refs/remotes/'' @ r @ ''/HEAD''] t"
  have g: "calm a (snd ?g)" using Cons.prems by (simp add: calm_intro)
  obtain out t1 where o: "?g = (out, t1)" by fastforce
  with g have t1: "calm a t1" by simp
  have b: "calm a (snd (hasLocalBranch h dir n t1))" for n by (rule calm_refs(1) [OF t1])
  show ?case
    using Cons.IH [OF t1] Cons.IH [OF b] t1 b
    by (auto simp: o [simplified] Let_def case_prod_beta split: option.split)
qed simp

lemma calm_defaultBranch [calm_intro]: "calm a t \<Longrightarrow> calm a (snd (defaultBranch h dir t))"
  by (simp add: defaultBranch_def case_prod_beta Let_def calm_intro split: option.split)

lemma calm_trackRemote [calm_intro]:
  "calm a t \<Longrightarrow> calm a (snd (trackRemote h dir base remote res t))"
  "calm a t \<Longrightarrow> calm a (snd (fallbackBase h dir res t))"
  by (simp_all add: trackRemote_def fallbackBase_def case_prod_beta Let_def calm_intro)

lemma calm_fetch_from [calm_intro]: "calm a t \<Longrightarrow> calm a (snd (fetch_from h dir base res rs t))"
  by (induction rs arbitrary: t) (simp_all add: case_prod_beta Let_def calm_intro)

lemma calm_resolveBaseRef [calm_intro]: "calm a t \<Longrightarrow> calm a (snd (resolveBaseRef h dir base t))"
  by (simp add: resolveBaseRef_def case_prod_beta Let_def calm_intro)

lemma calm_worktree_args [calm_intro]: "calm a t \<Longrightarrow> calm a (snd (snd (worktree_args h m f res t)))"
  by (simp add: worktree_args_def case_prod_beta Let_def calm_intro split: option.split)

lemma worktree_args_add: "\<exists>args. fst (worktree_args h m f res t) = ''worktree'' # ''add'' # args"
  by (simp add: worktree_args_def case_prod_beta Let_def)

lemma calm_createWorktreeFrom [calm_intro]:
  "calm a t \<Longrightarrow> calm a (snd (snd (createWorktreeFrom h m f res t)))"
proof -
  assume a: "calm a t"
  obtain args where "fst (worktree_args h m f res t) = ''worktree'' # ''add'' # args"
    using worktree_args_add by blast
  then have "deletes (Git (fo_path f) (fst (worktree_args h m f res t))) = None" by simp
  with calm_git [OF calm_worktree_args [OF a]] a show ?thesis
    by (simp add: createWorktreeFrom_def case_prod_beta Let_def)
qed

lemma calm_runHook [calm_intro]: "calm a t \<Longrightarrow> calm a (snd (snd (runHook h kind cwd hook args env n t)))"
  by (simp add: runHook_def Let_def case_prod_beta calm_intro split: option.split)

lemma calm_ListWorkspaces [calm_intro]: "calm a t \<Longrightarrow> calm a (snd (ListWorkspaces h f d t))"
  by (simp add: ListWorkspaces_def currentBranch_def case_prod_beta Let_def calm_intro)

lemma calm_ResolveWorkspace [calm_intro]: "calm a t \<Longrightarrow> calm a (snd (ResolveWorkspace h f p d t))"
  by (simp add: ResolveWorkspace_def case_prod_beta Let_def calm_intro split: option.split)

lemma calm_drop_refs [calm_intro]: "calm a t \<Longrightarrow> calm a (snd (drop_refs h dir rs e t))"
proof (induction rs arbitrary: t e)
  case (Cons r rs)
  have "calm a (snd (runGit h dir [''update-ref'', ''-d'', r] t))"
    using Cons.prems by (simp add: calm_intro)
  with Cons.IH show ?case by (auto simp: case_prod_beta split: sum.split)
qed simp

lemma calm_purgeCheckpoints [calm_intro]: "calm a t \<Longrightarrow> calm a (purgeCheckpoints h cwd i t)"
proof -
  assume a: "calm a t"
  have r: "calm a (snd (repoRoot h cwd t))"
    using a calm_git_forms(3) [OF a, of cwd "[''rev-parse'', ''--show-toplevel'']" h]
    by (auto simp: repoRoot_def case_prod_beta split: sum.split)
  have "calm a (snd (dropCheckpoints h dir i u))" if "calm a u" for dir u
    using calm_git_forms(3) [OF that, of dir "[''for-each-ref'', ''--format=%(refname)'', join_text ''/'' [checkpointRefPrefix, i] @ ''/'']" h]
    by (auto simp: dropCheckpoints_def case_prod_beta calm_intro split: sum.split)
  with r show ?thesis by (simp add: purgeCheckpoints_def case_prod_beta)
qed


section \<open>Leases\<close>

text \<open>A thread's row in one of the states \<open>H\<close>, with the folder its lifecycle runs against there.\<close>

definition leased :: "manager set \<Rightarrow> surroundings \<Rightarrow> thread_meta \<Rightarrow> folder \<Rightarrow> bool" where
  "leased H su meta f \<longleftrightarrow>
     (\<exists>m\<in>H. Thread (tm_id meta) (mg_store m) = Inr meta \<and> threadFolder su meta (mg_store m) = Inr f)"

fun task_ok :: "manager set \<Rightarrow> surroundings \<Rightarrow> task \<Rightarrow> bool" where
  "task_ok H su (CleanupJob meta f k purge_it remove) \<longleftrightarrow> leased H su meta f"
| "task_ok H su (CleanupRun meta f k purge_it remove) \<longleftrightarrow>
     leased H su meta f \<and> (remove \<longrightarrow> tm_workspaceMode meta \<noteq> ''local'')"
| "task_ok H su _ \<longleftrightarrow> True"

text \<open>What allows a deletion asked for between the traces \<open>a\<close> and \<open>t\<close>.\<close>

definition granted :: "manager set \<Rightarrow> surroundings \<Rightarrow> calls \<Rightarrow> calls \<Rightarrow> string \<Rightarrow> bool" where
  "granted H su a t p \<longleftrightarrow>
     (\<exists>meta f u. leased H su meta f \<and> tm_workspaceMode meta \<noteq> ''local'' \<and> prefix a u \<and> prefix u t
        \<and> removable (su_host su) meta f u p)"

definition all_granted :: "manager set \<Rightarrow> surroundings \<Rightarrow> calls \<Rightarrow> calls \<Rightarrow> call list \<Rightarrow> bool" where
  "all_granted H su a t cs \<longleftrightarrow> (\<forall>c\<in>set cs. \<forall>p. deletes c = Some p \<longrightarrow> granted H su a t p)"

definition follows :: "manager set \<Rightarrow> surroundings \<Rightarrow> manager \<Rightarrow> manager \<Rightarrow> bool" where
  "follows H su a b \<longleftrightarrow>
     (\<exists>cs. mg_calls b = mg_calls a @ cs \<and> all_granted H su (mg_calls a) (mg_calls b) cs)
     \<and> (\<exists>js. mg_jobs b = mg_jobs a @ js \<and> list_all (task_ok H su) js)"

named_theorems follows_intro \<open>operations that delete only under a lease\<close>

lemma granted_prefix: "granted H su s t p \<Longrightarrow> prefix s' s \<Longrightarrow> prefix t t' \<Longrightarrow> granted H su s' t' p"
  unfolding granted_def by (meson prefix_order.trans)

lemma follows_refl [follows_intro]: "follows H su m m"
  by (simp add: follows_def all_granted_def)

lemma follows_trans: "follows H su a b \<Longrightarrow> follows H su b c \<Longrightarrow> follows H su a c"
proof -
  assume ab: "follows H su a b" and bc: "follows H su b c"
  obtain cs ds where cs: "mg_calls b = mg_calls a @ cs" "all_granted H su (mg_calls a) (mg_calls b) cs"
    and ds: "mg_calls c = mg_calls b @ ds" "all_granted H su (mg_calls b) (mg_calls c) ds"
    using ab bc by (auto simp: follows_def)
  have order: "prefix (mg_calls a) (mg_calls b)" "prefix (mg_calls b) (mg_calls c)" by (simp_all add: cs(1) ds(1))
  have "all_granted H su (mg_calls a) (mg_calls c) (cs @ ds)"
    using cs(2) ds(2) order granted_prefix by (auto simp: all_granted_def)
  moreover have "mg_calls c = mg_calls a @ cs @ ds" using cs(1) ds(1) by simp
  moreover have "\<exists>js. mg_jobs c = mg_jobs a @ js \<and> list_all (task_ok H su) js"
    using ab bc by (auto simp: follows_def)
  ultimately show ?thesis unfolding follows_def by blast
qed

lemma follows_calm:
  assumes "follows H su a m" and "calm (mg_calls m) (mg_calls m')" and "mg_jobs m' = mg_jobs m"
  shows "follows H su a m'"
  by (rule follows_trans [OF assms(1)])
    (use assms(2,3) in \<open>auto simp: follows_def calm_def extends_def all_granted_def list_all_iff\<close>)

lemma follows_same:
  "follows H su a m \<Longrightarrow> mg_calls m' = mg_calls m \<Longrightarrow> mg_jobs m' = mg_jobs m \<Longrightarrow> follows H su a m'"
  by (rule follows_calm) (simp_all add: calm_intro)

lemma follows_spawn [follows_intro]: "follows H su a m \<Longrightarrow> task_ok H su j \<Longrightarrow> follows H su a (spawn j m)"
  by (erule follows_trans) (simp add: follows_def spawn_def all_granted_def)

lemma follows_calls [follows_intro]:
  "follows H su a m \<Longrightarrow> calm (mg_calls m) t \<Longrightarrow> follows H su a (m\<lparr>mg_calls := t\<rparr>)"
  by (rule follows_calm) simp_all

section \<open>Operations that ask nothing of the machine\<close>

lemma untouched_fields [simp]:
  "mg_calls (pass m) = mg_calls m" "mg_jobs (pass m) = mg_jobs m"
  "mg_calls (with_store g su m) = mg_calls m" "mg_jobs (with_store g su m) = mg_jobs m"
  "mg_calls (set_phase su i ph m) = mg_calls m" "mg_jobs (set_phase su i ph m) = mg_jobs m"
  "mg_calls (settle k b m) = mg_calls m" "mg_jobs (settle k b m) = mg_jobs m"
  "mg_calls (set_cwd k cwd m) = mg_calls m" "mg_jobs (set_cwd k cwd m) = mg_jobs m"
  "mg_calls (save_workspace su i r m) = mg_calls m" "mg_jobs (save_workspace su i r m) = mg_jobs m"
  "mg_jobs (did c m) = mg_jobs m" "mg_calls (did c m) = mg_calls m @ [c]" "mg_calls (spawn j m) = mg_calls m"
  "mg_jobs (purge su cwd i m) = mg_jobs m"
  "mg_calls (purge su cwd i m) = purgeCheckpoints (su_host su) cwd i (mg_calls m)"
  by (simp_all add: pass_def with_store_def set_phase_def settle_def set_cwd_def save_workspace_def
      did_def spawn_def purge_def)

lemma on_actor_fields [simp]:
  "mg_calls (snd (on_actor su k c m)) = mg_calls m" "mg_jobs (snd (on_actor su k c m)) = mg_jobs m"
  by (simp_all add: on_actor_def case_prod_beta split: option.split)

lemma emit_to_fields [simp]: "mg_calls (emit_to su k ems m) = mg_calls m" "mg_jobs (emit_to su k ems m) = mg_jobs m"
  by (induction ems arbitrary: m) (simp_all add: emit_to_def)

lemma follows_untouched [follows_intro]:
  assumes "follows H su a m"
  shows "follows H su a (pass m)" "follows H su a (set_phase su i ph m)" "follows H su a (snd (on_actor su k c m))"
    "follows H su a (emit_to su k ems m)" "follows H su a (snd (adopt x m))" "follows H su a (m\<lparr>mg_store := d\<rparr>)"
    "follows H su a (m\<lparr>mg_registry := g\<rparr>)" "follows H su a (save_workspace su i r m)" "follows H su a (set_cwd k cwd m)"
    "follows H su a (with_store g' su m)"
  by (rule follows_same [OF assms]; simp)+

lemma follows_did [follows_intro]:
  assumes "follows H su a m"
  shows "deletes c = None \<Longrightarrow> follows H su a (did c m)" and "follows H su a (purge su cwd i m)"
  by (rule follows_calm [OF assms]; simp add: calm_intro)+

lemma follows_foldl:
  "follows H su a m \<Longrightarrow> (\<And>m x. follows H su a m \<Longrightarrow> follows H su a (f m x)) \<Longrightarrow> follows H su a (foldl f m xs)"
  by (induction xs arbitrary: m) simp_all

lemma follows_restore [follows_intro]: "follows H su a m \<Longrightarrow> follows H su a (snd (restore su meta act m))"
proof -
  assume m: "follows H su a m"
  have marks: "follows H su a (foldl (\<lambda>m (ph, em). set_phase su i ph m) m ns)" for i ns
    by (rule follows_foldl [OF m]) (auto intro: follows_intro)
  show ?thesis
    using m marks
    by (auto simp: restore_def restore_pending_def case_prod_beta Let_def split: sum.split intro!: follows_intro)
qed

lemma follows_get [follows_intro]: "follows H su a m \<Longrightarrow> follows H su a (snd (get su i act m))"
proof -
  have finish: "follows H su a (snd (finishGet su k meta act m))" if "follows H su a m" for k meta m
    using that by (auto simp: finishGet_def case_prod_beta split: option.split intro!: follows_intro)
  show "follows H su a m \<Longrightarrow> ?thesis"
    by (auto simp: get_def case_prod_beta split: sum.split option.split intro!: finish follows_intro)
qed

lemma follows_close [follows_intro]:
  assumes "follows H su a m"
  shows "follows H su a (recoverActor su k m)" "follows H su a (Dispose su k reason m)"
    "follows H su a (Dispose_live su i reason m)" "follows H su a (snd (closeLocked su i reason m))"
    "follows H su a (delete_row i m)" "follows H su a (snd (cleanup_actor su meta m))"
  using assms
  by (auto simp: recoverActor_def Dispose_def Dispose_live_def closeLocked_def delete_row_def cleanup_actor_def case_prod_beta
      split: option.split sum.split intro!: follows_intro)

lemma follows_all [follows_intro]:
  assumes "follows H su a m"
  shows "follows H su a (recoverAll su m)" "follows H su a (Shutdown su m)"
  unfolding recoverAll_def Shutdown_def Get_def by (rule follows_foldl [OF assms]; auto intro: follows_intro)+


section \<open>Creating and provisioning\<close>

lemma follows_create [follows_intro]:
  assumes "follows H su a m"
  shows "follows H su a (snd (ProjectHome su pid m))" "follows H su a (snd (Create su harness inst cwd model mode m))"
    "follows H su a (snd (start_pending su meta f ad env m))" "follows H su a (snd (resolve_workspace su pid fid path m))"
proof -
  have home: "follows H su a (snd (make_home su home x))" if "follows H su a x" for home x
    using that by (auto simp: make_home_def split: option.split intro!: follows_intro)
  show "follows H su a (snd (ProjectHome su pid m))"
    using assms by (auto simp: ProjectHome_def split: sum.split list.split intro!: home follows_intro)
  show "follows H su a (snd (Create su harness inst cwd model mode m))"
    using assms by (auto simp: Create_def Let_def case_prod_beta split: sum.split intro!: follows_intro)
  show "follows H su a (snd (start_pending su meta f ad env m))"
    using assms by (auto simp: start_pending_def Let_def case_prod_beta split: sum.split intro!: follows_intro)
  show "follows H su a (snd (resolve_workspace su pid fid path m))"
    using assms by (auto simp: resolve_workspace_def case_prod_beta split: sum.split intro!: follows_intro calm_intro)
qed

lemma follows_choose [follows_intro]:
  assumes "follows H su a m"
  shows "follows H su a (snd (choose_scope su p ops m))" "follows H su a (snd (choose_place su p f ops m))"
  using assms by (auto simp: choose_scope_def choose_place_def case_prod_beta split: sum.split option.split intro!: follows_intro)

lemma follows_CreateProject [follows_intro]:
  "follows H su a m \<Longrightarrow> follows H su a (snd (CreateProject_thread su ops m))"
  by (auto simp: CreateProject_thread_def case_prod_beta Let_def split: sum.split intro!: follows_intro)

lemma follows_run_hook [follows_intro]:
  assumes "follows H su a m"
  shows "follows H su a (snd (run_hook su k kind cwd hook args env seconds m))"
    "follows H su a (snd (make_copy su meta f res k m))" "follows H su a (snd (write_json su path v m))"
  using assms by (auto simp: run_hook_def make_copy_def write_json_def case_prod_beta intro!: follows_intro calm_intro)

lemma follows_provision_hook [follows_intro]:
  "follows H su a m \<Longrightarrow> follows H su a (snd (provision_hook su meta f k dir hook suggested ref given m))"
  by (auto simp: provision_hook_def Let_def case_prod_beta split: option.split intro!: follows_intro)

lemma follows_runProvisionHook [follows_intro]:
  "follows H su a m \<Longrightarrow> follows H su a (snd (runProvisionHook su meta f k m))"
  by (auto simp: runProvisionHook_def Let_def case_prod_beta split: sum.split intro!: follows_intro calm_intro)

lemma follows_provision [follows_intro]:
  assumes "follows H su a m"
  shows "follows H su a (provision su meta f k m)" "follows H su a (provision_end su meta f k r m)"
proof -
  have failed: "follows H su a (provisionFailed su i k e x)" if "follows H su a x" for i e x
    using that by (auto simp: provisionFailed_def intro!: follows_intro)
  show "follows H su a (provision su meta f k m)"
    using assms by (auto simp: provision_def Let_def case_prod_beta intro!: follows_intro)
  show "follows H su a (provision_end su meta f k r m)"
    using assms by (auto simp: provision_end_def case_prod_beta split: sum.split option.split intro!: failed follows_intro)
qed

lemma follows_RetryProvision [follows_intro]: "follows H su a m \<Longrightarrow> follows H su a (snd (RetryProvision su i m))"
  by (auto simp: RetryProvision_def Get_def case_prod_beta split: sum.split option.split intro!: follows_intro)

section \<open>Removal\<close>

lemma follows_remove_checkout [follows_intro]:
  assumes m: "follows H su a m" and l: "leased H su meta f" "tm_workspaceMode meta \<noteq> ''local''"
  shows "follows H su a (snd (remove_checkout su meta f actor allow_it m))"
proof -
  let ?r = "removeGitWorktree (su_host su) meta f (actor \<noteq> None) allow_it (mg_calls m)"
  obtain cs where cs: "snd (snd ?r) = mg_calls m @ cs" "list_all (lawful (su_host su) meta f (mg_calls m)) cs"
    using removeGitWorktree_calls [of "mg_calls m" "su_host su" meta f "actor \<noteq> None" allow_it] by (auto simp: extends_def)
  have "granted H su (mg_calls m) (mg_calls m @ cs) p" if "c \<in> set cs" "deletes c = Some p" for c p
  proof -
    have "removable (su_host su) meta f (mg_calls m) p" using cs(2) that by (auto simp: list_all_iff lawful_def)
    moreover have "prefix (mg_calls m) (mg_calls m @ cs)" by simp
    ultimately show ?thesis using l unfolding granted_def by blast
  qed
  then have "all_granted H su (mg_calls m) (mg_calls m @ cs) cs" by (auto simp: all_granted_def)
  then have "follows H su m (snd (remove_checkout su meta f actor allow_it m))"
    using cs(1) by (auto simp: follows_def remove_checkout_def case_prod_beta split: option.split)
  with m show ?thesis by (rule follows_trans)
qed

lemma follows_runDeprovisionHook [follows_intro]:
  "follows H su a m \<Longrightarrow> follows H su a (snd (runDeprovisionHook su meta f k m))"
  by (auto simp: runDeprovisionHook_def Let_def case_prod_beta split: sum.split option.split intro!: follows_intro)

lemma leasedI:
  "m \<in> H \<Longrightarrow> Thread i (mg_store m) = Inr meta \<Longrightarrow> threadFolder su meta (mg_store m) = Inr f \<Longrightarrow>
   leased H su meta f"
  unfolding leased_def using thread_found(1) by metis

lemma follows_requests:
  assumes r: "m \<in> H"
  shows "follows H su m (snd (Cleanup su i m))" "follows H su m (snd (Delete su i remove m))"
    "follows H su m (snd (ForceDelete su i m))"
proof -
  note lease = leasedI [OF r]
  show "follows H su m (snd (Cleanup su i m))"
    by (auto simp: Cleanup_def case_prod_beta split: sum.split intro!: follows_intro dest: lease)
  show "follows H su m (snd (Delete su i remove m))"
    by (auto simp: Delete_def delete_closed_def case_prod_beta split: sum.split option.split
        intro!: follows_intro dest: lease)
  show "follows H su m (snd (ForceDelete su i m))"
    by (auto simp: ForceDelete_def case_prod_beta split: sum.split option.split intro!: follows_intro dest: lease)
qed

lemma follows_run_task:
  assumes "follows H su a m" and "task_ok H su j"
  shows "follows H su a (run_task su j m)"
  using assms
  by (cases j) (auto simp: run_task_def cleanup_def cleanup_run_def cleanup_end_def Let_def case_prod_beta
      split: option.split intro!: follows_intro)

lemma follows_others [follows_intro]:
  assumes "follows H su a m"
  shows "follows H su a (snd (SwitchAccount_thread su i inst m))" "follows H su a (snd (SaveProject su i name d m))"
    "follows H su a (snd (SaveFolder su i f m))" "follows H su a (snd (DeleteProject_named i m))"
    "follows H su a (tick_thread su i m)"
proof -
  have ask: "follows H su a (snd (ask_switch su k i inst sw x))" if "follows H su a x" for k i inst sw x
    using that by (auto simp: ask_switch_def case_prod_beta split: option.split intro!: follows_intro)
  show "follows H su a (snd (SwitchAccount_thread su i inst m))"
    using assms
    by (auto simp: SwitchAccount_thread_def View_def case_prod_beta split: sum.split intro!: ask follows_intro)
  show "follows H su a (snd (SaveProject su i name d m))" "follows H su a (snd (SaveFolder su i f m))"
    "follows H su a (snd (DeleteProject_named i m))" "follows H su a (tick_thread su i m)"
    using assms by (auto simp: SaveProject_def SaveFolder_def DeleteProject_named_def tick_thread_def View_def
        case_prod_beta Let_def split: sum.split option.split intro!: follows_intro)
qed

text \<open>
  One step from a state whose tasks are all entitled to what they will do: so are the tasks after
  it, and every deletion it asks for is granted by a state so far.
\<close>

lemma granted_step:
  assumes "manager_step su m m'" and r: "m \<in> H" and ok: "list_all (task_ok H su) (mg_jobs m)"
  shows "\<exists>cs. mg_calls m' = mg_calls m @ cs \<and> all_granted H su (mg_calls m) (mg_calls m') cs"
    and "list_all (task_ok H su) (mg_jobs m')"
proof -
  have "(\<exists>cs. mg_calls m' = mg_calls m @ cs \<and> all_granted H su (mg_calls m) (mg_calls m') cs)
    \<and> list_all (task_ok H su) (mg_jobs m')"
  proof (cases "\<exists>n. n < length (mg_jobs m) \<and> m' = run_task su (mg_jobs m ! n) (take_task n m)")
    case True
    then obtain n where n: "n < length (mg_jobs m)" "m' = run_task su (mg_jobs m ! n) (take_task n m)" by blast
    have "list_all (task_ok H su) (mg_jobs (take_task n m))" "mg_calls (take_task n m) = mg_calls m"
      using ok by (auto simp: take_task_def list_all_iff dest: in_set_takeD in_set_dropD)
    moreover have "task_ok H su (mg_jobs m ! n)" using ok n(1) by (simp add: list_all_length)
    ultimately show ?thesis
      using follows_run_task [OF follows_refl, of H su "mg_jobs m ! n" "take_task n m"] n(2) by (auto simp: follows_def)
  next
    case False
    have "follows H su m m'"
      using assms(1) False
      by cases (auto simp: Close_thread_def intro!: follows_intro follows_requests [OF r])
    with ok show ?thesis by (auto simp: follows_def)
  qed
  then show "\<exists>cs. mg_calls m' = mg_calls m @ cs \<and> all_granted H su (mg_calls m) (mg_calls m') cs"
    and "list_all (task_ok H su) (mg_jobs m')" by blast+
qed

lemma leased_mono: "H \<subseteq> H' \<Longrightarrow> leased H su meta f \<Longrightarrow> leased H' su meta f"
  by (auto simp: leased_def)

lemma task_ok_mono: "H \<subseteq> H' \<Longrightarrow> task_ok H su j \<Longrightarrow> task_ok H' su j"
  by (cases j) (auto intro: leased_mono)

lemma path_tasks: "manager_path su ms \<Longrightarrow> list_all (task_ok (set ms) su) (mg_jobs (hd ms))"
proof (induction rule: manager_path.induct)
  case (next_step m ms m')
  then have "list_all (task_ok (set (m # ms)) su) (mg_jobs m')" using granted_step(2) [of su m m' "set (m # ms)"] by simp
  then show ?case using task_ok_mono [of "set (m # ms)" "set (m' # m # ms)"] by (auto simp: list_all_iff)
qed (simp add: NewManager_def)

end
