(* ===== verification/ManagerProps.thy ===== *)
theory ManagerProps
  imports ManagerLease ActorProps
begin

text \<open>
  The manager as a whole: what is true of every live actor after any interleaving of requests and
  background work, what may ever be deleted, where a new home goes, and what becomes of a thread
  between its preparation and its first turn.
\<close>

section \<open>A sample server\<close>

definition sample_surroundings :: surroundings where
  "sample_surroundings =
     \<lparr>su_now = \<lambda>n. int n, su_uuid = \<lambda>n. ''id'' @ replicate n CHR ''x'', su_env = \<lambda>i. Inr [],
      su_probe = \<lambda>n ad env. None, su_host = sample_host, su_actor = \<lambda>k. sample_world,
      su_projectsDir = Inr ''/projects'', su_move = \<lambda>n ad. None\<rparr>"

definition sample_start :: manager where
  "sample_start = NewManager empty_db (NewRegistry [(''pi'', ''Pi'')])"

definition sample_created :: manager where
  "sample_created = snd (Create sample_surroundings ''pi'' [] ''/w'' [] [] sample_start)"

lemma empty_sound: "sound empty_db"
  by (simp add: sound_def store_reachable.empty snapshots_ok_def) (simp add: empty_db_def)

lemma sample_created_reachable: "manager_reachable sample_surroundings sample_created"
  unfolding sample_created_def sample_start_def
  by (rule manager_reachable.step [OF reachable_new [OF empty_sound] manager_step.create])

section \<open>Live actors\<close>

text \<open>
  C2: in every state the server can reach, a thread has at most one live actor, and a live actor
  whose thread still has a row holds exactly the fold of that thread's log in the shared store,
  knows its length, and shows the attention that follows from it, whatever other threads,
  requests and background tasks did to the store in between.
\<close>

theorem live_actors_mirror_store:
  assumes "manager_reachable su m" and "(k, a) \<in> set (mg_actors m)"
  shows "(\<forall>k' b. (k', b) \<in> set (mg_actors m) \<and> a_id b = a_id a \<longrightarrow> k' = k \<and> b = a)
    \<and> (a_id a \<in> tm_id ` set (db_threads (mg_store m)) \<longrightarrow>
         a_state a = foldl Apply (New (a_id a)) (log_of (a_id a) (mg_store m))
         \<and> a_head a = int (length (log_of (a_id a) (mg_store m)))
         \<and> a_attention a = Attention (a_state a))"
proof -
  have ok: "manager_ok m" by (rule manager_ok_reachable [OF assms(1)])
  have "core_ok (a\<lparr>a_store := mg_store m\<rparr>)" if "a_id a \<in> thread_ids (mg_store m)"
    using manager_live [OF ok assms(2)] that by (simp add: live_ok_def)
  then show ?thesis
    using actor_unique [OF ok _ assms(2)]
    by (auto simp: thread_ids_def core_ok_def state_ok_def)
qed

theorem live_actors_mirror_store_witness:
  "\<exists>k a. (k, a) \<in> set (mg_actors sample_created)
     \<and> a_state a = foldl Apply (New (a_id a)) (log_of (a_id a) (mg_store sample_created)) \<and> a_head a = 1"
proof -
  have "\<not> List.null (mg_actors sample_created)
      \<and> a_id (snd (hd (mg_actors sample_created))) \<in> tm_id ` set (db_threads (mg_store sample_created))
      \<and> length (log_of (a_id (snd (hd (mg_actors sample_created)))) (mg_store sample_created)) = 1"
    by code_simp
  moreover from this have "(fst (hd (mg_actors sample_created)), snd (hd (mg_actors sample_created)))
      \<in> set (mg_actors sample_created)" by (simp add: List.null_iff)
  ultimately show ?thesis using live_actors_mirror_store [OF sample_created_reachable] by fastforce
qed

section \<open>Deletions\<close>

text \<open>
  C11: over any run of the server, whatever requests and background tasks interleave, a step deletes
  a directory only for a thread whose row, in a state this run has been in before the deletion, had
  that directory as its checkout under a lease that is not the main checkout; never the folder that
  row ran against there nor a directory above it; and only when, at that step, Git listed it as a
  worktree of that folder's repository or its own pointer file says it was one.
\<close>

theorem deletions_leased:
  assumes "manager_path su (m' # m # ms)" and "c \<in> set (drop (length (mg_calls m)) (mg_calls m'))"
    and "deletes c = Some p" and "is_abs (os_cwd (su_host su))"
    and "\<forall>t q r. os_resolve (su_host su) t q = Some r \<longrightarrow> is_abs r"
  shows "prefix (mg_calls m) (mg_calls m')
    \<and> (\<exists>m0\<in>set (m # ms). \<exists>meta f t. Thread (tm_id meta) (mg_store m0) = Inr meta
        \<and> threadFolder su meta (mg_store m0) = Inr f \<and> tm_workspaceMode meta \<noteq> ''local''
        \<and> prefix (mg_calls m) t \<and> prefix t (mg_calls m') \<and> removable (su_host su) meta f t p
        \<and> p = canonicalPath (su_host su) t (abs_path (su_host su) (tm_cwd meta))
        \<and> \<not> (\<exists>ds. parts_of (canonicalPath (su_host su) t (abs_path (su_host su) (fo_path f))) = parts_of p @ ds))"
proof -
  let ?h = "su_host su"
  have abs: "is_abs (canonicalPath ?h t (abs_path ?h q))" for t q
    using assms(4,5) abs_path_abs by (auto simp: canonicalPath_def split: option.split)
  from assms(1) have step: "manager_step su m m'" and before: "manager_path su (m # ms)" by (auto elim: path_step)
  have "list_all (task_ok (set (m # ms)) su) (mg_jobs m)" using path_tasks [OF before] by simp
  from granted_step(1) [OF step _ this] obtain cs where cs: "mg_calls m' = mg_calls m @ cs"
      "all_granted (set (m # ms)) su (mg_calls m) (mg_calls m') cs" by auto
  then have "granted (set (m # ms)) su (mg_calls m) (mg_calls m') p"
    using assms(2,3) by (auto simp: all_granted_def)
  then obtain meta f t m0 where r: "m0 \<in> set (m # ms)" "Thread (tm_id meta) (mg_store m0) = Inr meta"
      "threadFolder su meta (mg_store m0) = Inr f" "tm_workspaceMode meta \<noteq> ''local''"
      "prefix (mg_calls m) t" "prefix t (mg_calls m')" "removable ?h meta f t p"
    unfolding granted_def leased_def by blast
  then have p: "p = canonicalPath ?h t (abs_path ?h (tm_cwd meta))" by (simp add: removable_def Let_def)
  then have "is_abs p" using abs by simp
  note outside = removable_outside [OF r(7) this abs]
  have "prefix (mg_calls m) (mg_calls m')" by (simp add: cs(1))
  with r p outside show ?thesis by blast
qed

definition sample_managed_project :: project where
  "sample_managed_project =
     \<lparr>pj_id = ''p1'', pj_name = ''demo'', pj_home = [],
      pj_defaults = \<lparr>de_harness = [], de_harnesses = None, de_workspace = [], de_voice = []\<rparr>,
      pj_folders = [NewFolder ''f'' ''/p''], pj_createdAt = 1, pj_updatedAt = 1\<rparr>"

text \<open>A store with one project and one thread of it, in a given phase.\<close>

definition sample_row_db :: "string \<Rightarrow> db" where
  "sample_row_db phase =
     (case CreateProject sample_managed_project empty_db of
        Inl e \<Rightarrow> empty_db
      | Inr d \<Rightarrow>
          (case CreateThread (sample_copy\<lparr>tm_projectID := ''p1'', tm_folderID := ''f'', tm_phase := phase\<rparr>) d of
             Inl e \<Rightarrow> empty_db | Inr d' \<Rightarrow> d'))"

definition sample_row_start :: "string \<Rightarrow> manager" where
  "sample_row_start phase = NewManager (sample_row_db phase) (NewRegistry [(''pi'', ''Pi'')])"

definition sample_deleted :: manager where
  "sample_deleted =
     snd (Delete sample_surroundings ''t1'' True (sample_row_start ''closed''))"

lemma sample_row_path:
  assumes "List.null (db_snapshots (sample_row_db phase))"
  shows "manager_path su [sample_row_start phase]"
proof -
  have "store_reachable d'" if "CreateProject sample_managed_project empty_db = Inr d" "CreateThread t d = Inr d'"
    for d d' t
    using that store_reachable.empty
    by (meson store_reachable.step store_step.create_project store_step.create_thread)
  then have "store_reachable (sample_row_db phase)"
    using store_reachable.empty by (auto simp: sample_row_db_def split: sum.split)
  with assms have "sound (sample_row_db phase)" by (simp add: sound_def snapshots_ok_def List.null_iff)
  then show ?thesis
    unfolding sample_row_start_def
    using manager_path.first [of "sample_row_db phase" su "[]" "[(''pi'', ''Pi'')]"] by (simp add: ConfigureInstances_def)
qed


theorem deletions_leased_witness:
  "\<exists>meta f t. Thread ''t1'' (mg_store (sample_row_start ''closed'')) = Inr meta
     \<and> ''/p-copy'' = canonicalPath sample_host t (abs_path sample_host (tm_cwd meta))
     \<and> tm_workspaceMode meta \<noteq> ''local'' \<and> removable sample_host meta f t ''/p-copy''"
proof -
  have "manager_path sample_surroundings [sample_row_start ''closed'']"
    by (rule sample_row_path) code_simp
  then have r: "manager_path sample_surroundings [sample_deleted, sample_row_start ''closed'']"
    unfolding sample_deleted_def by (rule manager_path.next_step [OF _ manager_step.delete])
  have start: "mg_calls (sample_row_start ''closed'') = []" by (simp add: sample_row_start_def NewManager_def)
  have "list_ex (\<lambda>c. deletes c = Some ''/p-copy'') (mg_calls sample_deleted)" by code_simp
  then obtain c where c: "c \<in> set (drop (length (mg_calls (sample_row_start ''closed''))) (mg_calls sample_deleted))"
      "deletes c = Some ''/p-copy''"
    by (auto simp: list_ex_iff start)
  have "is_abs (os_cwd (su_host sample_surroundings))" by code_simp
  moreover have "\<forall>t q r. os_resolve (su_host sample_surroundings) t q = Some r \<longrightarrow> is_abs r"
    by (auto simp: sample_surroundings_def sample_host_def clean_def path_of_def is_abs_def)
  moreover have host: "su_host sample_surroundings = sample_host" by (simp add: sample_surroundings_def)
  ultimately obtain meta f t where found: "Thread (tm_id meta) (mg_store (sample_row_start ''closed'')) = Inr meta"
      "tm_workspaceMode meta \<noteq> ''local''" "removable sample_host meta f t ''/p-copy''"
      "''/p-copy'' = canonicalPath sample_host t (abs_path sample_host (tm_cwd meta))"
    using deletions_leased [OF r c] by auto
  have "map tm_id (db_threads (mg_store (sample_row_start ''closed''))) = [''t1'']" by code_simp
  then have "tm_id meta = ''t1''" using thread_found(2) [OF found(1)] by (auto simp: thread_ids_def)
  with found show ?thesis by metis
qed

section \<open>A workspace that became ready\<close>





lemma map_of_replaced:
  "map_of (map (\<lambda>(i, x). if i = k then (i, b) else (i, x)) xs) k = map_option (\<lambda>x. b) (map_of xs k)"
  by (induction xs) auto








section \<open>A prompt sent while the workspace is prepared\<close>

text \<open>
  A prompt that arrives during the preparation starts as soon as the harness is up; the last step
  of \<open>provision\<close> then hides it: its event takes the projection to idle, and with it the
  attention, while the guard stays on the running turn.
\<close>

theorem early_prompt_hidden:
  assumes "manager_reachable su m" and "(k, a) \<in> set (mg_actors m)"
    and "a_id a \<in> tm_id ` set (db_threads (mg_store m))" and "a_turnActive a \<noteq> []"
  shows "\<exists>b. map_of (mg_actors (emit_to su k [WorkspaceReady p] (set_phase su (a_id a) ''ready'' m))) k = Some b
    \<and> a_turnActive b = a_turnActive a \<and> st_phase (a_state b) = ''idle''"
proof -
  let ?m = "set_phase su (a_id a) ''ready'' m"
  let ?a = "lend ?m a" and ?w = "su_actor su k" and ?em = "WorkspaceReady p"
  have ok: "manager_ok m" by (rule manager_ok_reachable [OF assms(1)])
  have actors: "mg_actors ?m = mg_actors m" by (simp add: set_phase_def with_store_def pass_def)
  then have mem: "(k, a) \<in> set (mg_actors ?m)" using assms(2) by simp
  have ok': "manager_ok ?m" by (rule manager_ok_set_phase [OF ok])
  have "a_id a \<in> thread_ids (mg_store ?m)" unfolding set_phase_ids using assms(3) by (simp add: thread_ids_def)
  moreover have "live_ok ?a" using manager_live [OF ok' mem] by simp
  ultimately have core: "core_ok ?a" by (simp add: live_ok_def)
  have here: "map_of (mg_actors ?m) k = Some a" and alive: "\<not> a_stopped a"
    using ok' mem by (auto simp: manager_ok_def map_of_eq_Some_iff)
  have em: "redact ?w ?a ?em = ?em" by simp
  obtain ev where ev: "ev_body ev = stored_body ?em"
      "a_state (snd (append ?w ?em ?a)) = apply_body ev (ev_body ev) ((a_state ?a)\<lparr>st_seq := ev_seq ev\<rparr>)"
      "a_turnActive (snd (append ?w ?em ?a)) = a_turnActive ?a"
    by (rule append_effect [OF core, of ?w ?em]) (simp add: em)
  let ?b = "snd (append ?w ?em ?a)"
  have guard: "a_turnActive ?b = a_turnActive a" using ev(3) by (simp add: lend_def)
  then have "dispatchQueued ?w ?b = ?b" using assms(4) by (simp add: dispatchQueued_def split: option.split)
  then have "snd (run_command ?w (Emit ?em) ?a) = ?b"
    using alive by (simp add: run_command_def answer_def lend_def)
  then have "map_of (mg_actors (emit_to su k [?em] ?m)) k = Some ?b"
    using here alive by (auto simp: emit_to_def on_actor_def settle_def lend_def map_of_replaced split: prod.split)
  moreover have "st_phase (a_state ?b) = ''idle''" using ev(1,2) by (simp add: apply_workspace_ready_def)
  ultimately show ?thesis using guard by blast
qed

end
