(* ===== verification/HomeProps.thy ===== *)
theory HomeProps
  imports ManagerProps
begin

text \<open>
  Where the home folder of a project goes (internal/thread/artefacts.go): the search for a name
  ends, at the first name nothing has taken, one step below the projects folder.
\<close>

section \<open>A name below a folder\<close>

definition name_byte :: "char \<Rightarrow> bool" where
  "name_byte b \<longleftrightarrow> slug_byte b \<or> b = CHR ''-''"

definition folder_name :: "string \<Rightarrow> bool" where
  "folder_name x \<longleftrightarrow> x \<noteq> [] \<and> list_all name_byte x"

lemma folder_name_plain:
  assumes "folder_name x"
  shows "CHR ''/'' \<notin> set x" and "x \<noteq> ''.''" and "x \<noteq> ''..''"
  using assms by (auto simp: folder_name_def list_all_iff name_byte_def slug_byte_def)

lemma clean_parts_append:
  "clean_parts r acc (ps @ qs) = clean_parts r (rev (clean_parts r acc ps)) qs"
  by (induction ps arbitrary: acc) auto

lemma split_on_nonempty: "split_on c s \<noteq> []"
  by (induction c s rule: split_on.induct) (simp_all split: list.split)

lemma split_on_whole: "c \<notin> set s \<Longrightarrow> split_on c s = [s]"
  by (induction s) auto

lemma split_on_snoc:
  assumes "c \<notin> set x"
  shows "split_on c (d @ c # x) = split_on c d @ [x]"
proof (induction d)
  case (Cons b d)
  with split_on_nonempty [of c d] show ?case by (cases "split_on c d") simp_all
qed (simp add: split_on_whole [OF assms])

lemma parts_of_below:
  assumes "d \<noteq> []" and "folder_name x"
  shows "parts_of (d @ CHR ''/'' # x) = parts_of d @ [x]" and "is_abs (d @ CHR ''/'' # x) = is_abs d"
proof -
  show abs: "is_abs (d @ CHR ''/'' # x) = is_abs d" using assms(1) by (simp add: is_abs_def)
  have "x \<noteq> []" using assms(2) by (simp add: folder_name_def)
  then show "parts_of (d @ CHR ''/'' # x) = parts_of d @ [x]"
    using folder_name_plain [OF assms(2)]
    by (simp add: parts_of_def abs split_on_snoc clean_parts_append)
qed

lemma join_below:
  assumes "d \<noteq> []" and "folder_name x"
  shows "join_path [d, x] = path_of (is_abs d) (parts_of d @ [x])"
  using parts_of_below [OF assms] assms
  by (simp add: join_path_def folder_name_def join_with_def clean_def)

lemma path_of_snoc: "path_of r (ps @ [x]) = path_of r (ps @ [y]) \<longleftrightarrow> x = y"
  by (cases ps) (simp_all add: path_of_def join_with_def)

lemma path_of_snoc_nonempty: "x \<noteq> [] \<Longrightarrow> path_of r (ps @ [x]) \<noteq> []"
  by (cases ps) (simp_all add: path_of_def join_with_def)

section \<open>The names that are tried\<close>

text \<open>The base of the names: the slug of the project's name, where it has one.\<close>

definition home_base :: "string \<Rightarrow> string" where
  "home_base name = (if slug name = [] then ''project'' else slug name)"

lemma dashed_names: "list_all name_byte (dashed s)"
  by (induction s) (simp_all add: name_byte_def)

lemma list_all_dropWhile: "list_all P xs \<Longrightarrow> list_all P (dropWhile Q xs)"
  by (induction xs) simp_all

lemma slug_names: "list_all name_byte (slug s)"
  using dashed_names [of "lower_text s"] by (simp add: slug_def trim_dashes_def list_all_dropWhile)

lemma home_base_name: "folder_name (home_base name)"
proof (cases "slug name = []")
  case True
  then have "home_base name = ''project''" by (simp add: home_base_def)
  then show ?thesis by (simp add: folder_name_def name_byte_def slug_byte_def)
qed (simp add: folder_name_def home_base_def slug_names)

lemma digits_names: "list_all name_byte (dec_digits n)"
proof (induction n rule: less_induct)
  case (less n)
  have "name_byte (digit_char k)" if "k < 10" for k
    using of_char_digit [OF that] that by (simp add: name_byte_def slug_byte_def)
  with less.IH [of "n div 10"] show ?case
    by (cases "n < 10") (simp_all add: dec_digits_small dec_digits_large)
qed

lemma home_name_folder: "folder_name base \<Longrightarrow> folder_name (home_name base i)"
  using digits_names [of i]
  by (simp add: folder_name_def home_name_def format_int_def name_byte_def)

lemma home_name_inj: "1 < i \<Longrightarrow> 1 < j \<Longrightarrow> home_name base i = home_name base j \<Longrightarrow> i = j"
  by (simp add: home_name_def) (metis format_int_inj of_nat_eq_iff)

section \<open>The search\<close>

lemma free_home_first:
  assumes "\<not> used (join_path [dir, home_name base n])" and "i \<le> n"
    and "\<forall>j. i \<le> j \<and> j < n \<longrightarrow> used (join_path [dir, home_name base j])"
  shows "free_home used dir base i = Some (join_path [dir, home_name base n])"
  using assms(2,3)
proof (induction "n - i" arbitrary: i)
  case 0
  with assms(1) show ?case by (simp add: free_home.simps)
next
  case (Suc k)
  then have "used (join_path [dir, home_name base i])" and "Suc i \<le> n" by auto
  then show ?case using Suc by (subst free_home.simps) simp
qed

lemma free_home_exists:
  assumes "dir \<noteq> []" and "folder_name base" and "finite {p. used p}"
  shows "\<exists>n \<ge> 1. \<not> used (join_path [dir, home_name base n])"
proof (rule ccontr)
  let ?path = "\<lambda>n. join_path [dir, home_name base n]"
  assume "\<not> (\<exists>n \<ge> 1. \<not> used (?path n))"
  then have "?path ` {2..} \<subseteq> {p. used p}" by auto
  moreover have "inj_on ?path {2..}"
    by (rule inj_onI) (auto simp: join_below [OF assms(1) home_name_folder [OF assms(2)]] path_of_snoc
      dest!: home_name_inj [rotated 2])
  ultimately have "finite {2 :: nat..}" using assms(3) by (meson finite_subset inj_on_finite)
  then show False by (simp add: infinite_Ici)
qed

text \<open>
  C39: the search for a new home ends whenever only finitely many paths exist, at the first of the
  names that no project has as its home and nothing on disk has taken; the home lies one step
  below the projects folder and its name is made of small letters, digits and dashes.
\<close>

theorem new_home_found:
  assumes "su_projectsDir su = Inr dir" and "dir \<noteq> []"
    and "finite {p. os_present (su_host su) (mg_calls m) p}"
  shows "\<exists>n home. 1 \<le> n \<and> newHome su name m = Inr home
    \<and> home = path_of (is_abs dir) (parts_of dir @ [home_name (home_base name) n])
    \<and> folder_name (home_name (home_base name) n)
    \<and> \<not> os_present (su_host su) (mg_calls m) home
    \<and> home \<notin> pj_home ` set (ListProjects (os_isGit (su_host su)) (mg_store m))
    \<and> (\<forall>j. 1 \<le> j \<and> j < n \<longrightarrow> (let p = join_path [dir, home_name (home_base name) j]
         in os_present (su_host su) (mg_calls m) p
            \<or> p \<in> pj_home ` set (ListProjects (os_isGit (su_host su)) (mg_store m))))"
proof -
  let ?homes = "pj_home ` set (ListProjects (os_isGit (su_host su)) (mg_store m))"
  let ?used = "\<lambda>p. p \<in> {x \<in> ?homes. x \<noteq> []} \<or> os_present (su_host su) (mg_calls m) p"
  let ?path = "\<lambda>n. join_path [dir, home_name (home_base name) n]"
  note path = join_below [OF assms(2) home_name_folder [OF home_base_name]]
  have "finite {p. ?used p}" using assms(3) by simp
  from free_home_exists [OF assms(2) home_base_name this]
  obtain n where n: "1 \<le> n" "\<not> ?used (?path n)" "\<forall>j. 1 \<le> j \<and> j < n \<longrightarrow> ?used (?path j)"
    using exists_least_iff [of "\<lambda>n. 1 \<le> n \<and> \<not> ?used (?path n)"] by blast
  have "newHome su name m = Inr (?path n)"
    using free_home_first [of ?used dir "home_base name" n 1] n assms(1)
    by (simp add: newHome_def home_base_def Let_def conj_commute image_iff Bex_def)
  moreover have "?path n \<noteq> []"
    unfolding path using home_name_folder [OF home_base_name]
    by (intro path_of_snoc_nonempty) (simp add: folder_name_def)
  ultimately show ?thesis
    using n path home_name_folder [OF home_base_name] by (auto simp: Let_def)
qed

theorem new_home_found_witness:
  "\<exists>n home. 1 \<le> n \<and> newHome sample_surroundings ''My App'' sample_start = Inr home
     \<and> home = path_of True (parts_of ''/projects'' @ [home_name (home_base ''My App'') n])"
proof -
  have dir: "su_projectsDir sample_surroundings = Inr ''/projects''"
    and none: "finite {p. os_present (su_host sample_surroundings) (mg_calls sample_start) p}"
    by (simp_all add: sample_surroundings_def sample_host_def)
  have "is_abs ''/projects''" by (simp add: is_abs_def)
  with new_home_found [OF dir _ none, of "''My App''"] show ?thesis by auto
qed

end
