(* ===== verification/Claude.thy ===== *)
theory Claude
  imports ActorLoop Text Paths
begin

text \<open>
  The Claude Code session (internal/adapter/claudecode/claude.go): how the messages of the bridge
  become events, turn by turn.  A message is given by its fields as \<open>encoding/json\<close> decodes them, a
  missing one being the zero of its type.  The read loop, the actor's calls and the exit watcher
  run between each other's critical sections; each is one step here, and a call to the bridge is
  two, with the answer as the second.
\<close>

section \<open>Messages\<close>

record stream_event =
  sv_type :: string
  sv_index :: int
  sv_messageID :: string
  sv_blockType :: string
  sv_blockID :: string
  sv_blockName :: string
  sv_deltaType :: string
  sv_text :: string
  sv_thinking :: string

record assistant_content =
  an_type :: string
  an_id :: string
  an_name :: string
  an_text :: string
  an_input :: raw_message

record assistant_message =
  am_error :: string
  am_id :: string
  am_content :: "assistant_content list"
  am_inputTokens :: int
  am_cacheRead :: int
  am_cacheCreation :: int

text \<open>The content of a tool result: a text, a list of typed texts, or anything else as it was written.\<close>

datatype result_content =
    NoContent
  | PlainContent string
  | BlockContent "(string \<times> string) list"
  | OtherContent string

record user_content =
  uc_type :: string
  uc_text :: string
  uc_toolUseID :: string
  uc_isError :: bool
  uc_content :: result_content

record claude_user =
  um_content :: "user_content list"
  um_isReplay :: bool
  um_uuid :: string

record result_message =
  rm_isError :: bool
  rm_stopReason :: string
  rm_result :: string
  rm_terminalReason :: string
  rm_errors :: "string list"
  rm_cost :: rat
  rm_input :: int
  rm_output :: int
  rm_cacheRead :: int
  rm_cacheCreation :: int

record context_row =
  xr_name :: string
  xr_tokens :: int
  xr_isDeferred :: bool

record context_report =
  xt_totalTokens :: int
  xt_maxTokens :: int
  xt_rawMaxTokens :: int
  xt_percentage :: rat
  xt_autoCompact :: bool
  xt_threshold :: int
  xt_categories :: "context_row list"

record background_task =
  bt_taskID :: string
  bt_taskType :: string
  bt_description :: string

record task_message =
  tk_subtype :: string
  tk_taskID :: string
  tk_toolUseID :: string
  tk_description :: string
  tk_subagentType :: string
  tk_taskType :: string
  tk_workflowName :: string
  tk_skipTranscript :: bool
  tk_lastToolName :: string
  tk_summary :: string
  tk_status :: string
  tk_outputFile :: string
  tk_usage :: "(int \<times> int \<times> int) option"
  tk_patchStatus :: string
  tk_patchDescription :: string
  tk_patchError :: string
  tk_patchBackground :: "bool option"
  tk_tasks :: "background_task list"

datatype claude_body =
    InitMessage string string
  | TaskMessage task_message
  | CompactBoundary string int int
  | OtherSystem
  | StreamMessage stream_event
  | AssistantMessage assistant_message
  | UserMessage claude_user
  | ResultMessage result_message
  | ContextMessage context_report
  | OtherMessage

record claude_message =
  km_parent :: string
  km_session :: string
  km_body :: claude_body

section \<open>The session\<close>

record claude_block =
  bl_kind :: string
  bl_blockID :: string
  bl_toolID :: string
  bl_name :: string

record claude_stream =
  sr_messageID :: string
  sr_blocks :: "int \<rightharpoonup> claude_block"

record job_link =
  jl_toolUseID :: string
  jl_parentJob :: string
  jl_done :: bool

text \<open>What is written to the bridge.\<close>

datatype frame =
    PromptFrame string "prompt_image list" string
  | InterruptFrame
  | ModelFrame string
  | EffortFrame string

text \<open>
  \<open>cl_gone\<close> says that the bridge's output has ended (\<open>conn.Done\<close>), \<open>cl_over\<close> that the exit watcher
  closed the events, \<open>cl_closed\<close> that \<open>Close\<close> was called; \<open>cl_background\<close> holds the keys of a map, in
  the order in which it was ranged over.
\<close>

record claude_session =
  cl_harnessSessionID :: string
  cl_turnID :: string
  cl_streams :: "string \<rightharpoonup> claude_stream"
  cl_sawResult :: bool
  cl_steers :: "string \<rightharpoonup> bool"
  cl_suppress :: bool
  cl_model :: string
  cl_effort :: string
  cl_oneM :: bool
  cl_jobs :: "string \<rightharpoonup> job_link"
  cl_toolJobs :: "string \<rightharpoonup> string"
  cl_background :: "string list"
  cl_fatal :: string
  cl_limited :: bool
  cl_usage :: usage_updated_payload
  cl_lastPromptTokens :: int
  cl_events :: "event_body list"
  cl_sent :: "frame list"
  cl_gone :: bool
  cl_over :: bool
  cl_closed :: bool
  cl_tick :: nat

text \<open>
  Fresh ids, the error of a write, whether a closed session's event still goes through, and the
  \<open>float64\<close> percentage of two counts.
\<close>

record claude_world =
  kw_uuid :: "nat \<Rightarrow> string"
  kw_notify :: "nat \<Rightarrow> string option"
  kw_keep :: "nat \<Rightarrow> bool"
  kw_percent :: "int \<Rightarrow> int \<Rightarrow> rat"

definition step_tick :: "claude_session \<Rightarrow> claude_session" where
  "step_tick s = s\<lparr>cl_tick := Suc (cl_tick s)\<rparr>"

definition claude_emit :: "claude_world \<Rightarrow> event_body \<Rightarrow> claude_session \<Rightarrow> claude_session" where
  "claude_emit w e s =
     (if cl_over s then s
      else if cl_closed s \<and> \<not> kw_keep w (cl_tick s) then step_tick s
      else (step_tick s)\<lparr>cl_events := cl_events s @ [e]\<rparr>)"

definition notify_bridge :: "claude_world \<Rightarrow> frame \<Rightarrow> claude_session \<Rightarrow> string option \<times> claude_session" where
  "notify_bridge w f s = (kw_notify w (cl_tick s), (step_tick s)\<lparr>cl_sent := cl_sent s @ [f]\<rparr>)"

definition call_bridge :: "frame \<Rightarrow> claude_session \<Rightarrow> claude_session" where
  "call_bridge f s = s\<lparr>cl_sent := cl_sent s @ [f]\<rparr>"

definition conversationID :: "claude_world \<Rightarrow> bool \<Rightarrow> string \<Rightarrow> string \<Rightarrow> string" where
  "conversationID w resume harnessSessionID threadID =
     (if resume \<and> harnessSessionID \<noteq> [] then harnessSessionID
      else if threadID \<noteq> [] then threadID else kw_uuid w 0)"

abbreviation tag1M :: string where "tag1M \<equiv> ''[1m]''"

text \<open>The part of \<open>CreateSession\<close> that makes the session.\<close>

definition claude_start :: "claude_world \<Rightarrow> bool \<Rightarrow> string \<Rightarrow> string \<Rightarrow> string \<Rightarrow> string \<Rightarrow> claude_session" where
  "claude_start w resume harnessSessionID threadID model effort =
     (let i = conversationID w resume harnessSessionID threadID
      in claude_emit w (ThreadConfigChanged \<lparr>cc_replaceSettings = False, cc_model = [], cc_mode = [],
           cc_effort = None, cc_title = [], cc_harnessSessionID = i\<rparr>)
         \<lparr>cl_harnessSessionID = i, cl_turnID = [], cl_streams = Map.empty, cl_sawResult = False,
          cl_steers = Map.empty, cl_suppress = False, cl_model = model, cl_effort = effort,
          cl_oneM = contains_text tag1M model, cl_jobs = Map.empty, cl_toolJobs = Map.empty,
          cl_background = [], cl_fatal = [], cl_limited = False, cl_usage = zero_usage,
          cl_lastPromptTokens = 0, cl_events = [], cl_sent = [], cl_gone = False, cl_over = False,
          cl_closed = False, cl_tick = 1\<rparr>)"

section \<open>Why a bridge is gone\<close>

definition authNeedles :: "string list" where
  "authNeedles =
     [''/login'', ''not logged in'', ''authentication_failed'', ''invalid api key'', ''authentication_error'',
      ''authentication failed'', ''oauth token has expired'', ''oauth token is invalid'',
      ''please run claude login'', ''unauthorized'', ''status 401'', ''http 401'']"

definition backquote :: char where "backquote = char_of (96 :: nat)"

definition loginRequired :: "string \<Rightarrow> string option" where
  "loginRequired fatal =
     (if list_ex (\<lambda>n. contains_text n (lower_text fatal)) authNeedles
      then Some (''claude needs you to sign in again: run '' @ [backquote] @ ''claude'' @ [backquote]
        @ '' in a terminal and use /login, ''
        @ ''or give this provider instance a valid CLAUDE_CODE_OAUTH_TOKEN or ANTHROPIC_API_KEY'')
      else None)"

definition newline_at :: "string \<Rightarrow> nat option" where
  "newline_at s = first_index (CHR 0x0A) s"

definition briefly :: "string \<Rightarrow> string" where
  "briefly s =
     (let l = trim_space (case newline_at s of None \<Rightarrow> s | Some i \<Rightarrow> take i s)
      in if length l > 300 then take 300 l @ ellipsis else l)"

definition exitReason :: "claude_session \<Rightarrow> string \<times> string" where
  "exitReason s =
     (case loginRequired (cl_fatal s) of
        Some msg \<Rightarrow> (msg, FailureAuth)
      | None \<Rightarrow>
          if cl_fatal s \<noteq> [] then (''claude exited: '' @ briefly (cl_fatal s), [])
          else (''claude bridge exited'', []))"

section \<open>What the actor asks for\<close>

definition plain_failure :: "string \<Rightarrow> harness_error" where
  "plain_failure e = \<lparr>he_message = e, he_failure = []\<rparr>"

definition claude_Prompt ::
  "claude_world \<Rightarrow> string \<Rightarrow> string \<Rightarrow> prompt_image list \<Rightarrow> claude_session \<Rightarrow> harness_error option \<times> claude_session" where
  "claude_Prompt w turn text images s =
     (if cl_gone s then
        (Some \<lparr>he_message = fst (exitReason s), he_failure = snd (exitReason s)\<rparr>, s)
      else if cl_turnID s \<noteq> [] \<and> cl_turnID s \<noteq> turn then
        (Some (plain_failure ''the harness resumed work on its own; wait for it to finish''), s)
      else
        (case notify_bridge w (PromptFrame text images turn) (s\<lparr>cl_turnID := turn, cl_sawResult := False\<rparr>) of
           (e, s1) \<Rightarrow> (map_option plain_failure e, s1)))"

definition claude_Steer ::
  "claude_world \<Rightarrow> string \<Rightarrow> string \<Rightarrow> prompt_image list \<Rightarrow> claude_session \<Rightarrow> harness_error option \<times> claude_session" where
  "claude_Steer w queueID text images s =
     (if cl_gone s then
        (Some \<lparr>he_message = fst (exitReason s), he_failure = snd (exitReason s)\<rparr>, s)
      else if queueID = [] then (Some (plain_failure ''a steered prompt needs a queue id''), s)
      else
        (case notify_bridge w (PromptFrame text images queueID) (s\<lparr>cl_steers := (cl_steers s)(queueID \<mapsto> False)\<rparr>) of
           (None, s1) \<Rightarrow> (None, s1)
         | (Some e, s1) \<Rightarrow> (Some (plain_failure e), s1\<lparr>cl_steers := (cl_steers s1)(queueID := None)\<rparr>)))"

text \<open>\<open>Cancel\<close> up to its call, and after the bridge has confirmed the interrupt of that turn.\<close>

definition cancel_ask :: "claude_session \<Rightarrow> claude_session" where
  "cancel_ask s =
     (let s1 = s\<lparr>cl_steers := (\<lambda>i. map_option (\<lambda>_. True) (cl_steers s i))\<rparr>
      in if cl_turnID s = [] then s1 else call_bridge InterruptFrame s1)"

definition turn_finished :: "string \<Rightarrow> string \<Rightarrow> string \<Rightarrow> string \<Rightarrow> event_body" where
  "turn_finished turn stop err failure =
     TurnFinished \<lparr>tf_turnID = turn, tf_stopReason = stop, tf_error = err, tf_failure = failure\<rparr>"

definition cancel_confirmed :: "claude_world \<Rightarrow> string \<Rightarrow> claude_session \<Rightarrow> claude_session" where
  "cancel_confirmed w turn s =
     (if turn = [] \<or> cl_turnID s \<noteq> turn then s
      else claude_emit w (turn_finished turn StopCancelled [] [])
             (s\<lparr>cl_turnID := [], cl_sawResult := True\<rparr>))"

definition has1MTag :: "string \<Rightarrow> bool" where
  "has1MTag i = (cut_suffix tag1M (lower_text i) \<noteq> None)"

definition tagged :: "string \<Rightarrow> claude_session \<Rightarrow> string" where
  "tagged model s = (if \<not> cl_oneM s \<or> model = [] \<or> has1MTag model then model else model @ tag1M)"

definition contextWindowFor :: "bool \<Rightarrow> int" where
  "contextWindowFor oneM = (if oneM then 1000000 else 200000)"

definition model_set :: "string \<Rightarrow> claude_session \<Rightarrow> claude_session" where
  "model_set model s =
     s\<lparr>cl_model := tagged model s, cl_usage := (cl_usage s)\<lparr>us_contextWindow := 0, us_contextLimit := 0\<rparr>\<rparr>"

definition watchExit :: "claude_world \<Rightarrow> claude_session \<Rightarrow> claude_session" where
  "watchExit w s =
     (let turn = cl_turnID s; s1 = s\<lparr>cl_turnID := []\<rparr>;
          s2 = (if turn \<noteq> [] \<and> \<not> cl_sawResult s
                then claude_emit w (turn_finished turn StopError (fst (exitReason s)) (snd (exitReason s))) s1
                else s1)
      in s2\<lparr>cl_over := True\<rparr>)"

section \<open>Turns the harness opens\<close>

definition ensureTurn :: "claude_world \<Rightarrow> claude_session \<Rightarrow> string \<times> claude_session" where
  "ensureTurn w s =
     (if cl_turnID s \<noteq> [] then (cl_turnID s, s)
      else
        let i = kw_uuid w (cl_tick s)
        in (i, claude_emit w (TurnStarted \<lparr>ts_turnID = i, ts_prompt = [], ts_images = [], ts_recovery = None, ts_queueID = []\<rparr>)
                 ((step_tick s)\<lparr>cl_turnID := i, cl_sawResult := False\<rparr>)))"

section \<open>Tools\<close>

definition toolKind :: "string \<Rightarrow> string" where
  "toolKind name =
     (if name \<in> {''Read'', ''NotebookRead''} then KindRead
      else if name \<in> {''Edit'', ''Write'', ''NotebookEdit'', ''MultiEdit''} then KindEdit
      else if name \<in> {''Bash'', ''BashOutput'', ''KillShell'', ''TaskOutput'', ''TaskStop''} then KindExecute
      else if name \<in> {''Grep'', ''Glob'', ''Search''} then KindSearch
      else if name \<in> {''WebFetch'', ''WebSearch''} then KindFetch
      else if name \<in> {''Task'', ''Agent''} then KindAgent
      else KindOther)"

definition firstLine :: "string \<Rightarrow> string" where
  "firstLine s = (case newline_at s of None \<Rightarrow> s | Some i \<Rightarrow> take i s @ '' '' @ ellipsis)"

definition short :: "string \<Rightarrow> string" where
  "short p =
     (let parts = split_on (CHR ''/'') p
      in if length parts \<le> 3 then p
         else ''.../'' @ drop 1 (concat (map (\<lambda>q. CHR ''/'' # q) (drop (length parts - 2) parts))))"

text \<open>The first of some members that is a text and not empty; the last of two members of one name counts.\<close>

definition members :: "raw_message \<Rightarrow> (string \<times> json) list" where
  "members r = (case r of Some (JObj ms) \<Rightarrow> rev ms | _ \<Rightarrow> [])"

definition text_member :: "raw_message \<Rightarrow> string \<Rightarrow> string" where
  "text_member r k = (case map_of (members r) k of Some (JStr v) \<Rightarrow> v | _ \<Rightarrow> [])"

definition pick :: "raw_message \<Rightarrow> string list \<Rightarrow> string" where
  "pick r ks = (case List.find (\<lambda>k. text_member r k \<noteq> []) ks of None \<Rightarrow> [] | Some k \<Rightarrow> text_member r k)"

definition named :: "string \<Rightarrow> string \<Rightarrow> string" where
  "named name v = (if v = [] then name else name @ '' '' @ v)"

definition toolTitle :: "string \<Rightarrow> raw_message \<Rightarrow> string" where
  "toolTitle name r =
     (if name = ''Bash'' then
        (if pick r [''command''] = [] then name else firstLine (pick r [''command'']))
      else if name \<in> {''Read'', ''Write'', ''Edit'', ''NotebookEdit''} then
        (let p = pick r [''file_path'', ''path'', ''notebook_path''] in if p = [] then name else name @ '' '' @ short p)
      else if name \<in> {''Grep'', ''Glob''} then named name (pick r [''pattern''])
      else if name \<in> {''WebFetch'', ''WebSearch''} then named name (pick r [''url'', ''query''])
      else if name \<in> {''Task'', ''Agent''} then
        (let d = pick r [''description''] in if d = [] then name else ''Task: '' @ d)
      else if name \<in> {''BashOutput'', ''TaskOutput''} then named name (pick r [''bash_id'', ''task_id'', ''shell_id''])
      else if name \<in> {''KillShell'', ''TaskStop''} then named name (pick r [''shell_id'', ''task_id'', ''bash_id''])
      else name)"

fun flattenContent :: "result_content \<Rightarrow> string" where
  "flattenContent NoContent = []"
| "flattenContent (PlainContent t) = t"
| "flattenContent (BlockContent bs) = concat (map snd (filter (\<lambda>b. fst b = ''text'') bs))"
| "flattenContent (OtherContent raw) = raw"

section \<open>Jobs\<close>

definition link_of :: "string \<Rightarrow> claude_session \<Rightarrow> job_link" where
  "link_of i s = (case cl_jobs s i of
     None \<Rightarrow> \<lparr>jl_toolUseID = [], jl_parentJob = [], jl_done = False\<rparr> | Some l \<Rightarrow> l)"

text \<open>\<open>link\<close> makes the entry of a task on first sight.\<close>

definition set_link :: "string \<Rightarrow> job_link \<Rightarrow> claude_session \<Rightarrow> claude_session" where
  "set_link i l s = s\<lparr>cl_jobs := (cl_jobs s)(i \<mapsto> l)\<rparr>"

definition jobRow :: "string \<Rightarrow> claude_session \<Rightarrow> job_payload" where
  "jobRow i s =
     \<lparr>jp_jobID = i, jp_toolCallID = jl_toolUseID (link_of i s), jp_parentJobID = jl_parentJob (link_of i s),
      jp_kind = [], jp_taskType = [], jp_name = [], jp_role = [], jp_workflowName = [], jp_status = [],
      jp_activity = [], jp_usage = None, jp_error = [], jp_outputFile = [], jp_backgrounded = None, jp_hidden = False\<rparr>"

text \<open>A finished row marks its job done and takes it out of the live set.\<close>

definition emit_job :: "claude_world \<Rightarrow> event_body \<Rightarrow> claude_session \<Rightarrow> claude_session" where
  "emit_job w e s =
     claude_emit w e
       (case e of
          JobFinished p \<Rightarrow>
            (set_link (jp_jobID p) ((link_of (jp_jobID p) s)\<lparr>jl_done := True\<rparr>) s)
              \<lparr>cl_background := filter (\<lambda>i. i \<noteq> jp_jobID p) (cl_background s)\<rparr>
        | _ \<Rightarrow> s)"

definition emit_jobs :: "claude_world \<Rightarrow> event_body list \<Rightarrow> claude_session \<Rightarrow> claude_session" where
  "emit_jobs w es s = foldl (\<lambda>s e. emit_job w e s) s es"

text \<open>
  The two groups of \<open>background with ID: (\S+)\. Output is being written to: (\S+?)\.?(?:\s|$)\<close> at
  its first match: the first group is as long as it can be, the second as short.
\<close>

definition regexp_space :: "char \<Rightarrow> bool" where
  "regexp_space c = ((of_char c :: nat) \<in> {9, 10, 12, 13, 32})"

definition path_ends :: "string \<Rightarrow> bool" where
  "path_ends r \<longleftrightarrow> r = [] \<or> regexp_space (hd r) \<or> hd r = CHR ''.'' \<and> (tl r = [] \<or> regexp_space (hd (tl r)))"

definition output_path :: "string \<Rightarrow> string option" where
  "output_path r =
     (let word = takeWhile (\<lambda>c. \<not> regexp_space c) r
      in map_option (\<lambda>n. take n r) (List.find (\<lambda>n. path_ends (drop n r)) [1..<Suc (length word)]))"

definition shell_at :: "string \<Rightarrow> (string \<times> string) option" where
  "shell_at s =
     (case cut_prefix ''background with ID: '' s of
        None \<Rightarrow> None
      | Some r \<Rightarrow>
          let word = takeWhile (\<lambda>c. \<not> regexp_space c) r;
              rest = (\<lambda>n. case cut_prefix ''. Output is being written to: '' (drop n r) of None \<Rightarrow> None | Some q \<Rightarrow> output_path q)
          in (case List.find (\<lambda>n. rest n \<noteq> None) (rev [1..<Suc (length word)]) of
                None \<Rightarrow> None
              | Some n \<Rightarrow> map_option (Pair (take n r)) (rest n)))"

fun backgroundShellResult :: "string \<Rightarrow> (string \<times> string) option" where
  "backgroundShellResult [] = None"
| "backgroundShellResult (c # s) =
     (case shell_at (c # s) of None \<Rightarrow> backgroundShellResult s | Some m \<Rightarrow> Some m)"

definition linkBackgroundShell :: "claude_world \<Rightarrow> string \<Rightarrow> string \<Rightarrow> claude_session \<Rightarrow> claude_session" where
  "linkBackgroundShell w toolUseID text s =
     (case backgroundShellResult text of
        None \<Rightarrow> s
      | Some (i, path) \<Rightarrow>
          (case cl_jobs s i of
             None \<Rightarrow> s
           | Some l \<Rightarrow>
               if jl_done l then s
               else
                 let s1 = (set_link i (if jl_toolUseID l = [] then l\<lparr>jl_toolUseID := toolUseID\<rparr> else l) s)
                            \<lparr>cl_toolJobs := (cl_toolJobs s)(toolUseID \<mapsto> i)\<rparr>
                 in emit_job w (JobUpdated ((jobRow i s1)\<lparr>jp_kind := JobShell, jp_outputFile := path\<rparr>)) s1))"

definition job_usage_of :: "(int \<times> int \<times> int) option \<Rightarrow> job_usage option" where
  "job_usage_of u = map_option (\<lambda>(t, n, d). \<lparr>ju_totalTokens = t, ju_toolUses = n, ju_durationMs = d, ju_cost = 0\<rparr>) u"

definition seeded_row :: "background_task \<Rightarrow> claude_session \<Rightarrow> job_payload" where
  "seeded_row t s =
     (jobRow (bt_taskID t) s)\<lparr>jp_kind := ClassifyJob (bt_taskType t), jp_taskType := bt_taskType t,
        jp_name := bt_description t, jp_status := JobRunning, jp_backgrounded := Some True\<rparr>"

text \<open>Tasks the level signal names before their own start row: the entry is made, and its row kept.\<close>

fun seed_jobs :: "background_task list \<Rightarrow> claude_session \<Rightarrow> job_payload list \<times> claude_session" where
  "seed_jobs [] s = ([], s)"
| "seed_jobs (t # ts) s =
     (if cl_jobs s (bt_taskID t) \<noteq> None then seed_jobs ts s
      else let s1 = set_link (bt_taskID t) (link_of (bt_taskID t) s) s
           in case seed_jobs ts s1 of (rows, s2) \<Rightarrow> (seeded_row t s1 # rows, s2))"

definition handleBackgroundTasks :: "claude_world \<Rightarrow> background_task list \<Rightarrow> claude_session \<Rightarrow> claude_session" where
  "handleBackgroundTasks w ts s =
     (let next = remdups (map bt_taskID ts);
          reaped = map (\<lambda>i. (jobRow i s)\<lparr>jp_status := JobStopped\<rparr>)
            (filter (\<lambda>i. i \<notin> set next \<and> \<not> jl_done (link_of i s)) (cl_background s));
          (unseen, s1) = seed_jobs ts (s\<lparr>cl_background := next\<rparr>)
      in emit_jobs w (map JobStarted unseen @ map JobFinished reaped) s1)"

definition note_task :: "string \<Rightarrow> task_message \<Rightarrow> claude_session \<Rightarrow> claude_session" where
  "note_task parent m s =
     (let i = tk_taskID m; l = link_of i s;
          l1 = (if tk_toolUseID m = [] then l else l\<lparr>jl_toolUseID := tk_toolUseID m\<rparr>);
          tools = (if tk_toolUseID m = [] then cl_toolJobs s else (cl_toolJobs s)(tk_toolUseID m \<mapsto> i));
          l2 = (if parent \<noteq> [] \<and> jl_parentJob l1 = []
                then l1\<lparr>jl_parentJob := (case tools parent of None \<Rightarrow> [] | Some j \<Rightarrow> j)\<rparr> else l1)
      in (set_link i l2 s)\<lparr>cl_toolJobs := tools\<rparr>)"

definition updated_status :: "string \<Rightarrow> string \<times> bool" where
  "updated_status st =
     (if st = ''completed'' then (JobCompleted, True)
      else if st = ''failed'' then (JobFailed, True)
      else if st = ''killed'' then (JobStopped, True)
      else if st = ''paused'' then (JobPaused, False)
      else if st = ''running'' \<or> st = ''pending'' then (JobRunning, False)
      else ([], False))"

definition task_event :: "task_message \<Rightarrow> job_payload \<Rightarrow> event_body option" where
  "task_event m row =
     (if tk_subtype m = ''task_started'' then
        Some (JobStarted (row\<lparr>jp_kind := ClassifyJob (tk_taskType m), jp_taskType := tk_taskType m,
          jp_name := tk_description m, jp_role := tk_subagentType m, jp_workflowName := tk_workflowName m,
          jp_hidden := tk_skipTranscript m, jp_status := JobRunning\<rparr>))
      else if tk_subtype m = ''task_progress'' then
        Some (JobUpdated (row\<lparr>jp_role := tk_subagentType m,
          jp_activity := (if tk_summary m \<noteq> [] then tk_summary m
                          else if tk_description m \<noteq> [] then tk_description m else tk_lastToolName m),
          jp_usage := job_usage_of (tk_usage m)\<rparr>))
      else if tk_subtype m = ''task_updated'' then
        (case updated_status (tk_patchStatus m) of
           (st, over) \<Rightarrow>
             let r = row\<lparr>jp_name := tk_patchDescription m, jp_error := tk_patchError m,
                         jp_backgrounded := tk_patchBackground m, jp_status := st\<rparr>
             in Some (if over then JobFinished r else JobUpdated r))
      else if tk_subtype m = ''task_notification'' then
        Some (JobFinished (row\<lparr>jp_status := (if tk_status m = ''failed'' then JobFailed
                                             else if tk_status m = ''stopped'' then JobStopped else JobCompleted),
          jp_outputFile := tk_outputFile m, jp_activity := tk_summary m,
          jp_usage := job_usage_of (tk_usage m), jp_hidden := tk_skipTranscript m\<rparr>))
      else None)"

definition handleTask :: "claude_world \<Rightarrow> string \<Rightarrow> task_message \<Rightarrow> claude_session \<Rightarrow> claude_session" where
  "handleTask w parent m s =
     (if tk_subtype m = ''background_tasks_changed'' then handleBackgroundTasks w (tk_tasks m) s
      else if tk_taskID m = [] then s
      else let s1 = note_task parent m s
           in case task_event m (jobRow (tk_taskID m) s1) of None \<Rightarrow> s1 | Some e \<Rightarrow> emit_job w e s1)"

definition handleSubagentResult :: "claude_world \<Rightarrow> string \<Rightarrow> result_message \<Rightarrow> claude_session \<Rightarrow> claude_session" where
  "handleSubagentResult w parent r s =
     (case cl_toolJobs s parent of
        None \<Rightarrow> s
      | Some i \<Rightarrow>
          if i = [] then s
          else let s1 = set_link i (link_of i s) s
               in emit_job w (JobUpdated ((jobRow i s1)\<lparr>jp_usage :=
                    Some \<lparr>ju_totalTokens = rm_input r + rm_output r, ju_toolUses = 0, ju_durationMs = 0,
                          ju_cost = rm_cost r\<rparr>\<rparr>)) s1)"

section \<open>The conversation\<close>

definition trackSessionID :: "claude_world \<Rightarrow> claude_message \<Rightarrow> claude_session \<Rightarrow> claude_session" where
  "trackSessionID w m s =
     (if km_parent m \<noteq> [] \<or> km_session m = [] \<or> km_session m = cl_harnessSessionID s then s
      else claude_emit w (ThreadConfigChanged \<lparr>cc_replaceSettings = False, cc_model = [], cc_mode = [],
             cc_effort = None, cc_title = [], cc_harnessSessionID = km_session m\<rparr>)
             (s\<lparr>cl_harnessSessionID := km_session m\<rparr>))"

definition handleInit :: "claude_world \<Rightarrow> string \<Rightarrow> string \<Rightarrow> claude_session \<Rightarrow> claude_session" where
  "handleInit w model mode s =
     (let s1 = s\<lparr>cl_model := tagged model s\<rparr>
      in claude_emit w (ThreadConfigChanged \<lparr>cc_replaceSettings = False, cc_model = cl_model s1, cc_mode = mode,
           cc_effort = None, cc_title = [], cc_harnessSessionID = cl_harnessSessionID s1\<rparr>) s1)"

definition isFreeCategory :: "string \<Rightarrow> bool" where
  "isFreeCategory name =
     list_ex (\<lambda>n. contains_text n (lower_text name)) [''free'', ''reserved'', ''buffer'', ''available'']"

definition handleContextUsage :: "claude_world \<Rightarrow> context_report \<Rightarrow> claude_session \<Rightarrow> claude_session" where
  "handleContextUsage w u s =
     (let window = (if xt_rawMaxTokens u \<noteq> 0 then xt_rawMaxTokens u
                    else if xt_maxTokens u \<noteq> 0 then xt_maxTokens u else contextWindowFor (cl_oneM s));
          cats = map (\<lambda>c. \<lparr>ct_name = xr_name c, ct_tokens = xr_tokens c\<rparr>)
            (filter (\<lambda>c. \<not> (xr_isDeferred c \<or> xr_tokens c \<le> 0 \<or> isFreeCategory (xr_name c))) (xt_categories u));
          pct = (if window > 0 then kw_percent w (xt_totalTokens u) window else xt_percentage u);
          s1 = s\<lparr>cl_usage := (cl_usage s)\<lparr>us_contextUsed := xt_totalTokens u, us_contextWindow := window,
                 us_contextLimit := xt_maxTokens u, us_contextPct := pct, us_contextCategories := cats,
                 us_autoCompact := xt_autoCompact u, us_autoCompactThreshold := xt_threshold u\<rparr>\<rparr>
      in claude_emit w (UsageUpdated (cl_usage s1)) s1)"

definition stream_of :: "string \<Rightarrow> claude_session \<Rightarrow> claude_stream" where
  "stream_of parent s =
     (case cl_streams s parent of None \<Rightarrow> \<lparr>sr_messageID = [], sr_blocks = Map.empty\<rparr> | Some st \<Rightarrow> st)"

definition block_id :: "string \<Rightarrow> int \<Rightarrow> string" where
  "block_id messageID index = messageID @ '':'' @ format_int index"

definition new_block :: "string \<Rightarrow> stream_event \<Rightarrow> claude_block" where
  "new_block messageID ev =
     \<lparr>bl_kind = sv_blockType ev,
      bl_blockID = (if sv_blockType ev = ''text'' \<or> sv_blockType ev = ''thinking''
                    then block_id messageID (sv_index ev) else []),
      bl_toolID = (if sv_blockType ev = ''tool_use'' then sv_blockID ev else []),
      bl_name = (if sv_blockType ev = ''tool_use'' then sv_blockName ev else [])\<rparr>"

definition block_started :: "claude_world \<Rightarrow> string \<Rightarrow> stream_event \<Rightarrow> claude_session \<Rightarrow> claude_session" where
  "block_started w parent ev s =
     (case ensureTurn w s of
        (turn, s1) \<Rightarrow>
          let st = stream_of parent s1;
              st1 = st\<lparr>sr_blocks := (sr_blocks st)(sv_index ev \<mapsto> new_block (sr_messageID st) ev)\<rparr>;
              s2 = s1\<lparr>cl_streams := (cl_streams s1)(parent \<mapsto> st1)\<rparr>
          in if sv_blockType ev = ''tool_use'' then
               claude_emit w (ToolCallStarted \<lparr>cs_turnID = turn, cs_toolCallID = sv_blockID ev,
                 cs_kind = toolKind (sv_blockName ev), cs_title = sv_blockName ev, cs_status = StatusPending,
                 cs_rawInput = None, cs_parentToolCallID = parent\<rparr>) s2
             else s2)"

definition chunk_event :: "string \<Rightarrow> string \<Rightarrow> string \<Rightarrow> string \<Rightarrow> string \<Rightarrow> event_body" where
  "chunk_event turn kind blockID delta parent =
     MessageChunk \<lparr>mc_turnID = turn, mc_role = ''agent'', mc_kind = kind, mc_blockID = blockID,
       mc_delta = delta, mc_parentToolCallID = parent\<rparr>"

definition block_delta :: "claude_world \<Rightarrow> string \<Rightarrow> stream_event \<Rightarrow> claude_session \<Rightarrow> claude_session" where
  "block_delta w parent ev s =
     (case Option.bind (cl_streams s parent) (\<lambda>st. sr_blocks st (sv_index ev)) of
        None \<Rightarrow> s
      | Some b \<Rightarrow>
          (case ensureTurn w s of
             (turn, s1) \<Rightarrow>
               if sv_deltaType ev = ''text_delta'' then
                 claude_emit w (chunk_event turn ''text'' (bl_blockID b) (sv_text ev) parent) s1
               else if sv_deltaType ev = ''thinking_delta'' then
                 claude_emit w (chunk_event turn ''thought'' (bl_blockID b) (sv_thinking ev) parent) s1
               else s1))"

definition handleStreamEvent :: "claude_world \<Rightarrow> string \<Rightarrow> stream_event \<Rightarrow> claude_session \<Rightarrow> claude_session" where
  "handleStreamEvent w parent ev s =
     (if sv_type ev = ''message_start'' then
        s\<lparr>cl_streams := (cl_streams s)(parent \<mapsto> \<lparr>sr_messageID = sv_messageID ev, sr_blocks = Map.empty\<rparr>)\<rparr>
      else if sv_type ev = ''content_block_start'' then block_started w parent ev s
      else if sv_type ev = ''content_block_delta'' then block_delta w parent ev s
      else s)"

text \<open>One entry of a whole message: text that was not streamed, or a tool going active.\<close>

definition assistant_entry ::
  "claude_world \<Rightarrow> string \<Rightarrow> string \<Rightarrow> bool \<Rightarrow> nat \<Rightarrow> assistant_content \<Rightarrow> claude_session \<Rightarrow> claude_session" where
  "assistant_entry w parent messageID streamed i c s =
     (if an_type c = ''text'' \<and> \<not> streamed \<and> an_text c \<noteq> [] then
        (case ensureTurn w s of
           (turn, s1) \<Rightarrow> claude_emit w (chunk_event turn ''text'' (block_id messageID (int i)) (an_text c) parent) s1)
      else if an_type c \<noteq> ''tool_use'' then s
      else claude_emit w (ToolCallUpdated \<lparr>cu_toolCallID = an_id c, cu_status = StatusInProgress,
             cu_title = toolTitle (an_name c) (an_input c), cu_content = [], cu_rawInput = an_input c,
             cu_parentToolCallID = parent\<rparr>) (snd (ensureTurn w s)))"

fun assistant_entries ::
  "claude_world \<Rightarrow> string \<Rightarrow> string \<Rightarrow> bool \<Rightarrow> nat \<Rightarrow> assistant_content list \<Rightarrow> claude_session \<Rightarrow> claude_session" where
  "assistant_entries w parent messageID streamed i [] s = s"
| "assistant_entries w parent messageID streamed i (c # cs) s =
     assistant_entries w parent messageID streamed (Suc i) cs (assistant_entry w parent messageID streamed i c s)"

definition handleAssistant :: "claude_world \<Rightarrow> string \<Rightarrow> assistant_message \<Rightarrow> claude_session \<Rightarrow> claude_session" where
  "handleAssistant w parent m s =
     (let s1 = (if am_error m = ''rate_limit'' \<and> parent = [] then s\<lparr>cl_limited := True\<rparr> else s);
          prompt = am_inputTokens m + am_cacheRead m + am_cacheCreation m;
          s2 = (if prompt > 0 then s1\<lparr>cl_lastPromptTokens := prompt\<rparr> else s1);
          streamed = (case cl_streams s2 parent of None \<Rightarrow> False | Some st \<Rightarrow> sr_messageID st = am_id m)
      in assistant_entries w parent (am_id m) streamed 0 (am_content m) s2)"

definition handleReplay :: "claude_world \<Rightarrow> string \<Rightarrow> string \<Rightarrow> claude_session \<Rightarrow> claude_session" where
  "handleReplay w i text s =
     (case cl_steers s i of
        None \<Rightarrow> s
      | Some cancelled \<Rightarrow>
          let s1 = s\<lparr>cl_steers := (cl_steers s)(i := None)\<rparr>
          in if cancelled then
               (if cl_suppress s then s1\<lparr>cl_suppress := True\<rparr>
                else call_bridge InterruptFrame (s1\<lparr>cl_suppress := True\<rparr>))
             else if cl_turnID s \<noteq> [] then
               claude_emit w (PromptInjected \<lparr>pi_queueID = i, pi_turnID = cl_turnID s\<rparr>) s1
             else
               let turn = kw_uuid w (cl_tick s)
               in claude_emit w (TurnStarted \<lparr>ts_turnID = turn, ts_prompt = text, ts_images = [],
                    ts_recovery = None, ts_queueID = i\<rparr>)
                    ((step_tick s1)\<lparr>cl_turnID := turn, cl_sawResult := False\<rparr>))"

definition tool_result :: "claude_world \<Rightarrow> string \<Rightarrow> user_content \<Rightarrow> claude_session \<Rightarrow> claude_session" where
  "tool_result w parent c s =
     (if uc_type c \<noteq> ''tool_result'' then s
      else
        let text = flattenContent (uc_content c)
        in linkBackgroundShell w (uc_toolUseID c) text
             (claude_emit w (ToolCallUpdated \<lparr>cu_toolCallID = uc_toolUseID c,
                cu_status = (if uc_isError c then StatusFailed else StatusCompleted), cu_title = [],
                cu_content = (if text = [] then []
                              else [\<lparr>tn_type = ''text'', tn_text = text, tn_path = [], tn_old = [], tn_new = []\<rparr>]),
                cu_rawInput = None, cu_parentToolCallID = parent\<rparr>) s))"

definition handleUser :: "claude_world \<Rightarrow> string \<Rightarrow> claude_user \<Rightarrow> claude_session \<Rightarrow> claude_session" where
  "handleUser w parent m s =
     (if um_isReplay m then
        handleReplay w (um_uuid m)
          (join_with (CHR 0x0A) (map uc_text (filter (\<lambda>c. uc_type c = ''text'') (um_content m)))) s
      else foldl (\<lambda>s c. tool_result w parent c s) s (um_content m))"

definition resultFailure :: "string \<Rightarrow> string \<Rightarrow> string \<Rightarrow> string \<times> string" where
  "resultFailure result diagnostics terminalReason =
     (case loginRequired result of
        Some msg \<Rightarrow> (msg, FailureAuth)
      | None \<Rightarrow>
          (case loginRequired diagnostics of
             Some msg \<Rightarrow> (msg, FailureAuth)
           | None \<Rightarrow>
               if briefly result \<noteq> [] then (briefly result, [])
               else if briefly diagnostics \<noteq> [] then (briefly diagnostics, [])
               else if terminalReason \<noteq> [] then (''the turn failed: '' @ terminalReason, [])
               else (''the turn failed and the harness did not say why'', [])))"

text \<open>Accounting is the result's own; occupancy is the last request's prompt until the harness reports it.\<close>

definition result_usage :: "claude_world \<Rightarrow> result_message \<Rightarrow> claude_session \<Rightarrow> usage_updated_payload" where
  "result_usage w r s =
     (let used = cl_lastPromptTokens s;
          window = (if us_contextWindow (cl_usage s) = 0 then contextWindowFor (cl_oneM s)
                    else us_contextWindow (cl_usage s))
      in (cl_usage s)\<lparr>us_input := rm_input r, us_output := rm_output r, us_cacheRead := rm_cacheRead r,
           us_cacheWrite := rm_cacheCreation r, us_cost := rm_cost r, us_contextUsed := used,
           us_contextWindow := window,
           us_contextPct := (if used > 0 \<and> window > 0 then kw_percent w used window else 0)\<rparr>)"

definition result_outcome :: "bool \<Rightarrow> result_message \<Rightarrow> string \<times> string \<times> string" where
  "result_outcome limited r =
     (let stop = (if rm_isError r then StopError else if rm_stopReason r = [] then StopEndTurn else rm_stopReason r);
          said = resultFailure (rm_result r) (join_with (CHR 0x0A) (rm_errors r)) (rm_terminalReason r)
      in if limited then (StopError, fst said, FailureLimit)
         else if stop = StopError then (stop, fst said, snd said)
         else (stop, [], []))"

definition handleResult :: "claude_world \<Rightarrow> result_message \<Rightarrow> claude_session \<Rightarrow> claude_session" where
  "handleResult w r s =
     (let u = result_usage w r s;
          s1 = claude_emit w (UsageUpdated u) (s\<lparr>cl_usage := u\<rparr>);
          turn = cl_turnID s1;
          s2 = s1\<lparr>cl_limited := False, cl_sawResult := True, cl_turnID := [], cl_suppress := False\<rparr>
      in if turn = [] then s2
         else case result_outcome (cl_limited s) r of
                (stop, err, failure) \<Rightarrow> claude_emit w (turn_finished turn stop err failure) s2)"

section \<open>Questions of the bridge\<close>

text \<open>What a human is asked before a tool runs, and what the bridge is told.\<close>

definition permission_asked :: "string \<Rightarrow> raw_message \<Rightarrow> claude_session \<Rightarrow> permission_request" where
  "permission_asked toolName input s =
     \<lparr>rq_turnID = cl_turnID s, rq_toolCallID = [], rq_toolName = toolName, rq_title = toolTitle toolName input, rq_rawInput = input,
      rq_options = DefaultPermissionOptions\<rparr>"

datatype permission_reply =
    AllowTool json
  | DenyTool string

definition outcome_allowed :: "permission_outcome \<Rightarrow> bool" where
  "outcome_allowed u \<longleftrightarrow> ou_outcome u = OutcomeAllowOnce \<or> ou_outcome u = OutcomeAllowAlways"

definition permission_answered :: "raw_message \<Rightarrow> string + permission_outcome \<Rightarrow> permission_reply" where
  "permission_answered input r =
     (case r of
        Inl e \<Rightarrow> DenyTool (''permission unavailable: '' @ e)
      | Inr u \<Rightarrow> if outcome_allowed u then AllowTool (case input of None \<Rightarrow> JNull | Some j \<Rightarrow> j)
                 else DenyTool ''Denied by user'')"

text \<open>The answer to one question: a text, or the chosen labels joined; an empty one is none.\<close>

definition label_of :: "json \<Rightarrow> string" where
  "label_of j = (case j of JStr v \<Rightarrow> v | _ \<Rightarrow> [])"

definition answer_text :: "json option \<Rightarrow> string option" where
  "answer_text v =
     (case v of
        Some (JStr t) \<Rightarrow> if t = [] then None else Some t
      | Some (JArr es) \<Rightarrow>
          (let parts = filter (\<lambda>t. t \<noteq> []) (map label_of es)
           in if parts = [] then None else Some (join_text '', '' parts))
      | _ \<Rightarrow> None)"

text \<open>\<open>askUserQuestion\<close>: the answers by question text; where nobody answers there are none.\<close>

fun question_answers :: "nat \<Rightarrow> string list \<Rightarrow> raw_message \<Rightarrow> (string \<rightharpoonup> string) \<Rightarrow> (string \<rightharpoonup> string)" where
  "question_answers i [] v m = m"
| "question_answers i (q # qs) v m =
     question_answers (Suc i) qs v
       (case answer_text (map_of (members v) (''q'' @ format_int (int i))) of None \<Rightarrow> m | Some t \<Rightarrow> m(q \<mapsto> t))"

definition askUserQuestion :: "string list \<Rightarrow> string + elicitation_result \<Rightarrow> (string \<rightharpoonup> string)" where
  "askUserQuestion qs r =
     (case r of
        Inl e \<Rightarrow> Map.empty
      | Inr u \<Rightarrow> if er_action u \<noteq> ''accept'' then Map.empty else question_answers 0 qs (er_value u) Map.empty)"

section \<open>Dispatch\<close>

definition compacted :: "string \<Rightarrow> int \<Rightarrow> int \<Rightarrow> event_body" where
  "compacted trigger before after =
     ContextCompacted \<lparr>cp_trigger = trigger, cp_preTokens = before, cp_postTokens = after\<rparr>"

definition handle_body :: "claude_world \<Rightarrow> string \<Rightarrow> claude_body \<Rightarrow> claude_session \<Rightarrow> claude_session" where
  "handle_body w parent b s =
     (case b of
        InitMessage model mode \<Rightarrow> handleInit w model mode s
      | TaskMessage m \<Rightarrow> handleTask w parent m s
      | CompactBoundary trigger before after \<Rightarrow> claude_emit w (compacted trigger before after) s
      | OtherSystem \<Rightarrow> s
      | StreamMessage ev \<Rightarrow> if cl_suppress s then s else handleStreamEvent w parent ev s
      | AssistantMessage m \<Rightarrow> if cl_suppress s then s else handleAssistant w parent m s
      | UserMessage m \<Rightarrow> handleUser w parent m s
      | ResultMessage r \<Rightarrow> if parent = [] then handleResult w r s else handleSubagentResult w parent r s
      | ContextMessage u \<Rightarrow> handleContextUsage w u s
      | OtherMessage \<Rightarrow> s)"

definition handleSDKMessage :: "claude_world \<Rightarrow> claude_message \<Rightarrow> claude_session \<Rightarrow> claude_session" where
  "handleSDKMessage w m s = handle_body w (km_parent m) (km_body m) (trackSessionID w m s)"

definition handleFatal :: "string \<Rightarrow> claude_session \<Rightarrow> claude_session" where
  "handleFatal message s = (if message = ''session ended'' then s else s\<lparr>cl_fatal := message\<rparr>)"

text \<open>
  What can happen to a session.  The answers of calls come back as inputs of their own; the read
  loop takes nothing more once the bridge's output has ended, and the exit watcher runs then.
\<close>

datatype claude_input =
    PromptAsked string string "prompt_image list"
  | SteerAsked string string "prompt_image list"
  | CancelAsked
  | CancelConfirmed string
  | ModelSet string
  | EffortSet string
  | CloseAsked
  | MessageRead claude_message
  | FatalRead string
  | BridgeGone
  | ExitSeen

fun claude_step :: "claude_world \<Rightarrow> claude_input \<Rightarrow> claude_session \<Rightarrow> claude_session" where
  "claude_step w (PromptAsked turn text images) s = snd (claude_Prompt w turn text images s)"
| "claude_step w (SteerAsked q text images) s = snd (claude_Steer w q text images s)"
| "claude_step w CancelAsked s = cancel_ask s"
| "claude_step w (CancelConfirmed turn) s = cancel_confirmed w turn s"
| "claude_step w (ModelSet model) s = model_set model s"
| "claude_step w (EffortSet effort) s = s\<lparr>cl_effort := effort\<rparr>"
| "claude_step w CloseAsked s = s\<lparr>cl_closed := True\<rparr>"
| "claude_step w (MessageRead m) s = (if cl_gone s then s else handleSDKMessage w m s)"
| "claude_step w (FatalRead message) s = (if cl_gone s then s else handleFatal message s)"
| "claude_step w BridgeGone s = s\<lparr>cl_gone := True\<rparr>"
| "claude_step w ExitSeen s = (if cl_gone s \<and> \<not> cl_over s then watchExit w s else s)"

definition claude_run :: "claude_world \<Rightarrow> claude_input list \<Rightarrow> claude_session \<Rightarrow> claude_session" where
  "claude_run w is s = foldl (\<lambda>s i. claude_step w i s) s is"

end
