(* ===== verification/TurnSource.thy ===== *)
theory TurnSource
  imports Proto
begin

text \<open>
  What the server relies on from the session of a harness, whichever adapter made it: a session
  has one open turn at most, finishes a turn only while it is open and once, and never speaks of a
  turn without an id.  The sessions of the three adapters provide the interface; what it gives over
  a whole conversation is proved here once.
\<close>

section \<open>Turns named by events\<close>

fun turn_of :: "event_body \<Rightarrow> string option" where
  "turn_of (MessageChunk p) = Some (mc_turnID p)"
| "turn_of (ToolCallStarted p) = Some (cs_turnID p)"
| "turn_of (TurnStarted p) = Some (ts_turnID p)"
| "turn_of (PromptInjected p) = Some (pi_turnID p)"
| "turn_of (TurnFinished p) = Some (tf_turnID p)"
| "turn_of _ = None"

fun finished_turn :: "event_body \<Rightarrow> string list" where
  "finished_turn (TurnFinished p) = [tf_turnID p]"
| "finished_turn _ = []"

definition finished_in :: "event_body list \<Rightarrow> string list" where
  "finished_in es = concat (map finished_turn es)"

lemma finished_in_simps [simp]:
  "finished_in [] = []" "finished_in (e # es) = finished_turn e @ finished_in es"
  "finished_in (es @ fs) = finished_in es @ finished_in fs"
  by (simp_all add: finished_in_def)

text \<open>An event of no turn, or of one that is open before or after it.\<close>

definition speaks_of :: "string \<Rightarrow> string \<Rightarrow> event_body \<Rightarrow> bool" where
  "speaks_of t t' e \<longleftrightarrow>
     (case turn_of e of None \<Rightarrow> True | Some u \<Rightarrow> u \<noteq> [] \<and> (u = t \<or> u = t'))"

definition turn_list :: "string \<Rightarrow> string list" where
  "turn_list t = (if t = [] then [] else [t])"

lemma turn_list_simps [simp]: "turn_list [] = []" "t \<noteq> [] \<Longrightarrow> turn_list t = [t]"
  by (simp_all add: turn_list_def)

section \<open>The ledger of a session\<close>

text \<open>The turns finished so far and the open one, which is empty where there is none.\<close>

type_synonym ledger = "string list \<times> string"

inductive ledger_step :: "ledger \<Rightarrow> ledger \<Rightarrow> bool" where
  unchanged: "ledger_step l l"
| opening_turn: "t \<noteq> [] \<Longrightarrow> ledger_step (d, []) (d, t)"
| closing_turn: "t \<noteq> [] \<Longrightarrow> ledger_step (d, t) (d @ [t], [])"
| withdrawn: "t \<noteq> [] \<Longrightarrow> ledger_step (d, t) (d, [])"

inductive_simps ledger_step_simps: "ledger_step (d, t) (d', t')"

text \<open>
  The turns a run opens, less the one that is open whenever \<open>refused\<close> says that an input refuses the
  call which opened it.
\<close>

fun keep_turns :: "bool \<Rightarrow> string \<Rightarrow> string \<Rightarrow> string list \<Rightarrow> string list" where
  "keep_turns back t t' h = (if t = [] then h @ turn_list t' else if back then butlast h else h)"

lemma keep_turns_ledger:
  assumes "ledger_step (d, t) (d', t')" and "t \<noteq> [] \<Longrightarrow> t' = [] \<Longrightarrow> (d' = d) = back" and "back \<Longrightarrow> t \<noteq> [] \<Longrightarrow> t' = []"
  shows "keep_turns back t t' (d @ turn_list t) = d' @ turn_list t'"
  using assms by (auto simp: ledger_step_simps turn_list_def butlast_append)

fun turns_kept :: "('i \<Rightarrow> 's \<Rightarrow> 's) \<Rightarrow> ('s \<Rightarrow> string) \<Rightarrow> ('i \<Rightarrow> 's \<Rightarrow> bool) \<Rightarrow> 'i list \<Rightarrow> 's \<Rightarrow> string list \<Rightarrow> string list" where
  "turns_kept step turn refused [] s h = h"
| "turns_kept step turn refused (i # is) s h =
     turns_kept step turn refused is (step i s) (keep_turns (refused i s) (turn s) (turn (step i s)) h)"

text \<open>The states a run passes through.\<close>

fun visited :: "('i \<Rightarrow> 's \<Rightarrow> 's) \<Rightarrow> 'i list \<Rightarrow> 's \<Rightarrow> 's list" where
  "visited step [] s = [s]"
| "visited step (i # is) s = s # visited step is (step i s)"

text \<open>The turns a run opens.\<close>

fun turns_opened :: "('i \<Rightarrow> 's \<Rightarrow> 's) \<Rightarrow> ('s \<Rightarrow> string) \<Rightarrow> 'i list \<Rightarrow> 's \<Rightarrow> string list" where
  "turns_opened step turn [] s = []"
| "turns_opened step turn (i # is) s =
     (if turn s = [] then turn_list (turn (step i s)) else []) @ turns_opened step turn is (step i s)"

section \<open>The interface\<close>

locale turn_source =
  fixes step :: "'i \<Rightarrow> 's \<Rightarrow> 's"
    and events :: "'s \<Rightarrow> event_body list"
    and turn :: "'s \<Rightarrow> string"
    and good :: "'s \<Rightarrow> bool"
    and fair :: "'i \<Rightarrow> bool"
    and refused :: "'i \<Rightarrow> 's \<Rightarrow> bool"
  assumes step_good: "good s \<Longrightarrow> fair i \<Longrightarrow> good (step i s)"
    and step_ledger: "good s \<Longrightarrow> fair i \<Longrightarrow>
      ledger_step (finished_in (events s), turn s) (finished_in (events (step i s)), turn (step i s))"
    and step_settles: "good s \<Longrightarrow> fair i \<Longrightarrow> turn s \<noteq> [] \<Longrightarrow> turn (step i s) = [] \<Longrightarrow>
      finished_in (events (step i s)) = finished_in (events s) \<longleftrightarrow> refused i s"
    and step_refused: "good s \<Longrightarrow> fair i \<Longrightarrow> refused i s \<Longrightarrow> turn s \<noteq> [] \<Longrightarrow> turn (step i s) = []"
    and step_events: "good s \<Longrightarrow> fair i \<Longrightarrow>
      \<exists>es. events (step i s) = events s @ es \<and> list_all (speaks_of (turn s) (turn (step i s))) es"
begin

lemma run_good: "good s \<Longrightarrow> list_all fair is \<Longrightarrow> good (fold step is s)"
  by (induction "is" arbitrary: s) (simp_all add: step_good)

text \<open>Every turn that was opened and not refused is finished, once and in order, but for the open one.\<close>

lemma run_in_order:
  assumes "good s" and "list_all fair is"
  shows "turns_kept step turn refused is s (finished_in (events s) @ turn_list (turn s))
    = finished_in (events (fold step is s)) @ turn_list (turn (fold step is s))"
  using assms
proof (induction "is" arbitrary: s)
  case (Cons i "is")
  have "keep_turns (refused i s) (turn s) (turn (step i s)) (finished_in (events s) @ turn_list (turn s))
      = finished_in (events (step i s)) @ turn_list (turn (step i s))"
    using Cons.prems by (intro keep_turns_ledger step_ledger) (simp_all add: step_settles step_refused)
  then show ?case using Cons by (simp add: step_good del: keep_turns.simps)
qed simp

text \<open>A turn is spoken of only from its opening to its end.\<close>

lemma run_speaks:
  assumes "good s" and "list_all fair is" and "u \<notin> turn ` set (visited step is s)"
  shows "\<exists>es. events (fold step is s) = events s @ es \<and> list_all (\<lambda>e. turn_of e \<noteq> Some u) es"
  using assms
proof (induction "is" arbitrary: s)
  case (Cons i "is")
  obtain es where es: "events (step i s) = events s @ es" "list_all (speaks_of (turn s) (turn (step i s))) es"
    using step_events Cons.prems by fastforce
  have "turn s \<noteq> u" "turn (step i s) \<noteq> u" using Cons.prems(3) by (cases "is"; auto)+
  with es(2) have "list_all (\<lambda>e. turn_of e \<noteq> Some u) es" by (auto simp: speaks_of_def list_all_iff)
  moreover obtain fs where "events (fold step is (step i s)) = events (step i s) @ fs" "list_all (\<lambda>e. turn_of e \<noteq> Some u) fs"
    using Cons step_good by fastforce
  ultimately show ?case using es(1) by simp
qed simp

lemma run_named:
  assumes "good s" and "list_all fair is"
  shows "\<exists>es. events (fold step is s) = events s @ es \<and> list_all (\<lambda>e. turn_of e \<noteq> Some []) es"
  using assms
proof (induction "is" arbitrary: s)
  case (Cons i "is")
  then obtain fs where fs: "events (fold step is (step i s)) = events (step i s) @ fs" "list_all (\<lambda>e. turn_of e \<noteq> Some []) fs"
    using step_good by fastforce
  obtain es where es: "events (step i s) = events s @ es" "list_all (speaks_of (turn s) (turn (step i s))) es"
    using step_events Cons.prems by fastforce
  from es(2) have "list_all (\<lambda>e. turn_of e \<noteq> Some []) es" by (auto simp: speaks_of_def list_all_iff)
  with es(1) fs show ?case by simp
qed simp

text \<open>A turn is finished once where no turn is opened twice.\<close>

lemma finished_once:
  assumes "good s" and "list_all fair is" and "finished_in (events s) = []" and "turn s = []"
    and "distinct (turns_kept step turn refused is s [])"
  shows "distinct (finished_in (events (fold step is s)))"
  using run_in_order [OF assms(1,2)] assms(3-5) by (simp add: turn_list_def split: if_splits)

end

text \<open>A source that refuses no call: what it opens it finishes.\<close>

locale steady_source = turn_source +
  assumes never_refused: "\<not> refused i s"
begin

lemma kept_opened: "turns_kept step turn refused is s h = h @ turns_opened step turn is s"
  by (induction "is" arbitrary: s h) (simp_all add: never_refused)

lemma run_opened:
  assumes "good s" and "list_all fair is"
  shows "finished_in (events s) @ turn_list (turn s) @ turns_opened step turn is s
    = finished_in (events (fold step is s)) @ turn_list (turn (fold step is s))"
  using run_in_order [OF assms] by (simp add: kept_opened)

end

end
