(* ===== verification/ClaudeProps.thy ===== *)
theory ClaudeProps
  imports Claude TurnSource
begin

text \<open>
  What the Claude Code session keeps whatever its bridge says and whenever it is asked: turns are
  finished once each, in the order they were opened; a prompt that was stopped never runs; a
  background task that is gone has been reported finished.
\<close>

section \<open>What handlers say\<close>

fun queue_of :: "event_body \<Rightarrow> string" where
  "queue_of (TurnStarted p) = ts_queueID p"
| "queue_of (PromptInjected p) = pi_queueID p"
| "queue_of _ = []"

fun finished_job :: "event_body \<Rightarrow> string list" where
  "finished_job (JobFinished p) = [jp_jobID p]"
| "finished_job _ = []"

definition finished_turns :: "claude_session \<Rightarrow> string list" where
  "finished_turns s = finished_in (cl_events s)"

definition finished_jobs :: "claude_session \<Rightarrow> string set" where
  "finished_jobs s = set (concat (map finished_job (cl_events s)))"

definition current :: "claude_session \<Rightarrow> string list" where
  "current s = turn_list (cl_turnID s)"

text \<open>An event of the turn \<open>t\<close>, or of none, that finishes nothing and names no queued prompt.\<close>

definition spoken :: "string \<Rightarrow> event_body \<Rightarrow> bool" where
  "spoken t e \<longleftrightarrow> queue_of e = [] \<and> finished_turn e = [] \<and> (turn_of e = None \<or> turn_of e = Some t \<and> t \<noteq> [])"

definition same_flags :: "claude_session \<Rightarrow> claude_session \<Rightarrow> bool" where
  "same_flags s s' \<longleftrightarrow> cl_gone s' = cl_gone s \<and> cl_over s' = cl_over s \<and> cl_closed s' = cl_closed s"

text \<open>What every handler but those of a result and of an echo does: it may open a turn, and speaks of it.\<close>

definition speaks :: "claude_session \<Rightarrow> claude_session \<Rightarrow> bool" where
  "speaks s s' \<longleftrightarrow> same_flags s s' \<and> cl_steers s' = cl_steers s \<and> cl_suppress s' = cl_suppress s
     \<and> (cl_turnID s' = cl_turnID s \<and> cl_sawResult s' = cl_sawResult s
        \<or> cl_turnID s = [] \<and> cl_turnID s' \<noteq> [] \<and> \<not> cl_sawResult s')
     \<and> (\<exists>es. cl_events s' = cl_events s @ es \<and> list_all (spoken (cl_turnID s')) es)"

named_theorems speak_intro \<open>handlers that speak of the open turn\<close>

lemma speaks_refl [speak_intro]: "speaks s s"
  by (simp add: speaks_def same_flags_def)

lemma spoken_any: "spoken [] e \<Longrightarrow> spoken t e"
  by (auto simp: spoken_def)

lemma speaks_trans: "speaks a b \<Longrightarrow> speaks b c \<Longrightarrow> speaks a c"
  by (auto simp: speaks_def same_flags_def list_all_iff dest!: spoken_any)

lemma speaks_emit [speak_intro]:
  assumes "speaks a s" and "spoken (cl_turnID s) e"
  shows "speaks a (claude_emit w e s)"
  using assms by (auto simp: speaks_def same_flags_def claude_emit_def step_tick_def)

lemma speaks_fields [speak_intro]:
  "speaks a s \<Longrightarrow> speaks a (step_tick s)"
  "speaks a s \<Longrightarrow> speaks a (s\<lparr>cl_streams := x1\<rparr>)"
  "speaks a s \<Longrightarrow> speaks a (s\<lparr>cl_usage := x2\<rparr>)"
  "speaks a s \<Longrightarrow> speaks a (s\<lparr>cl_jobs := x3\<rparr>)"
  "speaks a s \<Longrightarrow> speaks a (s\<lparr>cl_toolJobs := x4\<rparr>)"
  "speaks a s \<Longrightarrow> speaks a (s\<lparr>cl_background := x5\<rparr>)"
  "speaks a s \<Longrightarrow> speaks a (s\<lparr>cl_limited := x6\<rparr>)"
  "speaks a s \<Longrightarrow> speaks a (s\<lparr>cl_lastPromptTokens := x7\<rparr>)"
  "speaks a s \<Longrightarrow> speaks a (s\<lparr>cl_model := x8\<rparr>)"
  "speaks a s \<Longrightarrow> speaks a (s\<lparr>cl_harnessSessionID := x9\<rparr>)"
  "speaks a s \<Longrightarrow> speaks a (s\<lparr>cl_sent := x10\<rparr>)"
  "speaks a s \<Longrightarrow> speaks a (s\<lparr>cl_effort := x11\<rparr>)"
  "speaks a s \<Longrightarrow> speaks a (s\<lparr>cl_fatal := x12\<rparr>)"
  by (simp_all add: speaks_def same_flags_def step_tick_def)

lemma spoken_simps [simp]:
  "spoken t (ThreadConfigChanged c)" "spoken t (UsageUpdated u)" "spoken t (ContextCompacted x)"
  "spoken t (JobStarted r)" "spoken t (JobUpdated r)" "spoken t (JobFinished r)" "spoken t (ToolCallUpdated p)"
  by (simp_all add: spoken_def)

lemma emit_turn [simp]:
  "cl_turnID (claude_emit w e s) = cl_turnID s" "cl_sawResult (claude_emit w e s) = cl_sawResult s"
  "cl_steers (claude_emit w e s) = cl_steers s" "cl_suppress (claude_emit w e s) = cl_suppress s"
  "cl_gone (claude_emit w e s) = cl_gone s" "cl_over (claude_emit w e s) = cl_over s"
  "cl_closed (claude_emit w e s) = cl_closed s" "cl_jobs (claude_emit w e s) = cl_jobs s"
  "cl_background (claude_emit w e s) = cl_background s" "cl_limited (claude_emit w e s) = cl_limited s"
  by (simp_all add: claude_emit_def step_tick_def)

text \<open>An open session's events all go out.\<close>

lemma emit_open [simp]:
  "\<not> cl_over s \<Longrightarrow> \<not> cl_closed s \<Longrightarrow> cl_events (claude_emit w e s) = cl_events s @ [e]"
  by (simp add: claude_emit_def step_tick_def)

definition ids_ok :: "claude_world \<Rightarrow> bool" where
  "ids_ok w \<longleftrightarrow> (\<forall>n. kw_uuid w n \<noteq> [])"

lemma ensure_turn:
  assumes "ids_ok w"
  shows "fst (ensureTurn w s) = cl_turnID (snd (ensureTurn w s))" and "cl_turnID (snd (ensureTurn w s)) \<noteq> []"
  using assms by (simp_all add: ensureTurn_def Let_def ids_ok_def)

lemma speaks_ensure [speak_intro]:
  assumes "ids_ok w" and "speaks a s"
  shows "speaks a (snd (ensureTurn w s))"
proof (rule speaks_trans [OF assms(2)])
  have "speaks s ((step_tick s)\<lparr>cl_turnID := kw_uuid w (cl_tick s), cl_sawResult := False\<rparr>)" if "cl_turnID s = []"
    using assms(1) that by (simp add: speaks_def same_flags_def step_tick_def ids_ok_def)
  then show "speaks s (snd (ensureTurn w s))"
    using assms(1) by (auto simp: ensureTurn_def Let_def spoken_def ids_ok_def intro!: speak_intro)
qed

lemma spoken_turn:
  assumes "ids_ok w" and "ensureTurn w s = (t, s1)"
  shows "spoken (cl_turnID s1) (chunk_event t k b d p)" and "cl_turnID s1 = t" and "t \<noteq> []"
  using ensure_turn [OF assms(1), of s] assms(2) by (simp_all add: spoken_def chunk_event_def)

lemma speaks_ensured:
  assumes "ids_ok w" and "speaks a s" and "ensureTurn w s = (t, s1)"
  shows "speaks a s1"
  using speaks_ensure [OF assms(1,2)] assms(3) by simp

section \<open>The handlers\<close>

lemma speaks_set_link [speak_intro]: "speaks a s \<Longrightarrow> speaks a (set_link i l s)"
  unfolding set_link_def by (rule speak_intro)

lemma speaks_emit_job [speak_intro]: "speaks a s \<Longrightarrow> spoken (cl_turnID s) e \<Longrightarrow> speaks a (emit_job w e s)"
  by (cases e) (simp_all add: emit_job_def set_link_def speaks_emit speaks_fields)

lemma speaks_emit_jobs [speak_intro]:
  "speaks a s \<Longrightarrow> list_all (spoken []) es \<Longrightarrow> speaks a (emit_jobs w es s)"
proof (induction es arbitrary: s)
  case (Cons e es)
  then have "speaks a (emit_job w e s)" by (intro speaks_emit_job) (simp_all add: spoken_any)
  with Cons show ?case by (simp add: emit_jobs_def)
qed (simp add: emit_jobs_def)

lemma speaks_seed: "speaks a s \<Longrightarrow> speaks a (snd (seed_jobs ts s))"
  by (induction ts arbitrary: s) (auto simp: Let_def case_prod_beta intro!: speak_intro)

lemma speaks_background [speak_intro]: "speaks a s \<Longrightarrow> speaks a (handleBackgroundTasks w ts s)"
  unfolding handleBackgroundTasks_def Let_def case_prod_beta
  by (intro speaks_emit_jobs speaks_seed speak_intro) (auto simp: list_all_iff)

lemma spoken_task: "task_event m row = Some e \<Longrightarrow> spoken t e"
  by (auto simp: task_event_def Let_def split: if_splits prod.splits)

lemma speaks_note [speak_intro]: "speaks a s \<Longrightarrow> speaks a (note_task parent m s)"
  unfolding note_task_def Let_def by (intro speak_intro)

lemma speaks_task [speak_intro]: "speaks a s \<Longrightarrow> speaks a (handleTask w parent m s)"
  unfolding handleTask_def Let_def
  by (auto split: option.split intro!: speaks_background speaks_note speaks_emit_job dest: spoken_task)

lemma speaks_shell [speak_intro]: "speaks a s \<Longrightarrow> speaks a (linkBackgroundShell w t x s)"
  unfolding linkBackgroundShell_def Let_def by (auto split: option.split intro!: speak_intro)

lemma speaks_subagent [speak_intro]: "speaks a s \<Longrightarrow> speaks a (handleSubagentResult w parent r s)"
  unfolding handleSubagentResult_def Let_def by (auto split: option.split intro!: speak_intro)

lemma speaks_session [speak_intro]: "speaks a s \<Longrightarrow> speaks a (trackSessionID w m s)"
  unfolding trackSessionID_def by (auto intro!: speak_intro)

lemma speaks_stream [speak_intro]:
  assumes ids: "ids_ok w" and s: "speaks a s"
  shows "speaks a (handleStreamEvent w parent ev s)"
proof -
  obtain t s1 where t: "ensureTurn w s = (t, s1)" by force
  note s1 = speaks_ensured [OF ids s t] and turn = spoken_turn [OF ids t]
  have "speaks a (block_started w parent ev s)"
    using turn by (auto simp: block_started_def t Let_def spoken_def intro!: speak_intro s1)
  moreover have "speaks a (block_delta w parent ev s)"
    using turn by (auto simp: block_delta_def t intro!: speak_intro s1 s split: option.split)
  ultimately show ?thesis by (auto simp: handleStreamEvent_def intro!: speak_intro s)
qed

lemma speaks_entry:
  assumes ids: "ids_ok w" and s: "speaks a s"
  shows "speaks a (assistant_entry w parent mid streamed i c s)"
proof -
  obtain t s1 where t: "ensureTurn w s = (t, s1)" by force
  note s1 = speaks_ensured [OF ids s t] and turn = spoken_turn [OF ids t]
  show ?thesis using turn by (auto simp: assistant_entry_def t intro!: speak_intro s1 s)
qed

lemma speaks_assistant [speak_intro]:
  assumes "ids_ok w" and "speaks a s"
  shows "speaks a (handleAssistant w parent m s)"
proof -
  have entries: "speaks a x \<Longrightarrow> speaks a (assistant_entries w p mid streamed i cs x)" for p mid streamed i cs x
    by (induction cs arbitrary: i x) (simp_all add: speaks_entry [OF assms(1)])
  then show ?thesis
    unfolding handleAssistant_def Let_def using assms(2) by (intro entries) (simp add: speaks_fields)
qed

lemma speaks_tool_result: "speaks a s \<Longrightarrow> speaks a (tool_result w parent c s)"
  by (simp add: tool_result_def Let_def speaks_shell speaks_emit)

lemma speaks_results: "speaks a s \<Longrightarrow> speaks a (foldl (\<lambda>s c. tool_result w parent c s) s cs)"
  by (induction cs arbitrary: s) (simp_all add: speaks_tool_result)

lemma speaks_context [speak_intro]: "speaks a s \<Longrightarrow> speaks a (handleContextUsage w u s)"
  unfolding handleContextUsage_def Let_def by (intro speak_intro) simp_all

lemma speaks_init [speak_intro]: "speaks a s \<Longrightarrow> speaks a (handleInit w model mode s)"
  unfolding handleInit_def Let_def by (intro speak_intro) simp_all

text \<open>What is left of a message once the echo of a prompt and the result of a turn are set aside.\<close>

fun settles :: "string \<Rightarrow> claude_body \<Rightarrow> bool" where
  "settles parent (UserMessage m) = um_isReplay m"
| "settles parent (ResultMessage r) = (parent = [])"
| "settles parent b = False"

lemma speaks_body:
  assumes "ids_ok w" and "\<not> settles parent b" and "speaks a s"
  shows "speaks a (handle_body w parent b s)"
  using assms
  by (cases b) (simp_all add: handle_body_def handleUser_def compacted_def speak_intro speaks_results)

section \<open>Steps\<close>

text \<open>What holds of a session at any moment: an open turn has no result yet, and nothing is open once it is over.\<close>

definition session_ok :: "claude_session \<Rightarrow> bool" where
  "session_ok s \<longleftrightarrow> (cl_turnID s \<noteq> [] \<longrightarrow> \<not> cl_sawResult s) \<and> (cl_over s \<longrightarrow> cl_gone s \<and> cl_turnID s = [])"

definition turn_step :: "claude_session \<Rightarrow> claude_session \<Rightarrow> bool" where
  "turn_step s s' \<longleftrightarrow> session_ok s' \<and> \<not> cl_closed s'
     \<and> ledger_step (finished_in (cl_events s), cl_turnID s) (finished_in (cl_events s'), cl_turnID s')
     \<and> (cl_turnID s' = [] \<and> cl_turnID s \<noteq> [] \<longrightarrow> finished_in (cl_events s') \<noteq> finished_in (cl_events s))
     \<and> (\<exists>es. cl_events s' = cl_events s @ es \<and> list_all (speaks_of (cl_turnID s) (cl_turnID s')) es)"

lemma spoken_finished: "list_all (spoken t) es \<Longrightarrow> finished_in es = []"
  by (induction es) (simp_all add: spoken_def)

lemma spoken_speaks: "spoken t e \<Longrightarrow> speaks_of u t e"
  by (auto simp: spoken_def speaks_of_def)

lemma turn_step_speaks:
  assumes "speaks s s'" and "session_ok s" and "\<not> cl_closed s" and "\<not> cl_over s"
  shows "turn_step s s'"
proof -
  obtain es where es: "cl_events s' = cl_events s @ es" "list_all (spoken (cl_turnID s')) es"
    using assms(1) by (auto simp: speaks_def)
  have "list_all (speaks_of (cl_turnID s) (cl_turnID s')) es" using es(2) by (auto simp: list_all_iff spoken_speaks)
  with es assms spoken_finished [OF es(2)] show ?thesis
    by (auto simp: turn_step_def speaks_def same_flags_def session_ok_def ledger_step_simps)
qed

lemma turn_step_same:
  assumes "session_ok s" and "\<not> cl_closed s" and "session_ok s'" and "cl_turnID s' = cl_turnID s"
    and "cl_events s' = cl_events s" and "cl_closed s' = cl_closed s"
  shows "turn_step s s'"
  using assms by (simp add: turn_step_def ledger_step_simps)

text \<open>A turn that is closed: its finish is the last event, and nothing is open.\<close>

lemma turn_step_finish:
  assumes "\<not> cl_closed s" and "cl_turnID s = t" and "t \<noteq> []"
    and "cl_events s' = cl_events s @ es @ [turn_finished t stop err failure]" and "list_all (spoken []) es"
    and "cl_turnID s' = []" and "cl_closed s' = cl_closed s" and "session_ok s'"
  shows "turn_step s s'"
proof -
  have "finished_in es = []" by (rule spoken_finished [OF assms(5)])
  moreover have "list_all (speaks_of t []) es" using assms(5) by (auto simp: list_all_iff spoken_speaks)
  ultimately show ?thesis
    using assms by (simp add: turn_step_def ledger_step_simps turn_finished_def speaks_of_def)
qed

lemma turn_step_replay:
  assumes ids: "ids_ok w" and ok: "session_ok s" and live: "\<not> cl_closed s" "\<not> cl_over s"
  shows "turn_step s (handleReplay w i text s)"
proof (cases "cl_steers s i")
  case (Some cancelled)
  show ?thesis
  proof (cases "cancelled \<or> cl_turnID s \<noteq> []")
    case True
    then show ?thesis
      using ok live Some
      by (auto simp: handleReplay_def Let_def call_bridge_def turn_step_def session_ok_def ledger_step_simps
          speaks_of_def)
  next
    case False
    then show ?thesis
      using ok live Some ids
      by (auto simp: handleReplay_def Let_def step_tick_def turn_step_def session_ok_def ledger_step_simps
          speaks_of_def ids_ok_def)
  qed
qed (simp add: handleReplay_def turn_step_same ok live)

lemma turn_step_result:
  assumes ok: "session_ok s" and live: "\<not> cl_closed s" "\<not> cl_over s"
  shows "turn_step s (handleResult w r s)"
proof (cases "cl_turnID s = []")
  case True
  then show ?thesis
    using live by (simp add: handleResult_def Let_def turn_step_def session_ok_def ledger_step_simps speaks_of_def)
next
  case False
  obtain stop err failure where o: "result_outcome (cl_limited s) r = (stop, err, failure)" by (metis prod_cases3)
  show ?thesis
    by (rule turn_step_finish [of s "cl_turnID s" _ "[UsageUpdated (result_usage w r s)]" stop err failure])
      (use False live o in \<open>simp_all add: handleResult_def Let_def session_ok_def\<close>)
qed

lemma turn_step_message:
  assumes ids: "ids_ok w" and ok: "session_ok s" and live: "\<not> cl_closed s" "\<not> cl_over s"
  shows "turn_step s (handleSDKMessage w m s)"
proof -
  let ?s = "trackSessionID w m s"
  have track: "speaks s ?s" by (intro speak_intro)
  have first: "turn_step s ?s" by (rule turn_step_speaks [OF track ok live])
  have same: "cl_turnID ?s = cl_turnID s" "finished_in (cl_events ?s) = finished_in (cl_events s)"
    by (simp_all add: trackSessionID_def claude_emit_def step_tick_def)
  have ok1: "session_ok ?s" and live1: "\<not> cl_closed ?s" "\<not> cl_over ?s"
    using first track live by (simp_all add: turn_step_def speaks_def same_flags_def)
  have "turn_step ?s (handle_body w (km_parent m) (km_body m) ?s)"
  proof (cases "settles (km_parent m) (km_body m)")
    case True
    then show ?thesis
      by (cases "km_body m") (simp_all add: handle_body_def handleUser_def turn_step_replay turn_step_result ids ok1 live1)
  next
    case False
    show ?thesis by (rule turn_step_speaks [OF speaks_body [OF ids False speaks_refl] ok1 live1])
  qed
  then show ?thesis
    using first same by (auto simp: handleSDKMessage_def turn_step_def list_all_iff speaks_of_def split: option.splits)
qed

lemma turn_step_input:
  assumes ids: "ids_ok w" and ok: "session_ok s" and live: "\<not> cl_closed s" and i: "i \<noteq> CloseAsked"
  shows "turn_step s (claude_step w i s)"
proof (cases i)
  case (PromptAsked turn said images)
  then show ?thesis
    using ok live
    by (auto simp: claude_Prompt_def notify_bridge_def step_tick_def turn_step_def session_ok_def ledger_step_simps)
next
  case (SteerAsked q said images)
  then show ?thesis
    using ok live
    by (auto simp: claude_Steer_def notify_bridge_def step_tick_def session_ok_def intro!: turn_step_same
        split: option.split)
next
  case CancelAsked
  then show ?thesis
    using ok live by (auto simp: cancel_ask_def Let_def call_bridge_def session_ok_def intro!: turn_step_same)
next
  case (CancelConfirmed turn)
  show ?thesis
  proof (cases "turn = [] \<or> cl_turnID s \<noteq> turn")
    case False
    then have "\<not> cl_over s" using ok by (auto simp: session_ok_def)
    with False live ok CancelConfirmed show ?thesis
      by (intro turn_step_finish [of s turn _ "[]" StopCancelled "[]" "[]"])
        (simp_all add: cancel_confirmed_def session_ok_def)
  qed (simp add: CancelConfirmed cancel_confirmed_def turn_step_same ok live)
next
  case (MessageRead m)
  show ?thesis
  proof (cases "cl_gone s")
    case False
    then have "\<not> cl_over s" using ok by (auto simp: session_ok_def)
    from turn_step_message [OF ids ok live this, of m] False show ?thesis by (simp add: MessageRead)
  qed (simp add: MessageRead turn_step_same ok live)
next
  case ExitSeen
  show ?thesis
  proof (cases "cl_gone s \<and> \<not> cl_over s \<and> cl_turnID s \<noteq> []")
    case True
    then have "\<not> cl_sawResult s" using ok by (simp add: session_ok_def)
    with True live ExitSeen show ?thesis
      by (intro turn_step_finish [of s "cl_turnID s" _ "[]" StopError "fst (exitReason s)" "snd (exitReason s)"])
        (simp_all add: watchExit_def Let_def session_ok_def)
  next
    case False
    then show ?thesis
      using ok live by (auto simp: ExitSeen watchExit_def Let_def session_ok_def intro!: turn_step_same)
  qed
qed (use assms in \<open>auto simp: model_set_def handleFatal_def session_ok_def intro!: turn_step_same\<close>)

section \<open>Turns\<close>

definition claude_good :: "claude_world \<Rightarrow> claude_session \<Rightarrow> bool" where
  "claude_good w s \<longleftrightarrow> ids_ok w \<and> session_ok s \<and> \<not> cl_closed s"

interpretation claude: steady_source "claude_step w" cl_events cl_turnID "claude_good w" "\<lambda>i. i \<noteq> CloseAsked" "\<lambda>i s. False" for w
proof
  fix s i
  assume good: "claude_good w s" and i: "i \<noteq> CloseAsked"
  then have step: "turn_step s (claude_step w i s)" by (simp add: claude_good_def turn_step_input)
  show "claude_good w (claude_step w i s)" using good step by (simp add: claude_good_def turn_step_def)
  show "ledger_step (finished_in (cl_events s), cl_turnID s)
      (finished_in (cl_events (claude_step w i s)), cl_turnID (claude_step w i s))"
    and "\<exists>es. cl_events (claude_step w i s) = cl_events s @ es
      \<and> list_all (speaks_of (cl_turnID s) (cl_turnID (claude_step w i s))) es"
    using step by (simp_all add: turn_step_def)
  show "finished_in (cl_events (claude_step w i s)) = finished_in (cl_events s) \<longleftrightarrow> False"
    if "cl_turnID s \<noteq> []" and "cl_turnID (claude_step w i s) = []"
    using step that by (simp add: turn_step_def)
qed simp_all

lemma claude_run_fold: "claude_run w is s = fold (claude_step w) is s"
  by (simp add: claude_run_def foldl_conv_fold)

lemma claude_start_good: "ids_ok w \<Longrightarrow> claude_good w (claude_start w resume harnessSessionID threadID model effort)"
  by (simp add: claude_start_def Let_def session_ok_def claude_good_def)

text \<open>
  C3: until it is asked to close, whatever the bridge says, whenever it is prompted, steered or
  interrupted, and however it dies, a Claude session finishes the turns that were opened exactly once
  each, in the order they were opened, all but the one still open; once the exit has been seen none
  is; no event carries an empty turn id, and none that of a turn that was never open.
\<close>

theorem claude_turns_in_order:
  assumes "ids_ok w" and "CloseAsked \<notin> set is"
    and "s0 = claude_start w resume harnessSessionID threadID model effort" and "s = claude_run w is s0"
  shows "turns_opened (claude_step w) cl_turnID is s0 = finished_turns s @ current s
    \<and> (if cl_over s then current s = [] else True)
    \<and> list_all (\<lambda>e. turn_of e \<noteq> Some []) (cl_events s)
    \<and> (if u \<in> cl_turnID ` set (visited (claude_step w) is s0) then True
       else list_all (\<lambda>e. turn_of e \<noteq> Some u) (cl_events s))"
proof -
  have good: "claude_good w s0" using assms(1,3) by (simp add: claude_start_good)
  have fair: "list_all (\<lambda>i. i \<noteq> CloseAsked) is" using assms(2) by (auto simp: list_all_iff)
  have start: "finished_in (cl_events s0) = []" "cl_turnID s0 = []" "list_all (\<lambda>e. turn_of e = None) (cl_events s0)"
    by (simp_all add: assms(3) claude_start_def Let_def)
  have "session_ok s" using claude.run_good [OF good fair] assms(4) by (simp add: claude_good_def claude_run_fold)
  with claude.run_opened [OF good fair] claude.run_named [OF good fair] claude.run_speaks [OF good fair, of u] start assms(4) show ?thesis
    by (auto simp: claude_run_fold finished_turns_def current_def session_ok_def list_all_iff)
qed

definition sample_claude :: claude_world where
  "sample_claude =
     \<lparr>kw_uuid = \<lambda>n. ''u'' @ replicate n CHR ''x'', kw_notify = \<lambda>n. None, kw_keep = \<lambda>n. True, kw_percent = \<lambda>a b. 0\<rparr>"

definition sample_said :: "claude_body \<Rightarrow> claude_input" where
  "sample_said b = MessageRead \<lparr>km_parent = [], km_session = ''t1'', km_body = b\<rparr>"

definition sample_result :: result_message where
  "sample_result =
     \<lparr>rm_isError = False, rm_stopReason = [], rm_result = [], rm_terminalReason = [], rm_errors = [], rm_cost = 0,
      rm_input = 1, rm_output = 1, rm_cacheRead = 0, rm_cacheCreation = 0\<rparr>"

definition sample_echo :: "string \<Rightarrow> claude_body" where
  "sample_echo i = UserMessage \<lparr>um_content = [], um_isReplay = True, um_uuid = i\<rparr>"

text \<open>A prompt with its result, then a steered prompt that is read too late and becomes a turn of its own.\<close>

definition sample_talk :: "claude_input list" where
  "sample_talk =
     [PromptAsked ''p1'' ''go'' [], SteerAsked ''q1'' ''and'' [], sample_said (ResultMessage sample_result),
      sample_said (sample_echo ''q1''), BridgeGone, ExitSeen]"

theorem claude_turns_in_order_witness:
  "length (turns_opened (claude_step sample_claude) cl_turnID sample_talk (claude_start sample_claude False [] ''t1'' [] [])) = 2
   \<and> turns_opened (claude_step sample_claude) cl_turnID sample_talk (claude_start sample_claude False [] ''t1'' [] [])
     = finished_turns (claude_run sample_claude sample_talk (claude_start sample_claude False [] ''t1'' [] []))"
proof -
  let ?s0 = "claude_start sample_claude False [] ''t1'' [] []"
  have ids: "ids_ok sample_claude" by (simp add: ids_ok_def sample_claude_def)
  have "CloseAsked \<notin> set sample_talk" by (simp add: sample_talk_def sample_said_def)
  from claude_turns_in_order [OF ids this refl refl]
  have "turns_opened (claude_step sample_claude) cl_turnID sample_talk ?s0
      = finished_turns (claude_run sample_claude sample_talk ?s0) @ current (claude_run sample_claude sample_talk ?s0)"
    by blast
  moreover have "current (claude_run sample_claude sample_talk ?s0) = []" by code_simp
  moreover have "length (turns_opened (claude_step sample_claude) cl_turnID sample_talk ?s0) = 2" by code_simp
  ultimately show ?thesis by simp
qed

section \<open>Stop means stop\<close>

text \<open>Nothing that follows hands the prompt \<open>q\<close> to a turn.\<close>

definition spares :: "string \<Rightarrow> claude_session \<Rightarrow> claude_session \<Rightarrow> bool" where
  "spares q s s' \<longleftrightarrow> cl_steers s' q \<noteq> Some False
     \<and> (\<exists>es. cl_events s' = cl_events s @ es \<and> list_all (\<lambda>e. queue_of e \<noteq> q) es)"

lemma spares_quiet:
  "cl_steers s q \<noteq> Some False \<Longrightarrow> cl_steers s' = cl_steers s \<Longrightarrow> cl_events s' = cl_events s \<Longrightarrow> spares q s s'"
  by (simp add: spares_def)

lemma spares_trans: "spares q a b \<Longrightarrow> spares q b c \<Longrightarrow> spares q a c"
  by (auto simp: spares_def)

lemma spares_speaks: "speaks s s' \<Longrightarrow> cl_steers s q \<noteq> Some False \<Longrightarrow> q \<noteq> [] \<Longrightarrow> spares q s s'"
  by (auto simp: speaks_def spares_def list_all_iff spoken_def)

lemma spares_emit:
  assumes "cl_steers s q \<noteq> Some False" and "queue_of e \<noteq> q" and "cl_steers x = cl_steers s" and "cl_events x = cl_events s"
  shows "spares q s (claude_emit w e x)"
  using assms by (simp add: spares_def claude_emit_def step_tick_def)

lemma spares_replay:
  assumes "cl_steers s q \<noteq> Some False"
  shows "spares q s (handleReplay w i said s)"
proof (cases "i = q")
  case True
  with assms show ?thesis
    by (auto simp: handleReplay_def Let_def call_bridge_def spares_def split: option.split)
next
  case False
  then show ?thesis
    using assms by (auto simp: handleReplay_def Let_def call_bridge_def spares_def claude_emit_def step_tick_def
        split: option.split)
qed

lemma spares_result:
  assumes "cl_steers s q \<noteq> Some False" and "q \<noteq> []"
  shows "spares q s (handleResult w r s)"
  using assms
  by (auto simp: handleResult_def Let_def spares_def claude_emit_def step_tick_def turn_finished_def split: prod.split)

lemma spares_message:
  assumes ids: "ids_ok w" and q: "q \<noteq> []" and s: "cl_steers s q \<noteq> Some False"
  shows "spares q s (handleSDKMessage w m s)"
proof -
  let ?s = "trackSessionID w m s"
  have "speaks s ?s" by (intro speak_intro)
  then have first: "spares q s ?s" by (rule spares_speaks [OF _ s q])
  then have s1: "cl_steers ?s q \<noteq> Some False" by (simp add: spares_def)
  have "spares q ?s (handle_body w (km_parent m) (km_body m) ?s)"
  proof (cases "settles (km_parent m) (km_body m)")
    case True
    then show ?thesis
      by (cases "km_body m") (simp_all add: handle_body_def handleUser_def spares_replay spares_result s1 q)
  next
    case False
    show ?thesis by (rule spares_speaks [OF speaks_body [OF ids False speaks_refl] s1 q])
  qed
  then show ?thesis using spares_trans [OF first] by (simp add: handleSDKMessage_def)
qed

lemma spares_input:
  assumes ids: "ids_ok w" and q: "q \<noteq> []" and s: "cl_steers s q \<noteq> Some False"
    and i: "\<forall>said images. i \<noteq> SteerAsked q said images"
  shows "spares q s (claude_step w i s)"
proof (cases i)
  case (PromptAsked turn said images)
  then show ?thesis
    using s by (auto simp: claude_Prompt_def notify_bridge_def step_tick_def intro!: spares_quiet)
next
  case (SteerAsked p said images)
  then have "p \<noteq> q" using i by blast
  then show ?thesis
    using s SteerAsked
    by (auto simp: claude_Steer_def notify_bridge_def step_tick_def spares_def split: option.split)
next
  case CancelAsked
  then show ?thesis
    using s by (auto simp: cancel_ask_def Let_def call_bridge_def spares_def map_option_case split: option.splits)
next
  case (CancelConfirmed turn)
  then show ?thesis
    using s q by (auto simp: cancel_confirmed_def turn_finished_def spares_def claude_emit_def step_tick_def)
next
  case (MessageRead m)
  then show ?thesis using spares_message [OF ids q s] s by (auto intro: spares_quiet)
next
  case ExitSeen
  then show ?thesis
    using s q by (auto simp: watchExit_def Let_def turn_finished_def spares_def claude_emit_def step_tick_def)
qed (use s in \<open>auto simp: model_set_def handleFatal_def intro!: spares_quiet\<close>)

text \<open>
  C4: stop means stop: after a cancel no prompt that had been steered into the session is ever
  reported as read or as the start of a turn, however late the harness echoes it, unless it is
  sent again.
\<close>

theorem claude_stop_means_stop:
  assumes "ids_ok w" and "q \<noteq> []" and "\<forall>said images. SteerAsked q said images \<notin> set is"
  shows "\<exists>es. cl_events (claude_run w (CancelAsked # is) s) = cl_events s @ es \<and> list_all (\<lambda>e. queue_of e \<noteq> q) es"
proof -
  have run: "spares q x (claude_run w is x)" if "cl_steers x q \<noteq> Some False" for x
    using that assms(3)
  proof (induction "is" arbitrary: x)
    case (Cons i "is")
    have first: "spares q x (claude_step w i x)" by (rule spares_input [OF assms(1,2)]) (use Cons.prems in auto)
    then have "cl_steers (claude_step w i x) q \<noteq> Some False" by (simp add: spares_def)
    from spares_trans [OF first Cons.IH [OF this]] Cons.prems(2) show ?case by (simp add: claude_run_def)
  qed (simp add: claude_run_def spares_def)
  have "cl_steers (cancel_ask s) q \<noteq> Some False"
    by (simp add: cancel_ask_def Let_def call_bridge_def)
  moreover have "cl_events (cancel_ask s) = cl_events s" by (simp add: cancel_ask_def Let_def call_bridge_def)
  moreover have "claude_run w (CancelAsked # is) s = claude_run w is (cancel_ask s)" by (simp add: claude_run_def)
  ultimately show ?thesis using run [of "cancel_ask s"] by (auto simp: spares_def)
qed

theorem claude_stop_means_stop_witness:
  "\<exists>es. cl_events (claude_run sample_claude [CancelAsked, CancelConfirmed ''p1'', sample_said (sample_echo ''q1'')]
       (claude_run sample_claude (take 2 sample_talk) (claude_start sample_claude False [] ''t1'' [] [])))
     = cl_events (claude_run sample_claude (take 2 sample_talk) (claude_start sample_claude False [] ''t1'' [] [])) @ es
   \<and> list_all (\<lambda>e. queue_of e \<noteq> ''q1'') es"
proof -
  have ids: "ids_ok sample_claude" by (simp add: ids_ok_def sample_claude_def)
  have "\<forall>said images. SteerAsked ''q1'' said images \<notin> set [CancelConfirmed ''p1'', sample_said (sample_echo ''q1'')]"
    by (simp add: sample_said_def)
  from claude_stop_means_stop [OF ids _ this] show ?thesis by simp
qed

section \<open>Background tasks\<close>

text \<open>A job that is marked done has been reported finished.\<close>

definition jobs_told :: "claude_session \<Rightarrow> bool" where
  "jobs_told s \<longleftrightarrow> (\<forall>i. jl_done (link_of i s) \<longrightarrow> i \<in> finished_jobs s)"

text \<open>Whatever leaves the live set has been reported finished.\<close>

definition minds :: "claude_session \<Rightarrow> claude_session \<Rightarrow> bool" where
  "minds s s' \<longleftrightarrow> same_flags s s' \<and> (\<exists>es. cl_events s' = cl_events s @ es)
     \<and> (jobs_told s \<longrightarrow> jobs_told s' \<and> set (cl_background s) \<subseteq> set (cl_background s') \<union> finished_jobs s')"

lemma finished_jobs_grow: "cl_events s' = cl_events s @ es \<Longrightarrow> finished_jobs s \<subseteq> finished_jobs s'"
  by (auto simp: finished_jobs_def)

lemma minds_refl: "minds s s"
  by (auto simp: minds_def same_flags_def)

lemma minds_trans:
  assumes "minds a b" and "minds b c"
  shows "minds a c"
proof -
  obtain es where "cl_events c = cl_events b @ es" using assms(2) by (auto simp: minds_def)
  then have "finished_jobs b \<subseteq> finished_jobs c" by (rule finished_jobs_grow)
  with assms show ?thesis by (fastforce simp: minds_def same_flags_def)
qed

text \<open>Handlers that leave the jobs alone.\<close>

lemma minds_apart:
  assumes "same_flags s s'" and "cl_events s' = cl_events s @ es" and "cl_jobs s' = cl_jobs s"
    and "cl_background s' = cl_background s"
  shows "minds s s'"
  using assms finished_jobs_grow [OF assms(2)]
  by (auto simp: minds_def jobs_told_def link_of_def)

lemma minds_speaks:
  "speaks s s' \<Longrightarrow> cl_jobs s' = cl_jobs s \<Longrightarrow> cl_background s' = cl_background s \<Longrightarrow> minds s s'"
  by (auto simp: speaks_def intro: minds_apart)

lemma link_set_link: "link_of j (set_link i l s) = (if j = i then l else link_of j s)"
  by (simp add: link_of_def set_link_def)

lemma minds_link:
  assumes "jl_done l = jl_done (link_of i s)"
  shows "minds s (set_link i l s)"
proof -
  have "finished_jobs (set_link i l s) = finished_jobs s" by (simp add: finished_jobs_def set_link_def)
  then show ?thesis
    using assms by (auto simp: minds_def same_flags_def jobs_told_def link_set_link) (simp_all add: set_link_def)
qed

lemma minds_tools: "minds a s \<Longrightarrow> minds a (s\<lparr>cl_toolJobs := x\<rparr>)"
  by (simp add: minds_def same_flags_def jobs_told_def link_of_def finished_jobs_def)

lemma minds_emit_job:
  assumes "\<not> cl_over s" and "\<not> cl_closed s"
  shows "minds s (emit_job w e s)" and "cl_events (emit_job w e s) = cl_events s @ [e]"
proof -
  show ev: "cl_events (emit_job w e s) = cl_events s @ [e]"
    using assms by (cases e) (simp_all add: emit_job_def set_link_def)
  have fin: "finished_jobs (emit_job w e s) = finished_jobs s \<union> set (finished_job e)"
    by (simp add: finished_jobs_def ev)
  show "minds s (emit_job w e s)"
  proof (cases e)
    case (JobFinished p)
    have "link_of j (emit_job w e s) = (if j = jp_jobID p then (link_of j s)\<lparr>jl_done := True\<rparr> else link_of j s)" for j
      by (simp add: emit_job_def JobFinished link_of_def set_link_def)
    then show ?thesis
      using fin ev by (auto simp: minds_def same_flags_def jobs_told_def JobFinished emit_job_def set_link_def)
  qed (use ev in \<open>auto simp: emit_job_def intro!: minds_apart simp: same_flags_def\<close>)
qed

lemma minds_flags: "minds s s' \<Longrightarrow> cl_over s' = cl_over s \<and> cl_closed s' = cl_closed s"
  by (simp add: minds_def same_flags_def)

lemma minds_then_emit:
  assumes "minds a s" and "\<not> cl_over a" and "\<not> cl_closed a"
  shows "minds a (emit_job w e s)"
  using minds_trans [OF assms(1) minds_emit_job(1)] minds_flags [OF assms(1)] assms(2,3) by simp

lemma emit_jobs_tell:
  assumes "\<not> cl_over s" and "\<not> cl_closed s"
  shows "minds s (emit_jobs w es s) \<and> cl_events (emit_jobs w es s) = cl_events s @ es"
  using assms
proof (induction es arbitrary: s)
  case (Cons e es)
  note first = minds_emit_job [OF Cons.prems, of w e]
  have "\<not> cl_over (emit_job w e s)" "\<not> cl_closed (emit_job w e s)"
    using minds_flags [OF first(1)] Cons.prems by simp_all
  from Cons.IH [OF this] first show ?case
    using minds_trans by (fastforce simp: emit_jobs_def)
qed (simp add: emit_jobs_def minds_refl)

lemma minds_seed: "minds s (snd (seed_jobs ts s)) \<and> cl_events (snd (seed_jobs ts s)) = cl_events s
    \<and> cl_background (snd (seed_jobs ts s)) = cl_background s"
proof (induction ts arbitrary: s)
  case (Cons t ts)
  let ?s = "set_link (bt_taskID t) (link_of (bt_taskID t) s) s"
  have "minds s ?s" by (rule minds_link) simp
  moreover have "cl_events ?s = cl_events s" "cl_background ?s = cl_background s" by (simp_all add: set_link_def)
  ultimately show ?case
    using Cons.IH [of s] Cons.IH [of ?s] minds_trans by (auto simp: Let_def case_prod_beta)
qed (simp add: minds_refl)

lemma minds_background:
  assumes live: "\<not> cl_over s" "\<not> cl_closed s"
  shows "minds s (handleBackgroundTasks w ts s)"
proof -
  let ?next = "remdups (map bt_taskID ts)"
  let ?gone = "filter (\<lambda>i. i \<notin> set ?next \<and> \<not> jl_done (link_of i s)) (cl_background s)"
  let ?reaped = "map (\<lambda>i. (jobRow i s)\<lparr>jp_status := JobStopped\<rparr>) ?gone"
  let ?s0 = "s\<lparr>cl_background := ?next\<rparr>"
  let ?es = "map JobStarted (fst (seed_jobs ts ?s0)) @ map JobFinished ?reaped"
  let ?s1 = "snd (seed_jobs ts ?s0)" and ?s' = "handleBackgroundTasks w ts s"
  have s': "?s' = emit_jobs w ?es ?s1"
    by (simp add: handleBackgroundTasks_def Let_def case_prod_beta)
  have seed: "minds ?s0 ?s1" "cl_events ?s1 = cl_events s" "cl_background ?s1 = ?next"
    using minds_seed [of ?s0 ts] by simp_all
  have live1: "\<not> cl_over ?s1" "\<not> cl_closed ?s1" using minds_flags [OF seed(1)] live by simp_all
  note out = emit_jobs_tell [OF live1, of w ?es]
  have told: "jobs_told ?s0 = jobs_told s" by (simp add: jobs_told_def link_of_def finished_jobs_def)
  have after: "minds ?s0 ?s'" using minds_trans [OF seed(1)] out s' by simp
  have ev: "cl_events ?s' = cl_events s @ ?es" using out seed(2) s' by simp
  have gone: "set ?gone \<subseteq> finished_jobs ?s'"
    by (auto simp: finished_jobs_def ev jobRow_def comp_def)
  have "set (cl_background s) \<subseteq> set (cl_background ?s') \<union> finished_jobs ?s'" if "jobs_told s"
  proof
    fix i assume i: "i \<in> set (cl_background s)"
    consider "i \<in> set ?next" | "jl_done (link_of i s)" | "i \<in> set ?gone" using i by auto
    then show "i \<in> set (cl_background ?s') \<union> finished_jobs ?s'"
    proof cases
      case 1
      then show ?thesis using after that told by (auto simp: minds_def)
    next
      case 2
      then have "i \<in> finished_jobs s" using that by (simp add: jobs_told_def)
      then show ?thesis using finished_jobs_grow [OF ev] by blast
    next
      case 3
      then show ?thesis using gone by blast
    qed
  qed
  moreover have "same_flags s ?s'" using after by (simp add: minds_def same_flags_def)
  ultimately show ?thesis using after told ev by (simp add: minds_def)
qed

lemma minds_note: "minds s (note_task parent m s)"
proof -
  let ?l = "link_of (tk_taskID m) s"
  let ?l1 = "if tk_toolUseID m = [] then ?l else ?l\<lparr>jl_toolUseID := tk_toolUseID m\<rparr>"
  have done_same: "jl_done (if c then ?l1\<lparr>jl_parentJob := x\<rparr> else ?l1) = jl_done ?l" for c x by simp
  show ?thesis unfolding note_task_def Let_def by (intro minds_tools minds_link done_same)
qed

lemma minds_task:
  assumes "\<not> cl_over s" and "\<not> cl_closed s"
  shows "minds s (handleTask w parent m s)"
  using minds_background [OF assms] minds_then_emit [OF minds_note assms] minds_note [of s parent m]
  by (auto simp: handleTask_def Let_def minds_refl split: option.split)

lemma minds_shell:
  assumes "\<not> cl_over s" and "\<not> cl_closed s"
  shows "minds s (linkBackgroundShell w t said s)"
proof -
  have "minds s ((set_link i l s)\<lparr>cl_toolJobs := x\<rparr>)" if "jl_done l = jl_done (link_of i s)" for i l x
    by (rule minds_tools [OF minds_link [OF that]])
  note linked = minds_then_emit [OF this assms]
  show ?thesis
    by (auto simp: linkBackgroundShell_def Let_def minds_refl link_of_def intro!: linked split: option.split)
qed

lemma minds_subagent:
  assumes "\<not> cl_over s" and "\<not> cl_closed s"
  shows "minds s (handleSubagentResult w parent r s)"
proof -
  note linked = minds_then_emit [OF minds_link [OF refl] assms]
  show ?thesis by (auto simp: handleSubagentResult_def Let_def minds_refl intro!: linked split: option.split)
qed

lemma minds_tool_result:
  assumes live: "\<not> cl_over s" "\<not> cl_closed s"
  shows "minds s (tool_result w parent c s)"
proof -
  have "minds s (claude_emit w e s)" for e
    using live by (intro minds_apart [of s _ "[e]"]) (simp_all add: same_flags_def)
  then have "minds s (linkBackgroundShell w t said (claude_emit w e s))" for t said e
    using live by (intro minds_trans [OF _ minds_shell]) simp_all
  then show ?thesis by (simp add: tool_result_def Let_def minds_refl)
qed

lemma minds_results:
  "\<not> cl_over s \<Longrightarrow> \<not> cl_closed s \<Longrightarrow> minds s (foldl (\<lambda>s c. tool_result w parent c s) s cs)"
proof (induction cs arbitrary: s)
  case (Cons c cs)
  note first = minds_tool_result [OF Cons.prems, of w parent c]
  from Cons.IH [of "tool_result w parent c s"] minds_flags [OF first] Cons.prems show ?case
    by (auto intro: minds_trans [OF first])
qed (simp add: minds_refl)

lemma jobs_apart:
  "cl_jobs (snd (ensureTurn w s)) = cl_jobs s" "cl_background (snd (ensureTurn w s)) = cl_background s"
  "cl_jobs (handleStreamEvent w parent ev s) = cl_jobs s"
  "cl_background (handleStreamEvent w parent ev s) = cl_background s"
  "cl_jobs (assistant_entry w parent mid streamed n c s) = cl_jobs s"
  "cl_background (assistant_entry w parent mid streamed n c s) = cl_background s"
proof -
  show turn: "cl_jobs (snd (ensureTurn w s)) = cl_jobs s" "cl_background (snd (ensureTurn w s)) = cl_background s" for s
    by (simp_all add: ensureTurn_def Let_def step_tick_def)
  show "cl_jobs (handleStreamEvent w parent ev s) = cl_jobs s"
    "cl_background (handleStreamEvent w parent ev s) = cl_background s"
    "cl_jobs (assistant_entry w parent mid streamed n c s) = cl_jobs s"
    "cl_background (assistant_entry w parent mid streamed n c s) = cl_background s"
    by (simp_all add: handleStreamEvent_def block_started_def block_delta_def assistant_entry_def Let_def
        case_prod_beta turn split: option.split)
qed

lemma jobs_entries:
  "cl_jobs (assistant_entries w parent mid streamed n cs s) = cl_jobs s
   \<and> cl_background (assistant_entries w parent mid streamed n cs s) = cl_background s"
  by (induction cs arbitrary: n s) (simp_all add: jobs_apart)

lemma minds_body:
  assumes ids: "ids_ok w" and live: "\<not> cl_over s" "\<not> cl_closed s"
  shows "minds s (handle_body w parent b s)"
proof (cases b)
  case (InitMessage model mode)
  then show ?thesis
    using live by (intro minds_speaks [OF speaks_body [OF ids _ speaks_refl]]) (simp_all add: handle_body_def handleInit_def Let_def)
next
  case (CompactBoundary trigger x y)
  then show ?thesis
    by (intro minds_speaks [OF speaks_body [OF ids _ speaks_refl]]) (simp_all add: handle_body_def)
next
  case (StreamMessage ev)
  then show ?thesis
    by (intro minds_speaks [OF speaks_body [OF ids _ speaks_refl]]) (simp_all add: handle_body_def jobs_apart)
next
  case (AssistantMessage m)
  then show ?thesis
    by (intro minds_speaks [OF speaks_body [OF ids _ speaks_refl]])
      (simp_all add: handle_body_def handleAssistant_def Let_def jobs_entries)
next
  case (UserMessage m)
  have "minds s (handleReplay w i said s)" for i said
    using live by (auto simp: handleReplay_def Let_def call_bridge_def step_tick_def minds_refl same_flags_def
        intro!: minds_apart split: option.split)
  then show ?thesis using live by (simp add: UserMessage handle_body_def handleUser_def minds_results)
next
  case (ResultMessage r)
  have "minds s (handleResult w r s)"
    using live by (intro minds_apart [of s _ "drop (length (cl_events s)) (cl_events (handleResult w r s))"])
      (simp_all add: handleResult_def Let_def same_flags_def split: prod.split)
  then show ?thesis using minds_subagent [OF live] by (simp add: ResultMessage handle_body_def)
next
  case (ContextMessage u)
  then show ?thesis
    by (intro minds_speaks [OF speaks_body [OF ids _ speaks_refl]])
      (simp_all add: handle_body_def handleContextUsage_def Let_def)
qed (simp_all add: handle_body_def minds_task live minds_refl)

text \<open>What one input does to the jobs; only the reader of an exit closes the events.\<close>

lemma minds_message:
  assumes ids: "ids_ok w" and live: "\<not> cl_over s" "\<not> cl_closed s"
  shows "minds s (handleSDKMessage w m s)"
proof -
  have first: "minds s (trackSessionID w m s)"
    by (rule minds_speaks) (auto simp: trackSessionID_def intro!: speak_intro)
  have "minds (trackSessionID w m s) (handleSDKMessage w m s)"
    using minds_flags [OF first] live unfolding handleSDKMessage_def by (intro minds_body [OF ids]) simp_all
  with first show ?thesis by (rule minds_trans)
qed

definition job_step :: "claude_session \<Rightarrow> claude_session \<Rightarrow> bool" where
  "job_step s s' \<longleftrightarrow> jobs_told s' \<and> \<not> cl_closed s' \<and> (cl_over s' \<longrightarrow> cl_gone s')
     \<and> set (cl_background s) \<subseteq> set (cl_background s') \<union> finished_jobs s' \<and> finished_jobs s \<subseteq> finished_jobs s'"

lemma job_step_minds:
  assumes "minds s s'" and "jobs_told s" and "\<not> cl_closed s" and "cl_over s \<longrightarrow> cl_gone s"
  shows "job_step s s'"
  using assms finished_jobs_grow by (fastforce simp: job_step_def minds_def same_flags_def)

lemma job_step_apart:
  assumes "jobs_told s" and "\<not> cl_closed s" and "cl_over s' \<longrightarrow> cl_gone s'" and "cl_closed s' = cl_closed s"
    and "cl_events s' = cl_events s @ es" and "cl_jobs s' = cl_jobs s" and "cl_background s' = cl_background s"
  shows "job_step s s'"
  using assms finished_jobs_grow [OF assms(5)] by (auto simp: job_step_def jobs_told_def link_of_def)

lemma emit_extends: "\<exists>es. cl_events (claude_emit w e s) = cl_events s @ es"
  by (simp add: claude_emit_def step_tick_def)

lemma job_step_input:
  assumes ids: "ids_ok w" and told: "jobs_told s" and live: "\<not> cl_closed s" and over: "cl_over s \<longrightarrow> cl_gone s"
    and i: "i \<noteq> CloseAsked"
  shows "job_step s (claude_step w i s)"
proof (cases i)
  case (PromptAsked turn said images)
  then show ?thesis
    using over live by (intro job_step_apart [OF told live, of _ "[]"])
      (auto simp: claude_Prompt_def notify_bridge_def step_tick_def)
next
  case (SteerAsked q said images)
  then show ?thesis
    using over live by (intro job_step_apart [OF told live, of _ "[]"])
      (auto simp: claude_Steer_def notify_bridge_def step_tick_def split: option.split)
next
  case CancelAsked
  then show ?thesis
    using over live by (intro job_step_apart [OF told live, of _ "[]"])
      (auto simp: cancel_ask_def Let_def call_bridge_def)
next
  case (CancelConfirmed turn)
  obtain es where "cl_events (cancel_confirmed w turn s) = cl_events s @ es"
    using emit_extends [of w _ "s\<lparr>cl_turnID := [], cl_sawResult := True\<rparr>"] by (fastforce simp: cancel_confirmed_def)
  with over live CancelConfirmed show ?thesis
    by (intro job_step_apart [OF told live, of _ es]) (auto simp: cancel_confirmed_def)
next
  case (MessageRead m)
  show ?thesis
  proof (cases "cl_gone s")
    case False
    then have "\<not> cl_over s" using over by blast
    from job_step_minds [OF minds_message [OF ids this live] told live over] False show ?thesis
      by (simp add: MessageRead)
  qed (simp add: MessageRead job_step_minds [OF minds_refl] told live over)
next
  case ExitSeen
  obtain es where "cl_events (watchExit w s) = cl_events s @ es"
    using emit_extends [of w _ "s\<lparr>cl_turnID := []\<rparr>"] by (fastforce simp: watchExit_def Let_def)
  with over live ExitSeen show ?thesis
    by (intro job_step_apart [OF told live, of _ "if cl_gone s \<and> \<not> cl_over s then es else []"])
      (auto simp: watchExit_def Let_def)
qed (use i over live in \<open>auto simp: model_set_def handleFatal_def intro!: job_step_apart [OF told live, of _ "[]"]\<close>)

lemma jobs_over_run:
  assumes "ids_ok w"
  shows "jobs_told s \<Longrightarrow> \<not> cl_closed s \<Longrightarrow> cl_over s \<longrightarrow> cl_gone s \<Longrightarrow> CloseAsked \<notin> set is
    \<Longrightarrow> job_step s (claude_run w is s)"
proof (induction "is" arbitrary: s)
  case (Cons i "is")
  have first: "job_step s (claude_step w i s)" by (rule job_step_input [OF assms]) (use Cons.prems in auto)
  then have "job_step (claude_step w i s) (claude_run w is (claude_step w i s))"
    using Cons.prems(4) by (intro Cons.IH) (simp_all add: job_step_def)
  with first show ?case by (fastforce simp: claude_run_def job_step_def)
qed (simp add: claude_run_def job_step_def)

text \<open>
  The task ids of a message that says which background tasks are live, and all such messages that
  come before the bridge's output ends.
\<close>

fun level_of :: "claude_input \<Rightarrow> string list list" where
  "level_of (MessageRead m) =
     (case km_body m of
        TaskMessage t \<Rightarrow> if tk_subtype t = ''background_tasks_changed'' then [map bt_taskID (tk_tasks t)] else []
      | _ \<Rightarrow> [])"
| "level_of _ = []"

definition levels :: "claude_input list \<Rightarrow> string list list" where
  "levels is = concat (map level_of (takeWhile (\<lambda>i. i \<noteq> BridgeGone) is))"

lemma levels_snoc: "levels (is @ [i]) = (if BridgeGone \<in> set is then levels is else levels is @ level_of i)"
proof (cases "BridgeGone \<in> set is")
  case True
  then have "takeWhile (\<lambda>i. i \<noteq> BridgeGone) (is @ [i]) = takeWhile (\<lambda>i. i \<noteq> BridgeGone) is"
    by (intro takeWhile_append1) auto
  then show ?thesis by (simp only: levels_def True if_True)
next
  case False
  have "takeWhile (\<lambda>i. i \<noteq> BridgeGone) (is @ [i]) = is @ takeWhile (\<lambda>i. i \<noteq> BridgeGone) [i]"
    by (rule takeWhile_append2) (use False in auto)
  moreover have "takeWhile (\<lambda>i. i \<noteq> BridgeGone) is = is" using False by (auto simp: takeWhile_eq_all_conv)
  ultimately have "levels (is @ [i]) = levels is @ (if i = BridgeGone then [] else level_of i)"
    unfolding levels_def by (simp only: map_append concat_append) simp
  then show ?thesis by (simp add: False)
qed

fun started_job :: "event_body \<Rightarrow> string list" where
  "started_job (JobStarted p) = [jp_jobID p]"
| "started_job _ = []"

definition started_jobs :: "claude_session \<Rightarrow> string set" where
  "started_jobs s = set (concat (map started_job (cl_events s)))"

lemma emit_jobs_live:
  "cl_background (emit_jobs w es s) = filter (\<lambda>i. i \<notin> set (concat (map finished_job es))) (cl_background s)"
proof (induction es arbitrary: s)
  case (Cons e es)
  have "cl_background (emit_job w e s) = filter (\<lambda>i. i \<notin> set (finished_job e)) (cl_background s)"
    by (cases e) (simp_all add: emit_job_def set_link_def)
  with Cons.IH [of "emit_job w e s"] show ?case by (simp add: emit_jobs_def conj_commute)
qed (simp add: emit_jobs_def)

lemma seed_rows: "bt_taskID t \<in> jp_jobID ` set (fst (seed_jobs ts s)) \<or> cl_jobs s (bt_taskID t) \<noteq> None" if "t \<in> set ts"
  using that
proof (induction ts arbitrary: s)
  case (Cons u ts)
  show ?case
  proof (cases "cl_jobs s (bt_taskID u) = None")
    case True
    let ?s1 = "set_link (bt_taskID u) (link_of (bt_taskID u) s) s"
    have rows: "fst (seed_jobs (u # ts) s) = seeded_row u ?s1 # fst (seed_jobs ts ?s1)"
      by (simp add: True Let_def case_prod_beta)
    have first: "jp_jobID (seeded_row u ?s1) = bt_taskID u" by (simp add: seeded_row_def jobRow_def)
    show ?thesis
    proof (cases "bt_taskID t = bt_taskID u")
      case False
      then have "cl_jobs ?s1 (bt_taskID t) = cl_jobs s (bt_taskID t)" "t \<in> set ts"
        using Cons.prems by (auto simp: set_link_def)
      with Cons.IH [of ?s1] rows show ?thesis by auto
    qed (simp only: rows list.set image_insert insert_iff first simp_thms)
  next
    case False
    then show ?thesis using Cons by auto
  qed
qed simp

lemma level_read:
  assumes "\<not> cl_over s" and "\<not> cl_closed s"
  shows "set (cl_background (handleBackgroundTasks w ts s)) = set (map bt_taskID ts)"
    and "i \<in> set (map bt_taskID ts) \<Longrightarrow> cl_jobs s i = None \<Longrightarrow> i \<in> started_jobs (handleBackgroundTasks w ts s)"
proof -
  let ?next = "remdups (map bt_taskID ts)"
  let ?reaped = "map (\<lambda>i. (jobRow i s)\<lparr>jp_status := JobStopped\<rparr>)
    (filter (\<lambda>i. i \<notin> set ?next \<and> \<not> jl_done (link_of i s)) (cl_background s))"
  let ?s0 = "s\<lparr>cl_background := ?next\<rparr>"
  let ?rows = "fst (seed_jobs ts ?s0)" and ?s1 = "snd (seed_jobs ts ?s0)"
  have s': "handleBackgroundTasks w ts s = emit_jobs w (map JobStarted ?rows @ map JobFinished ?reaped) ?s1"
    by (simp add: handleBackgroundTasks_def Let_def case_prod_beta)
  have seed: "minds ?s0 ?s1" "cl_background ?s1 = ?next" using minds_seed [of ?s0 ts] by simp_all
  show "set (cl_background (handleBackgroundTasks w ts s)) = set (map bt_taskID ts)"
    unfolding s' emit_jobs_live seed(2) by (auto simp: jobRow_def comp_def)
  have "\<not> cl_over ?s1" "\<not> cl_closed ?s1" using minds_flags [OF seed(1)] assms by simp_all
  then have ev: "cl_events (handleBackgroundTasks w ts s)
      = cl_events ?s1 @ map JobStarted ?rows @ map JobFinished ?reaped"
    unfolding s' using emit_jobs_tell by blast
  assume "i \<in> set (map bt_taskID ts)" "cl_jobs s i = None"
  then obtain t where "t \<in> set ts" "bt_taskID t = i" by auto
  with seed_rows [of t ts ?s0] \<open>cl_jobs s i = None\<close> have "i \<in> jp_jobID ` set ?rows" by auto
  then show "i \<in> started_jobs (handleBackgroundTasks w ts s)"
    by (auto simp: started_jobs_def ev comp_def)
qed

lemma tracked:
  "cl_jobs (trackSessionID w m s) = cl_jobs s" "cl_over (trackSessionID w m s) = cl_over s"
  "cl_closed (trackSessionID w m s) = cl_closed s"
  by (simp_all add: trackSessionID_def)

lemma level_step:
  assumes "level_of i = [l]" and "\<not> cl_gone s" and "\<not> cl_over s" and "\<not> cl_closed s"
  shows "set (cl_background (claude_step w i s)) = set l"
    and "j \<in> set l \<Longrightarrow> cl_jobs s j = None \<Longrightarrow> j \<in> started_jobs (claude_step w i s)"
proof -
  obtain m t where m: "i = MessageRead m" "km_body m = TaskMessage t" "tk_subtype t = ''background_tasks_changed''"
    and l: "l = map bt_taskID (tk_tasks t)"
    using assms(1) by (cases i) (auto split: claude_body.splits if_splits)
  have s': "claude_step w i s = handleBackgroundTasks w (tk_tasks t) (trackSessionID w m s)"
    using assms(2) by (simp add: m handleSDKMessage_def handle_body_def handleTask_def)
  note read = level_read [where s="trackSessionID w m s" and ts="tk_tasks t" and w=w, unfolded tracked, OF assms(3,4)]
  show "set (cl_background (claude_step w i s)) = set l" by (simp only: s' l read(1))
  show "j \<in> set l \<Longrightarrow> cl_jobs s j = None \<Longrightarrow> j \<in> started_jobs (claude_step w i s)"
    unfolding s' l by (rule read(2))
qed

lemma gone_step:
  assumes "ids_ok w" and "\<not> cl_closed s" and "cl_over s \<longrightarrow> cl_gone s"
  shows "cl_gone (claude_step w i s) \<longleftrightarrow> cl_gone s \<or> i = BridgeGone"
proof (cases i)
  case (MessageRead m)
  show ?thesis
  proof (cases "cl_gone s")
    case False
    with minds_message [OF assms(1) _ assms(2), of m] assms(3) show ?thesis
      by (simp add: MessageRead minds_def same_flags_def)
  qed (simp add: MessageRead)
next
  case (SteerAsked q said images)
  then show ?thesis by (auto simp: claude_Steer_def notify_bridge_def step_tick_def split: option.split)
qed (simp_all add: claude_Prompt_def notify_bridge_def step_tick_def cancel_ask_def Let_def call_bridge_def
      cancel_confirmed_def model_set_def handleFatal_def watchExit_def)

text \<open>Over a run: what a level named is what the latest one names, or has been reported finished.\<close>

lemma levels_run:
  assumes "ids_ok w" and "CloseAsked \<notin> set is" and "jobs_told s0" and "\<not> cl_closed s0" and "\<not> cl_over s0" and "\<not> cl_gone s0"
  shows "job_step s0 (claude_run w is s0) \<and> (cl_gone (claude_run w is s0) \<longleftrightarrow> BridgeGone \<in> set is)
    \<and> (\<forall>l \<in> set (levels is). set l \<subseteq> (set (last (levels is)) \<inter> set (cl_background (claude_run w is s0)))
         \<union> finished_jobs (claude_run w is s0))"
  using assms(2)
proof (induction "is" rule: rev_induct)
  case Nil
  show ?case using assms by (auto simp: claude_run_def job_step_def levels_def)
next
  case (snoc i "is")
  let ?s = "claude_run w is s0" and ?s' = "claude_run w (is @ [i]) s0"
  have s': "?s' = claude_step w i ?s" by (simp add: claude_run_def)
  have ih: "job_step s0 ?s" "cl_gone ?s \<longleftrightarrow> BridgeGone \<in> set is"
    "\<forall>l \<in> set (levels is). set l \<subseteq> (set (last (levels is)) \<inter> set (cl_background ?s)) \<union> finished_jobs ?s"
    using snoc by simp_all
  have good: "jobs_told ?s" "\<not> cl_closed ?s" "cl_over ?s \<longrightarrow> cl_gone ?s" using ih(1) by (simp_all add: job_step_def)
  have step: "job_step ?s ?s'"
    unfolding s' using snoc.prems by (intro job_step_input [OF assms(1) good]) auto
  have kept: "set (cl_background ?s) \<subseteq> set (cl_background ?s') \<union> finished_jobs ?s'" "finished_jobs ?s \<subseteq> finished_jobs ?s'"
    using step by (simp_all add: job_step_def)
  have "\<forall>l \<in> set (levels (is @ [i])). set l \<subseteq> (set (last (levels (is @ [i]))) \<inter> set (cl_background ?s')) \<union> finished_jobs ?s'"
  proof (cases "BridgeGone \<in> set is \<or> level_of i = []")
    case True
    then have same: "levels (is @ [i]) = levels is" by (auto simp: levels_snoc)
    show ?thesis unfolding same using ih(3) kept by blast
  next
    case False
    then obtain l where l: "level_of i = [l]" by (cases i) (auto split: claude_body.splits if_splits)
    with False have more: "levels (is @ [i]) = levels is @ [l]" by (simp add: levels_snoc)
    have "set (cl_background ?s') = set l"
      unfolding s' using False ih(2) good by (intro level_step(1) [OF l]) auto
    with ih(3) kept show ?thesis unfolding more by fastforce
  qed
  moreover have "job_step s0 ?s'" using ih(1) step by (fastforce simp: job_step_def)
  moreover have "cl_gone ?s' \<longleftrightarrow> BridgeGone \<in> set (is @ [i])"
    using gone_step [OF assms(1) good(2,3), of i] ih(2) by (auto simp: s')
  ultimately show ?case by blast
qed

text \<open>
  C5: no background task of an open session is lost sight of.  Every task that any message ever
  listed as live, whatever its type, is still listed by the latest such message or has been reported
  finished, whatever came in between and whichever of its own messages never arrived; and a listed
  task the session had no entry of is reported started by the time that message has been read.
\<close>

theorem claude_jobs_reaped:
  assumes "ids_ok w" and "CloseAsked \<notin> set is"
    and "s0 = claude_start w resume harnessSessionID threadID model effort" and "l \<in> set (levels is)" and "i \<in> set l"
  shows "(i \<in> set (last (levels is)) \<or> i \<in> finished_jobs (claude_run w is s0))
    \<and> (if BridgeGone \<notin> set is \<and> level_of (last is) = [l]
       then cl_jobs (claude_run w (butlast is) s0) i \<noteq> None \<or> i \<in> started_jobs (claude_run w is s0) else True)"
proof -
  have start: "jobs_told s0" "\<not> cl_closed s0" "\<not> cl_over s0" "\<not> cl_gone s0"
    by (simp_all add: assms(3) claude_start_def Let_def jobs_told_def link_of_def)
  have "i \<in> set (last (levels is)) \<or> i \<in> finished_jobs (claude_run w is s0)"
    using levels_run [OF assms(1,2) start] assms(4,5) by blast
  moreover have "cl_jobs (claude_run w (butlast is) s0) i \<noteq> None \<or> i \<in> started_jobs (claude_run w is s0)"
    if "BridgeGone \<notin> set is" and l: "level_of (last is) = [l]"
  proof -
    let ?s = "claude_run w (butlast is) s0"
    have ends: "is = butlast is @ [last is]" using assms(4) by (cases "is = []") (simp_all add: levels_def)
    have "CloseAsked \<notin> set (butlast is)" "BridgeGone \<notin> set (butlast is)" using assms(2) that(1) by (meson in_set_butlastD)+
    with levels_run [OF assms(1) this(1) start] have "\<not> cl_gone ?s" "\<not> cl_closed ?s" "\<not> cl_over ?s"
      by (auto simp: job_step_def)
    with level_step(2) [OF l, of ?s i w] assms(5) have
      "cl_jobs ?s i \<noteq> None \<or> i \<in> started_jobs (claude_step w (last is) ?s)" by blast
    moreover have "claude_run w is s0 = claude_step w (last is) ?s"
      by (subst ends) (simp add: claude_run_def)
    ultimately show ?thesis by simp
  qed
  ultimately show ?thesis by simp
qed

definition sample_live :: "string list \<Rightarrow> claude_input" where
  "sample_live ids = sample_said (TaskMessage
     \<lparr>tk_subtype = ''background_tasks_changed'', tk_taskID = [], tk_toolUseID = [], tk_description = [],
      tk_subagentType = [], tk_taskType = [], tk_workflowName = [], tk_skipTranscript = False, tk_lastToolName = [],
      tk_summary = [], tk_status = [], tk_outputFile = [], tk_usage = None, tk_patchStatus = [],
      tk_patchDescription = [], tk_patchError = [], tk_patchBackground = None,
      tk_tasks = map (\<lambda>i. \<lparr>bt_taskID = i, bt_taskType = (if i = ''b1'' then ''agent'' else ''shell''), bt_description = []\<rparr>) ids\<rparr>)"

text \<open>An agent and a shell are listed, then the shell alone.\<close>

definition sample_levels :: "claude_input list" where
  "sample_levels = [sample_live [''b1'', ''b2''], sample_live [''b2'']]"

theorem claude_jobs_reaped_witness:
  "''b1'' \<in> finished_jobs (claude_run sample_claude sample_levels (claude_start sample_claude False [] ''t1'' [] []))"
proof -
  have ids: "ids_ok sample_claude" by (simp add: ids_ok_def sample_claude_def)
  have open_run: "CloseAsked \<notin> set sample_levels" by (simp add: sample_levels_def sample_live_def sample_said_def)
  have levels: "levels sample_levels = [[''b1'', ''b2''], [''b2'']]" by code_simp
  from claude_jobs_reaped [OF ids open_run refl, of "[''b1'', ''b2'']" "''b1''" False "[]" "''t1''" "[]" "[]"] levels
  show ?thesis by (simp add: levels)
qed

section \<open>A suppressed session\<close>

text \<open>
  The output of a turn the harness starts from a stopped prompt is dropped until that turn's
  result.  A prompt sent before the result has come, if it ever does, is accepted, and all that
  its turn streams or says is dropped with it.
\<close>

theorem suppressed_prompt_silent:
  assumes "cl_suppress s" and "\<not> cl_gone s" and "cl_turnID s = []" and "kw_notify w (cl_tick s) = None"
    and "list_all (\<lambda>m. km_session m = [] \<and> (\<exists>ev a. km_body m = StreamMessage ev \<or> km_body m = AssistantMessage a)) ms"
  shows "fst (claude_Prompt w turn said images s) = None
    \<and> cl_events (claude_run w (PromptAsked turn said images # map MessageRead ms) s) = cl_events s"
proof -
  have quiet: "claude_run w (map MessageRead ms) x = x" if "cl_suppress x" for x
    using assms(5) that
    by (induction ms) (auto simp: claude_run_def handleSDKMessage_def handle_body_def trackSessionID_def)
  have "cl_suppress (snd (claude_Prompt w turn said images s))"
      "cl_events (snd (claude_Prompt w turn said images s)) = cl_events s"
    using assms(1-3) by (simp_all add: claude_Prompt_def notify_bridge_def step_tick_def)
  with quiet show ?thesis
    using assms(2-4) by (simp add: claude_run_def) (simp add: claude_Prompt_def notify_bridge_def)
qed

end
