(* ===== verification/Attachments.thy ===== *)
theory Attachments
  imports Proto Text
begin

text \<open>
  What a prompt carries beside its text, and how a harness without documents is told of them
  (internal/adapter/attachments.go).
\<close>

definition SplitAttachments :: "prompt_image list \<Rightarrow> prompt_image list \<times> prompt_image list" where
  "SplitAttachments all =
     (let image = (\<lambda>a. cut_prefix ''image/'' (im_mediaType a) \<noteq> None)
      in (filter image all, filter (\<lambda>a. \<not> image a) all))"

definition WithDocumentPaths :: "string \<Rightarrow> prompt_image list \<Rightarrow> string" where
  "WithDocumentPaths text documents =
     (case documents of
        [] \<Rightarrow> text
      | _ \<Rightarrow>
          (case documents of
             [d] \<Rightarrow> ''[Attached PDF: '' @ im_path d @ '']''
           | _ \<Rightarrow> ''[Attached PDFs:'' @ concat (map (\<lambda>d. CHR 0x0A # ''- '' @ im_path d) documents) @ '']'')
          @ (if text = [] then [] else [CHR 0x0A, CHR 0x0A] @ text))"

lemma cut_prefix_take: "cut_prefix p s \<noteq> None \<longleftrightarrow> take (length p) s = p"
  by (induction p s rule: cut_prefix.induct) auto

lemma split_by_type:
  "SplitAttachments all = (filter (\<lambda>a. take 6 (im_mediaType a) = ''image/'') all,
     filter (\<lambda>a. take 6 (im_mediaType a) \<noteq> ''image/'') all)"
proof -
  have "length ''image/'' = 6" by simp
  then show ?thesis by (simp only: SplitAttachments_def Let_def cut_prefix_take not_not)
qed

text \<open>Every document's path is named, in order, and the human's text ends what is sent.\<close>

lemma documents_in_order:
  "\<exists>gaps sep. length gaps = length documents
    \<and> WithDocumentPaths text documents = concat (map2 (\<lambda>gap d. gap @ im_path d) gaps documents) @ sep @ text"
proof (cases documents rule: list.exhaust)
  case Nil
  then show ?thesis by (simp add: WithDocumentPaths_def)
next
  case (Cons d ds)
  let ?more = "replicate (length ds) (CHR 0x0A # ''- '')"
  let ?sep = "'']'' @ (if text = [] then [] else [CHR 0x0A, CHR 0x0A])"
  have listing: "concat (map (\<lambda>d. CHR 0x0A # ''- '' @ im_path d) es)
    = concat (map2 (\<lambda>gap d. gap @ im_path d) (replicate (length es) (CHR 0x0A # ''- '')) es)" for es
    by (induction es) simp_all
  show ?thesis
  proof (cases ds)
    case Nil
    then have "WithDocumentPaths text documents
        = concat (map2 (\<lambda>gap d. gap @ im_path d) [''[Attached PDF: ''] documents) @ ?sep @ text"
      using Cons by (simp add: WithDocumentPaths_def)
    moreover have "length [''[Attached PDF: ''] = length documents" using Cons Nil by simp
    ultimately show ?thesis by blast
  next
    case many: (Cons e es)
    then have "WithDocumentPaths text documents = concat (map2 (\<lambda>gap d. gap @ im_path d)
        ((''[Attached PDFs:'' @ CHR 0x0A # ''- '') # ?more) documents) @ ?sep @ text"
      using Cons listing [of ds] by (simp add: WithDocumentPaths_def)
    moreover have "length ((''[Attached PDFs:'' @ CHR 0x0A # ''- '') # ?more) = length documents" using Cons by simp
    ultimately show ?thesis by blast
  qed
qed

lemma documents_empty:
  "WithDocumentPaths text documents = [] \<longleftrightarrow> text = [] \<and> documents = []"
proof (cases documents)
  case (Cons d ds)
  then show ?thesis by (cases ds) (simp_all add: WithDocumentPaths_def)
qed (simp add: WithDocumentPaths_def)

end
