(* ===== verification/Codex.thy ===== *)
theory Codex
  imports TurnSource Attachments Paths ActorLoop
begin

text \<open>
  The Codex session (internal/adapter/codexapp/codex.go, and the composer actions of composer.go):
  notifications of the app-server become events, turn by turn.  A notification is given by its
  fields as \<open>encoding/json\<close> decodes them.  The read loop, the actor's calls and the exit watcher run
  between each other's critical sections; each is one step, and a call is two, the answer being
  the second.
\<close>

section \<open>Permission modes\<close>

datatype sandbox_policy =
    ReadOnlySandbox
  | WorkspaceWrite "string list"
  | DangerFullAccess

record mode_settings =
  ms_approvalPolicy :: string
  ms_sandbox :: string
  ms_sandboxPolicy :: sandbox_policy
  ms_reviewer :: string

definition settingsFor :: "string \<Rightarrow> string list \<Rightarrow> mode_settings option" where
  "settingsFor mode writableRoots =
     (let policy = (\<lambda>a b p r. Some \<lparr>ms_approvalPolicy = a, ms_sandbox = b, ms_sandboxPolicy = p, ms_reviewer = r\<rparr>);
          workspaceWrite = WorkspaceWrite writableRoots
      in if mode = ''untrusted'' then policy ''untrusted'' ''read-only'' ReadOnlySandbox ''user''
         else if mode = ''read-only'' then policy ''on-request'' ''read-only'' ReadOnlySandbox ''user''
         else if mode \<in> {[], ''on-request''} then policy ''on-request'' ''workspace-write'' workspaceWrite ''user''
         else if mode = ''auto-review'' then policy ''on-request'' ''workspace-write'' workspaceWrite ''auto_review''
         else if mode = ''sandboxed-auto'' then policy ''never'' ''workspace-write'' workspaceWrite ''user''
         else if mode = ''full-access'' then policy ''never'' ''danger-full-access'' DangerFullAccess ''user''
         else None)"

section \<open>Notifications\<close>

record codex_change =
  ch_path :: string
  ch_diff :: string

record codex_item =
  ci_type :: string
  ci_id :: string
  ci_status :: string
  ci_clientID :: string
  ci_text :: string
  ci_command :: string
  ci_cwd :: string
  ci_output :: string
  ci_exitCode :: "int option"
  ci_changes :: "codex_change list"
  ci_server :: string
  ci_tool :: string
  ci_result :: string
  ci_query :: string

record plan_step =
  pl_step :: string
  pl_text :: string
  pl_status :: string

record token_usage =
  ku_input :: int
  ku_output :: int
  ku_cached :: int
  ku_cacheWrite :: int
  ku_last :: int
  ku_window :: int

text \<open>\<open>ItemNote\<close> says whether the item is completed; \<open>None\<close> is an item that could not be decoded.\<close>

datatype codex_body =
    ThreadCompacted
  | ItemNote bool "codex_item option"
  | MessageDelta string string
  | ReasoningDelta string string
  | PlanNote "plan_step list" "plan_step list"
  | TokenUsage token_usage
  | TurnOver string string "string option"
  | OtherNote

record codex_note =
  no_threadID :: string
  no_turnID :: string
  no_body :: codex_body

section \<open>The session\<close>

datatype input_item =
    LocalImage string
  | InputText string

text \<open>What is asked of the app-server.\<close>

datatype review_target =
    UncommittedChanges
  | CustomReview string

datatype codex_call =
    TurnStart "input_item list" string string
  | TurnSteer string "input_item list"
  | TurnInterrupt string
  | SettingsUpdate mode_settings
  | CompactStart
  | ReviewStart review_target

text \<open>
  \<open>cx_gone\<close> says that the app-server's output has ended, \<open>cx_over\<close> that the exit watcher has closed
  the events, \<open>cx_closed\<close> that \<open>Close\<close> was called.
\<close>

record codex_session =
  cx_threadID :: string
  cx_extraDirs :: "string list"
  cx_effort :: string
  cx_model :: string
  cx_turnID :: string
  cx_serverTurnID :: string
  cx_interrupting :: bool
  cx_streamed :: "string list"
  cx_subagents :: "string \<rightharpoonup> string"
  cx_manualCompact :: bool
  cx_lastCompaction :: string
  cx_events :: "event_body list"
  cx_sent :: "codex_call list"
  cx_gone :: bool
  cx_over :: bool
  cx_closed :: bool
  cx_tick :: nat

text \<open>Fresh ids, whether a closed session's event still goes through, and the \<open>float64\<close> percentage.\<close>

record codex_world =
  xw_uuid :: "nat \<Rightarrow> string"
  xw_keep :: "nat \<Rightarrow> bool"
  xw_percent :: "int \<Rightarrow> int \<Rightarrow> rat"

definition codex_tick :: "codex_session \<Rightarrow> codex_session" where
  "codex_tick s = s\<lparr>cx_tick := Suc (cx_tick s)\<rparr>"

definition codex_emit :: "codex_world \<Rightarrow> event_body \<Rightarrow> codex_session \<Rightarrow> codex_session" where
  "codex_emit w e s =
     (if cx_over s then s
      else if cx_closed s \<and> \<not> xw_keep w (cx_tick s) then codex_tick s
      else (codex_tick s)\<lparr>cx_events := cx_events s @ [e]\<rparr>)"

definition codex_ask :: "codex_call \<Rightarrow> codex_session \<Rightarrow> codex_session" where
  "codex_ask c s = s\<lparr>cx_sent := cx_sent s @ [c]\<rparr>"

text \<open>The end of \<open>CreateSession\<close>: the thread the app-server answered with, and its model.\<close>

definition codex_start :: "codex_world \<Rightarrow> string \<Rightarrow> string \<Rightarrow> string \<Rightarrow> string list \<Rightarrow> codex_session" where
  "codex_start w threadID model effort extraDirs =
     codex_emit w (ThreadConfigChanged \<lparr>cc_replaceSettings = False, cc_model = model, cc_mode = [],
         cc_effort = None, cc_title = [], cc_harnessSessionID = threadID\<rparr>)
       \<lparr>cx_threadID = threadID, cx_extraDirs = extraDirs, cx_effort = effort, cx_model = model, cx_turnID = [],
        cx_serverTurnID = [], cx_interrupting = False, cx_streamed = [], cx_subagents = Map.empty,
        cx_manualCompact = False, cx_lastCompaction = [], cx_events = [], cx_sent = [], cx_gone = False,
        cx_over = False, cx_closed = False, cx_tick = 0\<rparr>"

section \<open>What the actor asks for\<close>

text \<open>Why a request is refused before anything is asked of the app-server.\<close>

datatype codex_refusal =
    ResumedWork
  | NoQueueID
  | NothingToSteer
  | UnknownMode string
  | ActionTakesNoArguments string
  | UnknownAction string

text \<open>Images lead; a prompt of images alone has no empty text item.\<close>

definition promptInput :: "string \<Rightarrow> prompt_image list \<Rightarrow> input_item list" where
  "promptInput text attachments =
     (case SplitAttachments attachments of
        (images, documents) \<Rightarrow>
          let text = WithDocumentPaths text documents; ins = map (\<lambda>i. LocalImage (im_path i)) images
          in if text \<noteq> [] \<or> ins = [] then ins @ [InputText text] else ins)"

text \<open>\<open>Prompt\<close> up to its call, and once \<open>turn/start\<close> is answered with an error or with the turn's id.\<close>

definition codex_Prompt ::
  "string \<Rightarrow> string \<Rightarrow> prompt_image list \<Rightarrow> codex_session \<Rightarrow> codex_refusal option \<times> codex_session" where
  "codex_Prompt turn text images s =
     (if cx_turnID s \<noteq> [] \<and> cx_turnID s \<noteq> turn then (Some ResumedWork, s)
      else (None, codex_ask (TurnStart (promptInput text images) (cx_effort s) (cx_model s)) (s\<lparr>cx_turnID := turn\<rparr>)))"

definition prompt_answered :: "string \<Rightarrow> string + string \<Rightarrow> codex_session \<Rightarrow> codex_session" where
  "prompt_answered turn r s =
     (if cx_turnID s \<noteq> turn then s
      else case r of Inl e \<Rightarrow> s\<lparr>cx_turnID := []\<rparr> | Inr server \<Rightarrow> s\<lparr>cx_serverTurnID := server\<rparr>)"

definition codex_Steer ::
  "string \<Rightarrow> string \<Rightarrow> prompt_image list \<Rightarrow> codex_session \<Rightarrow> codex_refusal option \<times> codex_session" where
  "codex_Steer queueID text images s =
     (if queueID = [] then (Some NoQueueID, s)
      else if cx_turnID s = [] then (Some NothingToSteer, s)
      else (None, codex_ask (TurnSteer queueID (promptInput text images)) s))"

text \<open>\<open>Cancel\<close>: one interrupt of a turn is in flight at a time; a refused one may be sent again.\<close>

definition codex_cancel :: "codex_session \<Rightarrow> codex_session" where
  "codex_cancel s =
     (if cx_serverTurnID s = [] \<or> cx_interrupting s then s
      else codex_ask (TurnInterrupt (cx_serverTurnID s)) (s\<lparr>cx_interrupting := True\<rparr>))"

definition cancel_answered :: "string \<Rightarrow> string option \<Rightarrow> codex_session \<Rightarrow> codex_session" where
  "cancel_answered server e s =
     (if e \<noteq> None \<and> cx_serverTurnID s = server then s\<lparr>cx_interrupting := False\<rparr> else s)"

definition codex_SetMode :: "string \<Rightarrow> codex_session \<Rightarrow> codex_refusal option \<times> codex_session" where
  "codex_SetMode mode s =
     (case settingsFor mode (cx_extraDirs s) of
        None \<Rightarrow> (Some (UnknownMode mode), s)
      | Some m \<Rightarrow> (None, codex_ask (SettingsUpdate m) s))"

section \<open>Composer actions\<close>

definition codexComposerActionRequest :: "string \<Rightarrow> string \<Rightarrow> codex_refusal + codex_call" where
  "codexComposerActionRequest action args =
     (if action = ''compact'' then
        (if trim_space args \<noteq> [] then Inl (ActionTakesNoArguments action)
         else Inr CompactStart)
      else if action = ''review'' then
        Inr (ReviewStart (if trim_space args = [] then UncommittedChanges else CustomReview (trim_space args)))
      else Inl (UnknownAction action))"

definition RunComposerAction ::
  "string \<Rightarrow> string \<Rightarrow> string \<Rightarrow> codex_session \<Rightarrow> codex_refusal option \<times> codex_session" where
  "RunComposerAction turn action args s =
     (case codexComposerActionRequest action args of
        Inl e \<Rightarrow> (Some e, s)
      | Inr c \<Rightarrow>
          if cx_turnID s \<noteq> [] \<and> cx_turnID s \<noteq> turn then (Some ResumedWork, s)
          else (None, codex_ask c (s\<lparr>cx_turnID := turn,
                  cx_manualCompact := (action = ''compact'' \<or> cx_manualCompact s)\<rparr>)))"

definition composer_answered :: "string \<Rightarrow> string \<Rightarrow> string option \<Rightarrow> codex_session \<Rightarrow> codex_session" where
  "composer_answered turn action e s =
     (if e = None then s
      else s\<lparr>cx_manualCompact := (action \<noteq> ''compact'' \<and> cx_manualCompact s),
             cx_turnID := (if cx_turnID s = turn then [] else cx_turnID s)\<rparr>)"

section \<open>Turns\<close>

definition codex_finished :: "string \<Rightarrow> string \<Rightarrow> string \<Rightarrow> event_body" where
  "codex_finished turn stop err = TurnFinished \<lparr>tf_turnID = turn, tf_stopReason = stop, tf_error = err, tf_failure = []\<rparr>"

definition codex_watchExit :: "codex_world \<Rightarrow> codex_session \<Rightarrow> codex_session" where
  "codex_watchExit w s =
     (let s1 = s\<lparr>cx_turnID := [], cx_serverTurnID := [], cx_interrupting := False\<rparr>
      in (if cx_turnID s = [] then s1
          else codex_emit w (codex_finished (cx_turnID s) StopError ''harness exited'') s1)\<lparr>cx_over := True\<rparr>)"

definition codex_ensureTurn :: "codex_world \<Rightarrow> string \<Rightarrow> codex_session \<Rightarrow> codex_session" where
  "codex_ensureTurn w server s =
     (if cx_turnID s \<noteq> [] then
        (if cx_serverTurnID s = [] \<and> server \<noteq> [] then s\<lparr>cx_serverTurnID := server\<rparr> else s)
      else
        let i = xw_uuid w (cx_tick s)
        in codex_emit w (TurnStarted \<lparr>ts_turnID = i, ts_prompt = [], ts_images = [], ts_recovery = None, ts_queueID = []\<rparr>)
             ((codex_tick s)\<lparr>cx_turnID := i, cx_serverTurnID := server\<rparr>))"

definition codex_firstLine :: "string \<Rightarrow> string" where
  "codex_firstLine s =
     (let t = trim_space s
      in case first_index (CHR 0x0A) t of None \<Rightarrow> t | Some i \<Rightarrow> take i t @ '' '' @ ellipsis)"

section \<open>Items\<close>

definition agent_chunk :: "string \<Rightarrow> string \<Rightarrow> string \<Rightarrow> string \<Rightarrow> event_body" where
  "agent_chunk turn kind blockID delta =
     MessageChunk \<lparr>mc_turnID = turn, mc_role = ''agent'', mc_kind = kind, mc_blockID = blockID, mc_delta = delta,
       mc_parentToolCallID = []\<rparr>"

definition emitMessageDelta :: "codex_world \<Rightarrow> string \<Rightarrow> string \<Rightarrow> string \<Rightarrow> codex_session \<Rightarrow> codex_session" where
  "emitMessageDelta w turn item delta s =
     codex_emit w (agent_chunk turn ''text'' item delta) (s\<lparr>cx_streamed := List.insert item (cx_streamed s)\<rparr>)"

definition emitReasoningDelta :: "codex_world \<Rightarrow> string \<Rightarrow> string \<Rightarrow> string \<Rightarrow> codex_session \<Rightarrow> codex_session" where
  "emitReasoningDelta w turn item delta s =
     codex_emit w (agent_chunk turn ''thought'' (item @ '':reasoning'') delta) s"

definition emitContextCompacted :: "codex_world \<Rightarrow> string \<Rightarrow> codex_session \<Rightarrow> codex_session" where
  "emitContextCompacted w turnID s =
     (if turnID \<noteq> [] \<and> turnID = cx_lastCompaction s then s
      else codex_emit w (ContextCompacted \<lparr>cp_trigger = (if cx_manualCompact s then ''manual'' else ''auto''),
               cp_preTokens = 0, cp_postTokens = 0\<rparr>)
             (s\<lparr>cx_manualCompact := False, cx_lastCompaction := turnID\<rparr>))"

definition tool_started :: "string \<Rightarrow> string \<Rightarrow> string \<Rightarrow> string \<Rightarrow> raw_message \<Rightarrow> event_body" where
  "tool_started turn i kind title input =
     ToolCallStarted \<lparr>cs_turnID = turn, cs_toolCallID = i, cs_kind = kind, cs_title = title,
       cs_status = StatusInProgress, cs_rawInput = input, cs_parentToolCallID = []\<rparr>"

definition tool_updated :: "string \<Rightarrow> string \<Rightarrow> string \<Rightarrow> tool_content list \<Rightarrow> event_body" where
  "tool_updated i status title content =
     ToolCallUpdated \<lparr>cu_toolCallID = i, cu_status = status, cu_title = title, cu_content = content,
       cu_rawInput = None, cu_parentToolCallID = []\<rparr>"

definition text_content :: "string \<Rightarrow> tool_content" where
  "text_content t = \<lparr>tn_type = ''text'', tn_text = t, tn_path = [], tn_old = [], tn_new = []\<rparr>"

definition diff_content :: "codex_change \<Rightarrow> tool_content" where
  "diff_content c = \<lparr>tn_type = ''diff'', tn_text = ch_diff c, tn_path = ch_path c, tn_old = [], tn_new = []\<rparr>"

text \<open>What the start and the completion of a tool's item say; an item of no tool says nothing here.\<close>

definition item_started :: "string \<Rightarrow> codex_item \<Rightarrow> event_body option" where
  "item_started turn it =
     (if ci_type it = ''commandExecution'' then
        Some (tool_started turn (ci_id it) KindExecute (codex_firstLine (ci_command it))
          (Some (JObj [(''command'', JStr (ci_command it)), (''cwd'', JStr (ci_cwd it))])))
      else if ci_type it = ''fileChange'' then
        Some (tool_started turn (ci_id it) KindEdit (''Edit '' @ join_text '', '' (map ch_path (ci_changes it))) None)
      else if ci_type it = ''mcpToolCall'' then
        Some (tool_started turn (ci_id it) KindOther (ci_server it @ ''/'' @ ci_tool it) None)
      else if ci_type it = ''webSearch'' then
        Some (tool_started turn (ci_id it) KindFetch (''Search: '' @ ci_query it) None)
      else None)"

definition item_completed :: "codex_item \<Rightarrow> event_body option" where
  "item_completed it =
     (if ci_type it = ''commandExecution'' then
        Some (tool_updated (ci_id it)
          (case ci_exitCode it of None \<Rightarrow> StatusCompleted | Some c \<Rightarrow> if c \<noteq> 0 then StatusFailed else StatusCompleted) []
          (if ci_output it = [] then [] else [text_content (ci_output it)]))
      else if ci_type it = ''fileChange'' then
        Some (tool_updated (ci_id it)
          (if ci_status it \<in> {''failed'', ''declined''} then StatusFailed else StatusCompleted)
          (''Edit '' @ join_text '', '' (map ch_path (ci_changes it))) (map diff_content (ci_changes it)))
      else if ci_type it = ''mcpToolCall'' then
        Some (tool_updated (ci_id it) StatusCompleted [] [text_content (ci_result it)])
      else if ci_type it = ''webSearch'' then Some (tool_updated (ci_id it) StatusCompleted [] [])
      else None)"

text \<open>
  \<open>handleItem\<close>: \<open>turn\<close> is the open turn, empty where there is none; \<open>server\<close> is the turn id the
  notification carries, which labels what arrives after its turn.
\<close>

definition codex_handleItem ::
  "codex_world \<Rightarrow> bool \<Rightarrow> string \<Rightarrow> string \<Rightarrow> codex_item \<Rightarrow> codex_session \<Rightarrow> codex_session" where
  "codex_handleItem w completed turn server it s =
     (let label = (if turn = [] then server else turn)
      in if ci_type it = ''contextCompaction'' then
           (if completed then emitContextCompacted w server s else s)
         else if ci_type it = ''userMessage'' then
           (if completed \<and> turn \<noteq> [] \<and> ci_clientID it \<noteq> [] then
              codex_emit w (PromptInjected \<lparr>pi_queueID = ci_clientID it, pi_turnID = label\<rparr>) s
            else s)
         else if ci_type it = ''agentMessage'' then
           (if \<not> completed \<or> ci_text it = [] \<or> turn = [] \<or> List.member (cx_streamed s) (ci_id it) then s
            else codex_emit w (agent_chunk label ''text'' (ci_id it) (ci_text it)) s)
         else case (if completed then item_completed it else item_started label it) of
                None \<Rightarrow> s | Some e \<Rightarrow> codex_emit w e s)"

definition handlePlan :: "codex_world \<Rightarrow> plan_step list \<Rightarrow> plan_step list \<Rightarrow> codex_session \<Rightarrow> codex_session" where
  "handlePlan w plan itemPlan s =
     (let steps = (if plan = [] then itemPlan else plan);
          entries = map (\<lambda>p. \<lparr>pe_content = (if pl_step p = [] then pl_text p else pl_step p),
                              pe_status = pl_status p, pe_priority = []\<rparr>) steps
      in if entries = [] then s else codex_emit w (PlanUpdated entries) s)"

definition codex_usage :: "codex_world \<Rightarrow> token_usage \<Rightarrow> usage_updated_payload" where
  "codex_usage w u =
     zero_usage\<lparr>us_input := ku_input u, us_output := ku_output u, us_cacheRead := ku_cached u,
       us_cacheWrite := ku_cacheWrite u, us_contextUsed := ku_last u, us_contextWindow := ku_window u,
       us_contextPct := (if ku_last u > 0 \<and> ku_window u > 0 then xw_percent w (ku_last u) (ku_window u) else 0)\<rparr>"

definition turn_stop :: "string \<Rightarrow> string option \<Rightarrow> string" where
  "turn_stop status err =
     (if err \<noteq> None then StopError
      else if status \<in> {''cancelled'', ''interrupted''} then StopCancelled
      else if status = ''failed'' then StopError else StopEndTurn)"

text \<open>A completion that names another turn than the one known to run is stale.\<close>

definition turn_over :: "codex_world \<Rightarrow> string \<Rightarrow> string \<Rightarrow> string option \<Rightarrow> codex_session \<Rightarrow> codex_session" where
  "turn_over w server status err s =
     (if server \<noteq> [] \<and> cx_serverTurnID s \<noteq> [] \<and> server \<noteq> cx_serverTurnID s then s
      else
        let s1 = s\<lparr>cx_turnID := [], cx_serverTurnID := [], cx_interrupting := False\<rparr>
        in if cx_turnID s = [] then s1
           else codex_emit w (codex_finished (cx_turnID s) (turn_stop status err) (case err of None \<Rightarrow> [] | Some m \<Rightarrow> m)) s1)"

section \<open>Subagents\<close>

definition foreignThread :: "codex_note \<Rightarrow> codex_session \<Rightarrow> string" where
  "foreignThread n s =
     (if cx_threadID s = [] \<or> no_threadID n = cx_threadID s then [] else no_threadID n)"

definition spawningTurn :: "string \<Rightarrow> codex_session \<Rightarrow> string \<times> codex_session" where
  "spawningTurn thread s =
     (case cx_subagents s thread of
        Some owner \<Rightarrow> (if owner = cx_turnID s then cx_turnID s else [], s)
      | None \<Rightarrow>
          if cx_turnID s = [] then ([], s)
          else (cx_turnID s, s\<lparr>cx_subagents := (cx_subagents s)(thread \<mapsto> cx_turnID s)\<rparr>))"

definition handleSubagentNotification :: "codex_world \<Rightarrow> string \<Rightarrow> codex_note \<Rightarrow> codex_session \<Rightarrow> codex_session" where
  "handleSubagentNotification w thread n s =
     (case spawningTurn thread s of
        (turn, s1) \<Rightarrow>
          if turn = [] then s1
          else case no_body n of
                 ItemNote completed (Some it) \<Rightarrow>
                   if ci_type it = ''contextCompaction'' then s1
                   else codex_handleItem w completed turn (no_turnID n) it s1
               | MessageDelta item delta \<Rightarrow> emitMessageDelta w turn item delta s1
               | ReasoningDelta item delta \<Rightarrow> emitReasoningDelta w turn item delta s1
               | _ \<Rightarrow> s1)"

section \<open>Dispatch\<close>

text \<open>Work that starts while no turn is open is a turn of the harness's own.\<close>

definition working :: "codex_world \<Rightarrow> string \<Rightarrow> codex_session \<Rightarrow> codex_session" where
  "working w server s = (if cx_turnID s = [] then codex_ensureTurn w server s else s)"

definition own_notification :: "codex_world \<Rightarrow> codex_note \<Rightarrow> codex_session \<Rightarrow> codex_session" where
  "own_notification w n s =
     (case no_body n of
        ThreadCompacted \<Rightarrow> emitContextCompacted w (no_turnID n) s
      | ItemNote completed item \<Rightarrow>
          let s1 = (if completed then s else working w (no_turnID n) s)
          in (case item of None \<Rightarrow> s1 | Some it \<Rightarrow> codex_handleItem w completed (cx_turnID s1) (no_turnID n) it s1)
      | MessageDelta item delta \<Rightarrow>
          let s1 = working w (no_turnID n) s in emitMessageDelta w (cx_turnID s1) item delta s1
      | ReasoningDelta item delta \<Rightarrow>
          let s1 = working w (no_turnID n) s in emitReasoningDelta w (cx_turnID s1) item delta s1
      | PlanNote plan itemPlan \<Rightarrow> handlePlan w plan itemPlan s
      | TokenUsage u \<Rightarrow> codex_emit w (UsageUpdated (codex_usage w u)) s
      | TurnOver server status err \<Rightarrow> turn_over w server status err s
      | OtherNote \<Rightarrow> s)"

definition codex_notification :: "codex_world \<Rightarrow> codex_note \<Rightarrow> codex_session \<Rightarrow> codex_session" where
  "codex_notification w n s =
     (if foreignThread n s \<noteq> [] then handleSubagentNotification w (foreignThread n s) n s
      else own_notification w n s)"

section \<open>Questions of the app-server\<close>

record approval_request =
  aq_method :: string
  aq_itemID :: string
  aq_command :: string
  aq_reason :: string
  aq_grantRoot :: string
  aq_params :: raw_message

text \<open>The tool's name and the title an approval is shown with; \<open>None\<close> is a method of another kind.\<close>

definition approval_title :: "approval_request \<Rightarrow> (string \<times> string) option" where
  "approval_title q =
     (if aq_method q \<in> {''item/commandExecution/requestApproval'', ''execCommandApproval''} then
        Some (''shell'', codex_firstLine (aq_command q))
      else if aq_method q \<in> {''item/fileChange/requestApproval'', ''applyPatchApproval''} then
        Some (''apply_patch'', if aq_grantRoot q = [] then ''Apply file changes''
                               else ''Apply file changes outside '' @ aq_grantRoot q)
      else if aq_method q = ''item/permissions/requestApproval'' then
        Some (''permissions'', if aq_reason q = [] then ''Grant additional permissions'' else aq_reason q)
      else None)"

definition ask_permission :: "string \<Rightarrow> string \<Rightarrow> string \<Rightarrow> raw_message \<Rightarrow> codex_session \<Rightarrow> permission_request" where
  "ask_permission itemID tool title raw s =
     \<lparr>rq_turnID = cx_turnID s, rq_toolCallID = itemID, rq_toolName = tool, rq_title = title, rq_rawInput = raw,
      rq_options =
        [\<lparr>po_optionID = ''accept'', po_name = ''Allow once'', po_kind = OutcomeAllowOnce\<rparr>,
         \<lparr>po_optionID = ''acceptForSession'', po_name = ''Allow for session'', po_kind = OutcomeAllowAlways\<rparr>,
         \<lparr>po_optionID = ''decline'', po_name = ''Reject'', po_kind = OutcomeRejectOnce\<rparr>]\<rparr>"

definition codex_decision :: "string + permission_outcome \<Rightarrow> string" where
  "codex_decision r =
     (case r of
        Inl e \<Rightarrow> ''decline''
      | Inr u \<Rightarrow>
          if ou_outcome u = OutcomeAllowOnce then ''accept''
          else if ou_outcome u = OutcomeAllowAlways then ''acceptForSession''
          else if ou_outcome u = OutcomeCancelled then ''cancel''
          else ''decline'')"

text \<open>\<open>sprint\<close> is \<open>fmt.Sprint\<close> of a decoded value that is no text.\<close>

definition sprint_value :: "(json \<Rightarrow> string) \<Rightarrow> json \<Rightarrow> string" where
  "sprint_value sprint j = (case j of JStr t \<Rightarrow> t | _ \<Rightarrow> sprint j)"

definition stringValues :: "(json \<Rightarrow> string) \<Rightarrow> json option \<Rightarrow> string list" where
  "stringValues sprint v =
     (case v of
        None \<Rightarrow> []
      | Some JNull \<Rightarrow> []
      | Some (JArr es) \<Rightarrow> map (sprint_value sprint) es
      | Some j \<Rightarrow> [sprint_value sprint j])"

text \<open>The last member of a name counts.\<close>

definition answer_members :: "raw_message \<Rightarrow> string \<Rightarrow> json option" where
  "answer_members r k = (case r of Some (JObj ms) \<Rightarrow> map_of (rev ms) k | _ \<Rightarrow> None)"

definition requestUserInput ::
  "(json \<Rightarrow> string) \<Rightarrow> string list \<Rightarrow> string + elicitation_result \<Rightarrow> (string \<rightharpoonup> string list)" where
  "requestUserInput sprint questions r =
     (case r of
        Inl e \<Rightarrow> Map.empty
      | Inr u \<Rightarrow>
          if er_action u \<noteq> ''accept'' then Map.empty
          else (\<lambda>q. if q \<in> set questions then Some (stringValues sprint (answer_members (er_value u) q)) else None))"

definition requestMCPElicitation :: "string + elicitation_result \<Rightarrow> string \<times> raw_message" where
  "requestMCPElicitation r =
     (case r of
        Inl e \<Rightarrow> (''cancel'', None)
      | Inr u \<Rightarrow>
          let action = (if er_action u \<in> {''accept'', ''decline''} then er_action u else ''cancel'')
          in (action, if action = ''accept'' then er_value u else None))"

section \<open>Steps\<close>

datatype codex_input =
    CodexPrompt string string "prompt_image list"
  | CodexPromptAnswer string "string + string"
  | CodexSteer string string "prompt_image list"
  | CodexCancel
  | CodexCancelAnswer string "string option"
  | CodexMode string
  | CodexModel string
  | CodexEffort string
  | CodexAction string string string
  | CodexActionAnswer string string "string option"
  | CodexClose
  | CodexNote codex_note
  | CodexGone
  | CodexExit

fun codex_step :: "codex_world \<Rightarrow> codex_input \<Rightarrow> codex_session \<Rightarrow> codex_session" where
  "codex_step w (CodexPrompt turn text images) s = snd (codex_Prompt turn text images s)"
| "codex_step w (CodexPromptAnswer turn r) s = prompt_answered turn r s"
| "codex_step w (CodexSteer q text images) s = snd (codex_Steer q text images s)"
| "codex_step w CodexCancel s = codex_cancel s"
| "codex_step w (CodexCancelAnswer server e) s = cancel_answered server e s"
| "codex_step w (CodexMode mode) s = snd (codex_SetMode mode s)"
| "codex_step w (CodexModel model) s = s\<lparr>cx_model := model\<rparr>"
| "codex_step w (CodexEffort effort) s = s\<lparr>cx_effort := effort\<rparr>"
| "codex_step w (CodexAction turn action args) s = snd (RunComposerAction turn action args s)"
| "codex_step w (CodexActionAnswer turn action e) s = composer_answered turn action e s"
| "codex_step w CodexClose s = s\<lparr>cx_closed := True\<rparr>"
| "codex_step w (CodexNote n) s = (if cx_gone s then s else codex_notification w n s)"
| "codex_step w CodexGone s = s\<lparr>cx_gone := True\<rparr>"
| "codex_step w CodexExit s = (if cx_gone s \<and> \<not> cx_over s then codex_watchExit w s else s)"

end
