(* ===== verification/CodexProps.thy ===== *)
theory CodexProps
  imports Codex
begin

text \<open>
  What the Codex session keeps: it is a source of turns (\<open>turn_source\<close>), a subagent's output stays
  in the turn that spawned it, every attachment reaches the harness, and how the stop button fares
  with turns that composer actions open.
\<close>

section \<open>What handlers say\<close>

text \<open>
  What leaves the turn and the flags alone and says nothing but of the turn \<open>t\<close>, or of none; where
  \<open>t\<close> is empty, of none.
\<close>

definition plain_event :: "string \<Rightarrow> event_body \<Rightarrow> bool" where
  "plain_event t e \<longleftrightarrow> finished_turn e = [] \<and> (turn_of e = None \<or> turn_of e = Some t \<and> t \<noteq> [])"

definition says :: "string \<Rightarrow> codex_session \<Rightarrow> codex_session \<Rightarrow> bool" where
  "says t s s' \<longleftrightarrow> cx_turnID s' = cx_turnID s \<and> cx_serverTurnID s' = cx_serverTurnID s \<and> cx_threadID s' = cx_threadID s
     \<and> cx_gone s' = cx_gone s \<and> cx_over s' = cx_over s \<and> cx_closed s' = cx_closed s \<and> cx_sent s' = cx_sent s
     \<and> (\<exists>es. cx_events s' = cx_events s @ es \<and> list_all (plain_event t) es)"

named_theorems says_intro \<open>handlers that speak of one turn\<close>

lemma says_refl [says_intro]: "says t s s"
  by (simp add: says_def)

lemma says_emit [says_intro]: "says t a s \<Longrightarrow> plain_event t e \<Longrightarrow> says t a (codex_emit w e s)"
  by (auto simp: says_def codex_emit_def codex_tick_def)

lemma says_fields [says_intro]:
  "says t a s \<Longrightarrow> says t a (s\<lparr>cx_streamed := x1\<rparr>)"
  "says t a s \<Longrightarrow> says t a (s\<lparr>cx_subagents := x2\<rparr>)"
  "says t a s \<Longrightarrow> says t a (s\<lparr>cx_manualCompact := x3, cx_lastCompaction := x4\<rparr>)"
  by (simp_all add: says_def)

lemma plain_simps [simp]:
  "plain_event t (ContextCompacted c)" "plain_event t (UsageUpdated u)" "plain_event t (PlanUpdated es)"
  "plain_event t (tool_updated i status title content)"
  "plain_event t (agent_chunk turn kind b d) \<longleftrightarrow> turn = t \<and> t \<noteq> []"
  "plain_event t (tool_started turn i kind title raw) \<longleftrightarrow> turn = t \<and> t \<noteq> []"
  "plain_event t (PromptInjected p) \<longleftrightarrow> pi_turnID p = t \<and> t \<noteq> []"
  by (auto simp: plain_event_def tool_updated_def agent_chunk_def tool_started_def)

lemma emit_turns [simp]:
  "cx_turnID (codex_emit w e s) = cx_turnID s" "cx_serverTurnID (codex_emit w e s) = cx_serverTurnID s"
  "cx_over (codex_emit w e s) = cx_over s" "cx_gone (codex_emit w e s) = cx_gone s"
  "cx_closed (codex_emit w e s) = cx_closed s" "cx_subagents (codex_emit w e s) = cx_subagents s"
  "cx_threadID (codex_emit w e s) = cx_threadID s" "cx_sent (codex_emit w e s) = cx_sent s"
  by (simp_all add: codex_emit_def codex_tick_def)

lemma emit_open_codex [simp]:
  "\<not> cx_over s \<Longrightarrow> \<not> cx_closed s \<Longrightarrow> cx_events (codex_emit w e s) = cx_events s @ [e]"
  by (simp add: codex_emit_def codex_tick_def)

lemma says_compacted [says_intro]: "says t a s \<Longrightarrow> says t a (emitContextCompacted w u s)"
  by (auto simp: emitContextCompacted_def intro!: says_intro)

lemma says_plan [says_intro]: "says t a s \<Longrightarrow> says t a (handlePlan w p q s)"
  by (auto simp: handlePlan_def Let_def intro!: says_intro)

lemma says_delta [says_intro]:
  "says t a s \<Longrightarrow> t \<noteq> [] \<Longrightarrow> says t a (emitMessageDelta w t i d s)"
  "says t a s \<Longrightarrow> t \<noteq> [] \<Longrightarrow> says t a (emitReasoningDelta w t i d s)"
  by (auto simp: emitMessageDelta_def emitReasoningDelta_def intro!: says_intro)

lemma item_events:
  "item_completed it = Some e \<Longrightarrow> plain_event t e"
  "item_started t it = Some e \<Longrightarrow> t \<noteq> [] \<Longrightarrow> plain_event t e"
  by (auto simp: item_completed_def item_started_def split: if_splits)

lemma says_item [says_intro]:
  assumes "says t a s" and "t \<noteq> [] \<or> completed"
  shows "says t a (codex_handleItem w completed t server it s)"
proof (cases "t = []")
  case True
  then show ?thesis
    using assms by (auto simp: codex_handleItem_def Let_def intro!: says_intro dest: item_events split: option.split)
next
  case False
  then show ?thesis
    using assms by (auto simp: codex_handleItem_def Let_def intro!: says_intro dest: item_events split: option.split)
qed

section \<open>Notifications\<close>

definition codex_ids :: "codex_world \<Rightarrow> bool" where
  "codex_ids w \<longleftrightarrow> (\<forall>n. xw_uuid w n \<noteq> [])"

lemma ensured:
  assumes "codex_ids w" and "\<not> cx_over s" and "\<not> cx_closed s"
  shows "cx_turnID (working w server s) \<noteq> []"
    and "cx_turnID s \<noteq> [] \<Longrightarrow> working w server s = s"
    and "cx_turnID s = [] \<Longrightarrow> \<exists>p. cx_events (working w server s) = cx_events s @ [TurnStarted p]
      \<and> ts_turnID p = cx_turnID (working w server s)"
    and "cx_over (working w server s) = cx_over s" and "cx_closed (working w server s) = cx_closed s"
    and "cx_gone (working w server s) = cx_gone s"
  using assms by (auto simp: working_def codex_ensureTurn_def Let_def codex_ids_def codex_tick_def)

text \<open>What may open a turn and then speaks of the open one.\<close>

definition speaks_on :: "codex_session \<Rightarrow> codex_session \<Rightarrow> bool" where
  "speaks_on s s' \<longleftrightarrow> cx_gone s' = cx_gone s \<and> cx_over s' = cx_over s \<and> cx_closed s' = cx_closed s
     \<and> (cx_turnID s' = cx_turnID s \<or> cx_turnID s = [])
     \<and> (\<exists>es. cx_events s' = cx_events s @ es \<and> list_all (plain_event (cx_turnID s')) es)"

lemma speaks_says: "says (cx_turnID s) s s' \<Longrightarrow> speaks_on s s'"
  by (auto simp: says_def speaks_on_def)

lemma speaks_working:
  assumes "codex_ids w" and "\<not> cx_over s" and "\<not> cx_closed s"
    and "says (cx_turnID (working w server s)) (working w server s) s'"
  shows "speaks_on s s'"
proof (cases "cx_turnID s = []")
  case True
  note e = ensured [OF assms(1-3), of server]
  from e(3) [OF True] obtain p where "cx_events (working w server s) = cx_events s @ [TurnStarted p]"
    "ts_turnID p = cx_turnID (working w server s)" by blast
  with e True assms(4) show ?thesis by (auto simp: says_def speaks_on_def plain_event_def)
next
  case False
  then show ?thesis using assms(4) ensured(2) [OF assms(1-3) False] by (simp add: speaks_says)
qed

lemma says_spawned:
  assumes "spawningTurn th s = (t, s1)"
  shows "says (cx_turnID s) s s1" and "t = [] \<or> t = cx_turnID s" and "cx_turnID s1 = cx_turnID s"
  using assms by (auto simp: spawningTurn_def says_def split: option.splits if_splits)

lemma says_subagent: "says (cx_turnID s) s (handleSubagentNotification w th n s)"
proof -
  obtain t s1 where t: "spawningTurn th s = (t, s1)" by force
  note u = says_spawned [OF t]
  show ?thesis
    using u by (auto simp: handleSubagentNotification_def t split: codex_body.split option.split intro!: says_intro)
qed

lemma speaks_notification:
  assumes ids: "codex_ids w" and live: "\<not> cx_over s" "\<not> cx_closed s"
    and n: "foreignThread n s \<noteq> [] \<or> (\<forall>server st err. no_body n \<noteq> TurnOver server st err)"
  shows "speaks_on s (codex_notification w n s)"
proof (cases "foreignThread n s = []")
  case False
  then show ?thesis by (simp add: codex_notification_def speaks_says says_subagent)
next
  case True
  note open_turn = ensured(1) [OF ids live]
  have "speaks_on s (own_notification w n s)"
  proof (cases "no_body n")
    case (ItemNote completed item)
    show ?thesis
    proof (cases completed)
      case True
      then show ?thesis
        by (auto simp: own_notification_def ItemNote Let_def intro!: speaks_says says_intro split: option.split)
    next
      case False
      then show ?thesis using open_turn
        by (auto simp: own_notification_def ItemNote Let_def intro!: speaks_working [OF ids live] says_intro split: option.split)
    qed
  next
    case (MessageDelta item delta)
    then show ?thesis using open_turn
      by (auto simp: own_notification_def Let_def intro!: speaks_working [OF ids live] says_intro)
  next
    case (ReasoningDelta item delta)
    then show ?thesis using open_turn
      by (auto simp: own_notification_def Let_def intro!: speaks_working [OF ids live] says_intro)
  qed (use n True in \<open>auto simp: own_notification_def intro!: speaks_says says_intro\<close>)
  then show ?thesis using True by (simp add: codex_notification_def)
qed

section \<open>A source of turns\<close>

definition codex_good :: "codex_world \<Rightarrow> codex_session \<Rightarrow> bool" where
  "codex_good w s \<longleftrightarrow> codex_ids w \<and> \<not> cx_closed s \<and> (cx_over s \<longrightarrow> cx_gone s)"

definition codex_fair :: "codex_input \<Rightarrow> bool" where
  "codex_fair i \<longleftrightarrow> i \<noteq> CodexClose"

text \<open>An answer that refuses the call the open turn was opened for: of a prompt or of a composer action.\<close>

fun codex_refused :: "codex_input \<Rightarrow> codex_session \<Rightarrow> bool" where
  "codex_refused (CodexPromptAnswer turn (Inl e)) s = (cx_turnID s = turn)"
| "codex_refused (CodexActionAnswer turn action (Some e)) s = (cx_turnID s = turn)"
| "codex_refused _ s = False"

text \<open>What a step does to the ledger and the events, where \<open>r\<close> says that a call is refused.\<close>

definition source_step :: "bool \<Rightarrow> codex_session \<Rightarrow> codex_session \<Rightarrow> bool" where
  "source_step r s s' \<longleftrightarrow> \<not> cx_closed s' \<and> (cx_over s' \<longrightarrow> cx_gone s')
     \<and> (cx_turnID s \<noteq> [] \<longrightarrow> cx_turnID s' = [] \<longrightarrow> (finished_in (cx_events s') = finished_in (cx_events s) \<longleftrightarrow> r))
     \<and> (r \<longrightarrow> cx_turnID s \<noteq> [] \<longrightarrow> cx_turnID s' = [])
     \<and> ledger_step (finished_in (cx_events s), cx_turnID s) (finished_in (cx_events s'), cx_turnID s')
     \<and> (\<exists>es. cx_events s' = cx_events s @ es \<and> list_all (speaks_of (cx_turnID s) (cx_turnID s')) es)"

lemma plain_finished: "list_all (plain_event t) es \<Longrightarrow> finished_in es = []"
  by (induction es) (simp_all add: plain_event_def)

lemma plain_speaks: "plain_event t e \<Longrightarrow> speaks_of u t e"
  by (auto simp: plain_event_def speaks_of_def)

lemma source_speaks:
  assumes "speaks_on s s'" and "\<not> cx_closed s" and "\<not> cx_over s"
  shows "source_step False s s'"
proof -
  obtain es where es: "cx_events s' = cx_events s @ es" "list_all (plain_event (cx_turnID s')) es"
    using assms(1) by (auto simp: speaks_on_def)
  with plain_finished [OF es(2)] assms show ?thesis
    by (auto simp: source_step_def speaks_on_def ledger_step_simps list_all_iff plain_speaks)
qed

lemma source_same:
  assumes "codex_good w s" and "cx_events s' = cx_events s" and "cx_closed s' = cx_closed s"
    and "cx_over s' = cx_over s" and "cx_gone s \<longrightarrow> cx_gone s'"
    and "if r then cx_turnID s' = [] else cx_turnID s' = cx_turnID s \<or> cx_turnID s = []"
  shows "source_step r s s'"
  using assms by (auto simp: source_step_def codex_good_def ledger_step_simps split: if_splits)

lemma source_finish:
  assumes "\<not> cx_closed s'" and "cx_over s' \<longrightarrow> cx_gone s'" and "cx_turnID s' = []" and "cx_turnID s \<noteq> []"
    and "cx_events s' = cx_events s @ [codex_finished (cx_turnID s) stop err]"
  shows "source_step False s s'"
  using assms by (simp add: source_step_def codex_finished_def ledger_step_simps speaks_of_def)

lemma source_over:
  assumes "codex_good w s" and "\<not> cx_over s"
  shows "source_step False s (turn_over w server st err s)"
proof -
  let ?s1 = "s\<lparr>cx_turnID := [], cx_serverTurnID := [], cx_interrupting := False\<rparr>"
  have stale: "source_step False s s" by (rule source_same [OF assms(1)]) simp_all
  have idle: "source_step False s ?s1" if "cx_turnID s = []"
    by (rule source_same [OF assms(1)]) (simp_all add: that)
  have over: "source_step False s (codex_emit w (codex_finished (cx_turnID s) a b) ?s1)" if "cx_turnID s \<noteq> []" for a b
    using assms that by (intro source_finish) (simp_all add: codex_good_def)
  from stale idle over show ?thesis by (simp add: turn_over_def Let_def)
qed

text \<open>A request or its answer says nothing itself.\<close>

fun is_request :: "codex_input \<Rightarrow> bool" where
  "is_request (CodexNote n) = False"
| "is_request CodexExit = False"
| "is_request CodexClose = False"
| "is_request i = True"

lemma requests:
  assumes "is_request i"
  shows "cx_events (codex_step w i s) = cx_events s \<and> cx_closed (codex_step w i s) = cx_closed s
    \<and> cx_over (codex_step w i s) = cx_over s \<and> (cx_gone s \<longrightarrow> cx_gone (codex_step w i s))
    \<and> (if codex_refused i s then cx_turnID (codex_step w i s) = []
       else cx_turnID (codex_step w i s) = cx_turnID s \<or> cx_turnID s = [])"
proof (cases i)
  case (CodexPromptAnswer turn r)
  then show ?thesis by (cases r) (simp_all add: prompt_answered_def)
next
  case (CodexActionAnswer turn action e)
  then show ?thesis by (cases e) (simp_all add: composer_answered_def)
next
  case (CodexMode mode)
  then show ?thesis by (cases "settingsFor mode (cx_extraDirs s)") (simp_all add: codex_SetMode_def codex_ask_def)
next
  case (CodexAction turn action args)
  then show ?thesis
    by (cases "codexComposerActionRequest action args") (simp_all add: RunComposerAction_def codex_ask_def)
qed (use assms in \<open>simp_all add: codex_Prompt_def codex_Steer_def codex_cancel_def cancel_answered_def
       composer_answered_def codex_ask_def\<close>)

lemma source_input:
  assumes good: "codex_good w s" and i: "codex_fair i"
  shows "source_step (codex_refused i s) s (codex_step w i s)"
proof (cases i)
  case (CodexNote n)
  show ?thesis
  proof (cases "cx_gone s")
    case False
    then have live: "\<not> cx_over s" "\<not> cx_closed s" "codex_ids w" using good by (auto simp: codex_good_def)
    show ?thesis
    proof (cases "foreignThread n s \<noteq> [] \<or> (\<forall>server st err. no_body n \<noteq> TurnOver server st err)")
      case True
      with speaks_notification [OF live(3,1,2) True] live False show ?thesis
        by (simp add: CodexNote source_speaks)
    next
      case other: False
      then show ?thesis
        using False live source_over [OF good live(1)]
        by (auto simp: CodexNote codex_notification_def own_notification_def)
    qed
  qed (simp add: CodexNote source_same [OF good])
next
  case CodexExit
  show ?thesis
  proof (cases "cx_gone s \<and> \<not> cx_over s \<and> cx_turnID s \<noteq> []")
    case True
    then show ?thesis
      using good by (auto simp: CodexExit codex_watchExit_def Let_def codex_good_def intro!: source_finish)
  next
    case False
    have "source_step False s (s\<lparr>cx_turnID := [], cx_serverTurnID := [], cx_interrupting := False, cx_over := True\<rparr>)"
      if "cx_gone s" and "cx_turnID s = []"
      using good that by (simp add: source_step_def codex_good_def ledger_step_simps)
    with False show ?thesis
      by (auto simp: CodexExit codex_watchExit_def Let_def intro!: source_same [OF good])
  qed
qed (use requests [of i w s] i good in \<open>auto simp: codex_fair_def intro!: source_same [OF good]\<close>)

interpretation codex: turn_source "codex_step w" cx_events cx_turnID "codex_good w" codex_fair codex_refused for w
proof
  fix s i
  assume good: "codex_good w s" and i: "codex_fair i"
  from source_input [OF good i]
  show "codex_good w (codex_step w i s)"
    and "ledger_step (finished_in (cx_events s), cx_turnID s) (finished_in (cx_events (codex_step w i s)), cx_turnID (codex_step w i s))"
    and "\<exists>es. cx_events (codex_step w i s) = cx_events s @ es \<and> list_all (speaks_of (cx_turnID s) (cx_turnID (codex_step w i s))) es"
    and "cx_turnID s \<noteq> [] \<Longrightarrow> cx_turnID (codex_step w i s) = []
      \<Longrightarrow> (finished_in (cx_events (codex_step w i s)) = finished_in (cx_events s)) = codex_refused i s"
    and "codex_refused i s \<Longrightarrow> cx_turnID s \<noteq> [] \<Longrightarrow> cx_turnID (codex_step w i s) = []"
    using good by (simp_all add: source_step_def codex_good_def)
qed

text \<open>
  C6: whatever the app-server sends and whichever calls it answers or refuses, a Codex session
  that is not asked to close reports the end of the turns it opened or was given exactly once each
  and in order, but for the one still open; the only turns without an end are those whose prompt or
  composer action the app-server answered with an error while they were open.  It speaks of a turn
  only where that turn was open at some moment of the run, and never of a turn without an id.
\<close>

theorem codex_turns_in_order:
  assumes "codex_ids w" and "list_all codex_fair is"
    and "s0 = codex_start w threadID model effort extraDirs" and "s = fold (codex_step w) is s0"
  shows "turns_kept (codex_step w) cx_turnID codex_refused is s0 []
      = finished_in (cx_events s) @ turn_list (cx_turnID s)
    \<and> list_all (\<lambda>e. turn_of e \<noteq> Some []) (cx_events s)
    \<and> (if u \<in> cx_turnID ` set (visited (codex_step w) is s0) then True
       else list_all (\<lambda>e. turn_of e \<noteq> Some u) (cx_events s))"
proof -
  have start: "codex_good w s0" "finished_in (cx_events s0) = []" "cx_turnID s0 = []"
      "list_all (\<lambda>e. turn_of e = None) (cx_events s0)"
    using assms(1) by (simp_all add: assms(3) codex_start_def codex_good_def)
  have "list_all (\<lambda>e. turn_of e \<noteq> Some []) (cx_events s)"
    using codex.run_named [OF start(1) assms(2)] start(4) assms(4) by (auto simp: list_all_iff)
  with codex.run_in_order [OF start(1) assms(2)] codex.run_speaks [OF start(1) assms(2), of u] start assms(4)
  show ?thesis by (auto simp: list_all_iff)
qed

definition sample_codex :: codex_world where
  "sample_codex = \<lparr>xw_uuid = \<lambda>n. ''u'' @ replicate n CHR ''x'', xw_keep = \<lambda>n. True, xw_percent = \<lambda>a b. 0\<rparr>"

definition sample_note :: "string \<Rightarrow> codex_body \<Rightarrow> codex_input" where
  "sample_note thread b = CodexNote \<lparr>no_threadID = thread, no_turnID = ''x1'', no_body = b\<rparr>"

text \<open>A prompt and its completion, a refused prompt, then work the harness starts and an exit.\<close>

definition sample_codex_talk :: "codex_input list" where
  "sample_codex_talk =
     [CodexPrompt ''p1'' ''go'' [], CodexPromptAnswer ''p1'' (Inr ''x1''), sample_note ''th'' (MessageDelta ''i1'' ''hi''),
      sample_note ''th'' (TurnOver ''x1'' ''completed'' None), CodexPrompt ''p2'' ''again'' [],
      CodexPromptAnswer ''p2'' (Inl ''no''), sample_note ''th'' (MessageDelta ''i2'' ''more''), CodexGone, CodexExit]"

theorem codex_turns_in_order_witness:
  "length (turns_kept (codex_step sample_codex) cx_turnID codex_refused sample_codex_talk
       (codex_start sample_codex ''th'' [] [] []) []) = 2
   \<and> turns_kept (codex_step sample_codex) cx_turnID codex_refused sample_codex_talk
       (codex_start sample_codex ''th'' [] [] []) []
     = finished_in (cx_events (fold (codex_step sample_codex) sample_codex_talk (codex_start sample_codex ''th'' [] [] [])))"
proof -
  let ?s0 = "codex_start sample_codex ''th'' [] [] []"
  have "codex_ids sample_codex" by (simp add: codex_ids_def sample_codex_def)
  moreover have "list_all codex_fair sample_codex_talk" by (simp add: sample_codex_talk_def codex_fair_def sample_note_def)
  ultimately have "turns_kept (codex_step sample_codex) cx_turnID codex_refused sample_codex_talk ?s0 []
      = finished_in (cx_events (fold (codex_step sample_codex) sample_codex_talk ?s0))
        @ turn_list (cx_turnID (fold (codex_step sample_codex) sample_codex_talk ?s0))"
    using codex_turns_in_order [OF _ _ refl refl] by blast
  moreover have "turn_list (cx_turnID (fold (codex_step sample_codex) sample_codex_talk ?s0)) = []" by code_simp
  moreover have "length (turns_kept (codex_step sample_codex) cx_turnID codex_refused
      sample_codex_talk ?s0 []) = 2" by code_simp
  ultimately show ?thesis by simp
qed

section \<open>Subagents\<close>

text \<open>What belongs to subagents is left alone by everything but their own notifications.\<close>

lemma subagents_handlers [simp]:
  "cx_subagents (emitContextCompacted w u s) = cx_subagents s"
  "cx_subagents (handlePlan w p q s) = cx_subagents s"
  "cx_subagents (emitMessageDelta w t i d s) = cx_subagents s"
  "cx_subagents (emitReasoningDelta w t i d s) = cx_subagents s"
  "cx_subagents (working w server s) = cx_subagents s"
  "cx_subagents (turn_over w server st err s) = cx_subagents s"
  "cx_threadID (emitContextCompacted w u s) = cx_threadID s"
  "cx_threadID (handlePlan w p q s) = cx_threadID s"
  "cx_threadID (emitMessageDelta w t i d s) = cx_threadID s"
  "cx_threadID (emitReasoningDelta w t i d s) = cx_threadID s"
  "cx_threadID (working w server s) = cx_threadID s"
  "cx_threadID (turn_over w server st err s) = cx_threadID s"
  by (simp_all add: emitContextCompacted_def handlePlan_def emitMessageDelta_def emitReasoningDelta_def working_def
      codex_ensureTurn_def turn_over_def codex_tick_def Let_def)

lemma subagents_item [simp]:
  "cx_subagents (codex_handleItem w completed t server it s) = cx_subagents s"
  "cx_threadID (codex_handleItem w completed t server it s) = cx_threadID s"
  by (simp_all add: codex_handleItem_def Let_def split: option.split)

lemma subagents_own [simp]:
  "cx_subagents (own_notification w n s) = cx_subagents s" "cx_threadID (own_notification w n s) = cx_threadID s"
  by (cases "no_body n"; simp add: own_notification_def Let_def split: option.split)+

lemma own_flags:
  "cx_over (own_notification w n s) = cx_over s" "cx_gone (own_notification w n s) = cx_gone s"
  by (cases "no_body n"; simp add: own_notification_def Let_def emitContextCompacted_def handlePlan_def emitMessageDelta_def
        emitReasoningDelta_def working_def codex_ensureTurn_def turn_over_def codex_tick_def codex_handleItem_def
      split: option.split)+

lemma step_requests:
  assumes "is_request i"
  shows "cx_subagents (codex_step w i s) = cx_subagents s \<and> cx_threadID (codex_step w i s) = cx_threadID s
    \<and> cx_over (codex_step w i s) = cx_over s \<and> (cx_gone s \<longrightarrow> cx_gone (codex_step w i s))"
proof (cases i)
  case (CodexPromptAnswer turn r)
  then show ?thesis by (cases r) (simp_all add: prompt_answered_def)
next
  case (CodexMode mode)
  then show ?thesis by (cases "settingsFor mode (cx_extraDirs s)") (simp_all add: codex_SetMode_def codex_ask_def)
next
  case (CodexAction turn action args)
  then show ?thesis
    by (cases "codexComposerActionRequest action args") (simp_all add: RunComposerAction_def codex_ask_def)
qed (use assms in \<open>simp_all add: codex_Prompt_def codex_Steer_def codex_cancel_def cancel_answered_def
       composer_answered_def codex_ask_def\<close>)

text \<open>
  The turn a subagent's thread belongs to, read off what happened: the one that was open when the
  session first heard from that thread.
\<close>

fun first_heard_in :: "codex_world \<Rightarrow> string \<Rightarrow> codex_input list \<Rightarrow> codex_session \<Rightarrow> string option" where
  "first_heard_in w th [] s = None"
| "first_heard_in w th (i # is) s =
     (if (case i of CodexNote n \<Rightarrow> no_threadID n = th | _ \<Rightarrow> False) \<and> \<not> cx_gone s \<and> cx_turnID s \<noteq> []
      then Some (cx_turnID s) else first_heard_in w th is (codex_step w i s))"

lemma first_heard_open: "first_heard_in w th is s = Some t \<Longrightarrow> t \<noteq> []"
  by (induction "is" arbitrary: s) (auto split: if_splits)

lemma subagent_keeps:
  "cx_threadID (handleSubagentNotification w th n s) = cx_threadID s"
  "cx_subagents (handleSubagentNotification w th n s)
    = (if cx_subagents s th = None \<and> cx_turnID s \<noteq> [] then (cx_subagents s)(th \<mapsto> cx_turnID s) else cx_subagents s)"
proof -
  obtain u s1 where u: "spawningTurn th s = (u, s1)" by force
  have s1: "cx_threadID s1 = cx_threadID s"
    "cx_subagents s1 = (if cx_subagents s th = None \<and> cx_turnID s \<noteq> [] then (cx_subagents s)(th \<mapsto> cx_turnID s) else cx_subagents s)"
    using u by (auto simp: spawningTurn_def split: option.splits if_splits)
  show "cx_threadID (handleSubagentNotification w th n s) = cx_threadID s"
    "cx_subagents (handleSubagentNotification w th n s)
      = (if cx_subagents s th = None \<and> cx_turnID s \<noteq> [] then (cx_subagents s)(th \<mapsto> cx_turnID s) else cx_subagents s)"
    using s1 by (cases "no_body n"; simp add: handleSubagentNotification_def u split: option.split)+
qed

lemma noted_flags:
  "cx_over (codex_notification w n s) = cx_over s" "cx_gone (codex_notification w n s) = cx_gone s"
  using says_subagent [of s w "foreignThread n s" n] by (simp_all add: codex_notification_def says_def own_flags)

text \<open>The table after a step: a subagent heard for the first time is of the open turn, if there is one.\<close>

definition heard :: "codex_input \<Rightarrow> codex_session \<Rightarrow> string \<rightharpoonup> string" where
  "heard i s =
     (case i of
        CodexNote n \<Rightarrow>
          if \<not> cx_gone s \<and> foreignThread n s \<noteq> [] \<and> cx_subagents s (foreignThread n s) = None \<and> cx_turnID s \<noteq> []
          then (cx_subagents s)(foreignThread n s \<mapsto> cx_turnID s) else cx_subagents s
      | _ \<Rightarrow> cx_subagents s)"

lemma subagents_step:
  "cx_threadID (codex_step w i s) = cx_threadID s \<and> cx_subagents (codex_step w i s) = heard i s
   \<and> ((cx_over s \<longrightarrow> cx_gone s) \<longrightarrow> cx_over (codex_step w i s) \<longrightarrow> cx_gone (codex_step w i s))"
proof (cases "is_request i")
  case True
  moreover have "heard i s = cx_subagents s" using True by (cases i) (simp_all add: heard_def)
  ultimately show ?thesis using step_requests [OF True, of w s] by auto
next
  case False
  then show ?thesis
  proof (cases i)
    case (CodexNote n)
    have "cx_over (codex_step w i s) = cx_over s" "cx_gone (codex_step w i s) = cx_gone s"
      by (simp_all add: CodexNote noted_flags)
    moreover have "cx_threadID (codex_step w i s) = cx_threadID s" "cx_subagents (codex_step w i s) = heard i s"
      by (simp_all add: CodexNote heard_def codex_notification_def subagent_keeps)
    ultimately show ?thesis by simp
  qed (simp_all add: heard_def codex_watchExit_def Let_def)
qed

text \<open>The session's own table says the same.\<close>

lemma subagents_run:
  assumes "th \<noteq> []" and "cx_threadID s \<noteq> []" and "th \<noteq> cx_threadID s"
  shows "cx_subagents (fold (codex_step w) is s) th
    = (case cx_subagents s th of None \<Rightarrow> first_heard_in w th is s | Some t \<Rightarrow> Some t)"
  using assms
proof (induction "is" arbitrary: s)
  case (Cons i "is")
  then show ?case
    by (auto simp: subagents_step heard_def foreignThread_def split: option.split codex_input.split)
qed (simp split: option.split)

lemma thread_run: "cx_threadID (fold (codex_step w) is s) = cx_threadID s"
  by (induction "is" arbitrary: s) (simp_all add: subagents_step)

lemma over_run: "(cx_over s \<longrightarrow> cx_gone s) \<Longrightarrow> cx_over (fold (codex_step w) is s) \<longrightarrow> cx_gone (fold (codex_step w) is s)"
proof (induction "is" arbitrary: s)
  case (Cons i "is")
  have "cx_over (codex_step w i s) \<longrightarrow> cx_gone (codex_step w i s)" using Cons.prems subagents_step by blast
  from Cons.IH [OF this] show ?case by simp
qed simp

lemma first_heard_append:
  "first_heard_in w th (is @ js) s = (case first_heard_in w th is s of
     None \<Rightarrow> first_heard_in w th js (fold (codex_step w) is s) | Some t \<Rightarrow> Some t)"
  by (induction "is" arbitrary: s) (simp_all split: option.split)

text \<open>What a subagent says is passed on in the turn it belongs to, while that turn is open.\<close>

lemma subagent_says:
  assumes "cx_turnID s = t" and "t \<noteq> []" and "cx_subagents s th = None \<or> cx_subagents s th = Some t"
    and "\<not> cx_over s" and "\<not> cx_closed s" and "s' = handleSubagentNotification w th n s"
  shows "no_body n = MessageDelta item delta \<Longrightarrow> cx_events s' = cx_events s @ [agent_chunk t ''text'' item delta]"
    and "no_body n = ReasoningDelta item delta \<Longrightarrow>
      cx_events s' = cx_events s @ [agent_chunk t ''thought'' (item @ '':reasoning'') delta]"
  using assms
  by (auto simp: handleSubagentNotification_def spawningTurn_def emitMessageDelta_def emitReasoningDelta_def)

text \<open>
  C9: a subagent belongs to the turn that was open when the session first heard from its thread,
  the very first notification included, and what it says stays there.  Its notifications neither open
  nor close a turn nor change the id an interrupt would name nor send anything; they cause events
  only while its own turn is the open one, and those name that turn or none; and while that turn is
  open and the session is not closing, every piece of text and of thought it writes is passed on.
\<close>

theorem codex_subagent_contained:
  assumes "threadID \<noteq> []" and "no_threadID n \<noteq> []" and "no_threadID n \<noteq> threadID"
    and "s0 = codex_start w threadID model effort extraDirs" and "s = fold (codex_step w) is s0"
    and "s' = codex_step w (CodexNote n) s"
  shows "cx_turnID s' = cx_turnID s \<and> cx_serverTurnID s' = cx_serverTurnID s \<and> cx_sent s' = cx_sent s
    \<and> (\<exists>es. cx_events s' = cx_events s @ es
         \<and> (case first_heard_in w (no_threadID n) (is @ [CodexNote n]) s0 of
              None \<Rightarrow> es = []
            | Some t \<Rightarrow>
                t \<noteq> [] \<and> list_all (\<lambda>e. turn_of e = None \<or> turn_of e = Some t) es
                \<and> (if cx_turnID s \<noteq> t \<or> cx_gone s then es = []
                   else if cx_closed s then True
                   else case no_body n of
                          MessageDelta item delta \<Rightarrow> es = [agent_chunk t ''text'' item delta]
                        | ReasoningDelta item delta \<Rightarrow> es = [agent_chunk t ''thought'' (item @ '':reasoning'') delta]
                        | _ \<Rightarrow> True)))"
proof -
  let ?th = "no_threadID n"
  have start: "cx_threadID s0 = threadID" "cx_subagents s0 = Map.empty" "\<not> cx_over s0"
    by (simp_all add: assms(4) codex_start_def)
  have table: "cx_subagents s ?th = first_heard_in w ?th is s0"
    using subagents_run [of ?th s0 w "is"] start assms by simp
  have th: "foreignThread n s = ?th" using assms(1-3,5) start(1) by (simp add: foreignThread_def thread_run)
  have over: "cx_over s \<longrightarrow> cx_gone s" using over_run [of s0 w "is"] start(3) assms(5) by simp
  have owner: "first_heard_in w ?th (is @ [CodexNote n]) s0 = (case cx_subagents s ?th of
      None \<Rightarrow> if \<not> cx_gone s \<and> cx_turnID s \<noteq> [] then Some (cx_turnID s) else None | Some t \<Rightarrow> Some t)"
    using table by (simp add: first_heard_append assms(5) split: option.split)
  have says: "says (cx_turnID s) s (handleSubagentNotification w ?th n s)" by (rule says_subagent)
  have quiet: "cx_events (handleSubagentNotification w ?th n s) = cx_events s"
    if "cx_turnID s = [] \<or> (\<exists>t. cx_subagents s ?th = Some t \<and> t \<noteq> cx_turnID s)"
    using that by (auto simp: handleSubagentNotification_def spawningTurn_def split: option.split)
  show ?thesis
  proof (cases "cx_gone s")
    case True
    then show ?thesis
      using assms(6) by (auto simp: owner table dest: first_heard_open split: option.split)
  next
    case False
    then have s': "s' = handleSubagentNotification w ?th n s"
      using assms(2,6) th by (simp add: codex_notification_def)
    show ?thesis
    proof (cases "cx_turnID s = [] \<or> (\<exists>t. cx_subagents s ?th = Some t \<and> t \<noteq> cx_turnID s)")
      case True
      with quiet says s' show ?thesis
        by (auto simp: owner says_def table dest: first_heard_open split: option.split)
    next
      case other: False
      then have turn: "cx_turnID s \<noteq> []" "cx_subagents s ?th = None \<or> cx_subagents s ?th = Some (cx_turnID s)"
        by (cases "cx_subagents s ?th"; auto)+
      then have o: "first_heard_in w ?th (is @ [CodexNote n]) s0 = Some (cx_turnID s)"
        using False by (auto simp: owner)
      obtain es where es: "cx_events s' = cx_events s @ es" "list_all (plain_event (cx_turnID s)) es"
        using says s' by (auto simp: says_def)
      have named: "list_all (\<lambda>e. turn_of e = None \<or> turn_of e = Some (cx_turnID s)) es"
        using es(2) by (auto simp: plain_event_def list_all_iff)
      note passed = subagent_says [OF refl turn _ _ s']
      have "case no_body n of
            MessageDelta item delta \<Rightarrow> es = [agent_chunk (cx_turnID s) ''text'' item delta]
          | ReasoningDelta item delta \<Rightarrow> es = [agent_chunk (cx_turnID s) ''thought'' (item @ '':reasoning'') delta]
          | _ \<Rightarrow> True" if "\<not> cx_closed s"
        using passed that over False es(1) by (simp split: codex_body.split)
      with es(1) named says s' turn(1) False o show ?thesis by (auto simp: says_def)
    qed
  qed
qed

theorem codex_subagent_contained_witness:
  "cx_events (fold (codex_step sample_codex)
      [CodexPrompt ''p1'' ''go'' [], sample_note ''sub'' (MessageDelta ''i1'' ''hi''),
       sample_note ''sub'' (MessageDelta ''i1'' ''again'')] (codex_start sample_codex ''th'' [] [] []))
   = cx_events (codex_start sample_codex ''th'' [] [] [])
     @ [agent_chunk ''p1'' ''text'' ''i1'' ''hi'', agent_chunk ''p1'' ''text'' ''i1'' ''again'']"
proof -
  let ?is = "[CodexPrompt ''p1'' ''go'' [], sample_note ''sub'' (MessageDelta ''i1'' ''hi'')]"
  let ?n = "\<lparr>no_threadID = ''sub'', no_turnID = ''x1'', no_body = MessageDelta ''i1'' ''again''\<rparr>"
  obtain s0 where s0: "s0 = codex_start sample_codex ''th'' [] [] []" by blast
  obtain s where s: "s = fold (codex_step sample_codex) ?is s0" by blast
  obtain s' where s': "s' = codex_step sample_codex (CodexNote ?n) s" by blast
  have at_work: "cx_turnID s = ''p1''" "\<not> cx_gone s" "\<not> cx_closed s"
    "first_heard_in sample_codex ''sub'' (?is @ [CodexNote ?n]) s0 = Some ''p1''"
    unfolding s s0 by code_simp+
  have before: "cx_events s = cx_events s0 @ [agent_chunk ''p1'' ''text'' ''i1'' ''hi'']" unfolding s s0 by code_simp
  have named: "no_threadID ?n = ''sub''" "no_body ?n = MessageDelta ''i1'' ''again''" by simp_all
  have "cx_events s' = cx_events s @ [agent_chunk ''p1'' ''text'' ''i1'' ''again'']"
    using codex_subagent_contained [OF _ _ _ s0 s s', unfolded named at_work(4)] at_work(1-3) by simp
  with before have "cx_events s' = cx_events s0 @ [agent_chunk ''p1'' ''text'' ''i1'' ''hi'', agent_chunk ''p1'' ''text'' ''i1'' ''again'']"
    by simp
  moreover have "s' = fold (codex_step sample_codex) (?is @ [sample_note ''sub'' (MessageDelta ''i1'' ''again'')]) s0"
    by (simp only: s' s sample_note_def fold_append comp_apply fold.simps id_apply)
  ultimately show ?thesis by (simp only: s0 append.simps)
qed

section \<open>Attachments\<close>

lemma promptInput_split:
  "SplitAttachments attachments = (images, documents) \<Longrightarrow> promptInput text attachments = map (\<lambda>i. LocalImage (im_path i)) images
     @ (if text = [] \<and> documents = [] \<and> images \<noteq> [] then [] else [InputText (WithDocumentPaths text documents)])"
  by (auto simp: promptInput_def Let_def documents_empty)

text \<open>
  C10: nothing a prompt carries is lost on the way to Codex, and nothing changes its kind or place:
  the attachments whose media type begins with \<open>image/\<close> are the items of the input that lead it, in
  the order of the prompt; the paths of all the others are in the text item, in the order of the
  prompt; and the text item ends with what the human wrote, and is left out only where there is
  nothing to put in it beside an image.
\<close>

theorem codex_input_complete:
  "let images = filter (\<lambda>a. take 6 (im_mediaType a) = ''image/'') attachments;
       documents = filter (\<lambda>a. take 6 (im_mediaType a) \<noteq> ''image/'') attachments
   in \<exists>rest. promptInput text attachments = map (\<lambda>i. LocalImage (im_path i)) images @ rest
        \<and> (if text = [] \<and> documents = [] \<and> images \<noteq> [] then rest = []
           else \<exists>gaps sep. length gaps = length documents
             \<and> rest = [InputText (concat (map2 (\<lambda>gap d. gap @ im_path d) gaps documents) @ sep @ text)])"
proof -
  let ?images = "filter (\<lambda>a. take 6 (im_mediaType a) = ''image/'') attachments"
  let ?documents = "filter (\<lambda>a. take 6 (im_mediaType a) \<noteq> ''image/'') attachments"
  have split: "SplitAttachments attachments = (?images, ?documents)" by (rule split_by_type)
  obtain gaps sep where "length gaps = length ?documents"
    "WithDocumentPaths text ?documents = concat (map2 (\<lambda>gap d. gap @ im_path d) gaps ?documents) @ sep @ text"
    using documents_in_order by blast
  then show ?thesis by (simp only: Let_def promptInput_split [OF split]) auto
qed

section \<open>The stop button\<close>

text \<open>
  A turn opened for a composer action has no id of the app-server's: the answer's is not kept, and
  the id a later notification carries is taken over only by \<open>ensureTurn\<close>, which is not called
  while a turn is open.  So for as long as that turn is open no interrupt is sent.
\<close>

fun interrupts :: "codex_call list \<Rightarrow> string list" where
  "interrupts [] = []"
| "interrupts (TurnInterrupt t # cs) = t # interrupts cs"
| "interrupts (c # cs) = interrupts cs"

lemma interrupts_append [simp]: "interrupts (cs @ ds) = interrupts cs @ interrupts ds"
  by (induction cs rule: interrupts.induct) simp_all

lemma working_open: "cx_turnID s \<noteq> [] \<Longrightarrow> working w server s = s"
  by (simp add: working_def)

text \<open>The answers that would bring the id of a turn: of a prompt.\<close>

fun brings_id :: "codex_input \<Rightarrow> bool" where
  "brings_id (CodexPromptAnswer turn r) = True"
| "brings_id i = False"

lemma no_id_note:
  assumes "cx_turnID s \<noteq> []" and "cx_serverTurnID s = []"
  shows "cx_serverTurnID (codex_notification w n s) = [] \<and> cx_sent (codex_notification w n s) = cx_sent s"
proof (cases "foreignThread n s = []")
  case True
  have says: "says (cx_turnID s) s x \<Longrightarrow> cx_serverTurnID x = [] \<and> cx_sent x = cx_sent s" for x
    using assms(2) by (simp add: says_def)
  have "cx_serverTurnID (own_notification w n s) = [] \<and> cx_sent (own_notification w n s) = cx_sent s"
  proof (cases "no_body n")
    case (TurnOver server st err)
    then show ?thesis using assms by (auto simp: own_notification_def turn_over_def Let_def)
  qed (use assms in \<open>auto simp: own_notification_def working_open Let_def intro!: says says_intro split: option.split\<close>)
  with True show ?thesis by (simp add: codex_notification_def)
next
  case False
  then show ?thesis
    using says_subagent [of s w "foreignThread n s" n] assms(2) by (simp add: codex_notification_def says_def)
qed

lemma no_id_step:
  assumes "cx_turnID s \<noteq> []" and "cx_serverTurnID s = []" and "\<not> brings_id i"
  shows "cx_serverTurnID (codex_step w i s) = [] \<and> interrupts (cx_sent (codex_step w i s)) = interrupts (cx_sent s)"
proof (cases i)
  case (CodexMode mode)
  then show ?thesis
    using assms by (cases "settingsFor mode (cx_extraDirs s)") (simp_all add: codex_SetMode_def codex_ask_def)
next
  case (CodexAction turn action args)
  have "interrupts [c] = []" if "codexComposerActionRequest action args = Inr c" for c
    using that by (auto simp: codexComposerActionRequest_def split: if_splits)
  then show ?thesis
    using assms CodexAction
    by (cases "codexComposerActionRequest action args") (simp_all add: RunComposerAction_def codex_ask_def)
qed (use assms no_id_note [OF assms(1,2)] in \<open>simp_all add: codex_Prompt_def codex_Steer_def codex_cancel_def
       cancel_answered_def composer_answered_def codex_ask_def codex_watchExit_def Let_def\<close>)

theorem composer_turn_unstoppable:
  assumes "cx_turnID s = []" and "cx_serverTurnID s = []" and "turn \<noteq> []"
    and "RunComposerAction turn action args s = (None, s1)" and "\<not> list_ex brings_id is"
    and "list_all (\<lambda>x. cx_turnID x = turn) (visited (codex_step w) is s1)"
  shows "interrupts (cx_sent (fold (codex_step w) is s1)) = interrupts (cx_sent s)"
proof -
  have "cx_serverTurnID s1 = []" and s1: "interrupts (cx_sent s1) = interrupts (cx_sent s)"
    using assms(1-4)
    by (auto simp: RunComposerAction_def codex_ask_def codexComposerActionRequest_def split: sum.splits if_splits)
  then have "interrupts (cx_sent (fold (codex_step w) is s1)) = interrupts (cx_sent s1)"
    using assms(5,6)
  proof (induction "is" arbitrary: s1)
    case (Cons i "is")
    then have "cx_turnID s1 \<noteq> []" using assms(3) by simp
    from no_id_step [OF this Cons.prems(1), of i w] Cons show ?case by simp
  qed simp
  with s1 show ?thesis by simp
qed

end
