(* ===== verification/Pi.thy ===== *)
theory Pi
  imports TurnSource Attachments Paths ActorLoop
begin

text \<open>
  The Pi session (internal/adapter/piapp/pi.go): the lines of the process become events, turn by
  turn.  A line is given by its fields as \<open>encoding/json\<close> decodes them.  The read loop, the actor's
  calls, the reader of the error output and the exit watcher run between each other's critical
  sections; each is one step, and a call is two, its response being the second.
\<close>

section \<open>Lines\<close>

record pi_usage =
  yu_input :: int
  yu_output :: int
  yu_cacheRead :: int
  yu_cacheWrite :: int
  yu_totalTokens :: int
  yu_cost :: rat

record pi_message =
  ym_role :: string
  ym_stopReason :: string
  ym_errorMessage :: string
  ym_usage :: pi_usage

text \<open>A dialog of an extension; \<open>PiCompaction\<close> has the tokens before and after, if anything was compacted.\<close>

record pi_dialog =
  yd_id :: string
  yd_method :: string
  yd_title :: string
  yd_message :: string
  yd_placeholder :: string
  yd_prefill :: string
  yd_options :: "string list option"

datatype pi_line =
    AgentStart
  | MessageStart string
  | MessageUpdate string int string
  | MessageEnd pi_message
  | ToolExecutionStart string string raw_message
  | ToolExecutionEnd string bool "(string \<times> string) list"
  | PiCompaction string bool "(int \<times> int) option"
  | AgentSettled
  | UIRequest pi_dialog
  | OtherLine

section \<open>The session\<close>

datatype pi_frame =
    PiPromptFrame string "(string \<times> string) list"
  | PiAbort
  | PiSetModel string string
  | PiThinking string
  | DialogCancelled string
  | DialogConfirmed string bool
  | DialogValue string string

text \<open>
  \<open>pz_gone\<close> says that the process's output has ended, \<open>pz_over\<close> that the exit watcher has closed the
  events, \<open>pz_closed\<close> that \<open>Close\<close> was called.
\<close>

record pi_session =
  pz_turnID :: string
  pz_msgSeq :: nat
  pz_lastStop :: string
  pz_lastErr :: string
  pz_totals :: pi_usage
  pz_contextWindow :: int
  pz_stderrTail :: "string list"
  pz_events :: "event_body list"
  pz_sent :: "pi_frame list"
  pz_gone :: bool
  pz_over :: bool
  pz_closed :: bool
  pz_tick :: nat

text \<open>
  Fresh ids, whether a closed session's event still goes through, the \<open>float64\<close> percentage, and the
  bytes of a file where they can be read.
\<close>

record pi_world =
  yw_uuid :: "nat \<Rightarrow> string"
  yw_keep :: "nat \<Rightarrow> bool"
  yw_percent :: "int \<Rightarrow> int \<Rightarrow> rat"
  yw_file :: "nat \<Rightarrow> string \<Rightarrow> string option"

definition pi_tick :: "pi_session \<Rightarrow> pi_session" where
  "pi_tick s = s\<lparr>pz_tick := Suc (pz_tick s)\<rparr>"

definition pi_emit :: "pi_world \<Rightarrow> event_body \<Rightarrow> pi_session \<Rightarrow> pi_session" where
  "pi_emit w e s =
     (if pz_over s then s
      else if pz_closed s \<and> \<not> yw_keep w (pz_tick s) then pi_tick s
      else (pi_tick s)\<lparr>pz_events := pz_events s @ [e]\<rparr>)"

definition pi_send :: "pi_frame \<Rightarrow> pi_session \<Rightarrow> pi_session" where
  "pi_send f s = s\<lparr>pz_sent := pz_sent s @ [f]\<rparr>"

definition no_usage :: pi_usage where
  "no_usage = \<lparr>yu_input = 0, yu_output = 0, yu_cacheRead = 0, yu_cacheWrite = 0, yu_totalTokens = 0, yu_cost = 0\<rparr>"

text \<open>The end of \<open>CreateSession\<close>: what \<open>get_state\<close> reported, the window being zero where no model is set.\<close>

definition pi_start :: "pi_world \<Rightarrow> string \<Rightarrow> int \<Rightarrow> pi_session" where
  "pi_start w sessionID window =
     pi_emit w (ThreadConfigChanged \<lparr>cc_replaceSettings = False, cc_model = [], cc_mode = [],
         cc_effort = None, cc_title = [], cc_harnessSessionID = sessionID\<rparr>)
       \<lparr>pz_turnID = [], pz_msgSeq = 0, pz_lastStop = [], pz_lastErr = [], pz_totals = no_usage,
        pz_contextWindow = window, pz_stderrTail = [], pz_events = [], pz_sent = [], pz_gone = False,
        pz_over = False, pz_closed = False, pz_tick = 0\<rparr>"

section \<open>Failures\<close>

definition pi_authNeedles :: "string list" where
  "pi_authNeedles =
     [''no api key'', ''provider is not configured'', ''credentials_not_configured'', ''invalid api key'',
      ''authentication'', ''unauthorized'', ''oauth token'', ''status 401'', '' 401 '']"

definition failureKind :: "string \<Rightarrow> string" where
  "failureKind msg = (if list_ex (\<lambda>n. contains_text n (lower_text msg)) pi_authNeedles then FailureAuth else [])"

definition classify :: "string \<Rightarrow> harness_error" where
  "classify e = \<lparr>he_message = e, he_failure = failureKind e\<rparr>"

section \<open>What the actor asks for\<close>

text \<open>\<open>base64.StdEncoding\<close>: three bytes are four digits, the last group padded.\<close>

definition base64_digit :: "nat \<Rightarrow> char" where
  "base64_digit n =
     (''ABCDEFGHIJKLMNOPQRSTUVWXYZabcdefghijklmnopqrstuvwxyz0123456789+/'' ! (n mod 64))"

fun base64 :: "string \<Rightarrow> string" where
  "base64 [] = []"
| "base64 [a] =
     (let n = of_char a * 65536 in [base64_digit (n div 262144), base64_digit (n div 4096), CHR ''='', CHR ''=''])"
| "base64 [a, b] =
     (let n = of_char a * 65536 + of_char b * 256
      in [base64_digit (n div 262144), base64_digit (n div 4096), base64_digit (n div 64), CHR ''=''])"
| "base64 (a # b # c # s) =
     (let n = of_char a * 65536 + of_char b * 256 + of_char c
      in [base64_digit (n div 262144), base64_digit (n div 4096), base64_digit (n div 64), base64_digit n] @ base64 s)"

text \<open>The images read, up to the first that cannot be.\<close>

fun read_images :: "pi_world \<Rightarrow> nat \<Rightarrow> prompt_image list \<Rightarrow> string + (string \<times> string) list" where
  "read_images w n [] = Inr []"
| "read_images w n (i # is) =
     (case yw_file w n (im_path i) of
        None \<Rightarrow> Inl (im_path i)
      | Some bytes \<Rightarrow>
          (case read_images w (Suc n) is of
             Inl p \<Rightarrow> Inl p
           | Inr rest \<Rightarrow> Inr ((base64 bytes, im_mediaType i) # rest)))"

definition clearTurn :: "string \<Rightarrow> pi_session \<Rightarrow> pi_session" where
  "clearTurn turn s = (if pz_turnID s = turn then s\<lparr>pz_turnID := []\<rparr> else s)"

datatype pi_refusal =
    PiResumedWork
  | UnreadableImage string
  | NoProvider string

text \<open>\<open>Prompt\<close> up to its call; the response, where it is an error, takes the turn back.\<close>

definition pi_Prompt :: "pi_world \<Rightarrow> string \<Rightarrow> string \<Rightarrow> prompt_image list \<Rightarrow> pi_session \<Rightarrow> pi_refusal option \<times> pi_session" where
  "pi_Prompt w turn text images s =
     (if pz_turnID s \<noteq> [] \<and> pz_turnID s \<noteq> turn then (Some PiResumedWork, s)
      else
        let s1 = (pi_tick s)\<lparr>pz_turnID := turn\<rparr>
        in case SplitAttachments images of
             (attached, documents) \<Rightarrow>
               (case read_images w (pz_tick s) attached of
                  Inl p \<Rightarrow> (Some (UnreadableImage p), clearTurn turn s1)
                | Inr data \<Rightarrow> (None, pi_send (PiPromptFrame (WithDocumentPaths text documents) data) s1)))"

definition pi_prompt_answered :: "string \<Rightarrow> string option \<Rightarrow> pi_session \<Rightarrow> harness_error option \<times> pi_session" where
  "pi_prompt_answered turn e s =
     (case e of None \<Rightarrow> (None, s) | Some m \<Rightarrow> (Some (classify m), clearTurn turn s))"

definition pi_cancel :: "pi_session \<Rightarrow> pi_session" where
  "pi_cancel s = (if pz_turnID s = [] then s else pi_send PiAbort s)"

text \<open>A model is named \<open>provider/model\<close>, cut at the first slash.\<close>

definition pi_model_parts :: "string \<Rightarrow> (string \<times> string) option" where
  "pi_model_parts model =
     map_option (\<lambda>i. (take i model, drop (Suc i) model)) (first_index (CHR ''/'') model)"

definition pi_SetModel :: "string \<Rightarrow> pi_session \<Rightarrow> pi_refusal option \<times> pi_session" where
  "pi_SetModel model s =
     (case pi_model_parts model of
        None \<Rightarrow> (Some (NoProvider model), s)
      | Some (provider, modelID) \<Rightarrow> (None, pi_send (PiSetModel provider modelID) s))"

definition pi_model_answered :: "string + int \<Rightarrow> pi_session \<Rightarrow> pi_session" where
  "pi_model_answered r s = (case r of Inl e \<Rightarrow> s | Inr window \<Rightarrow> s\<lparr>pz_contextWindow := window\<rparr>)"

section \<open>Turns\<close>

definition pi_finished :: "string \<Rightarrow> string \<Rightarrow> string \<Rightarrow> string \<Rightarrow> event_body" where
  "pi_finished turn stop err failure =
     TurnFinished \<lparr>tf_turnID = turn, tf_stopReason = stop, tf_error = err, tf_failure = failure\<rparr>"

definition pi_watchExit :: "pi_world \<Rightarrow> pi_session \<Rightarrow> pi_session" where
  "pi_watchExit w s =
     (let tail = join_with (CHR 0x0A) (pz_stderrTail s); s1 = s\<lparr>pz_turnID := []\<rparr>;
          msg = (if tail = [] then ''harness exited'' else ''harness exited: '' @ tail)
      in (if pz_turnID s = [] then s1
          else pi_emit w (pi_finished (pz_turnID s) StopError msg (failureKind tail)) s1)\<lparr>pz_over := True\<rparr>)"

text \<open>The last five lines of the error output that are not blank.\<close>

definition drainStderr :: "string \<Rightarrow> pi_session \<Rightarrow> pi_session" where
  "drainStderr raw s =
     (let line = trim_space raw; tail = pz_stderrTail s @ [line]
      in if line = [] then s else s\<lparr>pz_stderrTail := (if length tail > 5 then tl tail else tail)\<rparr>)"

definition pi_ensureTurn :: "pi_world \<Rightarrow> pi_session \<Rightarrow> pi_session" where
  "pi_ensureTurn w s =
     (if pz_turnID s \<noteq> [] then s
      else
        let i = yw_uuid w (pz_tick s)
        in pi_emit w (TurnStarted \<lparr>ts_turnID = i, ts_prompt = [], ts_images = [], ts_recovery = None, ts_queueID = []\<rparr>)
             ((pi_tick s)\<lparr>pz_turnID := i\<rparr>))"

definition pi_outcome :: "string \<Rightarrow> string \<Rightarrow> string \<times> string \<times> string" where
  "pi_outcome stop err =
     (if stop = ''aborted'' then (StopCancelled, err, [])
      else if stop = ''length'' then (StopMaxTokens, err, [])
      else if stop = ''error'' then (StopError, err, failureKind err)
      else (StopEndTurn, [], []))"

definition finishTurn :: "pi_world \<Rightarrow> pi_session \<Rightarrow> pi_session" where
  "finishTurn w s =
     (let s1 = s\<lparr>pz_turnID := [], pz_lastStop := [], pz_lastErr := []\<rparr>
      in if pz_turnID s = [] then s1
         else case pi_outcome (pz_lastStop s) (pz_lastErr s) of
                (stop, err, failure) \<Rightarrow> pi_emit w (pi_finished (pz_turnID s) stop err failure) s1)"

section \<open>Tools\<close>

definition pi_firstLine :: "string \<Rightarrow> string" where
  "pi_firstLine s =
     (let t = trim_space s
      in case first_index (CHR 0x0A) t of None \<Rightarrow> t | Some i \<Rightarrow> take i t @ '' '' @ ellipsis)"

definition pi_toolKind :: "string \<Rightarrow> string" where
  "pi_toolKind name =
     (if name = ''read'' then KindRead
      else if name \<in> {''edit'', ''write'', ''multi_edit'', ''multiedit''} then KindEdit
      else if name \<in> {''bash'', ''powershell''} then KindExecute
      else if name \<in> {''grep'', ''glob'', ''find'', ''ls'', ''rg''} then KindSearch
      else KindOther)"

text \<open>A text field of a decoded struct: the last member of that name that is a text sets it.\<close>

definition text_field :: "raw_message \<Rightarrow> string \<Rightarrow> string" where
  "text_field r k =
     (case r of
        Some (JObj ms) \<Rightarrow>
          (case last_match (\<lambda>m. equal_fold (fst m) k \<and> (case snd m of JStr t \<Rightarrow> True | _ \<Rightarrow> False)) ms of
             Some (_, JStr t) \<Rightarrow> t | _ \<Rightarrow> [])
      | _ \<Rightarrow> [])"

definition pi_toolTitle :: "string \<Rightarrow> raw_message \<Rightarrow> string" where
  "pi_toolTitle name args =
     (if text_field args ''command'' \<noteq> [] then pi_firstLine (text_field args ''command'')
      else if text_field args ''path'' \<noteq> [] then name @ '' '' @ text_field args ''path''
      else if text_field args ''file_path'' \<noteq> [] then name @ '' '' @ text_field args ''file_path''
      else if text_field args ''pattern'' \<noteq> [] then name @ '': '' @ text_field args ''pattern''
      else name)"

definition toolItemID :: "string \<Rightarrow> string \<Rightarrow> string" where
  "toolItemID turn toolCallID = turn @ '':'' @ toolCallID"

section \<open>Events\<close>

text \<open>The id of a block: its turn, the message within the process, the block within the message.\<close>

definition pi_block :: "string \<Rightarrow> nat \<Rightarrow> int \<Rightarrow> string" where
  "pi_block turn seq index = turn @ '':m'' @ format_int (int seq) @ ''.b'' @ format_int index"

definition handleMessageUpdate :: "pi_world \<Rightarrow> string \<Rightarrow> int \<Rightarrow> string \<Rightarrow> pi_session \<Rightarrow> pi_session" where
  "handleMessageUpdate w typ index delta s =
     (if typ \<notin> {''text_delta'', ''thinking_delta''} \<or> delta = [] then s
      else
        let s1 = pi_ensureTurn w s; turn = pz_turnID s1
        in pi_emit w (MessageChunk \<lparr>mc_turnID = turn, mc_role = ''agent'',
             mc_kind = (if typ = ''text_delta'' then ''text'' else ''thought''),
             mc_blockID = pi_block turn (pz_msgSeq s1) index, mc_delta = delta, mc_parentToolCallID = []\<rparr>) s1)"

definition contextTokens :: "pi_usage \<Rightarrow> int" where
  "contextTokens u =
     (if yu_totalTokens u > 0 then yu_totalTokens u
      else yu_input u + yu_output u + yu_cacheRead u + yu_cacheWrite u)"

definition add_usage :: "pi_usage \<Rightarrow> pi_usage \<Rightarrow> pi_usage" where
  "add_usage t u =
     \<lparr>yu_input = yu_input t + yu_input u, yu_output = yu_output t + yu_output u,
      yu_cacheRead = yu_cacheRead t + yu_cacheRead u, yu_cacheWrite = yu_cacheWrite t + yu_cacheWrite u,
      yu_totalTokens = yu_totalTokens t, yu_cost = yu_cost t + yu_cost u\<rparr>"

definition handleMessageEnd :: "pi_world \<Rightarrow> pi_message \<Rightarrow> pi_session \<Rightarrow> pi_session" where
  "handleMessageEnd w m s =
     (if ym_role m \<noteq> ''assistant'' then s
      else
        let t = add_usage (pz_totals s) (ym_usage m); used = contextTokens (ym_usage m); window = pz_contextWindow s
        in pi_emit w (UsageUpdated (zero_usage\<lparr>us_input := yu_input t, us_output := yu_output t,
               us_cacheRead := yu_cacheRead t, us_cacheWrite := yu_cacheWrite t, us_cost := yu_cost t,
               us_contextUsed := used, us_contextWindow := window,
               us_contextPct := (if used > 0 \<and> window > 0 then yw_percent w used window else 0)\<rparr>))
             (s\<lparr>pz_lastStop := ym_stopReason m, pz_lastErr := ym_errorMessage m, pz_totals := t\<rparr>))"

definition pi_tool_started :: "pi_world \<Rightarrow> string \<Rightarrow> string \<Rightarrow> raw_message \<Rightarrow> pi_session \<Rightarrow> pi_session" where
  "pi_tool_started w i name args s =
     (let s1 = pi_ensureTurn w s; turn = pz_turnID s1
      in pi_emit w (ToolCallStarted \<lparr>cs_turnID = turn, cs_toolCallID = toolItemID turn i, cs_kind = pi_toolKind name,
           cs_title = pi_toolTitle name args, cs_status = StatusInProgress, cs_rawInput = args,
           cs_parentToolCallID = []\<rparr>) s1)"

definition pi_tool_ended :: "pi_world \<Rightarrow> string \<Rightarrow> bool \<Rightarrow> (string \<times> string) list \<Rightarrow> pi_session \<Rightarrow> pi_session" where
  "pi_tool_ended w i isError content s =
     pi_emit w (ToolCallUpdated \<lparr>cu_toolCallID = toolItemID (pz_turnID s) i,
       cu_status = (if isError then StatusFailed else StatusCompleted), cu_title = [],
       cu_content = map (\<lambda>c. \<lparr>tn_type = ''text'', tn_text = snd c, tn_path = [], tn_old = [], tn_new = []\<rparr>)
         (filter (\<lambda>c. fst c = ''text'' \<and> snd c \<noteq> []) content),
       cu_rawInput = None, cu_parentToolCallID = []\<rparr>) s"

definition pi_compacted :: "pi_world \<Rightarrow> string \<Rightarrow> bool \<Rightarrow> (int \<times> int) option \<Rightarrow> pi_session \<Rightarrow> pi_session" where
  "pi_compacted w reason aborted result s =
     (case result of
        None \<Rightarrow> s
      | Some (before, after) \<Rightarrow>
          if aborted then s
          else pi_emit w (ContextCompacted \<lparr>cp_trigger = (if reason = ''manual'' then ''manual'' else ''auto''),
                 cp_preTokens = before, cp_postTokens = after\<rparr>) s)"

definition handleEvent :: "pi_world \<Rightarrow> pi_line \<Rightarrow> pi_session \<Rightarrow> pi_session" where
  "handleEvent w l s =
     (case l of
        AgentStart \<Rightarrow> pi_ensureTurn w s
      | MessageStart role \<Rightarrow> if role = ''assistant'' then s\<lparr>pz_msgSeq := Suc (pz_msgSeq s)\<rparr> else s
      | MessageUpdate typ index delta \<Rightarrow> handleMessageUpdate w typ index delta s
      | MessageEnd m \<Rightarrow> handleMessageEnd w m s
      | ToolExecutionStart i name args \<Rightarrow> pi_tool_started w i name args s
      | ToolExecutionEnd i isError content \<Rightarrow> pi_tool_ended w i isError content s
      | PiCompaction reason aborted result \<Rightarrow> pi_compacted w reason aborted result s
      | AgentSettled \<Rightarrow> finishTurn w s
      | UIRequest d \<Rightarrow> s
      | OtherLine \<Rightarrow> s)"

section \<open>Dialogs\<close>

text \<open>
  The dialogs a human is asked (\<open>handleUIRequest\<close>): what is shown, and the answer the extension gets.
  The members of an object are in the order in which they are marshalled, by name.
\<close>

definition is_dialog :: "pi_dialog \<Rightarrow> bool" where
  "is_dialog d \<longleftrightarrow> yd_method d \<in> {''select'', ''confirm'', ''input'', ''editor''}"

definition dialog_field :: "pi_dialog \<Rightarrow> json" where
  "dialog_field d =
     JObj ((if yd_method d = ''select'' then [(''enum'', case yd_options d of None \<Rightarrow> JNull | Some os \<Rightarrow> JArr (map JStr os))]
            else if yd_method d = ''confirm'' then [(''enum'', JArr [JStr ''Yes'', JStr ''No''])]
            else if yd_method d = ''input'' \<and> yd_placeholder d \<noteq> [] then [(''description'', JStr (yd_placeholder d))]
            else if yd_method d = ''editor'' \<and> yd_prefill d \<noteq> [] then [(''default'', JStr (yd_prefill d))]
            else [])
           @ [(''title'', JStr (yd_title d)), (''type'', JStr ''string'')])"

definition dialog_question :: "pi_dialog \<Rightarrow> pi_session \<Rightarrow> question_request" where
  "dialog_question d s =
     \<lparr>qr_turnID = pz_turnID s,
      qr_prompt = (if yd_message d = [] then yd_title d else trim_space (yd_title d @ CHR 0x0A # yd_message d)),
      qr_schema = Some (JObj [(''properties'', JObj [(''value'', dialog_field d)]),
                              (''required'', JArr [JStr ''value'']), (''type'', JStr ''object'')])\<rparr>"

definition elicitUIRequest :: "pi_dialog \<Rightarrow> string + elicitation_result \<Rightarrow> pi_frame" where
  "elicitUIRequest d r =
     (case r of
        Inl e \<Rightarrow> DialogCancelled (yd_id d)
      | Inr u \<Rightarrow>
          if er_action u \<noteq> ''accept'' then DialogCancelled (yd_id d)
          else let v = text_field (er_value u) ''value''
               in if yd_method d = ''confirm'' then DialogConfirmed (yd_id d) (v = ''Yes'') else DialogValue (yd_id d) v)"

section \<open>Steps\<close>

datatype pi_input =
    PiPrompt string string "prompt_image list"
  | PiPromptAnswer string "string option"
  | PiCancel
  | PiModel string
  | PiModelAnswer "string + int"
  | PiEffort string
  | PiDialogAnswer pi_dialog "string + elicitation_result"
  | PiStderr string
  | PiClose
  | PiLine pi_line
  | PiGone
  | PiExit

fun pi_step :: "pi_world \<Rightarrow> pi_input \<Rightarrow> pi_session \<Rightarrow> pi_session" where
  "pi_step w (PiPrompt turn text images) s = snd (pi_Prompt w turn text images s)"
| "pi_step w (PiPromptAnswer turn e) s = snd (pi_prompt_answered turn e s)"
| "pi_step w PiCancel s = pi_cancel s"
| "pi_step w (PiModel model) s = snd (pi_SetModel model s)"
| "pi_step w (PiModelAnswer r) s = pi_model_answered r s"
| "pi_step w (PiEffort effort) s = pi_send (PiThinking effort) s"
| "pi_step w (PiDialogAnswer d r) s = (if is_dialog d then pi_send (elicitUIRequest d r) s else s)"
| "pi_step w (PiStderr line) s = drainStderr line s"
| "pi_step w PiClose s = s\<lparr>pz_closed := True\<rparr>"
| "pi_step w (PiLine l) s = (if pz_gone s then s else handleEvent w l s)"
| "pi_step w PiGone s = s\<lparr>pz_gone := True\<rparr>"
| "pi_step w PiExit s = (if pz_gone s \<and> \<not> pz_over s then pi_watchExit w s else s)"

end
