(* ===== verification/PiProps.thy ===== *)
theory PiProps
  imports Pi
begin

text \<open>
  What the Pi session keeps: it is a source of turns (\<open>turn_source\<close>), the blocks of two messages
  never share an id, and the reported usage is the sum over the messages.
\<close>

section \<open>What handlers say\<close>

definition pi_plain :: "string \<Rightarrow> event_body \<Rightarrow> bool" where
  "pi_plain t e \<longleftrightarrow> finished_turn e = [] \<and> (turn_of e = None \<or> turn_of e = Some t \<and> t \<noteq> [])"

text \<open>What may open a turn and then speaks of the open one.\<close>

definition pi_speaks :: "pi_session \<Rightarrow> pi_session \<Rightarrow> bool" where
  "pi_speaks s s' \<longleftrightarrow> pz_gone s' = pz_gone s \<and> pz_over s' = pz_over s \<and> pz_closed s' = pz_closed s
     \<and> (pz_turnID s' = pz_turnID s \<or> pz_turnID s = [])
     \<and> (\<exists>es. pz_events s' = pz_events s @ es \<and> list_all (pi_plain (pz_turnID s')) es)"

named_theorems pi_intro \<open>handlers that speak of the open turn\<close>

lemma pi_speaks_refl [pi_intro]: "pi_speaks s s"
  by (simp add: pi_speaks_def)

lemma pi_plain_any: "pi_plain [] e \<Longrightarrow> pi_plain t e"
  by (auto simp: pi_plain_def)

lemma pi_speaks_trans: "pi_speaks a b \<Longrightarrow> pi_speaks b c \<Longrightarrow> pi_speaks a c"
  by (auto simp: pi_speaks_def list_all_iff dest!: pi_plain_any)

lemma pi_speaks_emit [pi_intro]: "pi_speaks a s \<Longrightarrow> pi_plain (pz_turnID s) e \<Longrightarrow> pi_speaks a (pi_emit w e s)"
  by (auto simp: pi_speaks_def pi_emit_def pi_tick_def)

lemma pi_speaks_fields [pi_intro]:
  "pi_speaks a s \<Longrightarrow> pi_speaks a (s\<lparr>pz_msgSeq := x1\<rparr>)"
  "pi_speaks a s \<Longrightarrow> pi_speaks a (s\<lparr>pz_lastStop := x2, pz_lastErr := x3, pz_totals := x4\<rparr>)"
  by (simp_all add: pi_speaks_def)

lemma pi_emit_fields [simp]:
  "pz_turnID (pi_emit w e s) = pz_turnID s" "pz_over (pi_emit w e s) = pz_over s"
  "pz_gone (pi_emit w e s) = pz_gone s" "pz_closed (pi_emit w e s) = pz_closed s"
  "pz_msgSeq (pi_emit w e s) = pz_msgSeq s" "pz_totals (pi_emit w e s) = pz_totals s"
  by (simp_all add: pi_emit_def pi_tick_def)

lemma pi_emit_open [simp]:
  "\<not> pz_over s \<Longrightarrow> \<not> pz_closed s \<Longrightarrow> pz_events (pi_emit w e s) = pz_events s @ [e]"
  by (simp add: pi_emit_def pi_tick_def)

definition pi_ids :: "pi_world \<Rightarrow> bool" where
  "pi_ids w \<longleftrightarrow> (\<forall>n. yw_uuid w n \<noteq> [])"

lemma pi_ensured:
  assumes "pi_ids w"
  shows "pz_turnID (pi_ensureTurn w s) \<noteq> []" and "pi_speaks s (pi_ensureTurn w s)"
    and "pz_msgSeq (pi_ensureTurn w s) = pz_msgSeq s" and "pz_totals (pi_ensureTurn w s) = pz_totals s"
  using assms
  by (auto simp: pi_ensureTurn_def Let_def pi_ids_def pi_tick_def pi_speaks_def pi_plain_def pi_emit_def)

lemma pi_speaks_tool [pi_intro]:
  assumes "pi_ids w"
  shows "pi_speaks s (pi_tool_started w i name args s)" and "pi_speaks s (pi_tool_ended w i isError content s)"
  using pi_ensured [OF assms, of s]
  by (auto simp: pi_tool_started_def pi_tool_ended_def Let_def pi_plain_def intro!: pi_intro)

lemma pi_speaks_update [pi_intro]:
  assumes "pi_ids w"
  shows "pi_speaks s (handleMessageUpdate w typ index delta s)"
  using pi_ensured [OF assms, of s]
  by (auto simp: handleMessageUpdate_def Let_def pi_plain_def intro!: pi_intro)

lemma pi_speaks_event:
  assumes "pi_ids w" and "l \<noteq> AgentSettled"
  shows "pi_speaks s (handleEvent w l s)"
  using assms pi_ensured(2) [OF assms(1), of s]
  by (cases l) (auto simp: handleEvent_def handleMessageEnd_def pi_compacted_def pi_plain_def Let_def
      intro!: pi_intro split: option.split)

section \<open>A source of turns\<close>

definition pi_good :: "pi_world \<Rightarrow> pi_session \<Rightarrow> bool" where
  "pi_good w s \<longleftrightarrow> pi_ids w \<and> \<not> pz_closed s \<and> (pz_over s \<longrightarrow> pz_gone s)"

definition pi_fair :: "pi_input \<Rightarrow> bool" where
  "pi_fair i \<longleftrightarrow> i \<noteq> PiClose"

text \<open>
  What gives the open turn back: an error response to its prompt, or a prompt of its own which the
  session answers with an error because an image cannot be read.
\<close>

fun pi_refused :: "pi_world \<Rightarrow> pi_input \<Rightarrow> pi_session \<Rightarrow> bool" where
  "pi_refused w (PiPrompt turn text images) s = (pz_turnID s = turn \<and> fst (pi_Prompt w turn text images s) \<noteq> None)"
| "pi_refused w (PiPromptAnswer turn (Some m)) s = (pz_turnID s = turn)"
| "pi_refused w _ s = False"

definition pi_source :: "bool \<Rightarrow> pi_session \<Rightarrow> pi_session \<Rightarrow> bool" where
  "pi_source r s s' \<longleftrightarrow> \<not> pz_closed s' \<and> (pz_over s' \<longrightarrow> pz_gone s')
     \<and> (pz_turnID s \<noteq> [] \<longrightarrow> pz_turnID s' = [] \<longrightarrow> (finished_in (pz_events s') = finished_in (pz_events s) \<longleftrightarrow> r))
     \<and> (r \<longrightarrow> pz_turnID s \<noteq> [] \<longrightarrow> pz_turnID s' = [])
     \<and> ledger_step (finished_in (pz_events s), pz_turnID s) (finished_in (pz_events s'), pz_turnID s')
     \<and> (\<exists>es. pz_events s' = pz_events s @ es \<and> list_all (speaks_of (pz_turnID s) (pz_turnID s')) es)"

lemma pi_plain_finished: "list_all (pi_plain t) es \<Longrightarrow> finished_in es = []"
  by (induction es) (simp_all add: pi_plain_def)

lemma pi_plain_speaks: "pi_plain t e \<Longrightarrow> speaks_of u t e"
  by (auto simp: pi_plain_def speaks_of_def)

lemma pi_source_speaks:
  assumes "pi_speaks s s'" and "\<not> pz_closed s" and "\<not> pz_over s"
  shows "pi_source False s s'"
proof -
  obtain es where es: "pz_events s' = pz_events s @ es" "list_all (pi_plain (pz_turnID s')) es"
    using assms(1) by (auto simp: pi_speaks_def)
  with pi_plain_finished [OF es(2)] assms show ?thesis
    by (auto simp: pi_source_def pi_speaks_def ledger_step_simps list_all_iff pi_plain_speaks)
qed

lemma pi_source_same:
  assumes "pi_good w s" and "pz_events s' = pz_events s" and "pz_closed s' = pz_closed s"
    and "pz_over s' = pz_over s" and "pz_gone s \<longrightarrow> pz_gone s'"
    and "if r then pz_turnID s' = [] else pz_turnID s' = pz_turnID s \<or> pz_turnID s = []"
  shows "pi_source r s s'"
  using assms by (auto simp: pi_source_def pi_good_def ledger_step_simps split: if_splits)

lemma pi_source_finish:
  assumes "\<not> pz_closed s'" and "pz_over s' \<longrightarrow> pz_gone s'" and "pz_turnID s' = []" and "pz_turnID s \<noteq> []"
    and "pz_events s' = pz_events s @ [pi_finished (pz_turnID s) stop err failure]"
  shows "pi_source False s s'"
  using assms by (simp add: pi_source_def pi_finished_def ledger_step_simps speaks_of_def)

lemma pi_source_settled:
  assumes "pi_good w s" and "\<not> pz_over s"
  shows "pi_source False s (finishTurn w s)"
proof -
  let ?s1 = "s\<lparr>pz_turnID := [], pz_lastStop := [], pz_lastErr := []\<rparr>"
  obtain stop err failure where o: "pi_outcome (pz_lastStop s) (pz_lastErr s) = (stop, err, failure)"
    by (metis prod_cases3)
  have idle: "pi_source False s ?s1" if "pz_turnID s = []"
    by (rule pi_source_same [OF assms(1)]) (simp_all add: that)
  have over: "pi_source False s (pi_emit w (pi_finished (pz_turnID s) stop err failure) ?s1)" if "pz_turnID s \<noteq> []"
    using assms that by (intro pi_source_finish) (simp_all add: pi_good_def)
  from idle over show ?thesis by (simp add: finishTurn_def o Let_def)
qed

text \<open>A request, a response or a line of the error output says nothing itself.\<close>

fun pi_request :: "pi_input \<Rightarrow> bool" where
  "pi_request (PiLine l) = False"
| "pi_request PiExit = False"
| "pi_request PiClose = False"
| "pi_request i = True"

lemma pi_requests:
  assumes "pi_request i"
  shows "pz_events (pi_step w i s) = pz_events s \<and> pz_closed (pi_step w i s) = pz_closed s
    \<and> pz_over (pi_step w i s) = pz_over s \<and> (pz_gone s \<longrightarrow> pz_gone (pi_step w i s))
    \<and> pz_msgSeq (pi_step w i s) = pz_msgSeq s \<and> pz_totals (pi_step w i s) = pz_totals s
    \<and> (if pi_refused w i s then pz_turnID (pi_step w i s) = []
       else pz_turnID (pi_step w i s) = pz_turnID s \<or> pz_turnID s = [])"
proof (cases i)
  case (PiPrompt turn said images)
  obtain a d where sp: "SplitAttachments images = (a, d)" by force
  show ?thesis
    by (cases "read_images w (pz_tick s) a")
      (simp_all add: PiPrompt pi_Prompt_def Let_def sp pi_tick_def pi_send_def clearTurn_def)
next
  case (PiPromptAnswer turn e)
  then show ?thesis by (cases e) (simp_all add: pi_prompt_answered_def clearTurn_def)
next
  case (PiModel model)
  then show ?thesis by (cases "pi_model_parts model") (simp_all add: pi_SetModel_def pi_send_def case_prod_beta)
next
  case (PiModelAnswer r)
  then show ?thesis by (cases r) (simp_all add: pi_model_answered_def)
qed (use assms in \<open>simp_all add: pi_cancel_def pi_send_def drainStderr_def Let_def\<close>)

lemma pi_source_input:
  assumes good: "pi_good w s" and i: "pi_fair i"
  shows "pi_source (pi_refused w i s) s (pi_step w i s)"
proof (cases i)
  case (PiLine l)
  show ?thesis
  proof (cases "pz_gone s")
    case False
    then have live: "\<not> pz_over s" "\<not> pz_closed s" "pi_ids w" using good by (auto simp: pi_good_def)
    show ?thesis
    proof (cases "l = AgentSettled")
      case True
      then show ?thesis using pi_source_settled [OF good live(1)] False by (simp add: PiLine handleEvent_def)
    next
      case other: False
      from pi_source_speaks [OF pi_speaks_event [OF live(3) other] live(2,1)] False show ?thesis by (simp add: PiLine)
    qed
  qed (simp add: PiLine pi_source_same [OF good])
next
  case PiExit
  show ?thesis
  proof (cases "pz_gone s \<and> \<not> pz_over s \<and> pz_turnID s \<noteq> []")
    case True
    then show ?thesis
      using good by (auto simp: PiExit pi_watchExit_def Let_def pi_good_def intro!: pi_source_finish)
  next
    case False
    have "pi_source False s (s\<lparr>pz_turnID := [], pz_over := True\<rparr>)" if "pz_gone s" and "pz_turnID s = []"
      using good that by (simp add: pi_source_def pi_good_def ledger_step_simps)
    with False show ?thesis
      by (auto simp: PiExit pi_watchExit_def Let_def intro!: pi_source_same [OF good])
  qed
qed (use pi_requests [of i w s] i good in \<open>auto simp: pi_fair_def intro!: pi_source_same [OF good]\<close>)

interpretation pi_turns: turn_source "pi_step w" pz_events pz_turnID "pi_good w" pi_fair "pi_refused w" for w
proof
  fix s i
  assume good: "pi_good w s" and i: "pi_fair i"
  from pi_source_input [OF good i]
  show "pi_good w (pi_step w i s)"
    and "ledger_step (finished_in (pz_events s), pz_turnID s) (finished_in (pz_events (pi_step w i s)), pz_turnID (pi_step w i s))"
    and "\<exists>es. pz_events (pi_step w i s) = pz_events s @ es \<and> list_all (speaks_of (pz_turnID s) (pz_turnID (pi_step w i s))) es"
    and "pz_turnID s \<noteq> [] \<Longrightarrow> pz_turnID (pi_step w i s) = []
      \<Longrightarrow> (finished_in (pz_events (pi_step w i s)) = finished_in (pz_events s)) = pi_refused w i s"
    and "pi_refused w i s \<Longrightarrow> pz_turnID s \<noteq> [] \<Longrightarrow> pz_turnID (pi_step w i s) = []"
    using good by (simp_all add: pi_source_def pi_good_def)
qed

text \<open>
  C7: whatever Pi writes and whichever prompts it refuses, a Pi session that is not asked to close
  reports the end of the turns it opened or was given exactly once each and in order, but for the one
  still open; the only turns without an end are those whose prompt was answered with an error, by Pi
  or because an image could not be read, while they were open.  It speaks of a turn only where that
  turn was open at some moment of the run, and never of a turn without an id.
\<close>

theorem pi_turns_in_order:
  assumes "pi_ids w" and "list_all pi_fair is" and "s0 = pi_start w sessionID window" and "s = fold (pi_step w) is s0"
  shows "turns_kept (pi_step w) pz_turnID (pi_refused w) is s0 []
      = finished_in (pz_events s) @ turn_list (pz_turnID s)
    \<and> list_all (\<lambda>e. turn_of e \<noteq> Some []) (pz_events s)
    \<and> (if u \<in> pz_turnID ` set (visited (pi_step w) is s0) then True
       else list_all (\<lambda>e. turn_of e \<noteq> Some u) (pz_events s))"
proof -
  have start: "pi_good w s0" "finished_in (pz_events s0) = []" "pz_turnID s0 = []"
      "list_all (\<lambda>e. turn_of e = None) (pz_events s0)"
    using assms(1) by (simp_all add: assms(3) pi_start_def pi_good_def)
  have "list_all (\<lambda>e. turn_of e \<noteq> Some []) (pz_events s)"
    using pi_turns.run_named [OF start(1) assms(2)] start(4) assms(4) by (auto simp: list_all_iff)
  with pi_turns.run_in_order [OF start(1) assms(2)] pi_turns.run_speaks [OF start(1) assms(2), of u] start assms(4)
  show ?thesis by (auto simp: list_all_iff)
qed

definition sample_pi :: pi_world where
  "sample_pi = \<lparr>yw_uuid = \<lambda>n. ''u'' @ replicate n CHR ''x'', yw_keep = \<lambda>n. True, yw_percent = \<lambda>a b. 0,
     yw_file = \<lambda>n p. None\<rparr>"

definition sample_pi_talk :: "pi_input list" where
  "sample_pi_talk =
     [PiPrompt ''p1'' ''go'' [], PiLine (MessageStart ''assistant''), PiLine (MessageUpdate ''text_delta'' 0 ''hi''),
      PiLine AgentSettled, PiPrompt ''p2'' ''again'' [], PiPromptAnswer ''p2'' (Some ''busy''),
      PiLine (MessageStart ''assistant''), PiLine (MessageUpdate ''text_delta'' 0 ''more''), PiGone, PiExit]"

theorem pi_turns_in_order_witness:
  "length (turns_kept (pi_step sample_pi) pz_turnID (pi_refused sample_pi) sample_pi_talk
       (pi_start sample_pi ''x1'' 0) []) = 2
   \<and> turns_kept (pi_step sample_pi) pz_turnID (pi_refused sample_pi) sample_pi_talk
       (pi_start sample_pi ''x1'' 0) []
     = finished_in (pz_events (fold (pi_step sample_pi) sample_pi_talk (pi_start sample_pi ''x1'' 0)))"
proof -
  let ?first = "pi_start sample_pi ''x1'' 0"
  have "pi_ids sample_pi" by (simp add: pi_ids_def sample_pi_def)
  moreover have "list_all pi_fair sample_pi_talk" by (simp add: sample_pi_talk_def pi_fair_def)
  ultimately have "turns_kept (pi_step sample_pi) pz_turnID (pi_refused sample_pi) sample_pi_talk ?first []
      = finished_in (pz_events (fold (pi_step sample_pi) sample_pi_talk ?first))
        @ turn_list (pz_turnID (fold (pi_step sample_pi) sample_pi_talk ?first))"
    using pi_turns_in_order [OF _ _ refl refl] by blast
  moreover have "turn_list (pz_turnID (fold (pi_step sample_pi) sample_pi_talk ?first)) = []" by code_simp
  moreover have "length (turns_kept (pi_step sample_pi) pz_turnID (pi_refused sample_pi)
      sample_pi_talk ?first []) = 2" by code_simp
  ultimately show ?thesis by simp
qed

section \<open>Blocks\<close>

lemma dec_digits_upper: "c \<in> set (dec_digits n) \<Longrightarrow> (of_char c :: nat) \<le> 57"
proof (induction n rule: less_induct)
  case (less n)
  then show ?case
    using less.IH [of "n div 10"] by (cases "n < 10") (auto simp: dec_digits_small dec_digits_large of_char_digit)
qed

lemma format_int_plain: "CHR '':'' \<notin> set (format_int i)" "CHR ''.'' \<notin> set (format_int i)"
  using dec_digits_upper [of "CHR '':''"] dec_digits_chars [of "CHR ''.''"] by (auto simp: format_int_def)

text \<open>A text cut at the last of some characters is cut in one way, and likewise at the first.\<close>

lemma cut_first: "a @ c # u = b @ c # v \<Longrightarrow> c \<notin> set a \<Longrightarrow> c \<notin> set b \<Longrightarrow> a = b \<and> u = v"
proof (induction a arbitrary: b)
  case Nil
  then show ?case by (cases b) auto
next
  case (Cons x a)
  then show ?case by (cases b) auto
qed

lemma cut_last:
  assumes "a @ c # u = b @ c # v" and "c \<notin> set u" and "c \<notin> set v"
  shows "a = b \<and> u = v"
proof -
  have "rev u @ c # rev a = rev v @ c # rev b" using arg_cong [OF assms(1), of rev] by simp
  from cut_first [OF this] assms(2,3) show ?thesis by simp
qed

lemma pi_block_inj:
  assumes "pi_block t n i = pi_block t' n' i'"
  shows "t = t' \<and> n = n' \<and> i = i'"
proof -
  have "t @ CHR '':'' # (CHR ''m'' # format_int (int n) @ CHR ''.'' # CHR ''b'' # format_int i)
      = t' @ CHR '':'' # (CHR ''m'' # format_int (int n') @ CHR ''.'' # CHR ''b'' # format_int i')"
    using assms by (simp add: pi_block_def)
  from cut_last [OF this] have t: "t = t'" and
    "format_int (int n) @ CHR ''.'' # CHR ''b'' # format_int i
      = format_int (int n') @ CHR ''.'' # CHR ''b'' # format_int i'"
    using format_int_plain by auto
  from cut_first [OF this(2)] have "format_int (int n) = format_int (int n')" "format_int i = format_int i'"
    using format_int_plain by auto
  with t show ?thesis by (auto dest!: format_int_inj)
qed

text \<open>The chunks of an event list are of messages from \<open>m\<close> to \<open>n\<close>.\<close>

fun block_within :: "nat \<Rightarrow> nat \<Rightarrow> event_body \<Rightarrow> bool" where
  "block_within m n (MessageChunk p) = (\<exists>k i. mc_blockID p = pi_block (mc_turnID p) k i \<and> m \<le> k \<and> k \<le> n)"
| "block_within m n e = True"

lemma block_own: "mc_blockID p = pi_block (mc_turnID p) n i \<Longrightarrow> block_within n n (MessageChunk p)"
  by auto

lemma block_within_mono: "block_within m n e \<Longrightarrow> m' \<le> m \<Longrightarrow> n \<le> n' \<Longrightarrow> block_within m' n' e"
  by (cases e) fastforce+

definition blocks_step :: "pi_session \<Rightarrow> pi_session \<Rightarrow> bool" where
  "blocks_step s s' \<longleftrightarrow> pz_msgSeq s \<le> pz_msgSeq s'
     \<and> (\<exists>es. pz_events s' = pz_events s @ es \<and> list_all (block_within (pz_msgSeq s) (pz_msgSeq s')) es)"

lemma blocks_same: "pz_msgSeq s \<le> pz_msgSeq s' \<Longrightarrow> pz_events s' = pz_events s \<Longrightarrow> blocks_step s s'"
  by (simp add: blocks_step_def)

lemma blocks_refl [simp]: "blocks_step s s" "blocks_step s (s\<lparr>pz_msgSeq := Suc (pz_msgSeq s)\<rparr>)"
  by (simp_all add: blocks_same)

lemma blocks_trans: "blocks_step a b \<Longrightarrow> blocks_step b c \<Longrightarrow> blocks_step a c"
  by (fastforce simp: blocks_step_def list_all_iff intro: block_within_mono)

lemma blocks_emit:
  "blocks_step a s \<Longrightarrow> block_within (pz_msgSeq s) (pz_msgSeq s) e \<Longrightarrow> blocks_step a (pi_emit w e s)"
  by (auto simp: blocks_step_def pi_emit_def pi_tick_def intro: block_within_mono)

lemma blocks_fields [simp]:
  "blocks_step a (s\<lparr>pz_turnID := x1\<rparr>) = blocks_step a s"
  "blocks_step a (s\<lparr>pz_over := x6\<rparr>) = blocks_step a s"
  "blocks_step a (s\<lparr>pz_tick := x7, pz_turnID := x1\<rparr>) = blocks_step a s"
  "blocks_step a (s\<lparr>pz_turnID := x1, pz_over := x6\<rparr>) = blocks_step a s"
  "blocks_step a (s\<lparr>pz_gone := x8\<rparr>) = blocks_step a s"
  "blocks_step a (s\<lparr>pz_tick := x7\<rparr>) = blocks_step a s"
  "blocks_step a (s\<lparr>pz_closed := x8\<rparr>) = blocks_step a s"
  "blocks_step a (s\<lparr>pz_turnID := x2, pz_lastStop := x3, pz_lastErr := x4\<rparr>) = blocks_step a s"
  "blocks_step a (s\<lparr>pz_lastStop := x3, pz_lastErr := x4, pz_totals := x5\<rparr>) = blocks_step a s"
  by (simp_all add: blocks_step_def)

lemma blocks_ensure: "blocks_step s (pi_ensureTurn w s)"
  by (auto simp: pi_ensureTurn_def Let_def pi_tick_def intro!: blocks_emit)

lemma ensure_seq: "pz_msgSeq (pi_ensureTurn w s) = pz_msgSeq s"
  by (simp add: pi_ensureTurn_def Let_def pi_tick_def)

lemma blocks_event: "blocks_step s (handleEvent w l s)"
proof (cases l)
  case (MessageUpdate kind index delta)
  then show ?thesis
    by (auto simp: handleEvent_def handleMessageUpdate_def Let_def ensure_seq simp del: block_within.simps(1)
        intro!: blocks_emit blocks_ensure block_own)
next
  case AgentSettled
  then show ?thesis
    by (auto simp: handleEvent_def finishTurn_def Let_def pi_finished_def case_prod_beta intro!: blocks_emit)
qed (auto simp: handleEvent_def handleMessageEnd_def pi_tool_started_def pi_tool_ended_def pi_compacted_def Let_def
      intro!: blocks_emit blocks_ensure split: option.split)

lemma blocks_input: "blocks_step s (pi_step w i s)"
proof (cases "pi_request i")
  case True
  then show ?thesis using pi_requests [of i w s] by (intro blocks_same) auto
next
  case False
  then show ?thesis
    by (cases i) (auto simp: blocks_event pi_watchExit_def pi_finished_def Let_def intro!: blocks_emit)
qed

lemma blocks_run: "blocks_step s (fold (pi_step w) is s)"
proof (induction "is" arbitrary: s)
  case (Cons i "is")
  from blocks_trans [OF blocks_input Cons.IH] show ?case by simp
qed (simp add: blocks_refl)

text \<open>
  C8: no two messages of a Pi process share a block: a chunk sent before the next assistant message
  starts and a chunk sent after it have different block ids, so that the fold of the log never
  appends one message's text to another.
\<close>

theorem pi_blocks_fresh:
  assumes "s = fold (pi_step w) is (pi_start w sessionID window)" and "\<not> pz_gone s"
    and "s' = fold (pi_step w) (PiLine (MessageStart ''assistant'') # js) s"
    and "MessageChunk p \<in> set (pz_events s)" and "MessageChunk q \<in> set (drop (length (pz_events s)) (pz_events s'))"
  shows "mc_blockID p \<noteq> mc_blockID q"
proof -
  let ?next = "s\<lparr>pz_msgSeq := Suc (pz_msgSeq s)\<rparr>"
  have s': "s' = fold (pi_step w) js ?next" using assms(2,3) by (simp add: handleEvent_def)
  have start: "pz_msgSeq (pi_start w sessionID window) = 0" "MessageChunk p \<notin> set (pz_events (pi_start w sessionID window))"
    by (auto simp: pi_start_def pi_emit_def pi_tick_def)
  from blocks_run [of "pi_start w sessionID window" w "is"] start assms(1,4)
  obtain k i where k: "mc_blockID p = pi_block (mc_turnID p) k i" "k \<le> pz_msgSeq s"
    by (fastforce simp: blocks_step_def list_all_iff)
  from blocks_run [of ?next w js] assms(5) s'
  obtain n j where n: "mc_blockID q = pi_block (mc_turnID q) n j" "Suc (pz_msgSeq s) \<le> n"
    by (fastforce simp: blocks_step_def list_all_iff)
  from k n show ?thesis by (metis not_less_eq_eq pi_block_inj)
qed

theorem pi_blocks_fresh_witness:
  "pi_block ''p1'' 1 0 \<noteq> pi_block ''p1'' 2 0
   \<and> list_ex (\<lambda>e. case e of MessageChunk p \<Rightarrow> mc_blockID p = pi_block ''p1'' 1 0 | _ \<Rightarrow> False)
       (pz_events (fold (pi_step sample_pi) (take 3 sample_pi_talk) (pi_start sample_pi ''x1'' 0)))"
proof -
  let ?then = "fold (pi_step sample_pi) (take 3 sample_pi_talk) (pi_start sample_pi ''x1'' 0)"
  let ?rest = "PiLine (MessageStart ''assistant'') # [PiLine (MessageUpdate ''text_delta'' 0 ''on'')]"
  let ?chunk = "\<lambda>n said. \<lparr>mc_turnID = ''p1'', mc_role = ''agent'', mc_kind = ''text'',
    mc_blockID = pi_block ''p1'' n 0, mc_delta = said, mc_parentToolCallID = []\<rparr>"
  have live: "\<not> pz_gone ?then" by code_simp
  have p: "MessageChunk (?chunk 1 ''hi'') \<in> set (pz_events ?then)" by code_simp
  have q: "MessageChunk (?chunk 2 ''on'') \<in> set (drop (length (pz_events ?then)) (pz_events (fold (pi_step sample_pi) ?rest ?then)))"
    by code_simp
  have "mc_blockID (?chunk 1 ''hi'') \<noteq> mc_blockID (?chunk 2 ''on'')"
    by (rule pi_blocks_fresh [OF refl live refl p q])
  moreover have "list_ex (\<lambda>e. case e of MessageChunk p \<Rightarrow> mc_blockID p = pi_block ''p1'' 1 0 | _ \<Rightarrow> False) (pz_events ?then)"
    by code_simp
  ultimately show ?thesis by simp
qed

section \<open>Usage\<close>

fun ended_usage :: "pi_input \<Rightarrow> pi_usage list" where
  "ended_usage (PiLine (MessageEnd m)) = (if ym_role m = ''assistant'' then [ym_usage m] else [])"
| "ended_usage i = []"

lemma totals_event:
  "pz_totals (handleEvent w l s) = foldl add_usage (pz_totals s) (ended_usage (PiLine l))"
  by (cases l) (simp_all add: handleEvent_def pi_ensureTurn_def handleMessageUpdate_def handleMessageEnd_def
      pi_tool_started_def pi_tool_ended_def pi_compacted_def finishTurn_def pi_tick_def Let_def case_prod_beta
      split: option.split)

text \<open>The running totals are the sum over the assistant's messages read so far.\<close>

lemma pi_usage_is_sum:
  assumes "PiGone \<notin> set is" and "\<not> pz_gone s"
  shows "pz_totals (fold (pi_step w) is s) = foldl add_usage (pz_totals s) (concat (map ended_usage is))"
  using assms
proof (induction "is" arbitrary: s)
  case (Cons i "is")
  have "pz_totals (pi_step w i s) = foldl add_usage (pz_totals s) (ended_usage i) \<and> \<not> pz_gone (pi_step w i s)"
  proof (cases "pi_request i")
    case True
    have "ended_usage i = []" using True by (cases i) simp_all
    moreover have "\<not> pz_gone (pi_step w i s)"
    proof (cases i)
      case (PiPrompt turn said images)
      obtain a d where sp: "SplitAttachments images = (a, d)" by force
      show ?thesis using Cons.prems
        by (cases "read_images w (pz_tick s) a")
          (simp_all add: PiPrompt pi_Prompt_def Let_def sp pi_tick_def pi_send_def clearTurn_def)
    qed (use Cons.prems True in \<open>auto simp: pi_prompt_answered_def clearTurn_def pi_SetModel_def pi_model_answered_def
        pi_cancel_def pi_send_def drainStderr_def Let_def split: option.split sum.split\<close>)
    ultimately show ?thesis using pi_requests [OF True] by simp
  next
    case False
    have gone: "pz_gone (handleEvent w l s) = pz_gone s" for l
      by (cases l) (simp_all add: handleEvent_def pi_ensureTurn_def handleMessageUpdate_def handleMessageEnd_def
          pi_tool_started_def pi_tool_ended_def pi_compacted_def finishTurn_def pi_tick_def Let_def case_prod_beta
          split: option.split)
    show ?thesis using False Cons.prems by (cases i) (simp_all add: totals_event gone)
  qed
  with Cons show ?case by simp
qed simp

end
