(* ===== verification/Stdio.thy ===== *)
theory Stdio
  imports Prelude
begin

text \<open>
  The connection the adapters speak over (internal/jsonrpc/stdio.go): JSON-RPC on a process's pipes.
  Calls wait for the response that carries their id; requests of the peer are served off the read
  loop; when the stream ends every call is failed.  What a caller relies on is the interface
  \<open>call_table\<close>.
\<close>

section \<open>Calls, as a caller sees them\<close>

text \<open>
  A provider of calls issues them under fresh numbers and lets each return once.  \<open>issued\<close> counts the
  calls so far, \<open>waiting\<close> lists those that have not returned, \<open>returned\<close> the others with their outcome.
\<close>

locale call_table =
  fixes step :: "'i \<Rightarrow> 's \<Rightarrow> 's"
    and issued :: "'s \<Rightarrow> nat"
    and waiting :: "'s \<Rightarrow> nat list"
    and returned :: "'s \<Rightarrow> (nat \<times> 'r) list"
    and good :: "'s \<Rightarrow> bool"
  assumes step_good: "good s \<Longrightarrow> good (step i s)"
    and step_calls: "good s \<Longrightarrow>
      issued (step i s) = Suc (issued s) \<and> waiting (step i s) = waiting s @ [Suc (issued s)] \<and> returned (step i s) = returned s
      \<or> issued (step i s) = issued s \<and> waiting (step i s) = waiting s \<and> returned (step i s) = returned s
      \<or> (\<exists>n r. n \<in> set (waiting s) \<and> issued (step i s) = issued s
           \<and> waiting (step i s) = removeAll n (waiting s) \<and> returned (step i s) = returned s @ [(n, r)])"
begin

text \<open>Every call issued is either waiting or has returned once.\<close>

definition accounted :: "'s \<Rightarrow> bool" where
  "accounted s \<longleftrightarrow> distinct (waiting s @ map fst (returned s))
     \<and> set (waiting s @ map fst (returned s)) = {1..issued s}"

lemma step_accounted:
  assumes "good s" and "accounted s"
  shows "accounted (step i s)"
  using step_calls [OF assms(1), of i]
proof (elim disjE exE conjE)
  assume new: "issued (step i s) = Suc (issued s)" "waiting (step i s) = waiting s @ [Suc (issued s)]"
    "returned (step i s) = returned s"
  have all: "set (waiting s) \<union> fst ` set (returned s) = {1..issued s}" using assms(2) by (simp add: accounted_def)
  have "Suc (issued s) \<notin> {1..issued s}" by simp
  then have "Suc (issued s) \<notin> set (waiting s)" "Suc (issued s) \<notin> fst ` set (returned s)"
    unfolding all [symmetric] by blast+
  moreover have "{1..Suc (issued s)} = insert (Suc (issued s)) {1..issued s}" by (simp add: atLeastAtMostSuc_conv)
  ultimately show ?thesis using assms(2) all by (simp add: accounted_def new)
next
  assume "issued (step i s) = issued s" "waiting (step i s) = waiting s" "returned (step i s) = returned s"
  then show ?thesis using assms(2) by (simp add: accounted_def)
next
  fix n r
  assume "n \<in> set (waiting s)" "issued (step i s) = issued s" "waiting (step i s) = removeAll n (waiting s)"
    "returned (step i s) = returned s @ [(n, r)]"
  then show ?thesis using assms(2) by (auto simp: accounted_def distinct_removeAll)
qed

lemma run_accounted: "good s \<Longrightarrow> accounted s \<Longrightarrow> accounted (fold step is s)"
  by (induction "is" arbitrary: s) (simp_all add: step_good step_accounted)

lemma run_good: "good s \<Longrightarrow> good (fold step is s)"
  by (induction "is" arbitrary: s) (simp_all add: step_good)

text \<open>What a call returned is never changed.\<close>

lemma run_returned: "good s \<Longrightarrow> \<exists>rs. returned (fold step is s) = returned s @ rs"
proof (induction "is" arbitrary: s)
  case (Cons i "is")
  then obtain rs where "returned (fold step is (step i s)) = returned (step i s) @ rs" using step_good by blast
  moreover obtain qs where "returned (step i s) = returned s @ qs" using step_calls [OF Cons.prems, of i] by auto
  ultimately show ?case by simp
qed simp

end

section \<open>The connection\<close>

record rpc_error =
  re_code :: int
  re_message :: string

record rpc_message =
  mg_id :: string
  mg_method :: string
  mg_params :: raw_message
  mg_result :: raw_message
  mg_error :: "rpc_error option"

datatype call_outcome =
    Responded rpc_message
  | ClosedEarly
  | CallTimedOut
  | NotSent string

text \<open>
  \<open>cn_pending\<close> has the calls whose channel is registered, \<open>cn_inbox\<close> what lies in the channels, of one
  place each; \<open>cn_inbound\<close> the requests of the peer being served, \<open>cn_notices\<close> the notifications read.
\<close>

record rpc_conn =
  cn_nextID :: nat
  cn_pending :: "nat list"
  cn_inbox :: "nat \<rightharpoonup> rpc_message"
  cn_waiting :: "nat list"
  cn_returned :: "(nat \<times> call_outcome) list"
  cn_inbound :: "rpc_message list"
  cn_notices :: "(string \<times> raw_message) list"
  cn_sent :: "rpc_message list"
  cn_ended :: bool
  cn_done :: bool

definition NewConn :: rpc_conn where
  "NewConn = \<lparr>cn_nextID = 0, cn_pending = [], cn_inbox = Map.empty, cn_waiting = [], cn_returned = [],
     cn_inbound = [], cn_notices = [], cn_sent = [], cn_ended = False, cn_done = False\<rparr>"

text \<open>A call's id on the wire, which is also the key of its channel.\<close>

definition call_key :: "nat \<Rightarrow> string" where
  "call_key n = format_int (int n)"

definition rpc_failure :: "string \<Rightarrow> int \<Rightarrow> string \<Rightarrow> rpc_message" where
  "rpc_failure i code m =
     \<lparr>mg_id = i, mg_method = [], mg_params = None, mg_result = None, mg_error = Some \<lparr>re_code = code, re_message = m\<rparr>\<rparr>"

text \<open>A message is put into a channel that has room, and dropped otherwise.\<close>

definition offer :: "nat \<Rightarrow> rpc_message \<Rightarrow> (nat \<rightharpoonup> rpc_message) \<Rightarrow> (nat \<rightharpoonup> rpc_message)" where
  "offer n m inbox = (if inbox n = None then inbox(n \<mapsto> m) else inbox)"

definition dispatch :: "rpc_message \<Rightarrow> rpc_conn \<Rightarrow> rpc_conn" where
  "dispatch m c =
     (if mg_method m \<noteq> [] \<and> mg_id m \<noteq> [] then c\<lparr>cn_inbound := cn_inbound c @ [m]\<rparr>
      else if mg_method m \<noteq> [] then c\<lparr>cn_notices := cn_notices c @ [(mg_method m, mg_params m)]\<rparr>
      else if mg_id m \<noteq> [] then
        (case List.find (\<lambda>n. call_key n = mg_id m) (cn_pending c) of
           None \<Rightarrow> c
         | Some n \<Rightarrow> c\<lparr>cn_pending := removeAll n (cn_pending c), cn_inbox := offer n m (cn_inbox c)\<rparr>)
      else c)"

text \<open>The end of \<open>readLoop\<close>: every registered call is failed, then \<open>done\<close> is closed.\<close>

definition fail_pending :: "rpc_conn \<Rightarrow> rpc_conn" where
  "fail_pending c =
     c\<lparr>cn_ended := True,
       cn_inbox := fold (\<lambda>n. offer n (rpc_failure [] (- 32000) ''connection closed'')) (cn_pending c) (cn_inbox c)\<rparr>"

text \<open>What is answered to a request of the peer; \<open>None\<close> is a connection without a handler.\<close>

definition serve_reply :: "string \<Rightarrow> (string + json) option \<Rightarrow> rpc_message" where
  "serve_reply i r =
     (case r of
        None \<Rightarrow> rpc_failure i (- 32601) ''method not found''
      | Some (Inl e) \<Rightarrow> rpc_failure i (- 32000) e
      | Some (Inr j) \<Rightarrow> \<lparr>mg_id = i, mg_method = [], mg_params = None, mg_result = Some j, mg_error = None\<rparr>)"

definition served :: "rpc_message \<Rightarrow> (string + json) option \<Rightarrow> rpc_conn \<Rightarrow> rpc_conn" where
  "served m r c =
     (if m \<in> set (cn_inbound c)
      then c\<lparr>cn_inbound := remove1 m (cn_inbound c), cn_sent := cn_sent c @ [serve_reply (mg_id m) r]\<rparr> else c)"

definition Notify_rpc :: "string \<Rightarrow> raw_message \<Rightarrow> rpc_conn \<Rightarrow> rpc_conn" where
  "Notify_rpc method params c =
     c\<lparr>cn_sent := cn_sent c @ [\<lparr>mg_id = [], mg_method = method, mg_params = params, mg_result = None, mg_error = None\<rparr>]\<rparr>"

text \<open>\<open>Call\<close> up to its wait: the id is taken, the channel registered, the request written.\<close>

definition call_begun :: "string \<Rightarrow> raw_message \<Rightarrow> rpc_conn \<Rightarrow> rpc_conn" where
  "call_begun method params c =
     (let n = Suc (cn_nextID c)
      in c\<lparr>cn_nextID := n, cn_pending := cn_pending c @ [n], cn_waiting := cn_waiting c @ [n],
           cn_sent := cn_sent c @ [\<lparr>mg_id = call_key n, mg_method = method, mg_params = params, mg_result = None,
                                    mg_error = None\<rparr>]\<rparr>)"

text \<open>Why a waiting call may return: its context, the end of the connection, its channel, a failed write.\<close>

datatype call_reason =
    ByContext
  | ByDone
  | ByResponse
  | ByWrite string

definition outcome_of :: "call_reason \<Rightarrow> nat \<Rightarrow> rpc_conn \<Rightarrow> call_outcome option" where
  "outcome_of why n c =
     (case why of
        ByContext \<Rightarrow> Some CallTimedOut
      | ByDone \<Rightarrow> if cn_done c then Some ClosedEarly else None
      | ByResponse \<Rightarrow> map_option Responded (cn_inbox c n)
      | ByWrite e \<Rightarrow> Some (NotSent e))"

definition call_ended :: "nat \<Rightarrow> call_reason \<Rightarrow> rpc_conn \<Rightarrow> rpc_conn" where
  "call_ended n why c =
     (if \<not> List.member (cn_waiting c) n then c
      else case outcome_of why n c of
             None \<Rightarrow> c
           | Some r \<Rightarrow> c\<lparr>cn_waiting := removeAll n (cn_waiting c), cn_pending := removeAll n (cn_pending c),
                          cn_returned := cn_returned c @ [(n, r)]\<rparr>)"

datatype rpc_input =
    LineRead rpc_message
  | StreamEnded
  | DoneClosed
  | Served rpc_message "(string + json) option"
  | Notified string raw_message
  | CallBegun string raw_message
  | CallEnded nat call_reason

text \<open>The read loop takes nothing once the stream has ended.\<close>

fun rpc_step :: "rpc_input \<Rightarrow> rpc_conn \<Rightarrow> rpc_conn" where
  "rpc_step (LineRead m) c = (if cn_ended c then c else dispatch m c)"
| "rpc_step StreamEnded c = (if cn_ended c then c else fail_pending c)"
| "rpc_step DoneClosed c = (if cn_ended c then c\<lparr>cn_done := True\<rparr> else c)"
| "rpc_step (Served m r) c = served m r c"
| "rpc_step (Notified method params) c = Notify_rpc method params c"
| "rpc_step (CallBegun method params) c = call_begun method params c"
| "rpc_step (CallEnded n why) c = call_ended n why c"

section \<open>The connection is a table of calls\<close>

lemma call_key_inj: "call_key m = call_key n \<Longrightarrow> m = n"
  by (auto simp: call_key_def dest: format_int_inj)

interpretation conn: call_table rpc_step cn_nextID cn_waiting cn_returned "\<lambda>c. True"
proof
  fix c i
  show "cn_nextID (rpc_step i c) = Suc (cn_nextID c) \<and> cn_waiting (rpc_step i c) = cn_waiting c @ [Suc (cn_nextID c)]
      \<and> cn_returned (rpc_step i c) = cn_returned c
    \<or> cn_nextID (rpc_step i c) = cn_nextID c \<and> cn_waiting (rpc_step i c) = cn_waiting c
      \<and> cn_returned (rpc_step i c) = cn_returned c
    \<or> (\<exists>n r. n \<in> set (cn_waiting c) \<and> cn_nextID (rpc_step i c) = cn_nextID c
        \<and> cn_waiting (rpc_step i c) = removeAll n (cn_waiting c) \<and> cn_returned (rpc_step i c) = cn_returned c @ [(n, r)])"
  proof (cases i)
    case (LineRead m)
    then show ?thesis by (auto simp: dispatch_def split: option.split)
  next
    case (CallEnded n why)
    then show ?thesis by (cases "outcome_of why n c") (auto simp: call_ended_def)
  qed (simp_all add: fail_pending_def served_def Notify_rpc_def call_begun_def Let_def)
qed simp

text \<open>
  What lies in a channel was read under the call's own id, or is the failure at the end of the
  stream; and so is what a call returns.
\<close>

definition own_response :: "rpc_message set \<Rightarrow> bool \<Rightarrow> nat \<Rightarrow> rpc_message \<Rightarrow> bool" where
  "own_response ms ended n m \<longleftrightarrow>
     m \<in> ms \<and> mg_id m = call_key n \<and> mg_method m = [] \<or> ended \<and> m = rpc_failure [] (- 32000) ''connection closed''"

definition responses_own :: "rpc_message set \<Rightarrow> rpc_conn \<Rightarrow> bool" where
  "responses_own ms c \<longleftrightarrow>
     (\<forall>n m. cn_inbox c n = Some m \<longrightarrow> own_response ms (cn_ended c) n m)
     \<and> (\<forall>n m. (n, Responded m) \<in> set (cn_returned c) \<longrightarrow> own_response ms (cn_ended c) n m)"

lemma offer_SomeD: "offer n m inbox k = Some x \<Longrightarrow> inbox k = Some x \<or> k = n \<and> x = m"
  by (auto simp: offer_def split: if_splits)

lemma offers_SomeD: "fold (\<lambda>n. offer n m) ns inbox k = Some x \<Longrightarrow> inbox k = Some x \<or> x = m"
  by (induction ns arbitrary: inbox) (fastforce dest: offer_SomeD)+

text \<open>The lines a run reads.\<close>

fun line_read :: "rpc_input \<Rightarrow> rpc_message list" where
  "line_read (LineRead m) = [m]"
| "line_read i = []"

lemma own_mono: "own_response ms e n m \<Longrightarrow> ms \<subseteq> ms' \<Longrightarrow> (e \<longrightarrow> e') \<Longrightarrow> own_response ms' e' n m"
  by (auto simp: own_response_def)

lemma responses_mono: "responses_own ms c \<Longrightarrow> ms \<subseteq> ms' \<Longrightarrow> responses_own ms' c"
  unfolding responses_own_def by (meson own_mono)

lemma own_dispatch:
  assumes "responses_own ms c"
  shows "responses_own (insert m ms) (dispatch m c)"
proof -
  have old: "responses_own (insert m ms) c" by (rule responses_mono [OF assms]) blast
  show ?thesis
  proof (cases "mg_method m = [] \<and> mg_id m \<noteq> []")
    case True
    show ?thesis
    proof (cases "List.find (\<lambda>n. call_key n = mg_id m) (cn_pending c)")
      case (Some n)
      then have key: "call_key n = mg_id m" by (auto simp: find_Some_iff)
      have d: "dispatch m c = c\<lparr>cn_pending := removeAll n (cn_pending c), cn_inbox := offer n m (cn_inbox c)\<rparr>"
        using True Some by (simp add: dispatch_def)
      have "own_response (insert m ms) (cn_ended c) n m" using True key by (simp add: own_response_def)
      with old show ?thesis by (auto simp: d responses_own_def dest!: offer_SomeD)
    qed (use True old in \<open>simp add: dispatch_def\<close>)
  qed (use old in \<open>auto simp: dispatch_def responses_own_def\<close>)
qed

lemma own_fail:
  assumes "responses_own ms c"
  shows "responses_own ms (fail_pending c)"
proof -
  have "own_response ms True n m" if "own_response ms (cn_ended c) n m" for n m using that by (auto simp: own_response_def)
  moreover have "own_response ms True n (rpc_failure [] (- 32000) ''connection closed'')" for n by (simp add: own_response_def)
  ultimately show ?thesis using assms by (auto simp: fail_pending_def responses_own_def dest!: offers_SomeD)
qed

lemma own_ended:
  assumes "responses_own ms c"
  shows "responses_own ms (call_ended n why c)"
  using assms by (cases why) (auto simp: call_ended_def outcome_of_def responses_own_def split: option.split)

lemma own_step:
  assumes "responses_own ms c"
  shows "responses_own (ms \<union> set (line_read i)) (rpc_step i c)"
proof (cases i)
  case (LineRead m)
  have "responses_own (insert m ms) c" by (rule responses_mono [OF assms]) blast
  then show ?thesis using own_dispatch [OF assms, of m] by (simp add: LineRead)
qed (use assms own_fail [OF assms] own_ended [OF assms] in \<open>auto simp: responses_own_def served_def Notify_rpc_def
       call_begun_def Let_def\<close>)

lemma own_run: "responses_own ms c \<Longrightarrow> responses_own (ms \<union> set (concat (map line_read is))) (fold rpc_step is c)"
proof (induction "is" arbitrary: c ms)
  case (Cons i "is")
  from Cons.IH [OF own_step [OF Cons.prems, of i]] show ?case by (simp add: Un_assoc)
qed simp

text \<open>
  C14: every call a connection is asked for is either waiting or has returned exactly once; a call
  that returned a response got one that was read under its own id, or the failure of a stream
  that had ended; and no call has to wait once the connection is done.
\<close>

theorem calls_answered_once:
  assumes "c = fold rpc_step is NewConn"
  shows "distinct (cn_waiting c @ map fst (cn_returned c))
    \<and> set (cn_waiting c @ map fst (cn_returned c)) = {1..cn_nextID c}
    \<and> (\<forall>n m. (n, Responded m) \<in> set (cn_returned c) \<longrightarrow>
         own_response (set (concat (map line_read is))) (cn_ended c) n m)
    \<and> (\<forall>n. cn_done c \<and> n \<in> set (cn_waiting c) \<longrightarrow> (n, ClosedEarly) \<in> set (cn_returned (rpc_step (CallEnded n ByDone) c)))"
proof -
  have start: "conn.accounted NewConn" "responses_own {} NewConn"
    by (simp_all add: conn.accounted_def responses_own_def NewConn_def)
  have "conn.accounted c" using conn.run_accounted [OF TrueI start(1)] by (simp add: assms)
  moreover have "responses_own (set (concat (map line_read is))) c" using own_run [OF start(2), of "is"] by (simp add: assms)
  moreover have "(n, ClosedEarly) \<in> set (cn_returned (rpc_step (CallEnded n ByDone) c))"
    if "cn_done c" and "n \<in> set (cn_waiting c)" for n
    using that by (simp add: call_ended_def outcome_of_def)
  ultimately show ?thesis unfolding conn.accounted_def responses_own_def by blast
qed

definition sample_rpc :: "rpc_input list" where
  "sample_rpc =
     [CallBegun ''a'' None, CallBegun ''b'' None, LineRead (serve_reply ''2'' (Some (Inr (JBool True)))),
      CallEnded 2 ByResponse, StreamEnded, DoneClosed]"

theorem calls_answered_once_witness:
  "(1, ClosedEarly) \<in> set (cn_returned (rpc_step (CallEnded 1 ByDone) (fold rpc_step sample_rpc NewConn)))
   \<and> map fst (cn_returned (fold rpc_step sample_rpc NewConn)) = [2]"
proof -
  have "cn_done (fold rpc_step sample_rpc NewConn)" "1 \<in> set (cn_waiting (fold rpc_step sample_rpc NewConn))"
      "map fst (cn_returned (fold rpc_step sample_rpc NewConn)) = [2]"
    by code_simp+
  with calls_answered_once [OF refl, of sample_rpc] show ?thesis by blast
qed

text \<open>A response nobody waits for, or a second one, changes nothing a caller could see.\<close>

lemma late_response_dropped:
  assumes "mg_method m = []" and "\<forall>n\<in>set (cn_pending c). call_key n \<noteq> mg_id m"
  shows "rpc_step (LineRead m) c = c"
proof -
  have "List.find (\<lambda>n. call_key n = mg_id m) (cn_pending c) = None" using assms(2) by (simp add: find_None_iff)
  then show ?thesis using assms(1) by (simp add: dispatch_def)
qed

end
